(* ===== verification/BpPrelude.thy ===== *)
theory BpPrelude
  imports Main
begin

section \<open>Prelude: results, exceptions, Python strings\<close>

text \<open>
  What every component of the development shares:
  \<^item> \<open>exn\<close>, the Python exceptions the modelled code raises, and the results
    \<open>exn + 'a\<close> (\<open>Inl\<close> an exception that leaves the function, \<open>Inr\<close> its value) with
    their sequencing \<open>rbind\<close>, which the function package understands;
  \<^item> Python strings as \<open>string\<close>. A \<open>char\<close> stands for one code point below 256, so the
    classification predicates below are those of \<open>str.isalpha\<close>, \<open>str.isdigit\<close> and
    \<open>str.isalnum\<close> on the Latin-1 code points, not on ASCII only;
  \<^item> the collections \<open>result_simps\<close> and \<open>consume\<close> that the component proofs use.
\<close>

named_theorems result_simps \<open>inversion of sequenced results\<close>
named_theorems consume \<open>what an operation leaves of its input\<close>

subsection \<open>Exceptions\<close>

text \<open>
  One constructor per exception class of the modelled code. The payload keeps what the
  message is formatted from (file, position, offending value), not the formatted text.
  \<open>IllTyped\<close> is no Python exception: it marks the border of the model, a property whose
  value does not have the type that the field annotations of \<open>model.py\<close> declare.
\<close>

datatype lex_msg = UnterminatedComment | UnterminatedString | UnexpectedCharacter char

datatype exn =
    LexError string nat nat lex_msg
  | ParseError string nat nat string string string
  | EvalError string string
  | ValueError string
  | TypeError string
  | IndexError
  | KeyError string
  | RecursionError
  | TargetError string string
  | AssertionError string
  | CodegenError string string
  | StaleOutput string string
  | OSError string string
  | RaisedError string string
  | IllTyped string

fun is_eval_error :: "exn \<Rightarrow> bool" where
  "is_eval_error (EvalError _ _) = True"
| "is_eval_error _ = False"

subsection \<open>Sequencing results\<close>

fun rbind :: "'e + 'a \<Rightarrow> ('a \<Rightarrow> 'e + 'b) \<Rightarrow> 'e + 'b" where
  "rbind (Inl e) f = Inl e"
| "rbind (Inr x) f = f x"

lemma rbind_cong [fundef_cong]:
  assumes "m = m'" and "\<And>x. m' = Inr x \<Longrightarrow> f x = g x"
  shows "rbind m f = rbind m' g"
  using assms by (cases m') auto

lemma rbind_Inr_iff [result_simps]: "rbind m f = Inr y \<longleftrightarrow> (\<exists>x. m = Inr x \<and> f x = Inr y)"
  by (cases m) auto

lemma rbind_Inl_iff [result_simps]:
  "rbind m f = Inl e \<longleftrightarrow> m = Inl e \<or> (\<exists>x. m = Inr x \<and> f x = Inl e)"
  by (cases m) auto

lemma rbind_assoc: "rbind (rbind m f) g = rbind m (\<lambda>x. rbind (f x) g)"
  by (cases m) auto

text \<open>A list comprehension whose element expression may raise: first exception wins.\<close>

fun map_r :: "('a \<Rightarrow> 'e + 'b) \<Rightarrow> 'a list \<Rightarrow> 'e + 'b list" where
  "map_r f [] = Inr []"
| "map_r f (x # xs) = rbind (f x) (\<lambda>y. rbind (map_r f xs) (\<lambda>ys. Inr (y # ys)))"

lemma map_r_cong [fundef_cong]:
  assumes "xs = ys" and "\<And>x. x \<in> set ys \<Longrightarrow> f x = g x"
  shows "map_r f xs = map_r g ys"
  using assms(2) unfolding assms(1) by (induction ys) (auto intro!: rbind_cong)

lemma map_r_Inr_iff: "map_r f xs = Inr ys \<longleftrightarrow> list_all2 (\<lambda>x y. f x = Inr y) xs ys"
proof (induction xs arbitrary: ys)
  case Nil
  then show ?case by auto
next
  case (Cons x xs)
  then show ?case by (cases ys) (auto simp: result_simps)
qed

lemma map_r_total:
  assumes "\<And>x. x \<in> set xs \<Longrightarrow> f x = Inr (g x)"
  shows "map_r f xs = Inr (map g xs)"
  using assms by (induction xs) auto

text \<open>A \<open>for\<close> loop that updates a state and may raise: the state is lost with the exception.\<close>

fun fold_r :: "('a \<Rightarrow> 's \<Rightarrow> 'e + 's) \<Rightarrow> 'a list \<Rightarrow> 's \<Rightarrow> 'e + 's" where
  "fold_r f [] s = Inr s"
| "fold_r f (x # xs) s = rbind (f x s) (fold_r f xs)"

lemma fold_r_cong [fundef_cong]:
  assumes "xs = ys" and "s = t" and "\<And>x u. x \<in> set ys \<Longrightarrow> f x u = g x u"
  shows "fold_r f xs s = fold_r g ys t"
  using assms(3) unfolding assms(1,2)
proof (induction ys arbitrary: t)
  case Nil
  then show ?case by simp
next
  case (Cons y ys)
  then have "f y t = g y t" by simp
  with Cons show ?case by (cases "g y t") auto
qed

lemma fold_r_append: "fold_r f (xs @ ys) s = rbind (fold_r f xs s) (fold_r f ys)"
  by (induction xs arbitrary: s) (auto simp: rbind_assoc intro!: rbind_cong)

lemma fold_r_invariant:
  assumes "fold_r f xs s = Inr t" and "P s"
    and "\<And>x u v. x \<in> set xs \<Longrightarrow> P u \<Longrightarrow> f x u = Inr v \<Longrightarrow> P v"
  shows "P t"
  using assms
proof (induction xs arbitrary: s)
  case Nil
  then show ?case by simp
next
  case (Cons x xs)
  then obtain u where u: "f x s = Inr u" and rest: "fold_r f xs u = Inr t"
    by (auto simp: result_simps)
  have "P u" using Cons.prems(2,3) u by (metis list.set_intros(1))
  with rest Cons.prems(3) show ?case by (intro Cons.IH [of u]) auto
qed

subsection \<open>Code points\<close>

definition code_point :: "char \<Rightarrow> nat" where
  "code_point c = of_char c"

definition newline :: char where
  "newline = CHR 0x0A"

definition in_ranges :: "(nat \<times> nat) list \<Rightarrow> nat \<Rightarrow> bool" where
  "in_ranges rs n = list_ex (\<lambda>(lo, hi). lo \<le> n \<and> n \<le> hi) rs"

text \<open>\<open>str.isalpha\<close>, \<open>str.isdigit\<close>, \<open>str.isalnum\<close> on the code points below 256.\<close>

definition is_alpha :: "char \<Rightarrow> bool" where
  "is_alpha c = in_ranges [(65, 90), (97, 122), (170, 170), (181, 181), (186, 186),
     (192, 214), (216, 246), (248, 255)] (code_point c)"

definition is_digit :: "char \<Rightarrow> bool" where
  "is_digit c = in_ranges [(48, 57), (178, 179), (185, 185)] (code_point c)"

definition is_alnum :: "char \<Rightarrow> bool" where
  "is_alnum c = (is_alpha c \<or> is_digit c \<or> in_ranges [(188, 190)] (code_point c))"

text \<open>\<open>str.isdecimal\<close>: the digits that \<open>int()\<close> accepts.\<close>

definition is_decimal :: "char \<Rightarrow> bool" where
  "is_decimal c = (48 \<le> code_point c \<and> code_point c \<le> 57)"

lemma is_decimal_is_digit: "is_decimal c \<Longrightarrow> is_digit c"
  by (auto simp: is_decimal_def is_digit_def in_ranges_def)

lemma is_alpha_is_alnum: "is_alpha c \<Longrightarrow> is_alnum c"
  by (simp add: is_alnum_def)

lemma is_digit_is_alnum: "is_digit c \<Longrightarrow> is_alnum c"
  by (simp add: is_alnum_def)

lemma is_alpha_not_digit: "is_alpha c \<Longrightarrow> \<not> is_digit c"
  unfolding is_alpha_def is_digit_def in_ranges_def
  by (simp, elim disjE, simp_all)

subsection \<open>Lists\<close>

lemma takeWhile_append_stop:
  "(\<And>x. x \<in> set xs \<Longrightarrow> P x) \<Longrightarrow> ys = [] \<or> \<not> P (hd ys) \<Longrightarrow> takeWhile P (xs @ ys) = xs"
  by (cases ys) (auto simp: takeWhile_append)

lemma length_takeWhile_pos: "xs \<noteq> [] \<Longrightarrow> P (hd xs) \<Longrightarrow> 0 < length (takeWhile P xs)"
  by (cases xs) auto

lemma in_map_filter: "y \<in> set (List.map_filter f xs) \<longleftrightarrow> (\<exists>x \<in> set xs. f x = Some y)"
  by (induction xs) (auto simp: map_filter_simps split: option.splits)

subsection \<open>Numbers as strings\<close>

text \<open>\<open>str(i)\<close> on integers.\<close>

function nat_str :: "nat \<Rightarrow> string" where
  "nat_str n = (if n < 10 then [char_of (48 + n)]
     else nat_str (n div 10) @ [char_of (48 + n mod 10)])"
  by pat_completeness auto
termination by (relation "measure id") auto

declare nat_str.simps [simp del]

definition int_str :: "int \<Rightarrow> string" where
  "int_str i = (if i < 0 then CHR ''-'' # nat_str (nat (- i)) else nat_str (nat i))"

end
