(* ===== verification/BpLexer.thy ===== *)
theory BpLexer
  imports BpPrelude
begin

section \<open>The Blueprint tokenizer\<close>

text \<open>
  \<open>tools/bp2cmake/bp2cmake/lexer.py\<close>. The scanner's local variables \<open>i\<close>, \<open>line\<close> and
  \<open>col\<close> are the record \<open>cursor\<close>, with the unread suffix \<open>text[i:]\<close> in place of the
  index; \<open>lex_step\<close> is one iteration of the outer loop and \<open>tokenize\<close> iterates it.
\<close>

subsection \<open>Tokens\<close>

datatype token_kind =
    IDENT | STRING | NUMBER | LBRACE | RBRACE | LBRACK | RBRACK | LPAREN | RPAREN
  | COLON | COMMA | PLUS | EQUALS | PLUSEQ | AT | EOF

fun kind_name :: "token_kind \<Rightarrow> string" where
  "kind_name IDENT = ''IDENT''"
| "kind_name STRING = ''STRING''"
| "kind_name NUMBER = ''NUMBER''"
| "kind_name LBRACE = ''LBRACE''"
| "kind_name RBRACE = ''RBRACE''"
| "kind_name LBRACK = ''LBRACK''"
| "kind_name RBRACK = ''RBRACK''"
| "kind_name LPAREN = ''LPAREN''"
| "kind_name RPAREN = ''RPAREN''"
| "kind_name COLON = ''COLON''"
| "kind_name COMMA = ''COMMA''"
| "kind_name PLUS = ''PLUS''"
| "kind_name EQUALS = ''EQUALS''"
| "kind_name PLUSEQ = ''PLUSEQ''"
| "kind_name AT = ''AT''"
| "kind_name EOF = ''EOF''"

record token =
  tok_kind :: token_kind
  tok_value :: string
  tok_line :: nat
  tok_col :: nat

text \<open>\<open>_PUNCT\<close>: the one-character tokens.\<close>

definition punct :: "char \<Rightarrow> token_kind option" where
  "punct c = map_of
     [(CHR ''{'', LBRACE), (CHR ''}'', RBRACE), (CHR ''['', LBRACK), (CHR '']'', RBRACK),
      (CHR ''('', LPAREN), (CHR '')'', RPAREN), (CHR '':'', COLON), (CHR '','', COMMA),
      (CHR ''+'', PLUS), (CHR ''='', EQUALS), (CHR 0x40, AT)] c"

definition is_ident_start :: "char \<Rightarrow> bool" where
  "is_ident_start c = (is_alpha c \<or> c = CHR ''_'')"

definition is_ident_part :: "char \<Rightarrow> bool" where
  "is_ident_part c = (is_alnum c \<or> c \<in> {CHR ''_'', CHR ''.'', CHR ''-''})"

definition is_space :: "char \<Rightarrow> bool" where
  "is_space c = (c \<in> {CHR '' '', CHR 0x09, CHR 0x0D, newline})"

subsection \<open>The cursor\<close>

record cursor =
  cur_text :: string
  cur_line :: nat
  cur_col :: nat

text \<open>One turn of the loop of \<open>adv\<close>; past the end only the column moves.\<close>

fun adv1 :: "cursor \<Rightarrow> cursor" where
  "adv1 c =
     (case cur_text c of
        [] \<Rightarrow> c\<lparr>cur_col := cur_col c + 1\<rparr>
      | x # r \<Rightarrow>
          if x = newline then c\<lparr>cur_text := r, cur_line := cur_line c + 1, cur_col := 1\<rparr>
          else c\<lparr>cur_text := r, cur_col := cur_col c + 1\<rparr>)"

primrec adv :: "nat \<Rightarrow> cursor \<Rightarrow> cursor" where
  "adv 0 c = c"
| "adv (Suc n) c = adv n (adv1 c)"

definition start_cursor :: "string \<Rightarrow> cursor" where
  "start_cursor text = \<lparr>cur_text = text, cur_line = 1, cur_col = 1\<rparr>"

definition mk_token :: "token_kind \<Rightarrow> string \<Rightarrow> cursor \<Rightarrow> token" where
  "mk_token k v c = \<lparr>tok_kind = k, tok_value = v, tok_line = cur_line c, tok_col = cur_col c\<rparr>"

lemma cur_text_adv1 [simp]: "cur_text (adv1 c) = tl (cur_text c)"
  by (auto split: list.splits)

lemma cur_text_adv [simp]: "cur_text (adv n c) = drop n (cur_text c)"
  by (induction n arbitrary: c) (auto simp: drop_Suc simp del: adv1.simps)

declare adv1.simps [simp del]

text \<open>\<open>while i < n and P: adv()\<close>, for the two comment loops.\<close>

function while_adv :: "(string \<Rightarrow> bool) \<Rightarrow> cursor \<Rightarrow> cursor" where
  "while_adv P c =
     (if cur_text c \<noteq> [] \<and> P (cur_text c) then while_adv P (adv1 c) else c)"
  by pat_completeness auto
termination
  by (relation "measure (\<lambda>(P, c). length (cur_text c))") auto

declare while_adv.simps [simp del]

lemma length_while_adv: "length (cur_text (while_adv P c)) \<le> length (cur_text c)"
proof (induction P c rule: while_adv.induct)
  case (1 P c)
  show ?case
  proof (cases "cur_text c \<noteq> [] \<and> P (cur_text c)")
    case True
    with 1 have "length (cur_text (while_adv P (adv1 c))) \<le> length (cur_text (adv1 c))" by simp
    with True show ?thesis by (subst while_adv.simps) simp
  next
    case False
    then show ?thesis by (subst while_adv.simps) auto
  qed
qed

text \<open>\<open>text[i]\<close> and \<open>text[i + 1]\<close> under their bounds checks.\<close>

definition second_is :: "char \<Rightarrow> string \<Rightarrow> bool" where
  "second_is d s = (case s of x # y # r \<Rightarrow> y = d | _ \<Rightarrow> False)"

definition in_line_comment :: "string \<Rightarrow> bool" where
  "in_line_comment s = (hd s \<noteq> newline)"

definition in_block_comment :: "string \<Rightarrow> bool" where
  "in_block_comment s = (\<not> (hd s = CHR ''*'' \<and> second_is (CHR ''/'') s))"

subsection \<open>String literals\<close>

text \<open>The escapes \<open>mapping.get(nxt, nxt)\<close> resolves.\<close>

definition unescape :: "char \<Rightarrow> char" where
  "unescape c =
     (if c = CHR ''n'' then newline else if c = CHR ''t'' then CHR 0x09 else c)"

text \<open>The loop that fills \<open>buf\<close>: its contents and the cursor at the closing quote or the end.\<close>

function lex_string :: "cursor \<Rightarrow> string \<times> cursor" where
  "lex_string c =
     (case cur_text c of
        [] \<Rightarrow> ([], c)
      | x # r \<Rightarrow>
          if x = CHR 0x22 then ([], c)
          else if x = CHR 0x5C \<and> r \<noteq> [] then
            (case lex_string (adv 2 c) of (buf, c') \<Rightarrow> (unescape (hd r) # buf, c'))
          else (case lex_string (adv1 c) of (buf, c') \<Rightarrow> (x # buf, c')))"
  by pat_completeness auto
termination
  by (relation "measure (\<lambda>c. length (cur_text c))") auto

declare lex_string.simps [simp del]

lemma length_lex_string: "length (cur_text (snd (lex_string c))) \<le> length (cur_text c)"
proof (induction c rule: lex_string.induct)
  case (1 c)
  show ?case
  proof (cases "cur_text c")
    case Nil
    then show ?thesis by (simp add: lex_string.simps [of c])
  next
    case (Cons x r)
    show ?thesis
      using 1 Cons by (fastforce simp: lex_string.simps [of c] split: prod.splits)
  qed
qed

subsection \<open>One iteration of the scanner\<close>

text \<open>
  \<open>lex_step fn c\<close> looks at a non-empty text and returns the token appended, if any, and
  the next cursor. The branches and their order are those of the \<open>while\<close> loop.
\<close>

definition lex_step :: "string \<Rightarrow> cursor \<Rightarrow> exn + token list \<times> cursor" where
  "lex_step fn c =
     (let s = cur_text c; ch = hd s in
      if is_space ch then Inr ([], adv1 c)
      else if ch = CHR ''/'' \<and> second_is (CHR ''/'') s then
        Inr ([], while_adv in_line_comment c)
      else if ch = CHR ''/'' \<and> second_is (CHR ''*'') s then
        (let c' = while_adv in_block_comment (adv 2 c) in
         if cur_text c' = [] then
           Inl (LexError fn (cur_line c) (cur_col c) UnterminatedComment)
         else Inr ([], adv 2 c'))
      else if ch = CHR 0x22 then
        (case lex_string (adv1 c) of (buf, c') \<Rightarrow>
           if cur_text c' = [] then
             Inl (LexError fn (cur_line c) (cur_col c) UnterminatedString)
           else Inr ([mk_token STRING buf c], adv1 c'))
      else if ch = CHR ''+'' \<and> second_is (CHR ''='') s then
        Inr ([mk_token PLUSEQ ''+='' c], adv 2 c)
      else case punct ch of
        Some k \<Rightarrow> Inr ([mk_token k [ch] c], adv1 c)
      | None \<Rightarrow>
          if is_digit ch \<or> (ch = CHR ''-'' \<and> tl s \<noteq> [] \<and> is_digit (hd (tl s))) then
            (let v = ch # takeWhile is_digit (tl s) in
             Inr ([mk_token NUMBER v c], adv (length v) c))
          else if is_ident_start ch then
            (let v = takeWhile is_ident_part s in
             Inr ([mk_token IDENT v c], adv (length v) c))
          else Inl (LexError fn (cur_line c) (cur_col c) (UnexpectedCharacter ch)))"

lemma while_adv_stops:
  "cur_text (while_adv P c) = [] \<or> \<not> P (cur_text (while_adv P c))"
proof (induction P c rule: while_adv.induct)
  case (1 P c)
  then show ?case by (cases "cur_text c \<noteq> [] \<and> P (cur_text c)") (auto simp: while_adv.simps [of P c])
qed

lemma while_adv_once:
  "cur_text c \<noteq> [] \<Longrightarrow> P (cur_text c) \<Longrightarrow>
   length (cur_text (while_adv P c)) < length (cur_text c)"
proof -
  assume ne: "cur_text c \<noteq> []" and P: "P (cur_text c)"
  have "length (cur_text (while_adv P (adv1 c))) \<le> length (cur_text (adv1 c))"
    by (rule length_while_adv)
  also have "\<dots> < length (cur_text c)" using ne by simp
  finally show ?thesis using ne P by (subst while_adv.simps) simp
qed

text \<open>Which branch an iteration that does not raise took: the inversion of \<open>lex_step\<close>.\<close>

lemma lex_step_cases:
  assumes "lex_step fn c = Inr (ts, c')"
  obtains
    (space) "is_space (hd (cur_text c))" "ts = []" "c' = adv1 c"
  | (line) "hd (cur_text c) = CHR ''/''" "second_is (CHR ''/'') (cur_text c)" "ts = []"
      "c' = while_adv in_line_comment c"
  | (block) d where "second_is (CHR ''*'') (cur_text c)" "ts = []"
      "d = while_adv in_block_comment (adv 2 c)" "cur_text d \<noteq> []" "c' = adv 2 d"
  | (string) buf d where "hd (cur_text c) = CHR 0x22" "lex_string (adv1 c) = (buf, d)"
      "cur_text d \<noteq> []" "ts = [mk_token STRING buf c]" "c' = adv1 d"
  | (pluseq) "hd (cur_text c) = CHR ''+''" "second_is (CHR ''='') (cur_text c)"
      "ts = [mk_token PLUSEQ ''+='' c]" "c' = adv 2 c"
  | (punct) k where "punct (hd (cur_text c)) = Some k"
      "ts = [mk_token k [hd (cur_text c)] c]" "c' = adv1 c"
  | (number) v where "v = hd (cur_text c) # takeWhile is_digit (tl (cur_text c))"
      "is_digit (hd (cur_text c)) \<or>
       hd (cur_text c) = CHR ''-'' \<and> tl (cur_text c) \<noteq> [] \<and> is_digit (hd (tl (cur_text c)))"
      "ts = [mk_token NUMBER v c]" "c' = adv (length v) c"
  | (ident) v where "is_ident_start (hd (cur_text c))" "v = takeWhile is_ident_part (cur_text c)"
      "ts = [mk_token IDENT v c]" "c' = adv (length v) c"
proof -
  let ?s = "cur_text c" and ?x = "hd (cur_text c)"
  note step = assms [unfolded lex_step_def Let_def]
  consider (1) "is_space ?x"
    | (2) "\<not> is_space ?x" "?x = CHR ''/'' \<and> second_is (CHR ''/'') ?s"
    | (3) "\<not> is_space ?x" "\<not> (?x = CHR ''/'' \<and> second_is (CHR ''/'') ?s)"
        "?x = CHR ''/'' \<and> second_is (CHR ''*'') ?s"
    | (4) "\<not> is_space ?x" "?x = CHR 0x22"
    | (5) "\<not> is_space ?x" "?x = CHR ''+'' \<and> second_is (CHR ''='') ?s"
    | (6) "\<not> is_space ?x" "\<not> (?x = CHR ''/'' \<and> second_is (CHR ''/'') ?s)"
        "\<not> (?x = CHR ''/'' \<and> second_is (CHR ''*'') ?s)" "?x \<noteq> CHR 0x22"
        "\<not> (?x = CHR ''+'' \<and> second_is (CHR ''='') ?s)"
    by argo
  then show ?thesis
  proof cases
    case 1
    with step show ?thesis by (simp add: space)
  next
    case 2
    with step show ?thesis by (simp add: line)
  next
    case 3
    with step show ?thesis by (simp add: block split: if_split_asm)
  next
    case 4
    with step show ?thesis
      by (cases "lex_string (adv1 c)") (simp add: string split: if_split_asm)
  next
    case 5
    with step show ?thesis by (simp add: pluseq)
  next
    case 6
    note step' = step [simplified 6 if_False]
    show ?thesis
    proof (cases "punct ?x")
      case (Some k)
      with step' show ?thesis by (simp add: punct)
    next
      case None
      show ?thesis
        using step' unfolding None option.case
        by (split if_split_asm) (simp_all add: number ident split: if_split_asm)
    qed
  qed
qed

text \<open>The scanner always moves: every iteration that does not raise consumes input.\<close>

lemma lex_step_consumes [consume]:
  assumes "cur_text c \<noteq> []" and "lex_step fn c = Inr (ts, c')"
  shows "length (cur_text c') < length (cur_text c)"
  using assms(2)
proof (cases rule: lex_step_cases)
  case line
  then have "in_line_comment (cur_text c)" by (simp add: in_line_comment_def newline_def)
  with line assms(1) while_adv_once show ?thesis by simp
next
  case (block d)
  then show ?thesis
    using length_while_adv [of in_block_comment "adv 2 c"] assms(1) by (cases "cur_text c") auto
next
  case (string buf d)
  then show ?thesis
    using length_lex_string [of "adv1 c"] assms(1) by (cases "cur_text c") auto
next
  case (ident v)
  have "0 < length (takeWhile is_ident_part (cur_text c))"
    using ident(1) assms(1) is_alpha_is_alnum
    by (intro length_takeWhile_pos) (auto simp: is_ident_start_def is_ident_part_def)
  with ident assms(1) show ?thesis by simp
qed (use assms(1) in auto)

function lex_loop :: "string \<Rightarrow> cursor \<Rightarrow> exn + token list" where
  "lex_loop fn c =
     (if cur_text c = [] then Inr [mk_token EOF [] c]
      else rbind (lex_step fn c) (\<lambda>(ts, c').
             rbind (lex_loop fn c') (\<lambda>rest. Inr (ts @ rest))))"
  by pat_completeness auto
termination
  by (relation "measure (\<lambda>(fn, c). length (cur_text c))") (auto intro: consume)

declare lex_loop.simps [simp del]

definition tokenize :: "string \<Rightarrow> string \<Rightarrow> exn + token list" where
  "tokenize text fn = lex_loop fn (start_cursor text)"


subsection \<open>Positions\<close>

text \<open>
  What \<open>line\<close> and \<open>col\<close> mean: both count from 1, lines by the newlines before the
  position, columns from the last of them. \<open>at_pos text c\<close> says that the cursor is a
  position of \<open>text\<close> and carries that position's line and column.
\<close>

definition line_of :: "string \<Rightarrow> nat" where
  "line_of pre = 1 + length (filter (\<lambda>x. x = newline) pre)"

definition col_of :: "string \<Rightarrow> nat" where
  "col_of pre = 1 + length (takeWhile (\<lambda>x. x \<noteq> newline) (rev pre))"

definition at_pos :: "string \<Rightarrow> cursor \<Rightarrow> bool" where
  "at_pos text c =
     (\<exists>pre. text = pre @ cur_text c \<and> cur_line c = line_of pre \<and> cur_col c = col_of pre)"

lemma at_pos_start: "at_pos text (start_cursor text)"
  by (simp add: at_pos_def start_cursor_def line_of_def col_of_def)

lemma at_pos_adv1: "at_pos text c \<Longrightarrow> cur_text c \<noteq> [] \<Longrightarrow> at_pos text (adv1 c)"
proof -
  assume "at_pos text c" and "cur_text c \<noteq> []"
  then obtain pre x r where pre: "text = pre @ x # r" "cur_text c = x # r"
    "cur_line c = line_of pre" "cur_col c = col_of pre"
    by (auto simp: at_pos_def neq_Nil_conv)
  then show ?thesis
    unfolding at_pos_def
    by (intro exI [of _ "pre @ [x]"]) (auto simp: adv1.simps line_of_def col_of_def)
qed

lemma at_pos_adv: "at_pos text c \<Longrightarrow> n \<le> length (cur_text c) \<Longrightarrow> at_pos text (adv n c)"
proof (induction n arbitrary: c)
  case 0
  then show ?case by simp
next
  case (Suc n)
  then have "at_pos text (adv1 c)" by (intro at_pos_adv1) auto
  with Suc show ?case by simp
qed

lemma at_pos_while_adv: "at_pos text c \<Longrightarrow> at_pos text (while_adv P c)"
proof (induction P c rule: while_adv.induct)
  case (1 P c)
  show ?case
  proof (cases "cur_text c \<noteq> [] \<and> P (cur_text c)")
    case True
    then have "at_pos text (while_adv P (adv1 c))"
      using 1 by (intro "1.IH") (auto intro: at_pos_adv1)
    with True show ?thesis by (subst while_adv.simps) simp
  next
    case False
    with 1 show ?thesis by (subst while_adv.simps) auto
  qed
qed

lemma at_pos_lex_string: "at_pos text c \<Longrightarrow> at_pos text (snd (lex_string c))"
proof (induction c rule: lex_string.induct)
  case (1 c)
  show ?case
  proof (cases "cur_text c")
    case Nil
    with 1 show ?thesis by (simp add: lex_string.simps [of c])
  next
    case (Cons x r)
    have "r \<noteq> [] \<Longrightarrow> at_pos text (adv 2 c)"
      using 1 Cons by (intro at_pos_adv) (auto simp: Suc_le_eq)
    moreover have "at_pos text (adv1 c)" using 1 Cons by (intro at_pos_adv1) auto
    ultimately show ?thesis
      using 1 Cons by (auto simp: lex_string.simps [of c] split: prod.splits)
  qed
qed

text \<open>The source text a token was read from begins with the token's lexeme.\<close>

definition begins_with :: "string \<Rightarrow> string \<Rightarrow> bool" where
  "begins_with v s = (take (length v) s = v)"

definition lexeme_at :: "token \<Rightarrow> string \<Rightarrow> bool" where
  "lexeme_at t s =
     (case tok_kind t of
        EOF \<Rightarrow> s = []
      | STRING \<Rightarrow> begins_with [CHR 0x22] s
      | _ \<Rightarrow> tok_value t \<noteq> [] \<and> begins_with (tok_value t) s)"

definition placed :: "string \<Rightarrow> token \<Rightarrow> bool" where
  "placed text t =
     (\<exists>pre suf. text = pre @ suf \<and> tok_line t = line_of pre \<and> tok_col t = col_of pre
        \<and> lexeme_at t suf)"

lemma placed_mk_token:
  "at_pos text c \<Longrightarrow> lexeme_at (mk_token k v c) (cur_text c) \<Longrightarrow> placed text (mk_token k v c)"
  by (auto simp: placed_def at_pos_def mk_token_def)

lemma second_is_iff: "second_is d s \<longleftrightarrow> (\<exists>x r. s = x # d # r)"
  by (auto simp: second_is_def split: list.splits)

lemma punct_not_special: "punct c = Some k \<Longrightarrow> k \<noteq> EOF \<and> k \<noteq> STRING \<and> k \<noteq> IDENT \<and> k \<noteq> NUMBER \<and> k \<noteq> PLUSEQ"
  by (auto simp: punct_def split: if_splits)

lemma begins_with_takeWhile: "begins_with (takeWhile P s) s"
  unfolding begins_with_def by (rule takeWhile_eq_take [symmetric])

lemma begins_with_Cons [simp]: "begins_with (x # v) (y # s) \<longleftrightarrow> x = y \<and> begins_with v s"
  by (auto simp: begins_with_def)

lemma begins_with_Nil [simp]: "begins_with [] s"
  by (simp add: begins_with_def)

lemma length_takeWhile_le_tl: "s \<noteq> [] \<Longrightarrow> length (takeWhile P (tl s)) + 1 \<le> length s"
  using length_takeWhile_le [of P "tl s"] by (cases s) auto

text \<open>One iteration keeps the position right and places the token it appends.\<close>

lemma lex_step_at_pos:
  assumes "at_pos text c" and ne: "cur_text c \<noteq> []" and "lex_step fn c = Inr (ts, c')"
  shows "at_pos text c'"
  using assms(3)
proof (cases rule: lex_step_cases)
  case line
  then show ?thesis using assms(1) by (simp add: at_pos_while_adv)
next
  case (block d)
  have "at_pos text (adv 2 c)"
    using assms(1) block(1) by (intro at_pos_adv) (auto simp: second_is_iff)
  then have "at_pos text d" using block(3) by (simp add: at_pos_while_adv)
  moreover have "2 \<le> length (cur_text d)"
    using while_adv_stops [of in_block_comment "adv 2 c"] block(3,4)
    by (auto simp: in_block_comment_def second_is_iff)
  ultimately show ?thesis using block(5) by (simp add: at_pos_adv)
next
  case (string buf d)
  have "at_pos text d"
    using at_pos_lex_string [OF at_pos_adv1 [OF assms(1) ne]] string(2) by simp
  with string show ?thesis by (simp add: at_pos_adv1)
next
  case pluseq
  then show ?thesis using assms(1) by (auto simp: second_is_iff intro!: at_pos_adv)
next
  case (number v)
  have "length v \<le> length (cur_text c)"
    using length_takeWhile_le_tl [OF ne] number(1) by simp
  then show ?thesis using number assms(1) by (simp only: at_pos_adv)
next
  case (ident v)
  then show ?thesis
    using at_pos_adv [OF assms(1) length_takeWhile_le [of is_ident_part "cur_text c"]] by simp
qed (use at_pos_adv1 [OF assms(1) ne] in auto)

lemma lex_step_placed:
  assumes "at_pos text c" and ne: "cur_text c \<noteq> []" and "lex_step fn c = Inr (ts, c')"
    and t: "t \<in> set ts"
  shows "placed text t \<and> tok_kind t \<noteq> EOF"
proof -
  obtain x r where s: "cur_text c = x # r" using ne by (cases "cur_text c") auto
  have pl: "lexeme_at (mk_token k v c) (cur_text c) \<Longrightarrow> k \<noteq> EOF \<Longrightarrow>
      placed text (mk_token k v c) \<and> tok_kind (mk_token k v c) \<noteq> EOF" for k v
    using placed_mk_token [OF assms(1)] by (simp add: mk_token_def)
  show ?thesis
    using assms(3)
  proof (cases rule: lex_step_cases)
    case (string buf d)
    then have "lexeme_at (mk_token STRING buf c) (cur_text c)"
      using s by (simp add: lexeme_at_def mk_token_def)
    with string t pl show ?thesis by simp
  next
    case pluseq
    then have "lexeme_at (mk_token PLUSEQ ''+='' c) (cur_text c)"
      using s by (auto simp: lexeme_at_def mk_token_def second_is_iff)
    with pluseq t pl show ?thesis by simp
  next
    case (punct k)
    then have "lexeme_at (mk_token k [x] c) (cur_text c)"
      using punct_not_special [of x k] s
      by (cases k) (auto simp: lexeme_at_def mk_token_def)
    with punct punct_not_special t s pl show ?thesis by auto
  next
    case (number v)
    then have "lexeme_at (mk_token NUMBER v c) (cur_text c)"
      using begins_with_takeWhile [of is_digit r] s by (simp add: lexeme_at_def mk_token_def)
    with number t pl show ?thesis by simp
  next
    case (ident v)
    then have "lexeme_at (mk_token IDENT v c) (cur_text c)"
      using is_alpha_is_alnum begins_with_takeWhile [of is_ident_part "cur_text c"] s
      by (auto simp: lexeme_at_def mk_token_def is_ident_start_def is_ident_part_def)
    with ident t pl show ?thesis by simp
  qed (use t in auto)
qed

subsection \<open>The token stream\<close>

text \<open>
  The end marker closes the stream and occurs nowhere else: the contract the parser's
  unchecked reads \<open>self.toks[self.pos]\<close> rest on.
\<close>

definition eof_terminated :: "token list \<Rightarrow> bool" where
  "eof_terminated ts =
     (ts \<noteq> [] \<and> tok_kind (last ts) = EOF \<and> (\<forall>t \<in> set (butlast ts). tok_kind t \<noteq> EOF))"

lemma eof_terminated_append:
  "\<forall>t \<in> set xs. tok_kind t \<noteq> EOF \<Longrightarrow> eof_terminated ys \<Longrightarrow> eof_terminated (xs @ ys)"
  by (auto simp: eof_terminated_def butlast_append)

lemma lex_loop_unfold:
  "lex_loop fn c = Inr toks \<longleftrightarrow>
     (if cur_text c = [] then toks = [mk_token EOF [] c]
      else \<exists>ts c' rest. lex_step fn c = Inr (ts, c') \<and> lex_loop fn c' = Inr rest \<and> toks = ts @ rest)"
  by (subst lex_loop.simps) (auto simp: result_simps)

lemma lex_loop_placed:
  assumes "lex_loop fn c = Inr toks" and "at_pos text c"
  shows "eof_terminated toks \<and> (\<forall>t \<in> set toks. placed text t)"
  using assms
proof (induction fn c arbitrary: toks rule: lex_loop.induct)
  case (1 fn c)
  show ?case
  proof (cases "cur_text c = []")
    case True
    with 1 have "toks = [mk_token EOF [] c]" by (simp add: lex_loop_unfold [of fn c])
    moreover have "placed text (mk_token EOF [] c)"
      using placed_mk_token [OF "1.prems"(2)] True by (simp add: lexeme_at_def mk_token_def)
    ultimately show ?thesis by (simp add: eof_terminated_def mk_token_def)
  next
    case False
    with "1.prems" obtain ts c' rest where step: "lex_step fn c = Inr (ts, c')"
      and rest: "lex_loop fn c' = Inr rest" and toks: "toks = ts @ rest"
      by (auto simp: lex_loop_unfold [of fn c])
    have "at_pos text c'" using "1.prems"(2) False step by (rule lex_step_at_pos)
    then have IH: "eof_terminated rest \<and> (\<forall>t \<in> set rest. placed text t)"
      using "1.IH" [OF False step refl rest] by blast
    moreover have "\<forall>t \<in> set ts. placed text t \<and> tok_kind t \<noteq> EOF"
      using lex_step_placed [OF "1.prems"(2) False step] by blast
    ultimately show ?thesis using toks by (auto intro: eof_terminated_append)
  qed
qed

subsection \<open>Well-formed tokens and the printed form\<close>

text \<open>
  \<open>token_ok k v\<close>: what a token of kind \<open>k\<close> can hold. \<open>lexeme\<close> writes a token so that the
  scanner reads it back, and \<open>render\<close> writes a stream with one space after each token.
\<close>

fun token_ok :: "token_kind \<Rightarrow> string \<Rightarrow> bool" where
  "token_ok IDENT v = (v \<noteq> [] \<and> is_ident_start (hd v) \<and> list_all is_ident_part v)"
| "token_ok STRING v = True"
| "token_ok NUMBER v =
     (let d = (if v \<noteq> [] \<and> hd v = CHR ''-'' then tl v else v) in d \<noteq> [] \<and> list_all is_digit d)"
| "token_ok PLUSEQ v = (v = ''+='')"
| "token_ok EOF v = (v = [])"
| "token_ok k v = (\<exists>x. v = [x] \<and> punct x = Some k)"

definition escape_char :: "char \<Rightarrow> string" where
  "escape_char x =
     (if x = newline then [CHR 0x5C, CHR ''n'']
      else if x = CHR 0x09 then [CHR 0x5C, CHR ''t'']
      else if x = CHR 0x22 \<or> x = CHR 0x5C then [CHR 0x5C, x] else [x])"

definition lexeme :: "token_kind \<Rightarrow> string \<Rightarrow> string" where
  "lexeme k v =
     (if k = STRING then CHR 0x22 # concat (map escape_char v) @ [CHR 0x22] else v)"

definition render :: "(token_kind \<times> string) list \<Rightarrow> string" where
  "render kvs = concat (map (\<lambda>(k, v). lexeme k v @ '' '') kvs)"

definition kv :: "token \<Rightarrow> token_kind \<times> string" where
  "kv t = (tok_kind t, tok_value t)"

lemma kv_mk_token [simp]: "kv (mk_token k v c) = (k, v)"
  by (simp add: kv_def mk_token_def)

lemma lex_string_escape:
  assumes "cur_text c = concat (map escape_char v) @ CHR 0x22 # rest"
  shows "\<exists>c'. lex_string c = (v, c') \<and> cur_text c' = CHR 0x22 # rest"
  using assms
proof (induction v arbitrary: c)
  case Nil
  then show ?case by (auto simp: lex_string.simps [of c])
next
  case (Cons x v)
  let ?r = "concat (map escape_char v) @ CHR 0x22 # rest"
  show ?case
  proof (cases "length (escape_char x) = 2")
    case True
    then obtain y where e: "escape_char x = [CHR 0x5C, y]" and y: "unescape y = x"
      by (auto simp: escape_char_def unescape_def newline_def split: if_splits)
    with Cons.prems have "cur_text (adv 2 c) = ?r" by simp
    then obtain c' where "lex_string (adv 2 c) = (v, c')" "cur_text c' = CHR 0x22 # rest"
      using Cons.IH by blast
    then show ?thesis using e y Cons.prems by (auto simp: lex_string.simps [of c])
  next
    case False
    then have e: "escape_char x = [x]" "x \<noteq> CHR 0x22" "x \<noteq> CHR 0x5C"
      by (auto simp: escape_char_def split: if_splits)
    with Cons.prems have "cur_text (adv1 c) = ?r" by simp
    then obtain c' where "lex_string (adv1 c) = (v, c')" "cur_text c' = CHR 0x22 # rest"
      using Cons.IH by blast
    then show ?thesis using e Cons.prems by (auto simp: lex_string.simps [of c])
  qed
qed

text \<open>A character that starts an identifier or a number takes no earlier branch.\<close>

lemma punct_specials:
  "punct x = Some k \<Longrightarrow> \<not> is_space x \<and> x \<noteq> CHR ''/'' \<and> x \<noteq> CHR 0x22"
  by (auto simp: punct_def is_space_def newline_def split: if_splits)

definition word_char :: "char \<Rightarrow> bool" where
  "word_char x = (is_digit x \<or> is_ident_start x \<or> x = CHR ''-'')"

lemma not_word_char [simp]:
  "\<not> word_char (CHR '' '')" "\<not> word_char (CHR 0x09)" "\<not> word_char (CHR 0x0D)"
  "\<not> word_char (CHR 0x0A)" "\<not> word_char (CHR 0x22)" "\<not> word_char (CHR ''/'')"
  "\<not> word_char (CHR ''{'')" "\<not> word_char (CHR ''}'')" "\<not> word_char (CHR ''['')"
  "\<not> word_char (CHR '']'')" "\<not> word_char (CHR ''('')" "\<not> word_char (CHR '')'')"
  "\<not> word_char (CHR '':'')" "\<not> word_char (CHR '','')" "\<not> word_char (CHR ''+'')"
  "\<not> word_char (CHR ''='')" "\<not> word_char (CHR 0x40)"
  by (simp_all add: word_char_def is_digit_def is_ident_start_def is_alpha_def in_ranges_def
      code_point_def)

lemma punct_None_iff: "punct x = None \<longleftrightarrow> x \<notin> set ''{}[]():,+=@''"
  unfolding punct_def map_of_eq_None_iff by simp

lemma word_specials:
  assumes "word_char x"
  shows "\<not> is_space x" "x \<noteq> CHR ''/''" "x \<noteq> CHR 0x22" "x \<noteq> CHR ''+''" "punct x = None"
proof -
  show "\<not> is_space x" using assms unfolding is_space_def newline_def by auto
  show "x \<noteq> CHR ''/''" "x \<noteq> CHR 0x22" "x \<noteq> CHR ''+''" using assms by auto
  show "punct x = None" using assms unfolding punct_None_iff by auto
qed

lemma dash_not_ident_start [simp]: "\<not> is_ident_start (CHR ''-'')" "\<not> is_digit (CHR ''-'')"
  by (simp_all add: is_ident_start_def is_alpha_def is_digit_def in_ranges_def code_point_def)

lemma space_not_part [simp]: "\<not> is_ident_part (CHR '' '')" "\<not> is_digit (CHR '' '')"
  by (simp_all add: is_ident_part_def is_alnum_def is_alpha_def is_digit_def in_ranges_def
      code_point_def)

lemma ident_start_not_digit: "is_ident_start x \<Longrightarrow> \<not> is_digit x"
  by (auto simp: is_ident_start_def dest: is_alpha_not_digit)
    (simp add: is_digit_def in_ranges_def code_point_def)

text \<open>The scanner reads a printed token back, whatever follows the space.\<close>

lemma lex_step_lexeme:
  assumes "token_ok k v" and "k \<noteq> EOF" and inp: "cur_text c = lexeme k v @ CHR '' '' # rest"
  shows "\<exists>c'. lex_step fn c = Inr ([mk_token k v c], c') \<and> cur_text c' = CHR '' '' # rest"
proof -
  have punct_case: ?thesis if "v = [x]" and "punct x = Some k" and "k \<noteq> PLUSEQ" for x
  proof -
    have "cur_text c = x # CHR '' '' # rest"
      using that inp punct_not_special [of x k] by (simp add: lexeme_def)
    then show ?thesis
      using that punct_specials [of x k] by (simp add: lex_step_def Let_def second_is_def)
  qed
  consider "k = IDENT" | "k = STRING" | "k = NUMBER" | "k = PLUSEQ"
    | x where "v = [x]" "punct x = Some k" "k \<noteq> PLUSEQ"
    using assms(1,2) by (cases k) auto
  then show ?thesis
  proof cases
    case 1
    then obtain x r where v: "v = x # r" and x: "is_ident_start x" and r: "list_all is_ident_part v"
      using assms(1) by (cases v) auto
    have "takeWhile is_ident_part (cur_text c) = v"
      using inp 1 r by (auto simp: lexeme_def list_all_iff intro!: takeWhile_append_stop)
    moreover have "x \<noteq> CHR ''-''" using x by auto
    ultimately show ?thesis
      using inp 1 v x word_specials [of x] ident_start_not_digit [OF x]
      by (simp add: lex_step_def Let_def lexeme_def word_char_def)
  next
    case 2
    then have "cur_text (adv1 c) = concat (map escape_char v) @ CHR 0x22 # CHR '' '' # rest"
      using inp by (simp add: lexeme_def)
    from lex_string_escape [OF this] obtain c' where
      "lex_string (adv1 c) = (v, c')" "cur_text c' = CHR 0x22 # CHR '' '' # rest" by blast
    then show ?thesis
      using inp 2 by (simp add: lex_step_def Let_def lexeme_def is_space_def newline_def)
  next
    case 3
    then obtain x r where v: "v = x # r" and r: "list_all is_digit r"
      and x: "is_digit x \<or> (x = CHR ''-'' \<and> r \<noteq> [])"
      using assms(1) by (cases v) (auto simp: Let_def split: if_splits)
    have tw: "takeWhile is_digit (r @ CHR '' '' # rest) = r"
      using r by (auto simp: list_all_iff intro!: takeWhile_append_stop)
    let ?r = "r @ CHR '' '' # rest"
    have "is_digit x \<or> (x = CHR ''-'' \<and> ?r \<noteq> [] \<and> is_digit (hd ?r))"
      using x r by (cases r) auto
    moreover have "word_char x" using x by (auto simp: word_char_def)
    moreover have "cur_text c = x # ?r" using inp 3 v by (simp add: lexeme_def)
    ultimately show ?thesis
      using 3 v word_specials [of x] tw by (simp add: lex_step_def Let_def)
  next
    case 4
    then show ?thesis
      using inp assms(1)
      by (simp add: lex_step_def Let_def lexeme_def is_space_def newline_def second_is_def)
  next
    case (5 x)
    then show ?thesis by (rule punct_case)
  qed
qed

lemma lex_loop_render:
  assumes "\<forall>(k, v) \<in> set kvs. k \<noteq> EOF \<and> token_ok k v" and "cur_text c = render kvs"
  shows "\<exists>toks. lex_loop fn c = Inr toks \<and> map kv toks = kvs @ [(EOF, [])]"
  using assms
proof (induction kvs arbitrary: c)
  case Nil
  then show ?case by (subst lex_loop.simps) (simp add: render_def)
next
  case (Cons p kvs)
  obtain k v where p: "p = (k, v)" by (cases p)
  with Cons.prems have ok: "token_ok k v" "k \<noteq> EOF"
    and inp: "cur_text c = lexeme k v @ CHR '' '' # render kvs"
    by (auto simp: render_def)
  from lex_step_lexeme [OF this] obtain c' where
    step: "lex_step fn c = Inr ([mk_token k v c], c')" "cur_text c' = CHR '' '' # render kvs"
    by blast
  have "lex_step fn c' = Inr ([], adv1 c')"
    using step(2) by (simp add: lex_step_def Let_def is_space_def)
  moreover obtain toks where "lex_loop fn (adv1 c') = Inr toks" "map kv toks = kvs @ [(EOF, [])]"
    using Cons.IH [of "adv1 c'"] Cons.prems step(2) by auto
  ultimately have "lex_loop fn c' = Inr toks" "map kv toks = kvs @ [(EOF, [])]"
    using step(2) by (auto simp: lex_loop_unfold [of fn c'])
  then show ?case
    using inp step(1) p by (auto simp: lex_loop.simps [of fn c])
qed

text \<open>Conversely, every token the scanner produces is well formed.\<close>

lemma lex_step_token_ok:
  assumes "cur_text c \<noteq> []" and "lex_step fn c = Inr (ts, c')" and "t \<in> set ts"
  shows "token_ok (tok_kind t) (tok_value t)"
proof -
  obtain x r where s: "cur_text c = x # r" using assms(1) by (cases "cur_text c") auto
  have tw: "list_all P (takeWhile P ys)" for P :: "char \<Rightarrow> bool" and ys
    by (auto simp: list_all_iff dest: set_takeWhileD)
  show ?thesis
    using assms(2)
  proof (cases rule: lex_step_cases)
    case (punct k)
    then have "token_ok k [x]" using punct_not_special [of x k] s by (cases k) auto
    with punct assms(3) s show ?thesis by (simp add: mk_token_def)
  next
    case (number v)
    then have "token_ok NUMBER v"
      using s tw [of is_digit r] by (cases r) (auto simp: Let_def)
    with number assms(3) show ?thesis by (simp add: mk_token_def)
  next
    case (ident v)
    then have "token_ok IDENT v"
      using s tw [of is_ident_part "cur_text c"] is_alpha_is_alnum
      by (auto simp: is_ident_start_def is_ident_part_def)
    with ident assms(3) show ?thesis by (simp add: mk_token_def)
  qed (use assms(3) in \<open>auto simp: mk_token_def\<close>)
qed

lemma lex_loop_token_ok:
  assumes "lex_loop fn c = Inr toks"
  shows "\<forall>t \<in> set toks. token_ok (tok_kind t) (tok_value t)"
  using assms
proof (induction fn c arbitrary: toks rule: lex_loop.induct)
  case (1 fn c)
  show ?case
  proof (cases "cur_text c = []")
    case True
    with 1 show ?thesis by (simp add: lex_loop_unfold [of fn c] mk_token_def)
  next
    case False
    with "1.prems" obtain ts c' rest where step: "lex_step fn c = Inr (ts, c')"
      and rest: "lex_loop fn c' = Inr rest" and toks: "toks = ts @ rest"
      by (auto simp: lex_loop_unfold [of fn c])
    have "\<forall>t \<in> set rest. token_ok (tok_kind t) (tok_value t)"
      using "1.IH" [OF False step refl rest] .
    then show ?thesis using toks lex_step_token_ok [OF False step] by auto
  qed
qed

subsection \<open>Errors\<close>

text \<open>
  \<open>closed_string s\<close>: an unescaped quote follows. \<open>lex_fault m s\<close> is the fault in the text
  that each message of \<open>LexError\<close> reports.
\<close>

fun closed_string :: "string \<Rightarrow> bool" where
  "closed_string [] = False"
| "closed_string (x # r) =
     (if x = CHR 0x22 then True
      else if x = CHR 0x5C \<and> r \<noteq> [] then closed_string (tl r) else closed_string r)"

fun lex_fault :: "lex_msg \<Rightarrow> string \<Rightarrow> bool" where
  "lex_fault UnterminatedComment s =
     (begins_with ''/*'' s \<and> (\<nexists>a b. drop 2 s = a @ ''*/'' @ b))"
| "lex_fault UnterminatedString s = (\<exists>r. s = CHR 0x22 # r \<and> \<not> closed_string r)"
| "lex_fault (UnexpectedCharacter x) s =
     (\<exists>r. s = x # r \<and> \<not> is_space x \<and> punct x = None \<and> x \<noteq> CHR 0x22
        \<and> \<not> is_digit x \<and> \<not> is_ident_start x)"

lemma lex_string_closed: "cur_text (snd (lex_string c)) \<noteq> [] \<longleftrightarrow> closed_string (cur_text c)"
proof (induction c rule: lex_string.induct)
  case (1 c)
  show ?case
  proof (cases "cur_text c")
    case Nil
    then show ?thesis by (simp add: lex_string.simps [of c])
  next
    case (Cons x r)
    show ?thesis
      using 1 Cons by (auto simp: lex_string.simps [of c] drop_Suc split: prod.splits)
  qed
qed

lemma while_adv_block:
  "cur_text (while_adv in_block_comment c) = [] \<longleftrightarrow> (\<nexists>a b. cur_text c = a @ ''*/'' @ b)"
proof (induction in_block_comment c rule: while_adv.induct)
  case (1 c)
  show ?case
  proof (cases "cur_text c \<noteq> [] \<and> in_block_comment (cur_text c)")
    case True
    then obtain x r where c: "cur_text c = x # r" and in_c: "in_block_comment (x # r)"
      by (cases "cur_text c") auto
    have "(\<exists>a b. x # r = a @ ''*/'' @ b) \<longleftrightarrow> (\<exists>a b. r = a @ ''*/'' @ b)"
    proof
      assume "\<exists>a b. x # r = a @ ''*/'' @ b"
      then obtain a b where ab: "x # r = a @ ''*/'' @ b" by blast
      moreover have "a \<noteq> []" using ab in_c by (auto simp: in_block_comment_def second_is_def)
      ultimately show "\<exists>a b. r = a @ ''*/'' @ b" by (cases a) auto
    next
      assume "\<exists>a b. r = a @ ''*/'' @ b"
      then show "\<exists>a b. x # r = a @ ''*/'' @ b" by (metis append_Cons)
    qed
    moreover have "while_adv in_block_comment c = while_adv in_block_comment (adv1 c)"
      using True by (subst while_adv.simps) simp
    ultimately show ?thesis using 1 True c by simp
  next
    case False
    then have w: "while_adv in_block_comment c = c" by (subst while_adv.simps) auto
    show ?thesis
    proof (cases "cur_text c = []")
      case True
      then show ?thesis by (simp add: w)
    next
      case ne: False
      with False obtain r where "cur_text c = [] @ ''*/'' @ r"
        by (auto simp: in_block_comment_def second_is_iff)
      then have "\<exists>a b. cur_text c = a @ ''*/'' @ b" by blast
      then show ?thesis using w ne by simp
    qed
  qed
qed

lemma lex_step_fault:
  assumes "cur_text c \<noteq> []" and "lex_step fn c = Inl e"
  shows "\<exists>m. e = LexError fn (cur_line c) (cur_col c) m \<and> lex_fault m (cur_text c)"
proof -
  obtain x r where s: "cur_text c = x # r" using assms(1) by (cases "cur_text c") auto
  note step = assms(2) [unfolded lex_step_def Let_def s list.sel]
  have block: "cur_text (while_adv in_block_comment (adv 2 c)) = [] \<longleftrightarrow>
      (\<nexists>a b. drop 2 (x # r) = a @ ''*/'' @ b)"
    using while_adv_block [of "adv 2 c"] s by simp
  have str: "cur_text (snd (lex_string (adv1 c))) = [] \<longleftrightarrow> \<not> closed_string r"
    using lex_string_closed [of "adv1 c"] s by auto
  show ?thesis
  proof (cases "x = CHR ''/'' \<and> second_is (CHR ''*'') (x # r) \<and> \<not> is_space x")
    case True
    then show ?thesis
      using step block s by (auto simp: second_is_def split: if_split_asm list.splits)
  next
    case no_block: False
    show ?thesis
    proof (cases "x = CHR 0x22")
      case True
      then show ?thesis
        using step str s by (cases "lex_string (adv1 c)") (auto simp: is_space_def newline_def split: if_split_asm)
    next
      case False
      then show ?thesis
        using step no_block s by (auto split: if_split_asm option.split_asm)
    qed
  qed
qed

lemma lex_loop_fault:
  assumes "lex_loop fn c = Inl e" and "at_pos text c"
  shows "\<exists>pre suf m. text = pre @ suf \<and> e = LexError fn (line_of pre) (col_of pre) m \<and> lex_fault m suf"
  using assms
proof (induction fn c rule: lex_loop.induct)
  case (1 fn c)
  have ne: "cur_text c \<noteq> []" using "1.prems"(1) by (subst (asm) lex_loop.simps) (auto split: if_splits)
  with "1.prems"(1) consider "lex_step fn c = Inl e"
    | ts c' where "lex_step fn c = Inr (ts, c')" "lex_loop fn c' = Inl e"
    by (subst (asm) lex_loop.simps) (auto simp: result_simps)
  then show ?case
  proof cases
    case 1
    from lex_step_fault [OF ne this] "1.prems"(2) show ?thesis by (auto simp: at_pos_def)
  next
    case (2 ts c')
    from "1.IH" [OF ne 2(1) refl 2(2)] lex_step_at_pos [OF "1.prems"(2) ne 2(1)]
    show ?thesis by blast
  qed
qed

subsection \<open>Properties\<close>

text \<open>C1. Whatever \<open>tokenize\<close> returns ends with its only EOF token, and every token carries the
  line and column at which its lexeme begins in the source text.\<close>

theorem tokenize_placed:
  assumes "tokenize text fn = Inr toks"
  shows "eof_terminated toks \<and> (\<forall>t \<in> set toks. placed text t)"
  using lex_loop_placed [OF _ at_pos_start] assms by (simp add: tokenize_def)

theorem tokenize_placed_witness:
  "\<exists>toks. tokenize ''a: 1'' ''f'' = Inr toks \<and> length toks = 4
     \<and> eof_terminated toks \<and> (\<forall>t \<in> set toks. placed ''a: 1'' t)"
proof -
  have run: "tokenize ''a: 1'' ''f'' = Inr [
      \<lparr>tok_kind = IDENT, tok_value = ''a'', tok_line = 1, tok_col = 1\<rparr>,
      \<lparr>tok_kind = COLON, tok_value = '':'', tok_line = 1, tok_col = 2\<rparr>,
      \<lparr>tok_kind = NUMBER, tok_value = ''1'', tok_line = 1, tok_col = 4\<rparr>,
      \<lparr>tok_kind = EOF, tok_value = [], tok_line = 1, tok_col = 5\<rparr>]"
    by code_simp
  show ?thesis using run tokenize_placed [OF run] by simp
qed

text \<open>C2. Every stream of well-formed tokens, written with its strings escaped, is read back by
  \<open>tokenize\<close> token for token.\<close>

theorem tokenize_render:
  assumes "\<forall>(k, v) \<in> set kvs. k \<noteq> EOF \<and> token_ok k v"
  shows "\<exists>toks. tokenize (render kvs) fn = Inr toks \<and> map kv toks = kvs @ [(EOF, [])]"
  using lex_loop_render [OF assms, of "start_cursor (render kvs)"]
  by (simp add: tokenize_def start_cursor_def)

theorem tokenize_render_witness:
  "\<exists>toks. tokenize (render [(IDENT, ''srcs''), (STRING, [CHR 0x22, newline]), (PLUSEQ, ''+='')]) ''f''
       = Inr toks
     \<and> map kv toks = [(IDENT, ''srcs''), (STRING, [CHR 0x22, newline]), (PLUSEQ, ''+=''), (EOF, [])]"
proof -
  have ok: "\<forall>(k, v) \<in> set [(IDENT, ''srcs''), (STRING, [CHR 0x22, newline]), (PLUSEQ, ''+='')].
      k \<noteq> EOF \<and> token_ok k v"
    by code_simp
  show ?thesis using tokenize_render [OF ok, of "''f''"] by simp
qed

text \<open>C3. When \<open>tokenize\<close> raises, it raises \<open>LexError\<close> at a position of the text where the fault
  its message names is found: an unclosed comment, an unclosed string, or a character that
  starts no token.\<close>

theorem tokenize_fault:
  assumes "tokenize text fn = Inl e"
  shows "\<exists>pre suf m. text = pre @ suf \<and> e = LexError fn (line_of pre) (col_of pre) m
           \<and> lex_fault m suf"
  using lex_loop_fault [OF _ at_pos_start] assms by (simp add: tokenize_def)

theorem tokenize_fault_witness:
  "\<exists>pre suf m. ''x/*'' = pre @ suf \<and> LexError ''f'' 1 2 UnterminatedComment
       = LexError ''f'' (line_of pre) (col_of pre) m \<and> lex_fault m suf"
proof -
  have run: "tokenize ''x/*'' ''f'' = Inl (LexError ''f'' 1 2 UnterminatedComment)" by code_simp
  show ?thesis by (rule tokenize_fault [OF run])
qed

end
