(* ===== verification/BpAst.thy ===== *)
theory BpAst
  imports BpPrelude
begin

section \<open>Syntax trees\<close>

text \<open>
  \<open>tools/bp2cmake/bp2cmake/ast.py\<close>: the parser's output, one constructor per node class,
  each with the line the class records. A map keeps its entries in order and may repeat a
  key; a select keeps its conditions as (function, arguments) pairs.
\<close>

datatype pattern = PStr string | PBool bool | PAny | PDefault

datatype expr =
    StringLit string nat
  | BoolLit bool nat
  | IntLit int nat
  | VarRef string nat
  | ListExpr "expr list" nat
  | MapExpr "(string \<times> expr) list" nat
  | Concat expr expr nat
  | Select "(string \<times> string list) list" "select_case list" nat
and select_case = SelectCase "pattern list" expr "string option" nat

fun expr_line :: "expr \<Rightarrow> nat" where
  "expr_line (StringLit _ l) = l"
| "expr_line (BoolLit _ l) = l"
| "expr_line (IntLit _ l) = l"
| "expr_line (VarRef _ l) = l"
| "expr_line (ListExpr _ l) = l"
| "expr_line (MapExpr _ l) = l"
| "expr_line (Concat _ _ l) = l"
| "expr_line (Select _ _ l) = l"

text \<open>\<open>MapExpr.get\<close>: the first entry with the key.\<close>

definition entries_get :: "(string \<times> expr) list \<Rightarrow> string \<Rightarrow> expr option" where
  "entries_get es k = map_of es k"

text \<open>
  Top-level statements: an assignment (\<open>append\<close> for \<open>+=\<close>), or a module with its type and
  its property map (the entries and the map's own line).
\<close>

datatype statement =
    Assignment string expr bool nat
  | ModuleDef string "(string \<times> expr) list" nat nat

record bp_file =
  bp_path :: string
  bp_statements :: "statement list"

fun is_module :: "statement \<Rightarrow> bool" where
  "is_module (ModuleDef _ _ _ _) = True"
| "is_module (Assignment _ _ _ _) = False"

definition bp_modules :: "bp_file \<Rightarrow> statement list" where
  "bp_modules bp = filter is_module (bp_statements bp)"

definition bp_assignments :: "bp_file \<Rightarrow> statement list" where
  "bp_assignments bp = filter (\<lambda>s. \<not> is_module s) (bp_statements bp)"

text \<open>Positions forgotten: the tree that two layouts of one file share.\<close>

fun erase :: "expr \<Rightarrow> expr" and erase_case :: "select_case \<Rightarrow> select_case" where
  "erase (StringLit s _) = StringLit s 0"
| "erase (BoolLit b _) = BoolLit b 0"
| "erase (IntLit i _) = IntLit i 0"
| "erase (VarRef x _) = VarRef x 0"
| "erase (ListExpr es _) = ListExpr (map erase es) 0"
| "erase (MapExpr es _) = MapExpr (map (\<lambda>(k, e). (k, erase e)) es) 0"
| "erase (Concat a b _) = Concat (erase a) (erase b) 0"
| "erase (Select cs as _) = Select cs (map erase_case as) 0"
| "erase_case (SelectCase ps e b _) = SelectCase ps (erase e) b 0"

abbreviation erase_entries :: "(string \<times> expr) list \<Rightarrow> (string \<times> expr) list" where
  "erase_entries es \<equiv> map (\<lambda>(k, e). (k, erase e)) es"

fun erase_statement :: "statement \<Rightarrow> statement" where
  "erase_statement (Assignment x e a _) = Assignment x (erase e) a 0"
| "erase_statement (ModuleDef t es _ _) = ModuleDef t (erase_entries es) 0 0"

end
