(* ===== verification/BpParser.thy ===== *)
theory BpParser
  imports BpLexer BpAst
begin

section \<open>The Blueprint parser\<close>

text \<open>
  \<open>tools/bp2cmake/bp2cmake/parser.py\<close>, the class \<open>Parser\<close>. The state \<open>self.pos\<close> is the
  list of tokens from that position on (\<open>self.toks[self.pos:]\<close>); every method takes it and
  returns its value with the tokens left. A read past the list is \<open>IndexError\<close>, as in
  Python. The methods call one another without bound: that they return for every token
  list is the termination proof below.
\<close>

subsection \<open>Token helpers\<close>

fun cur_tok :: "token list \<Rightarrow> exn + token" where
  "cur_tok [] = Inl IndexError"
| "cur_tok (t # r) = Inr t"

text \<open>\<open>_err\<close>\<close>

definition parse_err :: "string \<Rightarrow> string \<Rightarrow> token \<Rightarrow> exn" where
  "parse_err fn msg t =
     ParseError fn (tok_line t) (tok_col t) msg (kind_name (tok_kind t)) (tok_value t)"

fun advance :: "token list \<Rightarrow> exn + token \<times> token list" where
  "advance [] = Inl IndexError"
| "advance (t # r) = Inr (t, if tok_kind t \<noteq> EOF then r else t # r)"

definition expect :: "string \<Rightarrow> token_kind \<Rightarrow> token list \<Rightarrow> exn + token \<times> token list" where
  "expect fn k ts =
     rbind (cur_tok ts) (\<lambda>t.
       if tok_kind t \<noteq> k then Inl (parse_err fn (''expected '' @ kind_name k) t)
       else advance ts)"

definition accept :: "token_kind \<Rightarrow> token list \<Rightarrow> exn + token option \<times> token list" where
  "accept k ts =
     rbind (cur_tok ts) (\<lambda>t.
       if tok_kind t = k then rbind (advance ts) (\<lambda>(a, ts'). Inr (Some a, ts'))
       else Inr (None, ts))"

definition quoted :: "string \<Rightarrow> string" where
  "quoted s = CHR 0x27 # s @ [CHR 0x27]"

text \<open>
  \<open>int(t.value)\<close> on the text of a NUMBER token (an optional minus and digits): the digits
  that are not decimal, such as the superscript two, make \<open>int\<close> raise \<open>ValueError\<close>.
\<close>

definition digits_value :: "string \<Rightarrow> nat" where
  "digits_value ds = foldl (\<lambda>a d. 10 * a + (code_point d - 48)) 0 ds"

definition int_of_str :: "string \<Rightarrow> exn + int" where
  "int_of_str v =
     (let neg = (v \<noteq> [] \<and> hd v = CHR ''-''); d = (if neg then tl v else v) in
      if d \<noteq> [] \<and> list_all is_decimal d
      then Inr (if neg then - int (digits_value d) else int (digits_value d))
      else Inl (ValueError ''invalid literal for int()''))"

lemma cur_tok_Inr [result_simps]: "cur_tok ts = Inr t \<longleftrightarrow> (\<exists>r. ts = t # r)"
  by (cases ts) auto

lemma expect_Inr [result_simps]:
  "k \<noteq> EOF \<Longrightarrow> expect fn k ts = Inr (t, ts') \<longleftrightarrow> ts = t # ts' \<and> tok_kind t = k"
  by (cases ts) (auto simp: expect_def)

lemma accept_Inr [result_simps]:
  "k \<noteq> EOF \<Longrightarrow> accept k ts = Inr (m, ts') \<longleftrightarrow>
     (\<exists>t r. ts = t # r \<and> (if tok_kind t = k then m = Some t \<and> ts' = r else m = None \<and> ts' = t # r))"
  by (cases ts) (auto simp: accept_def)

lemma accept_length: "k \<noteq> EOF \<Longrightarrow> accept k ts = Inr (m, ts') \<Longrightarrow> length ts' \<le> length ts"
  by (auto simp: result_simps split: if_splits)

subsection \<open>Comma-separated loops\<close>

text \<open>
  Six methods run the same loop: until the closing token, read an element, then stop unless
  a comma follows. \<open>comma_step\<close> is one unfolding of it and the locale \<open>comma_loop\<close> the
  contract: a loop that satisfies the equation, over an element parser that consumes.
  \<open>comma_list P xs us\<close> is the language of the loop: elements separated by commas, a
  trailing comma allowed.
\<close>

definition comma_step ::
  "token_kind \<Rightarrow> (token list \<Rightarrow> exn + 'a \<times> token list) \<Rightarrow>
   (token list \<Rightarrow> exn + 'a list \<times> token list) \<Rightarrow> token list \<Rightarrow> exn + 'a list \<times> token list" where
  "comma_step close item loop ts =
     rbind (cur_tok ts) (\<lambda>t.
       if tok_kind t = close then Inr ([], ts)
       else rbind (item ts) (\<lambda>(x, ts1).
            rbind (accept COMMA ts1) (\<lambda>(m, ts2).
              if m = None then Inr ([x], ts2)
              else rbind (loop ts2) (\<lambda>(xs, ts3). Inr (x # xs, ts3)))))"

inductive comma_list :: "('a \<Rightarrow> token list \<Rightarrow> bool) \<Rightarrow> 'a list \<Rightarrow> token list \<Rightarrow> bool"
  for P where
  none: "comma_list P [] []"
| last: "P x us \<Longrightarrow> comma_list P [x] us"
| more: "P x us \<Longrightarrow> tok_kind c = COMMA \<Longrightarrow> comma_list P xs vs \<Longrightarrow>
    comma_list P (x # xs) (us @ c # vs)"

lemma comma_list_mono [mono]:
  "(\<And>x us. P x us \<longrightarrow> Q x us) \<Longrightarrow> comma_list P xs ws \<longrightarrow> comma_list Q xs ws"
proof
  assume PQ: "\<And>x us. P x us \<longrightarrow> Q x us" and "comma_list P xs ws"
  from this(2) show "comma_list Q xs ws"
    by induction (auto intro: comma_list.intros simp: PQ)
qed

text \<open>
  An outcome that respects the stream: no exception but those of the syntax, and the tokens
  left still closed by their end marker.
\<close>

fun syntax_exn :: "exn \<Rightarrow> bool" where
  "syntax_exn (LexError _ _ _ _) = True"
| "syntax_exn (ParseError _ _ _ _ _ _) = True"
| "syntax_exn (ValueError _) = True"
| "syntax_exn _ = False"

definition safe_result :: "exn + 'a \<times> token list \<Rightarrow> bool" where
  "safe_result r = (case r of Inl e \<Rightarrow> syntax_exn e | Inr (x, ts') \<Rightarrow> eof_terminated ts')"

lemma safe_result_simps [simp]:
  "safe_result (Inl e) = syntax_exn e" "safe_result (Inr (x, ts')) = eof_terminated ts'"
  by (simp_all add: safe_result_def)

lemma eof_terminated_Cons:
  "eof_terminated (t # r) \<Longrightarrow> tok_kind t \<noteq> EOF \<Longrightarrow> eof_terminated r"
  by (cases r) (auto simp: eof_terminated_def)

lemma safe_rbind:
  "safe_result m \<Longrightarrow> (\<And>x ts'. m = Inr (x, ts') \<Longrightarrow> eof_terminated ts' \<Longrightarrow> safe_result (f (x, ts'))) \<Longrightarrow>
   safe_result (rbind m f)"
  by (cases m) auto

lemma safe_cur_tok:
  "eof_terminated ts \<Longrightarrow> (\<And>t r. ts = t # r \<Longrightarrow> safe_result (f t)) \<Longrightarrow> safe_result (rbind (cur_tok ts) f)"
  by (cases ts) (auto simp: eof_terminated_def)

lemma safe_advance: "eof_terminated (t # r) \<Longrightarrow> safe_result (advance (t # r))"
  using eof_terminated_Cons by auto

lemma safe_expect: "eof_terminated ts \<Longrightarrow> safe_result (expect fn k ts)"
  unfolding expect_def by (rule safe_cur_tok) (auto simp: parse_err_def dest: eof_terminated_Cons)

lemma safe_accept: "eof_terminated ts \<Longrightarrow> safe_result (accept k ts)"
  unfolding accept_def by (rule safe_cur_tok) (auto dest: eof_terminated_Cons)

locale comma_loop =
  fixes close :: token_kind
    and item :: "token list \<Rightarrow> exn + 'a \<times> token list"
    and loop :: "token list \<Rightarrow> exn + 'a list \<times> token list"
  assumes loop_eq: "loop ts = comma_step close item loop ts"
    and item_consumes: "item ts = Inr (x, ts') \<Longrightarrow> length ts' < length ts"
begin

lemma loop_cases:
  assumes "loop ts = Inr (xs, ts')"
  obtains (empty) t r where "ts = t # r" "tok_kind t = close" "xs = []" "ts' = ts"
  | (last) t r x u v where "ts = t # r" "tok_kind t \<noteq> close" "item ts = Inr (x, ts')"
      "ts' = u # v" "tok_kind u \<noteq> COMMA" "xs = [x]"
  | (more) t r x u ts2 xs' where "ts = t # r" "tok_kind t \<noteq> close"
      "item ts = Inr (x, u # ts2)" "tok_kind u = COMMA" "loop ts2 = Inr (xs', ts')" "xs = x # xs'"
  using assms unfolding loop_eq [of ts] comma_step_def
  by (auto simp: result_simps split: if_splits)

lemma loop_length: "loop ts = Inr (xs, ts') \<Longrightarrow> length ts' \<le> length ts"
proof (induction ts arbitrary: xs ts' rule: length_induct)
  case (1 ts)
  from "1.prems" show ?case
  proof (cases rule: loop_cases)
    case (last t r x u v)
    from item_consumes [OF last(3)] show ?thesis by simp
  next
    case (more t r x u ts2 xs')
    have "length ts2 < length ts" using item_consumes [OF more(3)] by simp
    moreover from this more(5) have "length ts' \<le> length ts2" using "1.IH" by blast
    ultimately show ?thesis by simp
  qed auto
qed

lemma loop_sound:
  assumes "\<And>ts0 x ts1. length ts0 \<le> length ts \<Longrightarrow> item ts0 = Inr (x, ts1) \<Longrightarrow>
      \<exists>us. ts0 = us @ ts1 \<and> P x us"
    and "loop ts = Inr (xs, ts')"
  shows "\<exists>us. ts = us @ ts' \<and> comma_list P xs us"
  using assms
proof (induction ts arbitrary: xs rule: length_induct)
  case (1 ts)
  from "1.prems"(2) show ?case
  proof (cases rule: loop_cases)
    case empty
    then show ?thesis by (auto intro: comma_list.none)
  next
    case (last t r x u v)
    with "1.prems"(1) [of ts x ts'] show ?thesis by (auto intro: comma_list.last)
  next
    case (more t r x u ts2 xs')
    then obtain us where us: "ts = us @ u # ts2" "P x us"
      using "1.prems"(1) [of ts x "u # ts2"] by auto
    then have len: "length ts2 < length ts" by simp
    obtain vs where "ts2 = vs @ ts'" "comma_list P xs' vs"
      using "1.IH" [rule_format, OF len _ more(5)] "1.prems"(1) len by fastforce
    with us more show ?thesis by (auto intro!: exI [of _ "us @ u # vs"] comma_list.more)
  qed
qed

lemma loop_complete:
  assumes "comma_list P xs us" and close: "tok_kind rb = close" "close \<noteq> COMMA"
    and start: "\<And>x us. P x us \<Longrightarrow> us \<noteq> [] \<and> tok_kind (hd us) \<noteq> close"
    and items: "\<And>x us t r. P x us \<Longrightarrow> tok_kind t = COMMA \<or> tok_kind t = close \<Longrightarrow>
      item (us @ t # r) = Inr (x, t # r)"
  shows "loop (us @ rb # rest) = Inr (xs, rb # rest)"
  using assms(1)
proof induction
  case none
  then show ?case using close by (subst loop_eq) (simp add: comma_step_def)
next
  case (last x us)
  then obtain u us' where us: "us = u # us'" "tok_kind u \<noteq> close"
    using start [of x us] by (cases us) auto
  have "item (us @ rb # rest) = Inr (x, rb # rest)" using last close items by blast
  then show ?case using us close by (subst loop_eq) (simp add: comma_step_def accept_def)
next
  case (more x us c xs vs)
  then obtain u us' where us: "us = u # us'" "tok_kind u \<noteq> close"
    using start [of x us] by (cases us) auto
  have "item (us @ c # vs @ rb # rest) = Inr (x, c # vs @ rb # rest)" using more items by blast
  then show ?case using us more by (subst loop_eq) (simp add: comma_step_def accept_def)
qed

lemma loop_safe:
  assumes "\<And>ts0. length ts0 \<le> length ts \<Longrightarrow> eof_terminated ts0 \<Longrightarrow> safe_result (item ts0)"
    and "eof_terminated ts"
  shows "safe_result (loop ts)"
  using assms
proof (induction ts rule: length_induct)
  case (1 ts)
  show ?case
    unfolding loop_eq [of ts] comma_step_def
  proof (rule safe_cur_tok [OF "1.prems"(2)], split if_split, intro conjI impI)
    fix t r assume "ts = t # r"
    show "safe_result (rbind (item ts) (\<lambda>(x, ts1). rbind (accept COMMA ts1) (\<lambda>(m, ts2).
        if m = None then Inr ([x], ts2)
        else rbind (loop ts2) (\<lambda>(xs, ts3). Inr (x # xs, ts3)))))"
    proof (rule safe_rbind, use "1.prems" in blast, clarify)
      fix x ts1 assume ts1: "item ts = Inr (x, ts1)" "eof_terminated ts1"
      show "safe_result (rbind (accept COMMA ts1) (\<lambda>(m, ts2).
          if m = None then Inr ([x], ts2)
          else rbind (loop ts2) (\<lambda>(xs, ts3). Inr (x # xs, ts3))))"
      proof (rule safe_rbind, rule safe_accept [OF ts1(2)], clarify)
        fix m ts2 assume ts2: "accept COMMA ts1 = Inr (m, ts2)" "eof_terminated ts2"
        have len: "length ts2 < length ts"
          using item_consumes [OF ts1(1)] accept_length [OF _ ts2(1)] by simp
        then have "safe_result (loop ts2)"
          using "1.IH" "1.prems"(1) ts2(2) by (meson less_imp_le order_trans)
        then show "safe_result (if m = None then Inr ([x], ts2)
            else rbind (loop ts2) (\<lambda>(xs, ts3). Inr (x # xs, ts3)))"
          using ts2(2) by (auto intro: safe_rbind)
      qed
    qed
  qed (use "1.prems" in auto)
qed

end

subsection \<open>Conditions and patterns of a select\<close>

text \<open>The argument loop of \<open>parse_condition\<close>.\<close>

function parse_args :: "string \<Rightarrow> token list \<Rightarrow> exn + string list \<times> token list" where
  "parse_args fn ts =
     rbind (cur_tok ts) (\<lambda>t.
       if tok_kind t = RPAREN then Inr ([], ts)
       else rbind (expect fn STRING ts) (\<lambda>(a, ts1).
            rbind (accept COMMA ts1) (\<lambda>(m, ts2).
              if m = None then Inr ([tok_value a], ts2)
              else rbind (parse_args fn ts2) (\<lambda>(as, ts3). Inr (tok_value a # as, ts3)))))"
  by pat_completeness auto
termination
  by (relation "measure (\<lambda>(fn, ts). length ts)") (auto simp: result_simps split: if_splits)

declare parse_args.simps [simp del]

interpretation args: comma_loop RPAREN
  "\<lambda>ts. rbind (expect fn STRING ts) (\<lambda>(a, ts1). Inr (tok_value a, ts1))" "parse_args fn" for fn
proof
  show "parse_args fn ts = comma_step RPAREN
      (\<lambda>ts. rbind (expect fn STRING ts) (\<lambda>(a, ts1). Inr (tok_value a, ts1))) (parse_args fn) ts"
    for ts
    unfolding comma_step_def
    by (subst parse_args.simps) (auto simp: rbind_assoc intro!: rbind_cong)
qed (auto simp: result_simps)

definition parse_condition ::
  "string \<Rightarrow> token list \<Rightarrow> exn + (string \<times> string list) \<times> token list" where
  "parse_condition fn ts =
     rbind (expect fn IDENT ts) (\<lambda>(f, ts1).
     rbind (expect fn LPAREN ts1) (\<lambda>(_, ts2).
     rbind (parse_args fn ts2) (\<lambda>(args, ts3).
     rbind (expect fn RPAREN ts3) (\<lambda>(_, ts4). Inr ((tok_value f, args), ts4)))))"

lemma parse_condition_length [consume]:
  "parse_condition fn ts = Inr (c, ts') \<Longrightarrow> length ts' < length ts"
  by (auto simp: parse_condition_def result_simps dest!: args.loop_length)

text \<open>The condition tuple of \<open>parse_select\<close>.\<close>

function parse_conditions ::
  "string \<Rightarrow> token list \<Rightarrow> exn + (string \<times> string list) list \<times> token list" where
  "parse_conditions fn ts =
     rbind (cur_tok ts) (\<lambda>t.
       if tok_kind t = RPAREN then Inr ([], ts)
       else rbind (parse_condition fn ts) (\<lambda>(c, ts1).
            rbind (accept COMMA ts1) (\<lambda>(m, ts2).
              if m = None then Inr ([c], ts2)
              else rbind (parse_conditions fn ts2) (\<lambda>(cs, ts3). Inr (c # cs, ts3)))))"
  by pat_completeness auto
termination
  by (relation "measure (\<lambda>(fn, ts). length ts)")
    (auto simp: result_simps split: if_splits dest!: parse_condition_length)

declare parse_conditions.simps [simp del]

interpretation conditions: comma_loop RPAREN "parse_condition fn" "parse_conditions fn" for fn
proof
  show "parse_conditions fn ts = comma_step RPAREN (parse_condition fn) (parse_conditions fn) ts"
    for ts
    unfolding comma_step_def by (rule parse_conditions.simps)
qed (rule parse_condition_length)

definition parse_single_pattern ::
  "string \<Rightarrow> token list \<Rightarrow> exn + (pattern \<times> string option) \<times> token list" where
  "parse_single_pattern fn ts =
     rbind (cur_tok ts) (\<lambda>t.
       if tok_kind t = STRING then
         rbind (advance ts) (\<lambda>(_, ts1). Inr ((PStr (tok_value t), None), ts1))
       else if tok_kind t = IDENT then
         rbind (advance ts) (\<lambda>(_, ts1).
         rbind (cur_tok ts1) (\<lambda>at.
         rbind (if tok_kind at = AT then
                  rbind (advance ts1) (\<lambda>(_, ts2).
                  rbind (expect fn IDENT ts2) (\<lambda>(b, ts3). Inr (Some (tok_value b), ts3)))
                else Inr (None, ts1)) (\<lambda>(binding, ts4).
           Inr ((if tok_value t = ''true'' then PBool True
                 else if tok_value t = ''false'' then PBool False
                 else if tok_value t = ''any'' then PAny
                 else if tok_value t = ''default'' then PDefault
                 else PStr (tok_value t), binding), ts4))))
       else Inl (parse_err fn ''expected a select pattern'' t))"

lemma parse_single_pattern_length [consume]:
  "parse_single_pattern fn ts = Inr (p, ts') \<Longrightarrow> length ts' < length ts"
  by (cases ts) (auto simp: parse_single_pattern_def result_simps split: if_splits)

text \<open>
  The pattern tuple of \<open>parse_case_patterns\<close>: the loop yields each pattern with its own
  binding, and a later binding replaces an earlier one (\<open>if b is not None: binding = b\<close>).
\<close>

function parse_patterns ::
  "string \<Rightarrow> token list \<Rightarrow> exn + (pattern \<times> string option) list \<times> token list"
where
  "parse_patterns fn ts =
     rbind (cur_tok ts) (\<lambda>t.
       if tok_kind t = RPAREN then Inr ([], ts)
       else rbind (parse_single_pattern fn ts) (\<lambda>(pb, ts1).
            rbind (accept COMMA ts1) (\<lambda>(m, ts2).
              if m = None then Inr ([pb], ts2)
              else rbind (parse_patterns fn ts2) (\<lambda>(pbs, ts3). Inr (pb # pbs, ts3)))))"
  by pat_completeness auto
termination
  by (relation "measure (\<lambda>(fn, ts). length ts)")
    (auto simp: result_simps split: if_splits dest!: parse_single_pattern_length)

declare parse_patterns.simps [simp del]

definition last_binding :: "(pattern \<times> string option) list \<Rightarrow> string option" where
  "last_binding pbs = foldl (\<lambda>binding (p, b). if b \<noteq> None then b else binding) None pbs"

interpretation patterns: comma_loop RPAREN "parse_single_pattern fn" "parse_patterns fn" for fn
proof
  show "parse_patterns fn ts = comma_step RPAREN (parse_single_pattern fn) (parse_patterns fn) ts"
    for ts
    unfolding comma_step_def by (rule parse_patterns.simps)
qed (rule parse_single_pattern_length)

definition parse_case_patterns ::
  "string \<Rightarrow> token list \<Rightarrow> exn + (pattern list \<times> string option) \<times> token list" where
  "parse_case_patterns fn ts =
     rbind (cur_tok ts) (\<lambda>t.
       if tok_kind t = LPAREN then
         rbind (advance ts) (\<lambda>(_, ts1).
         rbind (parse_patterns fn ts1) (\<lambda>(pbs, ts2).
         rbind (expect fn RPAREN ts2) (\<lambda>(_, ts3).
           Inr ((map fst pbs, last_binding pbs), ts3))))
       else rbind (parse_single_pattern fn ts) (\<lambda>((p, b), ts1). Inr (([p], b), ts1)))"

lemma parse_case_patterns_length [consume]:
  "parse_case_patterns fn ts = Inr (p, ts') \<Longrightarrow> length ts' < length ts"
  by (cases ts) (auto simp: parse_case_patterns_def result_simps split: if_splits
      dest!: patterns.loop_length parse_single_pattern_length)

subsection \<open>Expressions\<close>

text \<open>
  \<open>parse_plus\<close>, \<open>parse_items\<close>, \<open>parse_entries\<close> and \<open>parse_cases\<close> are the loops of
  \<open>parse_expr\<close>, \<open>parse_list\<close>, \<open>parse_map\<close> and \<open>parse_select_cases\<close>. The parameter
  \<open>n_conds\<close>, which no method reads, is left out.
\<close>

definition parse_select_conditions ::
  "string \<Rightarrow> token list \<Rightarrow> exn + (string \<times> string list) list \<times> token list" where
  "parse_select_conditions fn ts =
     rbind (cur_tok ts) (\<lambda>t.
       if tok_kind t = LPAREN then
         rbind (advance ts) (\<lambda>(_, ts1).
         rbind (parse_conditions fn ts1) (\<lambda>(cs, ts2).
         rbind (expect fn RPAREN ts2) (\<lambda>(_, ts3). Inr (cs, ts3))))
       else rbind (parse_condition fn ts) (\<lambda>(c, ts1). Inr ([c], ts1)))"

lemma parse_select_conditions_length [consume]:
  "parse_select_conditions fn ts = Inr (cs, ts') \<Longrightarrow> length ts' < length ts"
  by (cases ts) (auto simp: parse_select_conditions_def result_simps split: if_splits
      dest!: conditions.loop_length parse_condition_length)

definition starts_select :: "token \<Rightarrow> token list \<Rightarrow> exn + bool" where
  "starts_select t ts =
     (if tok_value t = ''select''
      then rbind (cur_tok (tl ts)) (\<lambda>u. Inr (tok_kind u = LPAREN)) else Inr False)"

function (sequential)
  parse_expr :: "string \<Rightarrow> token list \<Rightarrow> exn + expr \<times> token list" and
  parse_plus :: "string \<Rightarrow> expr \<Rightarrow> token list \<Rightarrow> exn + expr \<times> token list" and
  parse_operand :: "string \<Rightarrow> token list \<Rightarrow> exn + expr \<times> token list" and
  parse_list :: "string \<Rightarrow> token list \<Rightarrow> exn + expr \<times> token list" and
  parse_items :: "string \<Rightarrow> token list \<Rightarrow> exn + expr list \<times> token list" and
  parse_map :: "string \<Rightarrow> token list \<Rightarrow> exn + ((string \<times> expr) list \<times> nat) \<times> token list" and
  parse_entries :: "string \<Rightarrow> token list \<Rightarrow> exn + (string \<times> expr) list \<times> token list" and
  parse_select :: "string \<Rightarrow> token list \<Rightarrow> exn + expr \<times> token list" and
  parse_select_cases :: "string \<Rightarrow> token list \<Rightarrow> exn + select_case list \<times> token list" and
  parse_cases :: "string \<Rightarrow> token list \<Rightarrow> exn + select_case list \<times> token list"
where
  "parse_expr fn ts =
     rbind (parse_operand fn ts) (\<lambda>(left, ts1). parse_plus fn left ts1)"
| "parse_plus fn left ts =
     rbind (cur_tok ts) (\<lambda>t.
       if tok_kind t = PLUS then
         rbind (advance ts) (\<lambda>(plus, ts1).
         rbind (parse_operand fn ts1) (\<lambda>(right, ts2).
           parse_plus fn (Concat left right (tok_line plus)) ts2))
       else Inr (left, ts))"
| "parse_operand fn ts =
     rbind (cur_tok ts) (\<lambda>t.
       if tok_kind t = STRING then
         rbind (advance ts) (\<lambda>(_, ts1). Inr (StringLit (tok_value t) (tok_line t), ts1))
       else if tok_kind t = NUMBER then
         rbind (advance ts) (\<lambda>(_, ts1).
         rbind (int_of_str (tok_value t)) (\<lambda>i. Inr (IntLit i (tok_line t), ts1)))
       else if tok_kind t = LBRACK then parse_list fn ts
       else if tok_kind t = LBRACE then
         rbind (parse_map fn ts) (\<lambda>(m, ts1). Inr (MapExpr (fst m) (snd m), ts1))
       else if tok_kind t = IDENT then
         rbind (starts_select t ts) (\<lambda>sel.
           if sel then parse_select fn ts
           else rbind (advance ts) (\<lambda>(_, ts1).
             Inr (if tok_value t = ''true'' then BoolLit True (tok_line t)
                  else if tok_value t = ''false'' then BoolLit False (tok_line t)
                  else VarRef (tok_value t) (tok_line t), ts1)))
       else Inl (parse_err fn ''expected a value'' t))"
| "parse_list fn ts =
     rbind (expect fn LBRACK ts) (\<lambda>(lb, ts1).
     rbind (parse_items fn ts1) (\<lambda>(items, ts2).
     rbind (expect fn RBRACK ts2) (\<lambda>(_, ts3). Inr (ListExpr items (tok_line lb), ts3))))"
| "parse_items fn ts =
     rbind (cur_tok ts) (\<lambda>t.
       if tok_kind t = RBRACK then Inr ([], ts)
       else rbind (parse_expr fn ts) (\<lambda>(e, ts1).
            rbind (accept COMMA ts1) (\<lambda>(m, ts2).
              if m = None then Inr ([e], ts2)
              else rbind (parse_items fn ts2) (\<lambda>(es, ts3). Inr (e # es, ts3)))))"
| "parse_map fn ts =
     rbind (expect fn LBRACE ts) (\<lambda>(lb, ts1).
     rbind (parse_entries fn ts1) (\<lambda>(es, ts2).
     rbind (expect fn RBRACE ts2) (\<lambda>(_, ts3). Inr ((es, tok_line lb), ts3))))"
| "parse_entries fn ts =
     rbind (cur_tok ts) (\<lambda>t.
       if tok_kind t = RBRACE then Inr ([], ts)
       else rbind (expect fn IDENT ts) (\<lambda>(key, ts1).
            rbind (expect fn COLON ts1) (\<lambda>(_, ts2).
            rbind (parse_expr fn ts2) (\<lambda>(e, ts3).
            rbind (accept COMMA ts3) (\<lambda>(m, ts4).
              if m = None then Inr ([(tok_value key, e)], ts4)
              else rbind (parse_entries fn ts4) (\<lambda>(es, ts5). Inr ((tok_value key, e) # es, ts5)))))))"
| "parse_select fn ts =
     rbind (expect fn IDENT ts) (\<lambda>(kw, ts1).
     rbind (expect fn LPAREN ts1) (\<lambda>(_, ts2).
     rbind (parse_select_conditions fn ts2) (\<lambda>(conds, ts6).
     rbind (expect fn COMMA ts6) (\<lambda>(_, ts7).
     rbind (parse_select_cases fn ts7) (\<lambda>(cases, ts8).
     rbind (accept COMMA ts8) (\<lambda>(_, ts9).
     rbind (expect fn RPAREN ts9) (\<lambda>(_, ts10).
       Inr (Select conds cases (tok_line kw), ts10))))))))"
| "parse_select_cases fn ts =
     rbind (expect fn LBRACE ts) (\<lambda>(_, ts1).
     rbind (parse_cases fn ts1) (\<lambda>(cases, ts2).
     rbind (expect fn RBRACE ts2) (\<lambda>(_, ts3). Inr (cases, ts3))))"
| "parse_cases fn ts =
     rbind (cur_tok ts) (\<lambda>t.
       if tok_kind t = RBRACE then Inr ([], ts)
       else rbind (parse_case_patterns fn ts) (\<lambda>(pb, ts1).
            rbind (expect fn COLON ts1) (\<lambda>(_, ts2).
            rbind (parse_expr fn ts2) (\<lambda>(e, ts3).
            let case1 = SelectCase (fst pb) e (snd pb) (expr_line e) in
            rbind (accept COMMA ts3) (\<lambda>(m, ts4).
              if m = None then Inr ([case1], ts4)
              else rbind (parse_cases fn ts4) (\<lambda>(cases, ts5). Inr (case1 # cases, ts5)))))))"
  by pat_completeness auto

text \<open>
  Termination. The calls that follow another call (the operands after a plus, the elements
  after a comma) get a shorter list only because the earlier call consumed something, so
  consumption is proved first, on the domain of the recursion.
\<close>

abbreviation parse_dom where
  "parse_dom \<equiv> parse_expr_parse_plus_parse_operand_parse_list_parse_items_parse_map_parse_entries_parse_select_parse_select_cases_parse_cases_dom"

lemmas parse_pinduct =
  parse_expr_parse_plus_parse_operand_parse_list_parse_items_parse_map_parse_entries_parse_select_parse_select_cases_parse_cases.pinduct

lemma parse_consumes_dom:
  "parse_dom (Inl (Inl (Inl (fn1, ts1)))) \<Longrightarrow>
     (\<forall>r ts'. parse_expr fn1 ts1 = Inr (r, ts') \<longrightarrow> length ts' < length ts1)"
  "parse_dom (Inl (Inl (Inr (fn2, l2, ts2)))) \<Longrightarrow>
     (\<forall>r ts'. parse_plus fn2 l2 ts2 = Inr (r, ts') \<longrightarrow> length ts' \<le> length ts2)"
  "parse_dom (Inl (Inr (Inl (fn3, ts3)))) \<Longrightarrow>
     (\<forall>r ts'. parse_operand fn3 ts3 = Inr (r, ts') \<longrightarrow> length ts' < length ts3)"
  "parse_dom (Inl (Inr (Inr (Inl (fn4, ts4))))) \<Longrightarrow>
     (\<forall>r ts'. parse_list fn4 ts4 = Inr (r, ts') \<longrightarrow> length ts' < length ts4)"
  "parse_dom (Inl (Inr (Inr (Inr (fn5, ts5))))) \<Longrightarrow>
     (\<forall>r ts'. parse_items fn5 ts5 = Inr (r, ts') \<longrightarrow> length ts' \<le> length ts5)"
  "parse_dom (Inr (Inl (Inl (fn6, ts6)))) \<Longrightarrow>
     (\<forall>r ts'. parse_map fn6 ts6 = Inr (r, ts') \<longrightarrow> length ts' < length ts6)"
  "parse_dom (Inr (Inl (Inr (fn7, ts7)))) \<Longrightarrow>
     (\<forall>r ts'. parse_entries fn7 ts7 = Inr (r, ts') \<longrightarrow> length ts' \<le> length ts7)"
  "parse_dom (Inr (Inr (Inl (fn8, ts8)))) \<Longrightarrow>
     (\<forall>r ts'. parse_select fn8 ts8 = Inr (r, ts') \<longrightarrow> length ts' < length ts8)"
  "parse_dom (Inr (Inr (Inr (Inl (fn9, ts9))))) \<Longrightarrow>
     (\<forall>r ts'. parse_select_cases fn9 ts9 = Inr (r, ts') \<longrightarrow> length ts' < length ts9)"
  "parse_dom (Inr (Inr (Inr (Inr (fn10, ts10))))) \<Longrightarrow>
     (\<forall>r ts'. parse_cases fn10 ts10 = Inr (r, ts') \<longrightarrow> length ts' \<le> length ts10)"
proof (induction fn1 ts1 and fn2 l2 ts2 and fn3 ts3 and fn4 ts4 and fn5 ts5 and fn6 ts6
    and fn7 ts7 and fn8 ts8 and fn9 ts9 and fn10 ts10 rule: parse_pinduct)
  case (1 fn ts)
  then show ?case by (fastforce simp: parse_expr.psimps result_simps)
next
  case (2 fn left ts)
  then show ?case by (fastforce simp: parse_plus.psimps result_simps split: if_splits)
next
  case (3 fn ts)
  then show ?case by (fastforce simp: parse_operand.psimps result_simps split: if_splits)
next
  case (4 fn ts)
  then show ?case by (fastforce simp: parse_list.psimps result_simps)
next
  case (5 fn ts)
  then show ?case by (fastforce simp: parse_items.psimps result_simps split: if_splits)
next
  case (6 fn ts)
  then show ?case by (fastforce simp: parse_map.psimps result_simps)
next
  case (7 fn ts)
  then show ?case by (fastforce simp: parse_entries.psimps result_simps split: if_splits)
next
  case (8 fn ts)
  then show ?case
    by (fastforce simp: parse_select.psimps result_simps split: if_splits
        dest: parse_select_conditions_length)
next
  case (9 fn ts)
  then show ?case by (fastforce simp: parse_select_cases.psimps result_simps)
next
  case (10 fn ts)
  then show ?case
    by (fastforce simp: parse_cases.psimps result_simps Let_def split: if_splits
        dest: parse_case_patterns_length)
qed

lemma parse_total: "All parse_dom"
  by (relation "measure (\<lambda>x. case x of
        Inl (Inl (Inl (fn, ts))) \<Rightarrow> 4 * length ts + 2
      | Inl (Inl (Inr (fn, l, ts))) \<Rightarrow> 4 * length ts
      | Inl (Inr (Inl (fn, ts))) \<Rightarrow> 4 * length ts + 1
      | Inl (Inr (Inr (Inl (fn, ts)))) \<Rightarrow> 4 * length ts
      | Inl (Inr (Inr (Inr (fn, ts)))) \<Rightarrow> 4 * length ts + 3
      | Inr (Inl (Inl (fn, ts))) \<Rightarrow> 4 * length ts
      | Inr (Inl (Inr (fn, ts))) \<Rightarrow> 4 * length ts
      | Inr (Inr (Inl (fn, ts))) \<Rightarrow> 4 * length ts
      | Inr (Inr (Inr (Inl (fn, ts)))) \<Rightarrow> 4 * length ts
      | Inr (Inr (Inr (Inr (fn, ts)))) \<Rightarrow> 4 * length ts)")
    (auto simp: result_simps split: if_splits
      dest: parse_consumes_dom(1,3) [rule_format] parse_select_conditions_length
        parse_case_patterns_length,
     fastforce dest: parse_consumes_dom(1) [rule_format] parse_case_patterns_length)

termination parse_expr
  by (rule parse_total)

lemmas parse_simps =
  parse_expr.simps parse_plus.simps parse_operand.simps parse_list.simps parse_items.simps
  parse_map.simps parse_entries.simps parse_select.simps parse_select_cases.simps
  parse_cases.simps

declare parse_simps [simp del]

lemma parse_consumes [consume]:
  "parse_expr fn ts = Inr (e, ts') \<Longrightarrow> length ts' < length ts"
  "parse_plus fn left ts = Inr (e, ts') \<Longrightarrow> length ts' \<le> length ts"
  "parse_operand fn ts = Inr (e, ts') \<Longrightarrow> length ts' < length ts"
  "parse_map fn ts = Inr (m, ts') \<Longrightarrow> length ts' < length ts"
  using parse_consumes_dom(1,2,3,6) [OF parse_total [THEN spec], rule_format] by simp_all

subsection \<open>Statements and files\<close>

definition statement_msg :: string where
  "statement_msg = ''expected '' @ quoted ''='' @ '', '' @ quoted ''+='' @ '' or '' @ quoted ''{''
     @ '' after identifier''"

definition parse_statement :: "string \<Rightarrow> token list \<Rightarrow> exn + statement \<times> token list" where
  "parse_statement fn ts =
     rbind (cur_tok ts) (\<lambda>t.
       if tok_kind t \<noteq> IDENT then
         Inl (parse_err fn ''expected a module type or variable name'' t)
       else rbind (advance ts) (\<lambda>(name, ts1).
         rbind (cur_tok ts1) (\<lambda>op.
           if tok_kind op = EQUALS \<or> tok_kind op = PLUSEQ then
             rbind (advance ts1) (\<lambda>(op', ts2).
             rbind (parse_expr fn ts2) (\<lambda>(e, ts3).
               Inr (Assignment (tok_value name) e (tok_kind op' = PLUSEQ) (tok_line name), ts3)))
           else if tok_kind op = LBRACE then
             rbind (parse_map fn ts1) (\<lambda>(m, ts2).
               Inr (ModuleDef (tok_value name) (fst m) (snd m) (tok_line name), ts2))
           else Inl (parse_err fn statement_msg name))))"

lemma parse_statement_length [consume]:
  "parse_statement fn ts = Inr (s, ts') \<Longrightarrow> length ts' < length ts"
  by (cases ts) (auto simp: parse_statement_def result_simps split: if_splits dest!: parse_consumes)

text \<open>The loop of \<open>parse_file\<close>.\<close>

function parse_statements :: "string \<Rightarrow> token list \<Rightarrow> exn + statement list" where
  "parse_statements fn ts =
     rbind (cur_tok ts) (\<lambda>t.
       if tok_kind t = EOF then Inr []
       else rbind (parse_statement fn ts) (\<lambda>(s, ts1).
            rbind (parse_statements fn ts1) (\<lambda>ss. Inr (s # ss))))"
  by pat_completeness auto
termination
  by (relation "measure (\<lambda>(fn, ts). length ts)") (auto dest: parse_statement_length)

declare parse_statements.simps [simp del]

definition parse_file :: "string \<Rightarrow> token list \<Rightarrow> exn + bp_file" where
  "parse_file fn ts =
     rbind (parse_statements fn ts) (\<lambda>ss. Inr \<lparr>bp_path = fn, bp_statements = ss\<rparr>)"

definition parse_text :: "string \<Rightarrow> string \<Rightarrow> exn + bp_file" where
  "parse_text text fn = rbind (tokenize text fn) (parse_file fn)"

end
