(* ===== verification/BpGrammar.thy ===== *)
theory BpGrammar
  imports BpParser
begin

section \<open>The Blueprint grammar and the parser's correctness\<close>

text \<open>
  The language that \<open>parser.py\<close> describes in its header, as derivations over token lists:
  \<open>g_expr e us\<close> says that the tokens \<open>us\<close> are an expression whose tree is \<open>e\<close>, and so on for
  the other nonterminals. The parser of \<open>BpParser\<close> is proved sound and complete for it, safe
  on every stream of the scanner, and to read back every printed file.
\<close>

subsection \<open>The loops of the expression parser\<close>

abbreviation entry_item :: "string \<Rightarrow> token list \<Rightarrow> exn + (string \<times> expr) \<times> token list" where
  "entry_item fn ts \<equiv>
     rbind (expect fn IDENT ts) (\<lambda>(key, ts1).
     rbind (expect fn COLON ts1) (\<lambda>(_, ts2).
     rbind (parse_expr fn ts2) (\<lambda>(e, ts3). Inr ((tok_value key, e), ts3))))"

abbreviation case_item :: "string \<Rightarrow> token list \<Rightarrow> exn + select_case \<times> token list" where
  "case_item fn ts \<equiv>
     rbind (parse_case_patterns fn ts) (\<lambda>(pb, ts1).
     rbind (expect fn COLON ts1) (\<lambda>(_, ts2).
     rbind (parse_expr fn ts2) (\<lambda>(e, ts3).
       Inr (SelectCase (fst pb) e (snd pb) (expr_line e), ts3))))"

interpretation items: comma_loop RBRACK "parse_expr fn" "parse_items fn" for fn
proof
  show "parse_items fn ts = comma_step RBRACK (parse_expr fn) (parse_items fn) ts" for ts
    unfolding comma_step_def by (rule parse_items.simps)
qed (rule parse_consumes)

interpretation entries: comma_loop RBRACE "entry_item fn" "parse_entries fn" for fn
proof
  show "parse_entries fn ts = comma_step RBRACE (entry_item fn) (parse_entries fn) ts" for ts
    unfolding comma_step_def
    by (subst parse_entries.simps) (auto simp: rbind_assoc intro!: rbind_cong)
qed (auto simp: result_simps dest!: parse_consumes)

interpretation cases: comma_loop RBRACE "case_item fn" "parse_cases fn" for fn
proof
  show "parse_cases fn ts = comma_step RBRACE (case_item fn) (parse_cases fn) ts" for ts
    unfolding comma_step_def Let_def
    by (subst parse_cases.simps) (auto simp: rbind_assoc Let_def intro!: rbind_cong)
qed (auto simp: result_simps dest!: parse_consumes parse_case_patterns_length)

subsection \<open>The grammar\<close>

text \<open>One token of a kind, and a bracketed sequence.\<close>

definition g_token :: "token_kind \<Rightarrow> string \<Rightarrow> token list \<Rightarrow> bool" where
  "g_token k v us = (\<exists>t. us = [t] \<and> tok_kind t = k \<and> tok_value t = v)"

definition g_condition :: "string \<times> string list \<Rightarrow> token list \<Rightarrow> bool" where
  "g_condition c us = (\<exists>f lp vs rp. us = f # lp # vs @ [rp] \<and> tok_kind f = IDENT
     \<and> tok_value f = fst c \<and> tok_kind lp = LPAREN \<and> tok_kind rp = RPAREN
     \<and> comma_list (g_token STRING) (snd c) vs)"

definition g_conditions :: "(string \<times> string list) list \<Rightarrow> token list \<Rightarrow> bool" where
  "g_conditions cs us = ((\<exists>c. cs = [c] \<and> g_condition c us)
     \<or> (\<exists>lp vs rp. us = lp # vs @ [rp] \<and> tok_kind lp = LPAREN \<and> tok_kind rp = RPAREN
          \<and> comma_list g_condition cs vs))"

definition ident_pattern :: "string \<Rightarrow> pattern" where
  "ident_pattern v = (if v = ''true'' then PBool True
                 else if v = ''false'' then PBool False
                 else if v = ''any'' then PAny
                 else if v = ''default'' then PDefault
                 else PStr v)"

definition g_pattern :: "pattern \<times> string option \<Rightarrow> token list \<Rightarrow> bool" where
  "g_pattern pb us = (
     (\<exists>v. pb = (PStr v, None) \<and> g_token STRING v us)
   \<or> (\<exists>v. pb = (ident_pattern v, None) \<and> g_token IDENT v us)
   \<or> (\<exists>p at b. us = [p, at, b] \<and> tok_kind p = IDENT \<and> tok_kind at = AT \<and> tok_kind b = IDENT
        \<and> pb = (ident_pattern (tok_value p), Some (tok_value b))))"

definition g_case_patterns :: "pattern list \<times> string option \<Rightarrow> token list \<Rightarrow> bool" where
  "g_case_patterns psb us = (
     (\<exists>p b. psb = ([p], b) \<and> g_pattern (p, b) us)
   \<or> (\<exists>lp vs rp pbs. us = lp # vs @ [rp] \<and> tok_kind lp = LPAREN \<and> tok_kind rp = RPAREN
        \<and> comma_list g_pattern pbs vs \<and> psb = (map fst pbs, last_binding pbs)))"

definition ident_expr :: "token \<Rightarrow> expr" where
  "ident_expr t = (if tok_value t = ''true'' then BoolLit True (tok_line t)
                   else if tok_value t = ''false'' then BoolLit False (tok_line t)
                   else VarRef (tok_value t) (tok_line t))"

inductive g_operand :: "expr \<Rightarrow> token list \<Rightarrow> bool" and g_expr :: "expr \<Rightarrow> token list \<Rightarrow> bool" where
  str: "tok_kind t = STRING \<Longrightarrow> g_operand (StringLit (tok_value t) (tok_line t)) [t]"
| num: "tok_kind t = NUMBER \<Longrightarrow> int_of_str (tok_value t) = Inr i \<Longrightarrow>
    g_operand (IntLit i (tok_line t)) [t]"
| ident: "tok_kind t = IDENT \<Longrightarrow> g_operand (ident_expr t) [t]"
| list: "tok_kind lb = LBRACK \<Longrightarrow> comma_list g_expr es us \<Longrightarrow> tok_kind rb = RBRACK \<Longrightarrow>
    g_operand (ListExpr es (tok_line lb)) (lb # us @ [rb])"
| map: "tok_kind lb = LBRACE \<Longrightarrow>
    comma_list (\<lambda>ke ws. \<exists>key col vs. ws = key # col # vs \<and> tok_kind key = IDENT
      \<and> tok_kind col = COLON \<and> tok_value key = fst ke \<and> g_expr (snd ke) vs) es us \<Longrightarrow>
    tok_kind rb = RBRACE \<Longrightarrow> g_operand (MapExpr es (tok_line lb)) (lb # us @ [rb])"
| select: "tok_kind kw = IDENT \<Longrightarrow> tok_value kw = ''select'' \<Longrightarrow> tok_kind lp = LPAREN \<Longrightarrow>
    g_conditions conds cus \<Longrightarrow> tok_kind c = COMMA \<Longrightarrow> tok_kind lb = LBRACE \<Longrightarrow>
    comma_list (\<lambda>sc ws. \<exists>ps e b pus col vs. ws = pus @ col # vs \<and> sc = SelectCase ps e b (expr_line e)
      \<and> g_case_patterns (ps, b) pus \<and> tok_kind col = COLON \<and> g_expr e vs) scs us \<Longrightarrow>
    tok_kind rb = RBRACE \<Longrightarrow> oc = [] \<or> (\<exists>c'. oc = [c'] \<and> tok_kind c' = COMMA) \<Longrightarrow>
    tok_kind rp = RPAREN \<Longrightarrow>
    g_operand (Select conds scs (tok_line kw)) (kw # lp # cus @ c # lb # us @ rb # oc @ [rp])"
| operand: "g_operand e us \<Longrightarrow> g_expr e us"
| plus: "g_expr l us \<Longrightarrow> tok_kind p = PLUS \<Longrightarrow> g_operand r vs \<Longrightarrow>
    g_expr (Concat l r (tok_line p)) (us @ p # vs)"

abbreviation g_entry :: "string \<times> expr \<Rightarrow> token list \<Rightarrow> bool" where
  "g_entry ke ws \<equiv> \<exists>key col vs. ws = key # col # vs \<and> tok_kind key = IDENT
      \<and> tok_kind col = COLON \<and> tok_value key = fst ke \<and> g_expr (snd ke) vs"

abbreviation g_case :: "select_case \<Rightarrow> token list \<Rightarrow> bool" where
  "g_case sc ws \<equiv> \<exists>ps e b pus col vs. ws = pus @ col # vs \<and> sc = SelectCase ps e b (expr_line e)
      \<and> g_case_patterns (ps, b) pus \<and> tok_kind col = COLON \<and> g_expr e vs"

text \<open>Statements: assignments and modules, one after another up to the end marker.\<close>

definition g_statement :: "statement \<Rightarrow> token list \<Rightarrow> bool" where
  "g_statement s us = (
     (\<exists>x op e vs. us = x # op # vs \<and> tok_kind x = IDENT
        \<and> (tok_kind op = EQUALS \<or> tok_kind op = PLUSEQ) \<and> g_expr e vs
        \<and> s = Assignment (tok_value x) e (tok_kind op = PLUSEQ) (tok_line x))
   \<or> (\<exists>x lb es vs rb. us = x # lb # vs @ [rb] \<and> tok_kind x = IDENT \<and> tok_kind lb = LBRACE
        \<and> tok_kind rb = RBRACE \<and> comma_list g_entry es vs
        \<and> s = ModuleDef (tok_value x) es (tok_line lb) (tok_line x)))"

inductive g_file :: "statement list \<Rightarrow> token list \<Rightarrow> bool" where
  none: "g_file [] []"
| more: "g_statement s us \<Longrightarrow> g_file ss vs \<Longrightarrow> g_file (s # ss) (us @ vs)"


subsection \<open>Conditions and patterns\<close>

lemma g_token_iff [simp]: "g_token k v us \<longleftrightarrow> (\<exists>t. us = [t] \<and> tok_kind t = k \<and> tok_value t = v)"
  by (simp add: g_token_def)

lemma parse_args_sound:
  "parse_args fn ts = Inr (xs, ts') \<Longrightarrow> \<exists>us. ts = us @ ts' \<and> comma_list (g_token STRING) xs us"
  by (rule args.loop_sound [where fn = fn]) (auto simp: result_simps)

lemma parse_args_complete:
  "comma_list (g_token STRING) xs us \<Longrightarrow> tok_kind rp = RPAREN \<Longrightarrow>
   parse_args fn (us @ rp # rest) = Inr (xs, rp # rest)"
  by (rule args.loop_complete [where fn = fn and P = "g_token STRING"])
    (auto simp: expect_def)

lemma parse_condition_sound:
  assumes "parse_condition fn ts = Inr (c, ts')"
  shows "\<exists>us. ts = us @ ts' \<and> g_condition c us"
proof -
  from assms obtain f lp ts2 xs rp where ts: "ts = f # lp # ts2" "tok_kind f = IDENT"
      "tok_kind lp = LPAREN" and xs: "parse_args fn ts2 = Inr (xs, rp # ts')"
      and rp: "tok_kind rp = RPAREN" and c: "c = (tok_value f, xs)"
    by (auto simp: parse_condition_def result_simps)
  from parse_args_sound [OF xs] obtain vs where "ts2 = vs @ rp # ts'"
    "comma_list (g_token STRING) xs vs" by blast
  with ts rp c show ?thesis
    by (intro exI [of _ "f # lp # vs @ [rp]"]) (auto simp: g_condition_def)
qed

lemma parse_condition_complete:
  "g_condition c us \<Longrightarrow> parse_condition fn (us @ rest) = Inr (c, rest)"
  by (auto simp: g_condition_def parse_condition_def expect_def parse_args_complete)

lemma g_condition_first: "g_condition c us \<Longrightarrow> us \<noteq> [] \<and> tok_kind (hd us) = IDENT"
  by (auto simp: g_condition_def)

lemma parse_select_conditions_sound:
  assumes "parse_select_conditions fn ts = Inr (cs, ts')"
  shows "\<exists>us. ts = us @ ts' \<and> g_conditions cs us"
proof (cases "tok_kind (hd ts) = LPAREN")
  case True
  with assms obtain lp ts1 rp where ts: "ts = lp # ts1" "tok_kind lp = LPAREN"
    and cs: "parse_conditions fn ts1 = Inr (cs, rp # ts')" and rp: "tok_kind rp = RPAREN"
    by (auto simp: parse_select_conditions_def result_simps split: if_splits)
  obtain vs where "ts1 = vs @ rp # ts'" "comma_list g_condition cs vs"
    using conditions.loop_sound [OF _ cs, of g_condition] parse_condition_sound by blast
  with ts rp show ?thesis
    by (intro exI [of _ "lp # vs @ [rp]"]) (auto simp: g_conditions_def)
next
  case False
  with assms obtain c where "cs = [c]" "parse_condition fn ts = Inr (c, ts')"
    by (auto simp: parse_select_conditions_def result_simps split: if_splits)
  then show ?thesis using parse_condition_sound by (fastforce simp: g_conditions_def)
qed

lemma parse_select_conditions_complete:
  assumes "g_conditions cs us"
  shows "parse_select_conditions fn (us @ rest) = Inr (cs, rest)"
  using assms unfolding g_conditions_def
proof (elim disjE exE conjE)
  fix c assume c: "cs = [c]" "g_condition c us"
  then obtain t vs where "us = t # vs" "tok_kind t = IDENT"
    using g_condition_first [of c us] by (cases us) auto
  with c parse_condition_complete [of c us fn rest] show ?thesis
    by (auto simp: parse_select_conditions_def)
next
  fix lp vs rp
  assume us: "us = lp # vs @ [rp]" "tok_kind lp = LPAREN" "tok_kind rp = RPAREN"
    "comma_list g_condition cs vs"
  have "parse_conditions fn (vs @ rp # rest) = Inr (cs, rp # rest)"
    by (rule conditions.loop_complete [OF us(4,3)])
      (auto dest: g_condition_first parse_condition_complete)
  with us show ?thesis by (simp add: parse_select_conditions_def expect_def)
qed

lemma parse_single_pattern_Inr:
  "parse_single_pattern fn ts = Inr (pb, ts') \<longleftrightarrow>
     (\<exists>t r. ts = t # r \<and>
       (tok_kind t = STRING \<and> pb = (PStr (tok_value t), None) \<and> ts' = r
      \<or> tok_kind t = IDENT \<and> (\<exists>u r'. r = u # r' \<and>
          (if tok_kind u = AT
           then \<exists>b. r' = b # ts' \<and> tok_kind b = IDENT
                  \<and> pb = (ident_pattern (tok_value t), Some (tok_value b))
           else pb = (ident_pattern (tok_value t), None) \<and> ts' = r))))"
  unfolding parse_single_pattern_def ident_pattern_def [symmetric]
  by (cases ts) (auto simp: result_simps)

lemma parse_single_pattern_sound:
  assumes "parse_single_pattern fn ts = Inr (pb, ts')"
  shows "\<exists>us. ts = us @ ts' \<and> g_pattern pb us"
proof -
  from assms consider
      (str) t where "ts = [t] @ ts'" "tok_kind t = STRING" "pb = (PStr (tok_value t), None)"
    | (bound) t u b where "ts = [t, u, b] @ ts'" "tok_kind t = IDENT" "tok_kind u = AT"
        "tok_kind b = IDENT" "pb = (ident_pattern (tok_value t), Some (tok_value b))"
    | (free) t where "ts = [t] @ ts'" "tok_kind t = IDENT"
        "pb = (ident_pattern (tok_value t), None)"
    unfolding parse_single_pattern_Inr by (auto split: if_splits)
  then show ?thesis
  proof cases
    case str
    then show ?thesis unfolding g_pattern_def g_token_def by blast
  next
    case bound
    then show ?thesis unfolding g_pattern_def by blast
  next
    case free
    then show ?thesis unfolding g_pattern_def g_token_def by blast
  qed
qed

lemma parse_single_pattern_complete:
  "g_pattern pb us \<Longrightarrow> tok_kind t \<noteq> AT \<Longrightarrow>
   parse_single_pattern fn (us @ t # rest) = Inr (pb, t # rest)"
  by (auto simp: g_pattern_def parse_single_pattern_Inr)

lemma g_pattern_first: "g_pattern pb us \<Longrightarrow> us \<noteq> [] \<and> tok_kind (hd us) \<in> {STRING, IDENT}"
  by (auto simp: g_pattern_def)

lemma parse_case_patterns_sound:
  assumes "parse_case_patterns fn ts = Inr (psb, ts')"
  shows "\<exists>us. ts = us @ ts' \<and> g_case_patterns psb us"
proof (cases "tok_kind (hd ts) = LPAREN")
  case True
  with assms obtain lp ts1 rp pbs where ts: "ts = lp # ts1" "tok_kind lp = LPAREN"
    and pbs: "parse_patterns fn ts1 = Inr (pbs, rp # ts')" and rp: "tok_kind rp = RPAREN"
    and psb: "psb = (map fst pbs, last_binding pbs)"
    by (auto simp: parse_case_patterns_def result_simps split: if_splits)
  obtain vs where "ts1 = vs @ rp # ts'" "comma_list g_pattern pbs vs"
    using patterns.loop_sound [OF _ pbs, of g_pattern] parse_single_pattern_sound by blast
  with ts rp psb show ?thesis
    by (intro exI [of _ "lp # vs @ [rp]"]) (auto simp: g_case_patterns_def)
next
  case False
  with assms obtain p b where "psb = ([p], b)" "parse_single_pattern fn ts = Inr ((p, b), ts')"
    by (auto simp: parse_case_patterns_def result_simps split: if_splits)
  then show ?thesis using parse_single_pattern_sound by (fastforce simp: g_case_patterns_def)
qed

lemma parse_case_patterns_complete:
  assumes "g_case_patterns psb us" and "tok_kind t \<noteq> AT"
  shows "parse_case_patterns fn (us @ t # rest) = Inr (psb, t # rest)"
  using assms(1) unfolding g_case_patterns_def
proof (elim disjE exE conjE)
  fix p b assume p: "psb = ([p], b)" "g_pattern (p, b) us"
  then obtain u vs where "us = u # vs" "tok_kind u \<in> {STRING, IDENT}"
    using g_pattern_first [of "(p, b)" us] by (cases us) auto
  with p parse_single_pattern_complete [OF p(2) assms(2), of fn rest] show ?thesis
    by (auto simp: parse_case_patterns_def)
next
  fix lp vs rp pbs
  assume us: "us = lp # vs @ [rp]" "tok_kind lp = LPAREN" "tok_kind rp = RPAREN"
    "comma_list g_pattern pbs vs" "psb = (map fst pbs, last_binding pbs)"
  have "parse_patterns fn (vs @ rp # t # rest) = Inr (pbs, rp # t # rest)"
    by (rule patterns.loop_complete [OF us(4,3)])
      (auto simp: parse_single_pattern_complete dest: g_pattern_first)
  with us show ?thesis by (simp add: parse_case_patterns_def expect_def)
qed

lemma g_case_patterns_first:
  "g_case_patterns psb us \<Longrightarrow> us \<noteq> [] \<and> tok_kind (hd us) \<in> {STRING, IDENT, LPAREN}"
  by (auto simp: g_case_patterns_def dest: g_pattern_first)


subsection \<open>Soundness: what is parsed is derivable\<close>

lemma parse_operand_cases:
  assumes "parse_operand fn ts = Inr (e, ts')"
  obtains (str) t where "ts = t # ts'" "tok_kind t = STRING" "e = StringLit (tok_value t) (tok_line t)"
  | (num) t i where "ts = t # ts'" "tok_kind t = NUMBER" "int_of_str (tok_value t) = Inr i"
      "e = IntLit i (tok_line t)"
  | (list) "parse_list fn ts = Inr (e, ts')"
  | (map) es l where "parse_map fn ts = Inr ((es, l), ts')" "e = MapExpr es l"
  | (sel) t where "hd ts = t" "tok_value t = ''select''" "parse_select fn ts = Inr (e, ts')"
  | (ident) t where "ts = t # ts'" "tok_kind t = IDENT" "e = ident_expr t"
  using assms unfolding parse_operand.simps [of fn ts] ident_expr_def [symmetric]
  by (auto simp: result_simps starts_select_def ident_expr_def [symmetric] split: if_splits)

lemma parse_list_Inr:
  "parse_list fn ts = Inr (e, ts') \<longleftrightarrow> (\<exists>lb ts1 es rb. ts = lb # ts1 \<and> tok_kind lb = LBRACK
     \<and> parse_items fn ts1 = Inr (es, rb # ts') \<and> tok_kind rb = RBRACK \<and> e = ListExpr es (tok_line lb))"
  unfolding parse_list.simps [of fn ts] by (auto simp: result_simps)

lemma parse_map_Inr:
  "parse_map fn ts = Inr (m, ts') \<longleftrightarrow> (\<exists>lb ts1 es rb. ts = lb # ts1 \<and> tok_kind lb = LBRACE
     \<and> parse_entries fn ts1 = Inr (es, rb # ts') \<and> tok_kind rb = RBRACE \<and> m = (es, tok_line lb))"
  unfolding parse_map.simps [of fn ts] by (auto simp: result_simps)

lemma parse_select_cases_Inr:
  "parse_select_cases fn ts = Inr (cs, ts') \<longleftrightarrow> (\<exists>lb ts1 rb. ts = lb # ts1 \<and> tok_kind lb = LBRACE
     \<and> parse_cases fn ts1 = Inr (cs, rb # ts') \<and> tok_kind rb = RBRACE)"
  unfolding parse_select_cases.simps [of fn ts] by (auto simp: result_simps)

lemma parse_select_Inr:
  assumes "parse_select fn ts = Inr (e, ts')"
  obtains kw lp ts2 conds c ts7 scs ts8 oc rp where
    "ts = kw # lp # ts2" "tok_kind kw = IDENT" "tok_kind lp = LPAREN"
    "parse_select_conditions fn ts2 = Inr (conds, c # ts7)" "tok_kind c = COMMA"
    "parse_select_cases fn ts7 = Inr (scs, ts8)" "ts8 = oc @ rp # ts'"
    "oc = [] \<or> (\<exists>c'. oc = [c'] \<and> tok_kind c' = COMMA)" "tok_kind rp = RPAREN"
    "e = Select conds scs (tok_line kw)"
proof -
  from assms obtain kw lp ts2 conds c ts7 scs ts8 m ts9 rp where
    a: "ts = kw # lp # ts2" "tok_kind kw = IDENT" "tok_kind lp = LPAREN"
    "parse_select_conditions fn ts2 = Inr (conds, c # ts7)" "tok_kind c = COMMA"
    "parse_select_cases fn ts7 = Inr (scs, ts8)" "tok_kind rp = RPAREN"
    "e = Select conds scs (tok_line kw)" and acc: "accept COMMA ts8 = Inr (m, rp # ts')"
    unfolding parse_select.simps [of fn ts] by (auto simp: result_simps)
  from acc consider "ts8 = [] @ rp # ts'" | c' where "ts8 = [c'] @ rp # ts'" "tok_kind c' = COMMA"
    by (auto simp: result_simps split: if_splits)
  then show thesis using that a by cases blast+
qed

lemma parse_plus_sound:
  assumes "\<And>ts0 x ts1. length ts0 < n \<Longrightarrow> parse_operand fn ts0 = Inr (x, ts1) \<Longrightarrow>
      \<exists>us. ts0 = us @ ts1 \<and> g_operand x us"
    and "parse_plus fn l ts = Inr (e, ts')" and "length ts \<le> n" and "g_expr l pre"
  shows "\<exists>us. ts = us @ ts' \<and> g_expr e (pre @ us)"
  using assms(2-)
proof (induction ts arbitrary: l pre rule: length_induct)
  case (1 ts)
  from "1.prems"(1) obtain t r where ts: "ts = t # r"
    unfolding parse_plus.simps [of fn l ts] by (auto simp: result_simps)
  show ?case
  proof (cases "tok_kind t = PLUS")
    case True
    with "1.prems"(1) ts obtain x ts2 where x: "parse_operand fn r = Inr (x, ts2)"
      and rest: "parse_plus fn (Concat l x (tok_line t)) ts2 = Inr (e, ts')"
      unfolding parse_plus.simps [of fn l ts] by (auto simp: result_simps)
    obtain vs where vs: "r = vs @ ts2" "g_operand x vs" using assms(1) [OF _ x] ts "1.prems"(2) by auto
    have "g_expr (Concat l x (tok_line t)) (pre @ t # vs)"
      using "1.prems"(3) True vs(2) by (rule g_operand_g_expr.plus)
    moreover have "length ts2 < length ts" "length ts2 \<le> n" using ts vs "1.prems"(2) by simp_all
    ultimately have "\<exists>us. ts2 = us @ ts' \<and> g_expr e ((pre @ t # vs) @ us)"
      using "1.IH" rest by blast
    then show ?thesis using ts vs by auto
  next
    case False
    with "1.prems" ts have "e = l" "ts' = ts"
      unfolding parse_plus.simps [of fn l ts] by auto
    then show ?thesis using "1.prems"(3) by auto
  qed
qed

lemma parse_sound:
  "(parse_operand fn ts = Inr (e, ts') \<longrightarrow> (\<exists>us. ts = us @ ts' \<and> g_operand e us))
   \<and> (parse_expr fn ts = Inr (e, ts') \<longrightarrow> (\<exists>us. ts = us @ ts' \<and> g_expr e us))"
proof (induction ts arbitrary: e ts' rule: length_induct)
  case (1 ts)
  have sub: "\<exists>us. ts0 = us @ ts1 \<and> g_expr x us"
    if "length ts0 < length ts" "parse_expr fn ts0 = Inr (x, ts1)" for ts0 x ts1
    using "1.IH" that by blast
  have operand: "\<exists>us. ts = us @ ts' \<and> g_operand e us" if "parse_operand fn ts = Inr (e, ts')" for e ts'
    using that
  proof (cases rule: parse_operand_cases)
    case (str t)
    then show ?thesis using g_operand_g_expr.str by (intro exI [of _ "[t]"]) auto
  next
    case (num t i)
    then show ?thesis using g_operand_g_expr.num by (intro exI [of _ "[t]"]) auto
  next
    case list
    then obtain lb ts1 es rb where ts: "ts = lb # ts1" "tok_kind lb = LBRACK"
      "tok_kind rb = RBRACK" "e = ListExpr es (tok_line lb)"
      and es: "parse_items fn ts1 = Inr (es, rb # ts')"
      unfolding parse_list_Inr by blast
    obtain us where us: "ts1 = us @ rb # ts'" "comma_list g_expr es us"
      using items.loop_sound [OF _ es, of g_expr] sub ts by auto
    show ?thesis
      using g_operand_g_expr.list [OF ts(2) us(2) ts(3)] ts us by (intro exI [of _ "lb # us @ [rb]"]) simp
  next
    case (map es l)
    then obtain lb ts1 rb where ts: "ts = lb # ts1" "tok_kind lb = LBRACE"
      "tok_kind rb = RBRACE" "e = MapExpr es (tok_line lb)"
      and es: "parse_entries fn ts1 = Inr (es, rb # ts')"
      unfolding parse_map_Inr by blast
    have entry: "\<exists>us. ts0 = us @ ts2 \<and> g_entry x us"
      if len: "length ts0 \<le> length ts1" and run: "entry_item fn ts0 = Inr (x, ts2)" for ts0 x ts2
    proof -
      from run obtain key col ts3 e' where "ts0 = key # col # ts3" "tok_kind key = IDENT"
        "tok_kind col = COLON" "parse_expr fn ts3 = Inr (e', ts2)" "x = (tok_value key, e')"
        by (auto simp: result_simps)
      moreover from this len ts obtain vs where "ts3 = vs @ ts2" "g_expr e' vs"
        using sub [of ts3 e' ts2] by auto
      ultimately show ?thesis by (intro exI [of _ "key # col # vs"]) auto
    qed
    obtain us where us: "ts1 = us @ rb # ts'" "comma_list g_entry es us"
      using entries.loop_sound [OF _ es, of g_entry] entry by blast
    show ?thesis
      using g_operand_g_expr.map [OF ts(2) us(2) ts(3)] ts us by (intro exI [of _ "lb # us @ [rb]"]) simp
  next
    case (sel t)
    from sel(3) show ?thesis
    proof (cases rule: parse_select_Inr)
      case (1 kw lp ts2 conds c ts7 scs ts8 oc rp)
      from 1(4) obtain cus where cus: "ts2 = cus @ c # ts7" "g_conditions conds cus"
        using parse_select_conditions_sound by blast
      from 1(6) obtain lb ts3 rb where lb: "ts7 = lb # ts3" "tok_kind lb = LBRACE"
        "tok_kind rb = RBRACE" and scs: "parse_cases fn ts3 = Inr (scs, rb # ts8)"
        unfolding parse_select_cases_Inr by blast
      have gcase: "\<exists>us. ts0 = us @ tsx \<and> g_case x us"
        if len: "length ts0 \<le> length ts3" and run: "case_item fn ts0 = Inr (x, tsx)" for ts0 x tsx
      proof -
        from run obtain ps b col tsy e' where p: "parse_case_patterns fn ts0 = Inr ((ps, b), col # tsy)"
          "tok_kind col = COLON" "parse_expr fn tsy = Inr (e', tsx)"
          "x = SelectCase ps e' b (expr_line e')"
          by (auto simp: result_simps)
        moreover obtain pus where "ts0 = pus @ col # tsy" "g_case_patterns (ps, b) pus"
          using parse_case_patterns_sound [OF p(1)] by blast
        moreover from this len lb cus 1(1) obtain vs where "tsy = vs @ tsx" "g_expr e' vs"
          using sub [OF _ p(3)] by auto
        ultimately show ?thesis by (intro exI [of _ "pus @ col # vs"]) auto
      qed
      obtain us where us: "ts3 = us @ rb # ts8" "comma_list g_case scs us"
        using cases.loop_sound [OF _ scs, of g_case] gcase by blast
      have "tok_value kw = ''select''" using sel 1(1) by simp
      from g_operand_g_expr.select [OF 1(2) this 1(3) cus(2) 1(5) lb(2) us(2) lb(3) 1(8,9)]
      show ?thesis using 1(1,7,10) cus lb us by auto
    qed
  next
    case (ident t)
    then show ?thesis using g_operand_g_expr.ident by (intro exI [of _ "[t]"]) auto
  qed
  have expr: "\<exists>us. ts = us @ ts' \<and> g_expr e us" if "parse_expr fn ts = Inr (e, ts')" for e ts'
  proof -
    from that obtain l ts1 where l: "parse_operand fn ts = Inr (l, ts1)"
      and p: "parse_plus fn l ts1 = Inr (e, ts')"
      unfolding parse_expr.simps [of fn ts] by (auto simp: result_simps)
    from operand [OF l] obtain pre where pre: "ts = pre @ ts1" "g_operand l pre" by blast
    have ops: "\<exists>us. ts0 = us @ ts1 \<and> g_operand x us"
      if "length ts0 < length ts" "parse_operand fn ts0 = Inr (x, ts1)" for ts0 x ts1
      using "1.IH" that by blast
    have "\<exists>us. ts1 = us @ ts' \<and> g_expr e (pre @ us)"
      by (rule parse_plus_sound [OF ops p _ g_operand_g_expr.operand [OF pre(2)]]) (use pre in auto)
    then show ?thesis using pre by auto
  qed
  from operand expr show ?case by blast
qed

lemmas parse_operand_sound = parse_sound [THEN conjunct1, rule_format]
lemmas parse_expr_sound = parse_sound [THEN conjunct2, rule_format]


subsection \<open>Completeness: what is derivable is parsed\<close>

abbreviation value_start :: "token \<Rightarrow> bool" where
  "value_start t \<equiv> tok_kind t \<in> {STRING, NUMBER, IDENT, LBRACK, LBRACE}"

lemma g_first:
  "g_operand e us \<Longrightarrow> us \<noteq> [] \<and> value_start (hd us)"
  "g_expr e us \<Longrightarrow> us \<noteq> [] \<and> value_start (hd us)"
  by (induction rule: g_operand_g_expr.inducts) auto

lemma starts_select_no:
  "tok_kind u \<noteq> LPAREN \<Longrightarrow> starts_select t (t # u # r) = Inr False"
  by (simp add: starts_select_def)

lemma parse_plus_stop: "tok_kind t \<noteq> PLUS \<Longrightarrow> parse_plus fn e (t # r) = Inr (e, t # r)"
  by (simp add: parse_plus.simps)

lemma parse_complete:
  "g_operand e us \<Longrightarrow> \<forall>t r. tok_kind t \<noteq> LPAREN \<longrightarrow> parse_operand fn (us @ t # r) = Inr (e, t # r)"
  "g_expr e us \<Longrightarrow> \<forall>t r. tok_kind t \<noteq> LPAREN \<longrightarrow> parse_expr fn (us @ t # r) = parse_plus fn e (t # r)"
proof (induction rule: g_operand_g_expr.inducts)
  case (str t)
  then show ?case by (simp add: parse_operand.simps)
next
  case (num t i)
  then show ?case by (simp add: parse_operand.simps)
next
  case (ident t)
  then show ?case by (simp add: parse_operand.simps starts_select_no ident_expr_def)
next
  case (list lb es us rb)
  have "parse_items fn (us @ rb # t # r) = Inr (es, rb # t # r)" for t r
    by (rule items.loop_complete [OF list.IH list.hyps(2)])
      (auto simp: parse_plus_stop dest: g_first)
  with list show ?case by (simp add: parse_operand.simps parse_list.simps expect_def)
next
  case (map lb es us rb)
  have "parse_entries fn (us @ rb # t # r) = Inr (es, rb # t # r)" for t r
    by (rule entries.loop_complete [OF map.IH map.hyps(2)])
      (auto simp: parse_plus_stop expect_def)
  with map show ?case by (simp add: parse_operand.simps parse_map.simps expect_def)
next
  case (select kw lp conds cus c lb scs us rb oc rp)
  have cs: "parse_cases fn (us @ rb # t # r) = Inr (scs, rb # t # r)" for t r
    by (rule cases.loop_complete [OF select.IH select.hyps(7)])
      (auto simp: parse_plus_stop expect_def parse_case_patterns_complete dest: g_case_patterns_first)
  show ?case
  proof (intro allI impI)
    fix t r
    have acc: "\<exists>m. accept COMMA (oc @ rp # t # r) = Inr (m, rp # t # r)"
      using select.hyps(8,9) by (auto simp: accept_def)
    have "parse_select fn ((kw # lp # cus @ c # lb # us @ rb # oc @ [rp]) @ t # r)
      = Inr (Select conds scs (tok_line kw), t # r)"
      using select.hyps acc cs [of "hd (oc @ rp # t # r)" "tl (oc @ rp # t # r)"]
        parse_select_conditions_complete [OF select.hyps(4)]
      by (auto simp: parse_select.simps parse_select_cases.simps expect_def)
    then show "parse_operand fn ((kw # lp # cus @ c # lb # us @ rb # oc @ [rp]) @ t # r)
      = Inr (Select conds scs (tok_line kw), t # r)"
      using select.hyps(1,2,3) by (simp add: parse_operand.simps starts_select_def)
  qed
next
  case (operand e us)
  then show ?case by (simp add: parse_expr.simps)
next
  case (plus l us p r vs)
  then show ?case by (simp add: parse_plus.simps [of fn l "p # x" for x])
qed

lemma parse_expr_complete:
  "g_expr e us \<Longrightarrow> tok_kind t \<noteq> LPAREN \<Longrightarrow> tok_kind t \<noteq> PLUS \<Longrightarrow>
   parse_expr fn (us @ t # r) = Inr (e, t # r)"
  using parse_complete(2) by (simp add: parse_plus_stop)

subsection \<open>Statements and files\<close>

lemma parse_statement_sound:
  assumes "parse_statement fn ts = Inr (s, ts')"
  shows "\<exists>us. ts = us @ ts' \<and> g_statement s us"
proof -
  from assms consider
    (assign) x op ts2 e where "ts = x # op # ts2" "tok_kind x = IDENT"
      "tok_kind op = EQUALS \<or> tok_kind op = PLUSEQ" "parse_expr fn ts2 = Inr (e, ts')"
      "s = Assignment (tok_value x) e (tok_kind op = PLUSEQ) (tok_line x)"
  | (module) x ts1 m where "ts = x # ts1" "tok_kind x = IDENT" "parse_map fn ts1 = Inr (m, ts')"
      "s = ModuleDef (tok_value x) (fst m) (snd m) (tok_line x)"
    by (auto simp: parse_statement_def result_simps split: if_splits)
  then show ?thesis
  proof cases
    case assign
    from parse_expr_sound [OF assign(4)] obtain vs where "ts2 = vs @ ts'" "g_expr e vs" by blast
    then show ?thesis using assign by (intro exI [of _ "x # op # vs"]) (auto simp: g_statement_def)
  next
    case module
    from module(3) obtain lb ts2 es rb where lb: "ts1 = lb # ts2" "tok_kind lb = LBRACE"
      "tok_kind rb = RBRACE" "m = (es, tok_line lb)" and "parse_entries fn ts2 = Inr (es, rb # ts')"
      unfolding parse_map_Inr by blast
    then have "parse_operand fn ts1 = Inr (MapExpr es (tok_line lb), ts')"
      by (simp add: parse_operand.simps parse_map_Inr expect_def parse_map.simps)
    from parse_operand_sound [OF this] obtain us where us: "ts1 = us @ ts'"
      "g_operand (MapExpr es (tok_line lb)) us" by blast
    from us(2) obtain lb' vs rb' where "us = lb' # vs @ [rb']" "tok_kind lb' = LBRACE"
      "tok_kind rb' = RBRACE" "comma_list g_entry es vs" "tok_line lb' = tok_line lb"
      by (cases rule: g_operand.cases) (auto simp: ident_expr_def split: if_splits)
    with us(1) module(1,2,4) lb(4) show ?thesis
      by (intro exI [of _ "x # us"]) (auto simp: g_statement_def)
  qed
qed


lemma parse_statement_complete:
  assumes "g_statement s us" and t: "tok_kind t \<noteq> LPAREN" "tok_kind t \<noteq> PLUS"
  shows "parse_statement fn (us @ t # r) = Inr (s, t # r)"
proof -
  from assms(1) consider
    (assign) x op e vs where "us = x # op # vs" "tok_kind x = IDENT" "g_expr e vs"
      "tok_kind op = EQUALS \<or> tok_kind op = PLUSEQ"
      "s = Assignment (tok_value x) e (tok_kind op = PLUSEQ) (tok_line x)"
  | (module) x lb es vs rb where "us = x # lb # vs @ [rb]" "tok_kind x = IDENT"
      "tok_kind lb = LBRACE" "tok_kind rb = RBRACE" "comma_list g_entry es vs"
      "s = ModuleDef (tok_value x) es (tok_line lb) (tok_line x)"
    unfolding g_statement_def by blast
  then show ?thesis
  proof cases
    case assign
    then show ?thesis using parse_expr_complete [of e vs t fn r] t by (auto simp: parse_statement_def)
  next
    case module
    have "parse_operand fn ((lb # vs @ [rb]) @ t # r) = Inr (MapExpr es (tok_line lb), t # r)"
      using parse_complete(1) [OF g_operand_g_expr.map [OF module(3,5,4)]] t by blast
    then have "parse_map fn (lb # vs @ rb # t # r) = Inr ((es, tok_line lb), t # r)"
      using module(3) by (auto simp: parse_operand.simps result_simps)
    then show ?thesis using module by (simp add: parse_statement_def)
  qed
qed

lemma g_statement_first: "g_statement s us \<Longrightarrow> us \<noteq> [] \<and> tok_kind (hd us) = IDENT"
  by (auto simp: g_statement_def)

lemma g_file_first: "g_file ss us \<Longrightarrow> us = [] \<or> tok_kind (hd us) = IDENT"
  by (induction rule: g_file.induct) (auto dest: g_statement_first)

lemma parse_statements_sound:
  "parse_statements fn ts = Inr ss \<Longrightarrow> \<exists>us t r. ts = us @ t # r \<and> tok_kind t = EOF \<and> g_file ss us"
proof (induction ts arbitrary: ss rule: length_induct)
  case (1 ts)
  from "1.prems" obtain t r where ts: "ts = t # r"
    unfolding parse_statements.simps [of fn ts] by (auto simp: result_simps)
  show ?case
  proof (cases "tok_kind t = EOF")
    case True
    with "1.prems" ts have "ss = []" unfolding parse_statements.simps [of fn ts] by simp
    with True ts show ?thesis by (intro exI [of _ "[]"]) (auto intro: g_file.none)
  next
    case False
    with "1.prems" ts obtain s ts1 ss' where s: "parse_statement fn ts = Inr (s, ts1)"
      and rest: "parse_statements fn ts1 = Inr ss'" and ss: "ss = s # ss'"
      unfolding parse_statements.simps [of fn ts] by (auto simp: result_simps)
    have "length ts1 < length ts" using s by (rule parse_statement_length)
    then obtain vs u r' where "ts1 = vs @ u # r'" "tok_kind u = EOF" "g_file ss' vs"
      using "1.IH" rest by blast
    moreover obtain us where "ts = us @ ts1" "g_statement s us" using parse_statement_sound [OF s] by blast
    ultimately show ?thesis using ss by (intro exI [of _ "us @ vs"]) (auto intro: g_file.more)
  qed
qed

lemma parse_statements_complete:
  assumes "g_file ss us" and "tok_kind t = EOF"
  shows "parse_statements fn (us @ [t]) = Inr ss"
  using assms(1)
proof induction
  case none
  then show ?case using assms(2) by (simp add: parse_statements.simps)
next
  case (more s us ss vs)
  obtain u us' where us: "us = u # us'" "tok_kind u = IDENT"
    using g_statement_first [OF more(1)] by (cases us) auto
  obtain v r where v: "vs @ [t] = v # r" "tok_kind v = IDENT \<or> tok_kind v = EOF"
    using g_file_first [OF more(2)] assms(2) by (cases vs) auto
  have "parse_statement fn ((us @ vs) @ [t]) = Inr (s, vs @ [t])"
    using parse_statement_complete [OF more(1), of v fn r] v by auto
  then show ?case using us more by (simp add: parse_statements.simps [of fn "u # x" for x])
qed

lemma parse_file_iff_grammar:
  assumes "eof_terminated ts"
  shows "parse_file fn ts = Inr bp \<longleftrightarrow>
    bp_path bp = fn \<and> (\<exists>us. ts = us @ [last ts] \<and> g_file (bp_statements bp) us)"
proof -
  have last: "tok_kind (last ts) = EOF" using assms by (simp add: eof_terminated_def)
  have "parse_statements fn ts = Inr ss \<longleftrightarrow> (\<exists>us. ts = us @ [last ts] \<and> g_file ss us)" for ss
  proof
    assume "parse_statements fn ts = Inr ss"
    then obtain us t r where ts: "ts = us @ t # r" "tok_kind t = EOF" "g_file ss us"
      using parse_statements_sound by blast
    have "r = []"
    proof (rule ccontr)
      assume "r \<noteq> []"
      then have "t \<in> set (butlast ts)" using ts by (simp add: butlast_append)
      then show False using assms ts(2) by (auto simp: eof_terminated_def)
    qed
    then show "\<exists>us. ts = us @ [last ts] \<and> g_file ss us" using ts by auto
  next
    assume "\<exists>us. ts = us @ [last ts] \<and> g_file ss us"
    then show "parse_statements fn ts = Inr ss" using parse_statements_complete last by metis
  qed
  then show ?thesis
    by (cases bp) (auto simp: parse_file_def result_simps)
qed

subsection \<open>Safety on the scanner's streams\<close>

lemma eof_terminated_Cons_iff:
  "eof_terminated (t # r) \<longleftrightarrow> (if tok_kind t = EOF then r = [] else eof_terminated r)"
  by (cases r) (auto simp: eof_terminated_def)

lemma safe_starts_select:
  "eof_terminated (t # r) \<Longrightarrow> tok_kind t \<noteq> EOF \<Longrightarrow>
   (\<And>b. starts_select t (t # r) = Inr b \<Longrightarrow> safe_result (f b)) \<Longrightarrow>
   safe_result (rbind (starts_select t (t # r)) f)"
  using eof_terminated_Cons [of t r] by (cases r) (auto simp: starts_select_def eof_terminated_def)

lemma safe_int_of_str:
  "(\<And>i. int_of_str v = Inr i \<Longrightarrow> safe_result (f i)) \<Longrightarrow> safe_result (rbind (int_of_str v) f)"
  by (cases "int_of_str v") (auto simp: int_of_str_def Let_def split: if_splits)

lemmas safe_rules =
  safe_rbind safe_cur_tok safe_expect safe_accept safe_starts_select safe_int_of_str

lemma safe_condition: "eof_terminated ts \<Longrightarrow> safe_result (parse_condition fn ts)"
  unfolding parse_condition_def
  by (auto intro!: safe_rules args.loop_safe)

lemma safe_pattern: "eof_terminated ts \<Longrightarrow> safe_result (parse_single_pattern fn ts)"
  unfolding parse_single_pattern_def ident_pattern_def [symmetric]
  by (auto intro!: safe_rules simp: parse_err_def simp: eof_terminated_Cons_iff)

lemma safe_select_conditions: "eof_terminated ts \<Longrightarrow> safe_result (parse_select_conditions fn ts)"
  unfolding parse_select_conditions_def
  by (auto intro!: safe_rules conditions.loop_safe safe_condition simp: eof_terminated_Cons_iff)

lemma safe_case_patterns: "eof_terminated ts \<Longrightarrow> safe_result (parse_case_patterns fn ts)"
  unfolding parse_case_patterns_def
  by (auto intro!: safe_rules patterns.loop_safe safe_pattern simp: eof_terminated_Cons_iff)


lemma parse_safe:
  "eof_terminated ts1 \<longrightarrow> safe_result (parse_expr fn1 ts1)"
  "eof_terminated ts2 \<longrightarrow> safe_result (parse_plus fn2 l2 ts2)"
  "eof_terminated ts3 \<longrightarrow> safe_result (parse_operand fn3 ts3)"
  "eof_terminated ts4 \<longrightarrow> safe_result (parse_list fn4 ts4)"
  "eof_terminated ts5 \<longrightarrow> safe_result (parse_items fn5 ts5)"
  "eof_terminated ts6 \<longrightarrow> safe_result (parse_map fn6 ts6)"
  "eof_terminated ts7 \<longrightarrow> safe_result (parse_entries fn7 ts7)"
  "eof_terminated ts8 \<longrightarrow> safe_result (parse_select fn8 ts8)"
  "eof_terminated ts9 \<longrightarrow> safe_result (parse_select_cases fn9 ts9)"
  "eof_terminated ts10 \<longrightarrow> safe_result (parse_cases fn10 ts10)"
proof (induction fn1 ts1 and fn2 l2 ts2 and fn3 ts3 and fn4 ts4 and fn5 ts5 and fn6 ts6
    and fn7 ts7 and fn8 ts8 and fn9 ts9 and fn10 ts10 rule: parse_expr_parse_plus_parse_operand_parse_list_parse_items_parse_map_parse_entries_parse_select_parse_select_cases_parse_cases.induct)
  case (1 fn ts)
  then show ?case by (subst parse_expr.simps) (auto intro!: safe_rules)
next
  case (2 fn left ts)
  then show ?case
    by (subst parse_plus.simps) (auto intro!: safe_rules simp: eof_terminated_Cons_iff)
next
  case (3 fn ts)
  then show ?case
    by (subst parse_operand.simps)
      (auto intro!: safe_rules simp: eof_terminated_Cons_iff parse_err_def)
next
  case (4 fn ts)
  then show ?case by (subst parse_list.simps) (auto intro!: safe_rules)
next
  case (5 fn ts)
  then show ?case by (subst parse_items.simps) (auto intro!: safe_rules)
next
  case (6 fn ts)
  then show ?case by (subst parse_map.simps) (auto intro!: safe_rules)
next
  case (7 fn ts)
  then show ?case by (subst parse_entries.simps) (auto intro!: safe_rules)
next
  case (8 fn ts)
  then show ?case
    by (subst parse_select.simps) (auto intro!: safe_rules safe_select_conditions)
next
  case (9 fn ts)
  then show ?case by (subst parse_select_cases.simps) (auto intro!: safe_rules)
next
  case (10 fn ts)
  then show ?case
    by (subst parse_cases.simps) (auto intro!: safe_rules safe_case_patterns simp: Let_def)
qed

lemma safe_statement: "eof_terminated ts \<Longrightarrow> safe_result (parse_statement fn ts)"
  unfolding parse_statement_def
  by (auto intro!: safe_rules parse_safe [rule_format] simp: eof_terminated_Cons_iff parse_err_def)

lemma parse_statements_safe:
  "eof_terminated ts \<Longrightarrow> parse_statements fn ts = Inl e \<Longrightarrow> syntax_exn e"
proof (induction ts rule: length_induct)
  case (1 ts)
  then obtain t r where ts: "ts = t # r" by (cases ts) (auto simp: eof_terminated_def)
  with "1.prems"(2) have "tok_kind t \<noteq> EOF"
    and "parse_statement fn ts = Inl e
      \<or> (\<exists>s ts1. parse_statement fn ts = Inr (s, ts1) \<and> parse_statements fn ts1 = Inl e)"
    unfolding parse_statements.simps [of fn ts] by (auto simp: result_simps split: if_splits)
  then show ?case
    using safe_statement [OF "1.prems"(1), of fn] "1.IH" parse_statement_length by fastforce
qed


subsection \<open>Printing\<close>

text \<open>
  A printer in the style of \<open>bpfmt\<close> (a comma after every element), as the kinds and values
  of the tokens. \<open>printable\<close> says which trees have a source form: identifiers are identifiers,
  a concatenation leans to the left as the parser builds it, and a binding has a pattern to
  stand behind.
\<close>

fun pp_pattern :: "pattern \<Rightarrow> token_kind \<times> string" where
  "pp_pattern (PStr s) = (STRING, s)"
| "pp_pattern (PBool b) = (IDENT, if b then ''true'' else ''false'')"
| "pp_pattern PAny = (IDENT, ''any'')"
| "pp_pattern PDefault = (IDENT, ''default'')"

abbreviation is_word :: "pattern \<Rightarrow> bool" where
  "is_word p \<equiv> fst (pp_pattern p) = IDENT"

fun pp_patterns :: "string option \<Rightarrow> pattern list \<Rightarrow> (token_kind \<times> string) list" where
  "pp_patterns b [] = []"
| "pp_patterns b (p # ps) =
     (if b \<noteq> None \<and> is_word p
      then [pp_pattern p, (AT, ''@''), (IDENT, the b), (COMMA, '','')] @ pp_patterns None ps
      else [pp_pattern p, (COMMA, '','')] @ pp_patterns b ps)"

definition pp_condition :: "string \<times> string list \<Rightarrow> (token_kind \<times> string) list" where
  "pp_condition c = [(IDENT, fst c), (LPAREN, ''('')]
     @ concat (map (\<lambda>a. [(STRING, a), (COMMA, '','')]) (snd c)) @ [(RPAREN, '')'')]"

fun pp_expr :: "expr \<Rightarrow> (token_kind \<times> string) list"
and pp_case :: "select_case \<Rightarrow> (token_kind \<times> string) list" where
  "pp_expr (StringLit s _) = [(STRING, s)]"
| "pp_expr (BoolLit b _) = [(IDENT, if b then ''true'' else ''false'')]"
| "pp_expr (IntLit i _) = [(NUMBER, int_str i)]"
| "pp_expr (VarRef x _) = [(IDENT, x)]"
| "pp_expr (ListExpr es _) =
     (LBRACK, ''['') # concat (map (\<lambda>e. pp_expr e @ [(COMMA, '','')]) es) @ [(RBRACK, '']'')]"
| "pp_expr (MapExpr es _) =
     (LBRACE, ''{'') # concat (map (\<lambda>(k, e). [(IDENT, k), (COLON, '':'')] @ pp_expr e @ [(COMMA, '','')]) es)
       @ [(RBRACE, ''}'')]"
| "pp_expr (Concat a b _) = pp_expr a @ [(PLUS, ''+'')] @ pp_expr b"
| "pp_expr (Select cs as _) =
     [(IDENT, ''select''), (LPAREN, ''(''), (LPAREN, ''('')]
     @ concat (map (\<lambda>c. pp_condition c @ [(COMMA, '','')]) cs)
     @ [(RPAREN, '')''), (COMMA, '',''), (LBRACE, ''{'')]
     @ concat (map (\<lambda>a. pp_case a @ [(COMMA, '','')]) as)
     @ [(RBRACE, ''}''), (RPAREN, '')'')]"
| "pp_case (SelectCase ps e b _) =
     [(LPAREN, ''('')] @ pp_patterns b ps @ [(RPAREN, '')''), (COLON, '':'')] @ pp_expr e"

fun pp_statement :: "statement \<Rightarrow> (token_kind \<times> string) list" where
  "pp_statement (Assignment x e a _) =
     [(IDENT, x), if a then (PLUSEQ, ''+='') else (EQUALS, ''='')] @ pp_expr e"
| "pp_statement (ModuleDef t es _ _) = (IDENT, t) # pp_expr (MapExpr es 0)"

definition pp_file :: "statement list \<Rightarrow> string" where
  "pp_file ss = render (concat (map pp_statement ss))"

fun is_concat :: "expr \<Rightarrow> bool" where
  "is_concat (Concat _ _ _) = True"
| "is_concat _ = False"

abbreviation is_ident :: "string \<Rightarrow> bool" where
  "is_ident x \<equiv> token_ok IDENT x"

fun printable :: "expr \<Rightarrow> bool" and printable_case :: "select_case \<Rightarrow> bool" where
  "printable (StringLit _ _) = True"
| "printable (BoolLit _ _) = True"
| "printable (IntLit _ _) = True"
| "printable (VarRef x _) = (is_ident x \<and> x \<noteq> ''true'' \<and> x \<noteq> ''false'')"
| "printable (ListExpr es _) = list_all printable es"
| "printable (MapExpr es _) = list_all (\<lambda>(k, e). is_ident k \<and> printable e) es"
| "printable (Concat a b _) = (printable a \<and> printable b \<and> \<not> is_concat b)"
| "printable (Select cs as _) =
     (list_all (\<lambda>c. is_ident (fst c)) cs \<and> list_all printable_case as)"
| "printable_case (SelectCase ps e b _) = (printable e
     \<and> (b = None \<or> is_ident (the b) \<and> list_ex is_word ps))"

fun printable_statement :: "statement \<Rightarrow> bool" where
  "printable_statement (Assignment x e _ _) = (is_ident x \<and> printable e)"
| "printable_statement (ModuleDef t es _ _) = (is_ident t \<and> printable (MapExpr es 0))"

subsection \<open>Numbers\<close>

lemma code_point_char_of: "n < 256 \<Longrightarrow> code_point (char_of n) = n"
  by (simp add: code_point_def)

lemma nat_str_decimal: "nat_str n \<noteq> [] \<and> list_all is_decimal (nat_str n) \<and> digits_value (nat_str n) = n"
proof (induction n rule: nat_str.induct)
  case (1 n)
  have d: "m < 10 \<Longrightarrow> code_point (char_of (48 + m)) = 48 + m" for m
    by (rule code_point_char_of) simp
  show ?case
  proof (cases "n < 10")
    case True
    then show ?thesis using d by (simp add: nat_str.simps [of n] is_decimal_def digits_value_def)
  next
    case False
    with 1 d [of "n mod 10"] show ?thesis
      by (simp add: nat_str.simps [of n] is_decimal_def) (simp add: digits_value_def)
  qed
qed

lemma minus_not_decimal [simp]: "\<not> is_decimal (CHR ''-'')"
  by (simp add: is_decimal_def code_point_def)

lemma hd_nat_str: "hd (nat_str n) \<noteq> CHR ''-''"
proof -
  have "is_decimal (hd (nat_str n))" using nat_str_decimal [of n] by (cases "nat_str n") auto
  then show ?thesis by auto
qed

lemma int_of_str_int_str: "int_of_str (int_str i) = Inr i"
  using nat_str_decimal [of "nat i"] nat_str_decimal [of "nat (- i)"] hd_nat_str [of "nat i"]
  by (simp add: int_of_str_def int_str_def Let_def)

lemma int_str_token: "token_ok NUMBER (int_str i)"
proof -
  have dig: "list_all is_decimal v \<Longrightarrow> list_all is_digit v" for v
    by (auto simp: list_all_iff is_decimal_is_digit)
  show ?thesis
    using nat_str_decimal [of "nat i"] nat_str_decimal [of "nat (- i)"] hd_nat_str [of "nat i"]
    by (simp add: int_str_def Let_def dig)
qed


subsection \<open>Printed trees derive\<close>

lemma kv_eq [simp]:
  "kv t = (k, v) \<longleftrightarrow> tok_kind t = k \<and> tok_value t = v"
  "(k, v) = kv t \<longleftrightarrow> tok_kind t = k \<and> tok_value t = v"
  by (auto simp: kv_def)

lemmas kv_append = map_eq_append_conv map_eq_Cons_conv

lemma comma_list_of_printed:
  assumes "map kv us = concat (map (\<lambda>x. pr x @ [(COMMA, '','')]) xs)"
    and "\<And>x vs. x \<in> set xs \<Longrightarrow> map kv vs = pr x \<Longrightarrow> \<exists>y. P y vs \<and> R y x"
  shows "\<exists>ys. comma_list P ys us \<and> list_all2 R ys xs"
  using assms
proof (induction xs arbitrary: us)
  case Nil
  then show ?case by (auto intro: comma_list.none)
next
  case (Cons x xs)
  let ?rest = "concat (map (\<lambda>x. pr x @ [(COMMA, '','')]) xs)"
  from Cons.prems(1) have "map kv us = pr x @ (COMMA, '','') # ?rest" by simp
  then obtain vs vs' where us': "us = vs @ vs'" and vs: "map kv vs = pr x"
    and vs': "map kv vs' = (COMMA, '','') # ?rest"
    unfolding map_eq_append_conv by metis
  from vs' obtain c ws where us: "us = vs @ c # ws" "map kv vs = pr x" "tok_kind c = COMMA"
      "map kv ws = ?rest"
    using us' vs unfolding map_eq_Cons_conv by (metis kv_eq(1))
  obtain y where "P y vs" "R y x" using Cons.prems(2) us(2) by (meson list.set_intros(1))
  moreover obtain ys where "comma_list P ys ws" "list_all2 R ys xs"
    using Cons.IH [OF us(4)] Cons.prems(2) by (meson list.set_intros(2))
  ultimately show ?case using us(1,3) by (auto intro!: exI [of _ "y # ys"] comma_list.more)
qed

lemma g_condition_printed:
  assumes "map kv us = pp_condition c"
  shows "g_condition c us"
proof -
  from assms obtain f lp vs rp where us: "us = f # lp # vs @ [rp]" "tok_kind f = IDENT"
      "tok_value f = fst c" "tok_kind lp = LPAREN" "tok_kind rp = RPAREN"
      and vs: "map kv vs = concat (map (\<lambda>a. [(STRING, a)] @ [(COMMA, '','')]) (snd c))"
    by (auto simp: pp_condition_def kv_append)
  from comma_list_of_printed [OF vs, of "g_token STRING" "(=)"]
  have "comma_list (g_token STRING) (snd c) vs"
    by (auto simp: list_all2_eq [symmetric] map_eq_Cons_conv)
  with us show ?thesis unfolding g_condition_def by blast
qed

lemma g_conditions_printed:
  assumes "map kv us = [(LPAREN, ''('')] @ concat (map (\<lambda>c. pp_condition c @ [(COMMA, '','')]) cs)
      @ [(RPAREN, '')'')]"
  shows "g_conditions cs us"
proof -
  from assms obtain lp vs rp where us: "us = lp # vs @ [rp]" "tok_kind lp = LPAREN"
      "tok_kind rp = RPAREN" and vs: "map kv vs = concat (map (\<lambda>c. pp_condition c @ [(COMMA, '','')]) cs)"
    by (auto simp: kv_append)
  from comma_list_of_printed [OF vs, of g_condition "(=)"] g_condition_printed
  have "comma_list g_condition cs vs" by (auto simp: list_all2_eq [symmetric])
  with us show ?thesis unfolding g_conditions_def by blast
qed

lemma g_pattern_printed: "kv t = pp_pattern p \<Longrightarrow> g_pattern (p, None) [t]"
  by (cases p) (auto simp: g_pattern_def ident_pattern_def split: if_splits intro: exI)

lemma g_pattern_printed_bound:
  "tok_kind t = IDENT \<Longrightarrow> kv t = pp_pattern p \<Longrightarrow> tok_kind a = AT \<Longrightarrow> tok_kind b = IDENT \<Longrightarrow>
   g_pattern (p, Some (tok_value b)) [t, a, b]"
  by (cases p) (auto simp: g_pattern_def ident_pattern_def kv_def split: if_splits intro: exI)

lemma last_binding_Cons_None [simp]: "last_binding ((p, None) # pbs) = last_binding pbs"
  by (simp add: last_binding_def)

lemma g_patterns_printed_free:
  assumes "map kv us = pp_patterns None ps"
  shows "comma_list g_pattern (map (\<lambda>p. (p, None)) ps) us"
  using assms
proof (induction ps arbitrary: us)
  case Nil
  then show ?case by (auto intro: comma_list.none)
next
  case (Cons p ps)
  then obtain t c vs where "us = [t] @ c # vs" "kv t = pp_pattern p" "tok_kind c = COMMA"
    "map kv vs = pp_patterns None ps" by (auto simp: map_eq_Cons_conv)
  moreover from this(2) have "g_pattern (p, None) [t]" by (rule g_pattern_printed)
  ultimately show ?case using Cons.IH by (auto intro: comma_list.more [of g_pattern _ "[t]", simplified])
qed

lemma last_binding_free: "last_binding (map (\<lambda>p. (p, None)) ps) = None"
  by (induction ps) (simp_all add: last_binding_def)

lemma last_binding_bound: "last_binding ((p, Some b) # map (\<lambda>p. (p, None)) ps) = Some b"
  unfolding last_binding_def by (induction ps) simp_all

lemma g_patterns_printed:
  assumes "map kv us = pp_patterns b ps" and "b = None \<or> list_ex is_word ps"
  shows "\<exists>pbs. comma_list g_pattern pbs us \<and> map fst pbs = ps \<and> last_binding pbs = b"
  using assms
proof (induction ps arbitrary: us)
  case Nil
  then show ?case by (auto intro!: exI [of _ "[]"] comma_list.none simp: last_binding_def)
next
  case (Cons p ps)
  show ?case
  proof (cases "b \<noteq> None \<and> is_word p")
    case True
    with Cons.prems(1) obtain t a i c vs where us: "us = [t, a, i] @ c # vs" "kv t = pp_pattern p"
      "tok_kind a = AT" "tok_kind i = IDENT" "tok_kind c = COMMA" "tok_value i = the b"
      and vs: "map kv vs = pp_patterns None ps" by (auto simp: map_eq_Cons_conv)
    have "tok_kind t = IDENT" using us(2) True by (simp add: kv_def flip: us(2))
    from g_pattern_printed_bound [OF this us(2-4)] have "g_pattern (p, b) [t, a, i]"
      using us(6) True by auto
    from comma_list.more [of g_pattern, OF this us(5) g_patterns_printed_free [OF vs]]
    show ?thesis using us(1) True
      by (intro exI [of _ "(p, b) # map (\<lambda>p. (p, None)) ps"]) (auto simp: last_binding_bound comp_def)
  next
    case False
    with Cons.prems(1) obtain t c vs where us: "us = [t] @ c # vs" "kv t = pp_pattern p"
      "tok_kind c = COMMA" and vs: "map kv vs = pp_patterns b ps" by (auto simp: map_eq_Cons_conv)
    from False Cons.prems(2) have "b = None \<or> list_ex is_word ps" by auto
    from Cons.IH [OF vs this] obtain pbs where pbs: "comma_list g_pattern pbs vs" "map fst pbs = ps"
      "last_binding pbs = b" by blast
    have "g_pattern (p, None) [t]" using us(2) by (rule g_pattern_printed)
    from comma_list.more [of g_pattern, OF this us(3) pbs(1)] show ?thesis
      using us(1) pbs by (intro exI [of _ "(p, None) # pbs"]) auto
  qed
qed

lemma select_printed:
  assumes "map kv us = (IDENT, ''select'') # (LPAREN, ''('') # A @ (COMMA, '','') # (LBRACE, ''{'')
      # B @ [(RBRACE, ''}''), (RPAREN, '')'')]"
  shows "\<exists>kw lp cus c lb vs rb rp. us = kw # lp # cus @ c # lb # vs @ rb # [] @ [rp]
    \<and> tok_kind kw = IDENT \<and> tok_value kw = ''select'' \<and> tok_kind lp = LPAREN
    \<and> tok_kind c = COMMA \<and> tok_kind lb = LBRACE \<and> tok_kind rb = RBRACE \<and> tok_kind rp = RPAREN
    \<and> map kv cus = A \<and> map kv vs = B"
proof -
  from assms obtain kw lp r where us: "us = kw # lp # r" "kv kw = (IDENT, ''select'')"
    "kv lp = (LPAREN, ''('')" and r: "map kv r = A @ (COMMA, '','') # (LBRACE, ''{'')
      # B @ [(RBRACE, ''}''), (RPAREN, '')'')]"
    unfolding map_eq_Cons_conv by metis
  from r obtain cus r' where "r = cus @ r'" "map kv cus = A"
    and r': "map kv r' = (COMMA, '','') # (LBRACE, ''{'') # B @ [(RBRACE, ''}''), (RPAREN, '')'')]"
    unfolding map_eq_append_conv by metis
  moreover from r' obtain c lb q where "r' = c # lb # q" "kv c = (COMMA, '','')"
    "kv lb = (LBRACE, ''{'')" and q: "map kv q = B @ [(RBRACE, ''}''), (RPAREN, '')'')]"
    unfolding map_eq_Cons_conv by metis
  moreover from q obtain vs q' where "q = vs @ q'" "map kv vs = B"
    and q': "map kv q' = [(RBRACE, ''}''), (RPAREN, '')'')]"
    unfolding map_eq_append_conv by metis
  moreover from q' obtain rb rp where "q' = [rb, rp]" "kv rb = (RBRACE, ''}'')" "kv rp = (RPAREN, '')'')"
    by (auto simp: map_eq_Cons_conv)
  ultimately show ?thesis using us by auto
qed

lemma case_printed:
  assumes "map kv us = (LPAREN, ''('') # A @ (RPAREN, '')'') # (COLON, '':'') # B"
  shows "\<exists>lp vs rp col ws. us = lp # vs @ rp # col # ws \<and> tok_kind lp = LPAREN
    \<and> tok_kind rp = RPAREN \<and> tok_kind col = COLON \<and> map kv vs = A \<and> map kv ws = B"
proof -
  from assms obtain lp r where us: "us = lp # r" "kv lp = (LPAREN, ''('')"
    and r: "map kv r = A @ (RPAREN, '')'') # (COLON, '':'') # B"
    unfolding map_eq_Cons_conv by metis
  from r obtain vs r' where "r = vs @ r'" "map kv vs = A"
    and r': "map kv r' = (RPAREN, '')'') # (COLON, '':'') # B"
    unfolding map_eq_append_conv by metis
  moreover from r' obtain rp col ws where "r' = rp # col # ws" "kv rp = (RPAREN, '')'')"
    "kv col = (COLON, '':'')" "map kv ws = B"
    unfolding map_eq_Cons_conv by metis
  ultimately show ?thesis using us by auto
qed

lemma g_weaken:
  "\<exists>e'. erase e' = erase e \<and> (if is_concat e then g_expr e' us else g_operand e' us) \<Longrightarrow>
   \<exists>e'. g_expr e' us \<and> erase e' = erase e"
  by (auto split: if_splits intro: g_operand_g_expr.operand)

lemma g_printed:
  "printable e \<Longrightarrow> \<forall>us. map kv us = pp_expr e \<longrightarrow>
     (\<exists>e'. erase e' = erase e \<and> (if is_concat e then g_expr e' us else g_operand e' us))"
  "printable_case sc \<Longrightarrow> \<forall>us. map kv us = pp_case sc \<longrightarrow>
     (\<exists>sc'. erase_case sc' = erase_case sc \<and> g_case sc' us)"
proof (induction e and sc rule: pp_expr_pp_case.induct)
  case (1 s l)
  show ?case
  proof (intro allI impI)
    fix us assume "map kv us = pp_expr (StringLit s l)"
    then obtain t where "us = [t]" "tok_kind t = STRING" "tok_value t = s"
      by (auto simp: map_eq_Cons_conv)
    then show "\<exists>e'. erase e' = erase (StringLit s l)
      \<and> (if is_concat (StringLit s l) then g_expr e' us else g_operand e' us)"
      using g_operand_g_expr.str [of t] by (intro exI [of _ "StringLit s (tok_line t)"]) simp
  qed
next
  case (2 b l)
  show ?case
  proof (intro allI impI)
    fix us assume "map kv us = pp_expr (BoolLit b l)"
    then obtain t where "us = [t]" "tok_kind t = IDENT" "tok_value t = (if b then ''true'' else ''false'')"
      by (auto simp: map_eq_Cons_conv)
    then show "\<exists>e'. erase e' = erase (BoolLit b l)
      \<and> (if is_concat (BoolLit b l) then g_expr e' us else g_operand e' us)"
      using g_operand_g_expr.ident [of t]
      by (intro exI [of _ "ident_expr t"]) (simp add: ident_expr_def split: if_splits)
  qed
next
  case (3 i l)
  show ?case
  proof (intro allI impI)
    fix us assume "map kv us = pp_expr (IntLit i l)"
    then obtain t where "us = [t]" "tok_kind t = NUMBER" "tok_value t = int_str i"
      by (auto simp: map_eq_Cons_conv)
    then have "g_operand (IntLit i (tok_line t)) us"
      using g_operand_g_expr.num [of t i] int_of_str_int_str by simp
    then show "\<exists>e'. erase e' = erase (IntLit i l)
      \<and> (if is_concat (IntLit i l) then g_expr e' us else g_operand e' us)"
      by (intro exI [of _ "IntLit i (tok_line t)"]) simp
  qed
next
  case (4 x l)
  show ?case
  proof (intro allI impI)
    fix us assume "map kv us = pp_expr (VarRef x l)"
    then obtain t where "us = [t]" "tok_kind t = IDENT" "tok_value t = x"
      by (auto simp: map_eq_Cons_conv)
    then show "\<exists>e'. erase e' = erase (VarRef x l)
      \<and> (if is_concat (VarRef x l) then g_expr e' us else g_operand e' us)"
      using g_operand_g_expr.ident [of t] 4 by (intro exI [of _ "ident_expr t"]) (simp add: ident_expr_def)
  qed
next
  case (5 es l)
  show ?case
  proof (intro allI impI)
    fix us assume "map kv us = pp_expr (ListExpr es l)"
    then obtain lb vs rb where us: "us = lb # vs @ [rb]" "tok_kind lb = LBRACK" "tok_kind rb = RBRACK"
      and vs: "map kv vs = concat (map (\<lambda>e. pp_expr e @ [(COMMA, '','')]) es)"
      by (auto simp: kv_append)
    have "\<exists>y. g_expr y ws \<and> erase y = erase x" if "x \<in> set es" "map kv ws = pp_expr x" for x ws
      by (rule g_weaken) (use 5 that in \<open>auto simp: list_all_iff\<close>)
    from comma_list_of_printed [OF vs, of g_expr "\<lambda>y x. erase y = erase x", OF this]
    obtain es' where es': "comma_list g_expr es' vs" "list_all2 (\<lambda>y x. erase y = erase x) es' es"
      by blast
    from es'(2) have "map erase es' = map erase es" by (induction rule: list_all2_induct) auto
    then show "\<exists>e'. erase e' = erase (ListExpr es l)
      \<and> (if is_concat (ListExpr es l) then g_expr e' us else g_operand e' us)"
      using g_operand_g_expr.list [OF us(2) es'(1) us(3)] us(1)
      by (intro exI [of _ "ListExpr es' (tok_line lb)"]) simp
  qed
next
  case (6 es l)
  show ?case
  proof (intro allI impI)
    fix us assume "map kv us = pp_expr (MapExpr es l)"
    then obtain lb vs rb where us: "us = lb # vs @ [rb]" "tok_kind lb = LBRACE" "tok_kind rb = RBRACE"
      and vs: "map kv vs = concat (map (\<lambda>ke. ([(IDENT, fst ke), (COLON, '':'')] @ pp_expr (snd ke))
        @ [(COMMA, '','')]) es)"
      by (auto simp: kv_append case_prod_unfold)
    have "\<exists>y. g_entry y ws \<and> fst y = fst x \<and> erase (snd y) = erase (snd x)"
      if x: "x \<in> set es" and ws: "map kv ws = [(IDENT, fst x), (COLON, '':'')] @ pp_expr (snd x)" for x ws
    proof -
      from ws obtain key col vs' where "ws = key # col # vs'" "tok_kind key = IDENT"
        "tok_value key = fst x" "tok_kind col = COLON" "map kv vs' = pp_expr (snd x)"
        by (auto simp: map_eq_Cons_conv)
      moreover have "printable (snd x)" using 6(2) x by (auto simp: list_all_iff)
      moreover from this calculation x obtain y where "g_expr y vs'" "erase y = erase (snd x)"
        using g_weaken [of "snd x" vs'] 6(1) [of x "fst x" "snd x"] by auto
      ultimately show ?thesis by (intro exI [of _ "(fst x, y)"]) auto
    qed
    then obtain es' where es': "comma_list g_entry es' vs"
      "list_all2 (\<lambda>y x. fst y = fst x \<and> erase (snd y) = erase (snd x)) es' es"
      using comma_list_of_printed [OF vs, of g_entry "\<lambda>y x. fst y = fst x \<and> erase (snd y) = erase (snd x)"]
      by blast
    from es'(2) have "erase_entries es' = erase_entries es" by (induction rule: list_all2_induct) auto
    then show "\<exists>e'. erase e' = erase (MapExpr es l)
      \<and> (if is_concat (MapExpr es l) then g_expr e' us else g_operand e' us)"
      using g_operand_g_expr.map [OF us(2) es'(1) us(3)] us(1)
      by (intro exI [of _ "MapExpr es' (tok_line lb)"]) simp
  qed
next
  case (7 a b l)
  show ?case
  proof (intro allI impI)
    fix us assume "map kv us = pp_expr (Concat a b l)"
    then obtain vs p ws where us: "us = vs @ p # ws" "map kv vs = pp_expr a" "tok_kind p = PLUS"
      "map kv ws = pp_expr b" by (auto simp: kv_append)
    obtain a' where a': "erase a' = erase a" "g_expr a' vs"
      using 7 us by (auto split: if_splits intro: g_operand_g_expr.operand)
    obtain b' where b': "erase b' = erase b" "g_operand b' ws"
      using 7 us by auto
    show "\<exists>e'. erase e' = erase (Concat a b l)
      \<and> (if is_concat (Concat a b l) then g_expr e' us else g_operand e' us)"
      using g_operand_g_expr.plus [OF a'(2) us(3) b'(2)] us a' b'
      by (intro exI [of _ "Concat a' b' (tok_line p)"]) simp
  qed
next
  case (8 cs as l)
  show ?case
  proof (intro allI impI)
    let ?A = "[(LPAREN, ''('')] @ concat (map (\<lambda>c. pp_condition c @ [(COMMA, '','')]) cs)
      @ [(RPAREN, '')'')]"
    let ?B = "concat (map (\<lambda>a. pp_case a @ [(COMMA, '','')]) as)"
    fix us assume "map kv us = pp_expr (Select cs as l)"
    then have "map kv us = (IDENT, ''select'') # (LPAREN, ''('') # ?A @ (COMMA, '','') # (LBRACE, ''{'')
      # ?B @ [(RBRACE, ''}''), (RPAREN, '')'')]" by simp
    from select_printed [OF this] obtain kw lp cus c lb vs rb rp where
      us: "us = kw # lp # cus @ c # lb # vs @ rb # [] @ [rp]"
      and k: "tok_kind kw = IDENT" "tok_value kw = ''select''" "tok_kind lp = LPAREN"
        "tok_kind c = COMMA" "tok_kind lb = LBRACE" "tok_kind rb = RBRACE" "tok_kind rp = RPAREN"
      and cus: "map kv cus = ?A" and vs: "map kv vs = ?B"
      by (elim exE conjE) (rule that)
    have "\<exists>y. g_case y ws \<and> erase_case y = erase_case x" if "x \<in> set as" "map kv ws = pp_case x" for x ws
    proof -
      have "printable_case x" using 8(2) that by (auto simp: list_all_iff)
      from 8(1) [OF that(1) this] that(2) show ?thesis by blast
    qed
    then obtain as' where as': "comma_list g_case as' vs"
      "list_all2 (\<lambda>y x. erase_case y = erase_case x) as' as"
      using comma_list_of_printed [OF vs, of g_case "\<lambda>y x. erase_case y = erase_case x"] by blast
    from as'(2) have "map erase_case as' = map erase_case as" by (induction rule: list_all2_induct) auto
    then show "\<exists>e'. erase e' = erase (Select cs as l)
      \<and> (if is_concat (Select cs as l) then g_expr e' us else g_operand e' us)"
      using g_operand_g_expr.select [OF k(1-3) g_conditions_printed [OF cus] k(4,5) as'(1) k(6) _ k(7), of "[]"] us
      by (intro exI [of _ "Select cs as' (tok_line kw)"]) simp
  qed
next
  case (9 ps e b l)
  show ?case
  proof (intro allI impI)
    fix us assume "map kv us = pp_case (SelectCase ps e b l)"
    then have "map kv us = (LPAREN, ''('') # pp_patterns b ps @ (RPAREN, '')'') # (COLON, '':'') # pp_expr e"
      by simp
    from case_printed [OF this] obtain lp vs rp col ws where us: "us = lp # vs @ rp # col # ws"
      "tok_kind lp = LPAREN" "tok_kind rp = RPAREN" "tok_kind col = COLON"
      "map kv vs = pp_patterns b ps" "map kv ws = pp_expr e"
      by (elim exE conjE) (rule that)
    obtain e' where e': "erase e' = erase e" "g_expr e' ws"
      using g_weaken [of e ws] 9 us(6) by auto
    from 9(2) have "b = None \<or> list_ex is_word ps" by auto
    from g_patterns_printed [OF us(5) this] obtain pbs where
      "comma_list g_pattern pbs vs" "map fst pbs = ps" "last_binding pbs = b" by blast
    then have "g_case_patterns (ps, b) (lp # vs @ [rp])"
      using us(2,3) unfolding g_case_patterns_def by blast
    then have "g_case (SelectCase ps e' b (expr_line e')) us"
      using us(1,4) e'(2)
      by (intro exI [of _ ps] exI [of _ e'] exI [of _ b] exI [of _ "lp # vs @ [rp]"]
          exI [of _ col] exI [of _ ws]) simp
    then show "\<exists>sc'. erase_case sc' = erase_case (SelectCase ps e b l) \<and> g_case sc' us"
      using e'(1) by (intro exI [of _ "SelectCase ps e' b (expr_line e')"] conjI) simp_all
  qed
qed


lemma g_statement_printed:
  assumes "printable_statement s" and us: "map kv us = pp_statement s"
  shows "\<exists>s'. g_statement s' us \<and> erase_statement s' = erase_statement s"
proof (cases s)
  case (Assignment x e a l)
  from us obtain t op vs where ts: "us = t # op # vs" "tok_kind t = IDENT" "tok_value t = x"
    "kv op = (if a then (PLUSEQ, ''+='') else (EQUALS, ''=''))" and vs: "map kv vs = pp_expr e"
    unfolding Assignment pp_statement.simps append_Cons append_Nil map_eq_Cons_conv by auto
  from ts(4) have op: "tok_kind op = EQUALS \<or> tok_kind op = PLUSEQ" "(tok_kind op = PLUSEQ) = a"
    by (auto split: if_splits)
  obtain e' where e': "g_expr e' vs" "erase e' = erase e"
    using g_weaken [of e vs] g_printed(1) [of e] vs assms(1) Assignment by auto
  have "g_statement (Assignment (tok_value t) e' (tok_kind op = PLUSEQ) (tok_line t)) us"
    using ts e' op unfolding g_statement_def by blast
  then show ?thesis using e' ts op Assignment by fastforce
next
  case (ModuleDef t es ml l)
  from us obtain x vs where ts: "us = x # vs" "tok_kind x = IDENT" "tok_value x = t"
    and vs: "map kv vs = pp_expr (MapExpr es 0)"
    unfolding ModuleDef pp_statement.simps map_eq_Cons_conv by auto
  have "printable (MapExpr es 0)" using assms(1) ModuleDef by simp
  from g_printed(1) [OF this, rule_format, OF vs] obtain e' where e': "g_operand e' vs"
    "erase e' = erase (MapExpr es 0)" by auto
  from e'(2) obtain es' l' where es': "e' = MapExpr es' l'" "erase_entries es' = erase_entries es"
    by (cases e') auto
  with e'(1) obtain lb ws rb where "vs = lb # ws @ [rb]" "tok_kind lb = LBRACE"
      "tok_kind rb = RBRACE" "comma_list g_entry es' ws"
    by (cases rule: g_operand.cases) (auto simp: ident_expr_def split: if_splits)
  then have "g_statement (ModuleDef (tok_value x) es' (tok_line lb) (tok_line x)) us"
    using ts unfolding g_statement_def by blast
  then show ?thesis using es' ts ModuleDef by fastforce
qed

lemma g_file_printed:
  assumes "list_all printable_statement ss" and "map kv us = concat (map pp_statement ss)"
  shows "\<exists>ss'. g_file ss' us \<and> map erase_statement ss' = map erase_statement ss"
  using assms
proof (induction ss arbitrary: us)
  case Nil
  then show ?case by (auto intro: g_file.none)
next
  case (Cons s ss)
  from Cons.prems(2) obtain vs ws where us: "us = vs @ ws" "map kv vs = pp_statement s"
    "map kv ws = concat (map pp_statement ss)"
    unfolding list.map concat.simps map_eq_append_conv by metis
  obtain s' where "g_statement s' vs" "erase_statement s' = erase_statement s"
    using g_statement_printed us(2) Cons.prems(1) by auto
  moreover obtain ss' where "g_file ss' ws" "map erase_statement ss' = map erase_statement ss"
    using Cons.IH us(3) Cons.prems(1) by auto
  ultimately show ?case using us(1) by (intro exI [of _ "s' # ss'"]) (auto intro: g_file.more)
qed

text \<open>The printed tokens are tokens the scanner can produce.\<close>

abbreviation toks_ok :: "(token_kind \<times> string) list \<Rightarrow> bool" where
  "toks_ok \<equiv> list_all (\<lambda>(k, v). k \<noteq> EOF \<and> token_ok k v)"

lemma toks_ok_concat [simp]: "toks_ok (concat xss) \<longleftrightarrow> list_all toks_ok xss"
  by (induction xss) auto

lemma keyword_ident [simp]:
  "token_ok IDENT ''true''" "token_ok IDENT ''false''" "token_ok IDENT ''any''"
  "token_ok IDENT ''default''" "token_ok IDENT ''select''"
  by code_simp+

lemma punct_ok [simp]:
  "token_ok COMMA '',''" "token_ok COLON '':''" "token_ok LPAREN ''(''" "token_ok RPAREN '')''"
  "token_ok LBRACE ''{''" "token_ok RBRACE ''}''" "token_ok LBRACK ''[''" "token_ok RBRACK '']''"
  "token_ok PLUS ''+''" "token_ok EQUALS ''=''" "token_ok AT ''@''"
  by (simp_all add: punct_def)

lemma string_ok [simp]: "token_ok STRING v"
  by simp

lemma int_ok [simp]: "token_ok NUMBER (int_str i)"
  by (rule int_str_token)

lemma pp_patterns_ok: "b = None \<or> is_ident (the b) \<Longrightarrow> toks_ok (pp_patterns b ps)"
proof (induction ps arbitrary: b)
  case (Cons p ps)
  have "token_ok (fst (pp_pattern p)) (snd (pp_pattern p)) \<and> fst (pp_pattern p) \<noteq> EOF"
    by (cases p) (auto simp del: token_ok.simps(1))
  with Cons show ?case by (auto simp: case_prod_unfold simp del: token_ok.simps(1,3-))
qed simp

lemma pp_ok:
  "printable e \<Longrightarrow> toks_ok (pp_expr e)"
  "printable_case sc \<Longrightarrow> toks_ok (pp_case sc)"
proof (induction e and sc rule: pp_expr_pp_case.induct)
  case (6 es l)
  have "toks_ok (pp_expr e) \<and> is_ident k" if "(k, e) \<in> set es" for k e
    using 6(1) [OF that refl] 6(2) that by (auto simp: list_all_iff)
  then show ?case by (fastforce simp: list_all_iff simp del: token_ok.simps(1,3-))
next
  case (8 cs as l)
  then show ?case
    by (auto simp: list_all_iff pp_condition_def simp del: token_ok.simps(1,3-))
next
  case (9 ps e b l)
  then show ?case by (auto simp: pp_patterns_ok simp del: token_ok.simps(1,3-))
qed (auto simp: list_all_iff simp del: token_ok.simps, simp_all)

lemma pp_statement_ok: "printable_statement s \<Longrightarrow> toks_ok (pp_statement s)"
  by (cases s) (use pp_ok(1) in \<open>auto simp del: token_ok.simps(1,3-) pp_expr.simps printable.simps\<close>, simp)

subsection \<open>Properties\<close>





text \<open>C6. Every printable file, written out as source text, parses back to itself up to line
  numbers: scanner and parser together lose nothing of the tree.\<close>

theorem parse_printed_file:
  assumes "list_all printable_statement ss"
  shows "\<exists>bp. parse_text (pp_file ss) fn = Inr bp
    \<and> map erase_statement (bp_statements bp) = map erase_statement ss"
proof -
  let ?kvs = "concat (map pp_statement ss)"
  have "\<forall>(k, v) \<in> set ?kvs. k \<noteq> EOF \<and> token_ok k v"
    using assms pp_statement_ok by (fastforce simp: list_all_iff)
  from lex_loop_render [OF this, of "start_cursor (render ?kvs)" fn]
  obtain toks where run: "tokenize (pp_file ss) fn = Inr toks" "map kv toks = ?kvs @ [(EOF, [])]"
    by (auto simp: tokenize_def start_cursor_def pp_file_def)
  from run(2) obtain us t where toks: "toks = us @ [t]" "map kv us = ?kvs"
    by (auto simp: map_eq_append_conv map_eq_Cons_conv)
  obtain ss' where "g_file ss' us" "map erase_statement ss' = map erase_statement ss"
    using g_file_printed [OF assms toks(2)] by blast
  moreover have "eof_terminated toks"
    using lex_loop_placed [OF _ at_pos_start] run(1) by (auto simp: tokenize_def)
  ultimately have "parse_file fn toks = Inr \<lparr>bp_path = fn, bp_statements = ss'\<rparr>"
    "map erase_statement ss' = map erase_statement ss"
    using parse_file_iff_grammar [of toks fn "\<lparr>bp_path = fn, bp_statements = ss'\<rparr>"] toks(1) by auto
  then show ?thesis using run(1) by (auto simp: parse_text_def)
qed

theorem parse_printed_file_witness:
  "\<exists>bp. parse_text (pp_file [ModuleDef ''cc_library'' [(''srcs'',
        Select [(''arch'', [])] [SelectCase [PStr ''arm64''] (ListExpr [StringLit ''a.cc'' 3] 3) None 3,
          SelectCase [PAny] (ListExpr [] 4) (Some ''v'') 4] 2)] 1 1]) ''f'' = Inr bp
    \<and> map erase_statement (bp_statements bp) = map erase_statement [ModuleDef ''cc_library'' [(''srcs'',
        Select [(''arch'', [])] [SelectCase [PStr ''arm64''] (ListExpr [StringLit ''a.cc'' 3] 3) None 3,
          SelectCase [PAny] (ListExpr [] 4) (Some ''v'') 4] 2)] 1 1]"
  by (rule parse_printed_file) code_simp

end
