(* ===== verification/PyString.thy ===== *)
theory PyString
  imports BpPrelude "HOL-Library.Sublist"
begin

section \<open>String and path functions of the standard library\<close>

text \<open>
  The methods of \<open>str\<close> and the functions of \<open>posixpath\<close> that the modelled code calls,
  written as the library computes them.
\<close>

subsection \<open>Strings\<close>

abbreviation starts_with :: "string \<Rightarrow> string \<Rightarrow> bool" where
  "starts_with p s \<equiv> prefix p s"

abbreviation ends_with :: "string \<Rightarrow> string \<Rightarrow> bool" where
  "ends_with p s \<equiv> suffix p s"

text \<open>\<open>sub in s\<close>\<close>

definition contains :: "string \<Rightarrow> string \<Rightarrow> bool" where
  "contains sub s = sublist sub s"

text \<open>\<open>sep.join(xs)\<close> and \<open>s.split(c)\<close> for one character.\<close>

fun join_str :: "string \<Rightarrow> string list \<Rightarrow> string" where
  "join_str sep [] = []"
| "join_str sep [x] = x"
| "join_str sep (x # y # xs) = x @ sep @ join_str sep (y # xs)"

fun split_on :: "char \<Rightarrow> string \<Rightarrow> string list" where
  "split_on c [] = [[]]"
| "split_on c (x # s) = (if x = c then [] # split_on c s
     else (case split_on c s of w # ws \<Rightarrow> (x # w) # ws | [] \<Rightarrow> [[x]]))"

definition replace_char :: "char \<Rightarrow> char \<Rightarrow> string \<Rightarrow> string" where
  "replace_char a b s = map (\<lambda>x. if x = a then b else x) s"

text \<open>\<open>s.lstrip(cs)\<close>, \<open>s.rstrip(cs)\<close>, \<open>s.strip(cs)\<close> for a set of characters, and the set \<open>strip()\<close> uses.\<close>

definition lstrip :: "string \<Rightarrow> string \<Rightarrow> string" where
  "lstrip cs s = dropWhile (\<lambda>c. c \<in> set cs) s"

definition rstrip :: "string \<Rightarrow> string \<Rightarrow> string" where
  "rstrip cs s = rev (dropWhile (\<lambda>c. c \<in> set cs) (rev s))"

definition strip :: "string \<Rightarrow> string \<Rightarrow> string" where
  "strip cs s = rstrip cs (lstrip cs s)"

definition whitespace :: string where
  "whitespace = map char_of [9::nat, 10, 11, 12, 13, 28, 29, 30, 31, 32, 133, 160]"

text \<open>\<open>s.upper()\<close> and \<open>s.lower()\<close> on ASCII letters.\<close>

definition upper_char :: "char \<Rightarrow> char" where
  "upper_char c = (if 97 \<le> code_point c \<and> code_point c \<le> 122 then char_of (code_point c - 32) else c)"

definition lower_char :: "char \<Rightarrow> char" where
  "lower_char c = (if 65 \<le> code_point c \<and> code_point c \<le> 90 then char_of (code_point c + 32) else c)"

lemma split_on_ne [simp]: "split_on c s \<noteq> []"
  by (induction s) (auto split: list.splits)

lemma join_split [simp]: "join_str [c] (split_on c s) = s"
proof (induction s)
  case (Cons x s)
  obtain w ws where "split_on c s = w # ws" by (cases "split_on c s") auto
  with Cons show ?case by (cases ws) auto
qed simp

lemma split_on_free: "list_all (\<lambda>w. c \<notin> set w) (split_on c s)"
  by (induction s) (auto split: list.splits)

lemma split_on_no: "c \<notin> set w \<Longrightarrow> split_on c w = [w]"
  by (induction w) auto

lemma split_on_append: "c \<notin> set w \<Longrightarrow> split_on c (w @ c # s) = w # split_on c s"
  by (induction w) auto

lemma split_join:
  "ws \<noteq> [] \<Longrightarrow> list_all (\<lambda>w. c \<notin> set w) ws \<Longrightarrow> split_on c (join_str [c] ws) = ws"
  by (induction "[c]" ws rule: join_str.induct) (auto simp: split_on_no split_on_append)

lemma join_str_append:
  "xs \<noteq> [] \<Longrightarrow> ys \<noteq> [] \<Longrightarrow> join_str sep (xs @ ys) = join_str sep xs @ sep @ join_str sep ys"
proof (induction sep xs rule: join_str.induct)
  case (2 sep x)
  then show ?case by (cases ys) auto
qed auto

text \<open>\<open>repr\<close> of a string of code points below 256.\<close>

definition hex_digit :: "nat \<Rightarrow> char" where
  "hex_digit n = ''0123456789abcdef'' ! (n mod 16)"

definition repr_char :: "char \<Rightarrow> char \<Rightarrow> string" where
  "repr_char q c =
     (if c = q \<or> c = CHR 0x5C then [CHR 0x5C, c]
      else if c = CHR 0x09 then [CHR 0x5C, CHR ''t'']
      else if c = CHR 0x0A then [CHR 0x5C, CHR ''n'']
      else if c = CHR 0x0D then [CHR 0x5C, CHR ''r'']
      else if in_ranges [(32, 126), (161, 172), (174, 255)] (code_point c) then [c]
      else [CHR 0x5C, CHR ''x'', hex_digit (code_point c div 16), hex_digit (code_point c)])"

definition py_repr :: "string \<Rightarrow> string" where
  "py_repr s =
     (let q = (if CHR 0x27 \<in> set s \<and> CHR 0x22 \<notin> set s then CHR 0x22 else CHR 0x27)
      in [q] @ concat (map (repr_char q) s) @ [q])"

subsection \<open>Paths\<close>

definition slash :: char where
  "slash = CHR ''/''"

definition path_join :: "string \<Rightarrow> string \<Rightarrow> string" where
  "path_join a b =
     (if starts_with ''/'' b then b
      else if a = [] \<or> ends_with ''/'' a then a @ b
      else a @ ''/'' @ b)"

definition dirname :: "string \<Rightarrow> string" where
  "dirname p =
     (let head = rev (dropWhile (\<lambda>c. c \<noteq> slash) (rev p)) in
      if head \<noteq> [] \<and> (\<exists>c \<in> set head. c \<noteq> slash) then rstrip [slash] head else head)"

definition basename :: "string \<Rightarrow> string" where
  "basename p = rev (takeWhile (\<lambda>c. c \<noteq> slash) (rev p))"

text \<open>The loop of \<open>normpath\<close> over the components; \<open>acc\<close> is \<open>new_comps\<close>, last first.\<close>

fun norm_comps :: "bool \<Rightarrow> string list \<Rightarrow> string list \<Rightarrow> string list" where
  "norm_comps rooted acc [] = rev acc"
| "norm_comps rooted acc (c # cs) =
     (if c = [] \<or> c = ''.'' then norm_comps rooted acc cs
      else if c \<noteq> ''..'' \<or> (\<not> rooted \<and> acc = []) \<or> (acc \<noteq> [] \<and> hd acc = ''..'')
        then norm_comps rooted (c # acc) cs
      else norm_comps rooted (tl acc) cs)"

definition initial_slashes :: "string \<Rightarrow> string" where
  "initial_slashes p =
     (if starts_with ''/'' p then
        if starts_with ''//'' p \<and> \<not> starts_with ''///'' p then ''//'' else ''/''
      else [])"

definition normpath :: "string \<Rightarrow> string" where
  "normpath p =
     (if p = [] then ''.'' else
      let q = initial_slashes p @ join_str ''/'' (norm_comps (initial_slashes p \<noteq> []) [] (split_on slash p))
      in if q = [] then ''.'' else q)"

definition abspath :: "string \<Rightarrow> string \<Rightarrow> string" where
  "abspath cwd p = normpath (if starts_with ''/'' p then p else path_join cwd p)"

fun common_prefix :: "'a list \<Rightarrow> 'a list \<Rightarrow> nat" where
  "common_prefix (x # xs) (y # ys) = (if x = y then Suc (common_prefix xs ys) else 0)"
| "common_prefix _ _ = 0"

text \<open>\<open>relpath(path, start)\<close>; the working directory is a parameter.\<close>

definition relpath :: "string \<Rightarrow> string \<Rightarrow> string \<Rightarrow> exn + string" where
  "relpath cwd path start =
     (if path = [] then Inl (ValueError ''no path specified'')
      else
        let start_list = filter (\<lambda>x. x \<noteq> []) (split_on slash (abspath cwd start));
            path_list = filter (\<lambda>x. x \<noteq> []) (split_on slash (abspath cwd path));
            i = common_prefix start_list path_list;
            rel = replicate (length start_list - i) ''..'' @ drop i path_list
        in Inr (if rel = [] then ''.'' else join_str ''/'' rel))"

subsection \<open>Normal paths\<close>

text \<open>
  A component list is normal when \<open>..\<close> occurs only at its front and only without a root.
  \<open>norm_comps\<close> yields normal lists and leaves them alone.
\<close>

definition normal_comps :: "bool \<Rightarrow> string list \<Rightarrow> bool" where
  "normal_comps rooted cs =
     ((\<forall>c \<in> set cs. c \<noteq> [] \<and> c \<noteq> ''.'')
      \<and> (if rooted then ''..'' \<notin> set cs
         else ''..'' \<notin> set (dropWhile (\<lambda>c. c = ''..'') cs)))"

lemma dropWhile_snoc:
  "dropWhile P (xs @ [x]) = (if dropWhile P xs = [] then (if P x then [] else [x]) else dropWhile P xs @ [x])"
  by (induction xs) auto

lemma dropWhile_Nil_set: "dropWhile P xs = [] \<longleftrightarrow> (\<forall>x \<in> set xs. P x)"
  by (induction xs) auto

lemma norm_comps_normal:
  "normal_comps rooted (rev acc) \<Longrightarrow> normal_comps rooted (norm_comps rooted acc cs)"
proof (induction rooted acc cs rule: norm_comps.induct)
  case (1 rooted acc)
  then show ?case by simp
next
  case (2 rooted acc c cs)
  consider (skip) "c = [] \<or> c = ''.''"
    | (push) "\<not> (c = [] \<or> c = ''.'')" "c \<noteq> ''..'' \<or> (\<not> rooted \<and> acc = []) \<or> (acc \<noteq> [] \<and> hd acc = ''..'')"
    | (pop) "\<not> (c = [] \<or> c = ''.'')" "\<not> (c \<noteq> ''..'' \<or> (\<not> rooted \<and> acc = []) \<or> (acc \<noteq> [] \<and> hd acc = ''..''))"
    by blast
  then show ?case
  proof cases
    case skip
    then show ?thesis using 2 by simp
  next
    case push
    have "normal_comps rooted (rev (c # acc))"
    proof (cases acc)
      case Nil
      with push "2.prems" show ?thesis by (auto simp: normal_comps_def)
    next
      case (Cons a as)
      with push "2.prems" show ?thesis
        by (auto simp: normal_comps_def dropWhile_append dropWhile_Nil_set split: if_splits)
    qed
    then show ?thesis using "2.IH"(2) push by simp
  next
    case pop
    have "normal_comps rooted (rev (tl acc))"
      using "2.prems" by (cases acc)
        (auto simp: normal_comps_def dropWhile_append dropWhile_Nil_set [THEN iffD2] split: if_splits)
    then show ?thesis using "2.IH"(3) pop by auto
  qed
qed

end
