(* ===== verification/PyValue.thy ===== *)
theory PyValue
  imports BpPrelude "HOL-Library.AList"
begin

section \<open>Python values and dictionaries\<close>

text \<open>
  The values that evaluated Blueprint expressions take: strings, booleans, integers, lists,
  dictionaries with string keys and \<open>None\<close>. A dictionary is the association list of its
  items in insertion order with distinct keys; an assignment \<open>d[k] = v\<close> is \<open>AList.update\<close>,
  which keeps the place of a key that is present and appends one that is not.
\<close>

datatype pyval =
    VStr string
  | VBool bool
  | VInt int
  | VList "pyval list"
  | VDict "(string \<times> pyval) list"
  | VNone

type_synonym dict = "(string \<times> pyval) list"

definition type_name :: "pyval \<Rightarrow> string" where
  "type_name v = (case v of VStr _ \<Rightarrow> ''str'' | VBool _ \<Rightarrow> ''bool'' | VInt _ \<Rightarrow> ''int''
     | VList _ \<Rightarrow> ''list'' | VDict _ \<Rightarrow> ''dict'' | VNone \<Rightarrow> ''NoneType'')"

text \<open>\<open>bool(v)\<close>\<close>

fun truthy :: "pyval \<Rightarrow> bool" where
  "truthy (VStr s) = (s \<noteq> [])"
| "truthy (VBool b) = b"
| "truthy (VInt i) = (i \<noteq> 0)"
| "truthy (VList vs) = (vs \<noteq> [])"
| "truthy (VDict d) = (d \<noteq> [])"
| "truthy VNone = False"

text \<open>\<open>v == w\<close>: a boolean equals its integer, a dictionary compares without its order.\<close>

fun as_int :: "pyval \<Rightarrow> int option" where
  "as_int (VInt i) = Some i"
| "as_int (VBool b) = Some (if b then 1 else 0)"
| "as_int _ = None"

fun py_eq :: "pyval \<Rightarrow> pyval \<Rightarrow> bool" where
  "py_eq (VStr s) w = (w = VStr s)"
| "py_eq (VBool b) w = (as_int w = Some (if b then 1 else 0))"
| "py_eq (VInt i) w = (as_int w = Some i)"
| "py_eq (VList vs) w = (case w of VList ws \<Rightarrow> list_all2 py_eq vs ws | _ \<Rightarrow> False)"
| "py_eq (VDict d) w = (case w of VDict e \<Rightarrow> length d = length e
     \<and> list_all (\<lambda>(k, v). case map_of e k of None \<Rightarrow> False | Some x \<Rightarrow> py_eq v x) d | _ \<Rightarrow> False)"
| "py_eq VNone w = (w = VNone)"

definition py_in :: "pyval \<Rightarrow> pyval list \<Rightarrow> bool" where
  "py_in v ws = list_ex (py_eq v) ws"

text \<open>\<open>iter(v)\<close>: a string yields its characters, a dictionary its keys.\<close>

fun py_iter :: "pyval \<Rightarrow> exn + pyval list" where
  "py_iter (VList vs) = Inr vs"
| "py_iter (VStr s) = Inr (map (\<lambda>c. VStr [c]) s)"
| "py_iter (VDict d) = Inr (map (VStr \<circ> fst) d)"
| "py_iter v = Inl (TypeError (type_name v @ '' object is not iterable''))"

text \<open>A value as a dictionary key: equal keys are one key, a list or a dictionary has no hash.\<close>

datatype pkey = KStr string | KInt int | KNone

fun pkey_of :: "pyval \<Rightarrow> exn + pkey" where
  "pkey_of (VStr s) = Inr (KStr s)"
| "pkey_of (VBool b) = Inr (KInt (if b then 1 else 0))"
| "pkey_of (VInt i) = Inr (KInt i)"
| "pkey_of VNone = Inr KNone"
| "pkey_of v = Inl (TypeError (''unhashable type: '' @ type_name v))"

fun pkey_str :: "pkey \<Rightarrow> string" where
  "pkey_str (KStr s) = s"
| "pkey_str (KInt i) = int_str i"
| "pkey_str KNone = ''None''"

text \<open>\<open>d.get(k, default) or []\<close>, and the list fields of a dictionary.\<close>

definition dget :: "dict \<Rightarrow> string \<Rightarrow> pyval \<Rightarrow> pyval" where
  "dget d k v = (case map_of d k of Some x \<Rightarrow> x | None \<Rightarrow> v)"

definition get_or_nil :: "dict \<Rightarrow> string \<Rightarrow> pyval" where
  "get_or_nil d k = (let v = dget d k (VList []) in if truthy v then v else VList [])"

text \<open>A dictionary built from items in order: a later item replaces an earlier one's value.\<close>

definition dict_of :: "(string \<times> pyval) list \<Rightarrow> dict" where
  "dict_of items = foldl (\<lambda>d (k, v). AList.update k v d) [] items"

subsection \<open>Well-formed values\<close>

text \<open>Every dictionary inside a value has distinct keys: what construction by \<open>update\<close> keeps.\<close>

fun wf_value :: "pyval \<Rightarrow> bool" where
  "wf_value (VList vs) = list_all wf_value vs"
| "wf_value (VDict d) = (distinct (map fst d) \<and> list_all (\<lambda>(k, v). wf_value v) d)"
| "wf_value _ = True"

abbreviation wf_dict :: "dict \<Rightarrow> bool" where
  "wf_dict d \<equiv> wf_value (VDict d)"

lemma wf_dict_update:
  "wf_dict d \<Longrightarrow> wf_value v \<Longrightarrow> wf_dict (AList.update k v d)"
  by (induction d) (auto simp: update_keys list_all_iff)

lemma wf_dict_foldl_update:
  "wf_dict d \<Longrightarrow> list_all (\<lambda>(k, v). wf_value v) items \<Longrightarrow>
   wf_dict (foldl (\<lambda>d (k, v). AList.update k v d) d items)"
  by (induction items arbitrary: d) (auto simp: wf_dict_update simp del: wf_value.simps)

lemma wf_dict_of: "list_all (\<lambda>(k, v). wf_value v) items \<Longrightarrow> wf_dict (dict_of items)"
  unfolding dict_of_def by (rule wf_dict_foldl_update) auto

lemma map_of_foldl_update:
  "map_of (foldl (\<lambda>d (k, v). AList.update k v d) d items) = map_of d ++ map_of (rev items)"
  by (induction items arbitrary: d)
    (auto simp: update_conv fun_eq_iff map_add_def split: option.splits)

lemma map_of_dict_of: "map_of (dict_of items) = map_of (rev items)"
  by (simp add: dict_of_def map_of_foldl_update)

lemma wf_value_get: "wf_dict d \<Longrightarrow> map_of d k = Some v \<Longrightarrow> wf_value v"
  by (auto simp: list_all_iff dest!: map_of_SomeD)

lemma size_value_get: "map_of d k = Some v \<Longrightarrow> size v < size (VDict d)"
proof -
  assume "map_of d k = Some v"
  then have kv: "(k, v) \<in> set d" by (rule map_of_SomeD)
  have "size v < Suc (size_list (size_prod (\<lambda>_. 0) size) d)"
    using kv by (induction d) auto
  then show ?thesis by simp
qed

subsection \<open>Equality\<close>

lemma py_eq_refl: "wf_value v \<Longrightarrow> py_eq v v"
proof (induction v)
  case (VList vs)
  then show ?case by (auto simp: list_all_iff list_all2_same)
next
  case (VDict d)
  have "py_eq v v" if "(k, v) \<in> set d" for k v
    using VDict that by (fastforce simp: list_all_iff)
  moreover have "map_of d k = Some v" if "(k, v) \<in> set d" for k v
    using VDict.prems that by (auto intro: map_of_is_SomeI)
  ultimately have "\<forall>(k, v) \<in> set d. case map_of d k of None \<Rightarrow> False | Some x \<Rightarrow> py_eq v x"
    by auto
  then show ?case by (simp add: list_all_iff case_prod_unfold)
qed auto

lemma py_eq_VStr [simp]: "py_eq v (VStr s) \<longleftrightarrow> v = VStr s"
  by (cases v) auto

lemma py_in_VStr [simp]: "py_in (VStr s) ws \<longleftrightarrow> VStr s \<in> set ws"
  by (auto simp: py_in_def list_ex_iff)

lemma pkey_of_py_eq: "pkey_of v = Inr k \<Longrightarrow> pkey_of w = Inr l \<Longrightarrow> k = l \<longleftrightarrow> py_eq v w"
  by (cases v; cases w) auto

end
