(* ===== verification/BpConfig.thy ===== *)
theory BpConfig
  imports PyValue
begin

section \<open>The build configuration\<close>

text \<open>
  \<open>tools/bp2cmake/bp2cmake/config.py\<close>: the fixed configuration that selects are resolved
  against, its derived properties, and the keys under which a select block is active.
\<close>

record config =
  cfg_os :: string
  cfg_arch :: string
  cfg_bitness :: int
  cfg_host :: bool
  cfg_avx2 :: bool

text \<open>The field defaults of the dataclass.\<close>

definition default_config :: config where
  "default_config = \<lparr>cfg_os = ''linux_glibc'', cfg_arch = ''x86_64'', cfg_bitness = 64,
     cfg_host = True, cfg_avx2 = False\<rparr>"

definition soong_config_value :: "string \<Rightarrow> bool" where
  "soong_config_value name =
     (case map_of [(''source_build'', True)] name of Some b \<Rightarrow> b | None \<Rightarrow> False)"

text \<open>\<open>_SET_SOONG_CONFIG_VARS\<close>\<close>

definition set_soong_config_vars :: "string list" where
  "set_soong_config_vars = []"

definition select_condition_value :: "config \<Rightarrow> string \<Rightarrow> string list \<Rightarrow> pyval" where
  "select_condition_value cfg func args =
     (if func = ''os'' then VStr (cfg_os cfg)
      else if func = ''arch'' then VStr (cfg_arch cfg)
      else if func = ''soong_config_variable'' then
        (let var = (if args \<noteq> [] then last args else []) in
         if var \<in> set set_soong_config_vars then VBool (soong_config_value var) else VNone)
      else VNone)"

definition is_windows :: "config \<Rightarrow> bool" where
  "is_windows cfg = (cfg_os cfg = ''windows'')"

definition is_linux :: "config \<Rightarrow> bool" where
  "is_linux cfg = (cfg_os cfg \<in> {''linux_glibc'', ''linux_musl'', ''linux''})"

definition codegen_arches :: "config \<Rightarrow> string list" where
  "codegen_arches cfg =
     (case map_of [(''x86_64'', [''x86_64'', ''x86'']), (''x86'', [''x86'']),
                   (''arm64'', [''arm64'', ''arm'']), (''arm'', [''arm''])] (cfg_arch cfg) of
        Some l \<Rightarrow> l | None \<Rightarrow> [cfg_arch cfg])"

definition active_target_keys :: "config \<Rightarrow> string list" where
  "active_target_keys cfg =
     (if is_windows cfg then
        [''host'', ''windows'', ''not_darwin'', ''not_fuchsia'', ''windows_'' @ cfg_arch cfg]
      else
        [''host'', ''host_linux'', ''linux'', ''linux_glibc'', ''glibc'', ''not_windows'',
         ''not_darwin'', ''not_fuchsia'', ''linux_'' @ cfg_arch cfg,
         ''linux_glibc_'' @ cfg_arch cfg, ''glibc_'' @ cfg_arch cfg])"

definition multilib_key :: "config \<Rightarrow> string" where
  "multilib_key cfg = (if cfg_bitness cfg = 64 then ''lib64'' else ''lib32'')"

text \<open>No condition has a list, dictionary or integer value.\<close>

lemma select_condition_value_cases:
  "select_condition_value cfg f as = VNone
   \<or> (\<exists>s. select_condition_value cfg f as = VStr s)
   \<or> (\<exists>b. select_condition_value cfg f as = VBool b)"
  by (auto simp: select_condition_value_def Let_def)

end
