(* ===== verification/BpModel.thy ===== *)
theory BpModel
  imports PyValue
begin

section \<open>The normalized module graph\<close>

text \<open>
  \<open>tools/bp2cmake/bp2cmake/model.py\<close>. The element type of the list fields is a parameter:
  the evaluator copies whatever values the Blueprint file has (\<open>pyval module\<close>), while the
  dataclass annotates strings, which is what the overlay, the closure and the emitter rely on
  (\<open>string module\<close>). \<open>typed_module\<close> is the border between the two.
\<close>

record 'a module =
  m_name :: string
  m_type :: string
  m_bp_dir :: string
  m_root_var :: string
  m_srcs :: "'a list"
  m_exclude_srcs :: "'a list"
  m_cflags :: "'a list"
  m_cppflags :: "'a list"
  m_conlyflags :: "'a list"
  m_ldflags :: "'a list"
  m_include_dirs :: "'a list"
  m_local_include_dirs :: "'a list"
  m_export_include_dirs :: "'a list"
  m_shared_libs :: "'a list"
  m_static_libs :: "'a list"
  m_whole_static_libs :: "'a list"
  m_header_libs :: "'a list"
  m_generated_sources :: "'a list"
  m_generated_headers :: "'a list"
  m_cpp_std :: "string option"
  m_c_std :: "string option"
  m_enabled :: bool
  m_extra :: dict

record gensrcs =
  gs_name :: string
  gs_bp_dir :: string
  gs_tool :: pyval
  gs_cmd :: pyval
  gs_srcs :: "pyval list"
  gs_output_extension :: pyval
  gs_root_var :: string

definition new_module :: "string \<Rightarrow> string \<Rightarrow> string \<Rightarrow> string \<Rightarrow> 'a module" where
  "new_module name type bp_dir root_var =
     \<lparr>m_name = name, m_type = type, m_bp_dir = bp_dir, m_root_var = root_var,
      m_srcs = [], m_exclude_srcs = [], m_cflags = [], m_cppflags = [], m_conlyflags = [],
      m_ldflags = [], m_include_dirs = [], m_local_include_dirs = [], m_export_include_dirs = [],
      m_shared_libs = [], m_static_libs = [], m_whole_static_libs = [], m_header_libs = [],
      m_generated_sources = [], m_generated_headers = [], m_cpp_std = None, m_c_std = None,
      m_enabled = True, m_extra = []\<rparr>"

text \<open>\<open>effective_srcs\<close>: the loop over \<open>self.srcs\<close> with its set \<open>seen\<close>.\<close>

fun effective_loop :: "'a list \<Rightarrow> 'a list \<Rightarrow> 'a list \<Rightarrow> 'a list" where
  "effective_loop excluded seen [] = []"
| "effective_loop excluded seen (s # ss) =
     (if s \<in> set excluded \<or> s \<in> set seen then effective_loop excluded seen ss
      else s # effective_loop excluded (s # seen) ss)"

definition effective_srcs :: "'a module \<Rightarrow> 'a list" where
  "effective_srcs m = effective_loop (m_exclude_srcs m) [] (m_srcs m)"

text \<open>The graph: \<open>modules\<close> keeps the order in which names were first added.\<close>

type_synonym 'a graph = "(string \<times> 'a module) list"

definition graph_add :: "'a graph \<Rightarrow> 'a module \<Rightarrow> 'a graph" where
  "graph_add g m = AList.update (m_name m) m g"

definition graph_get :: "'a graph \<Rightarrow> string \<Rightarrow> 'a module option" where
  "graph_get g name = map_of g name"

subsection \<open>The typed border\<close>

fun as_str :: "pyval \<Rightarrow> exn + string" where
  "as_str (VStr s) = Inr s"
| "as_str v = Inl (IllTyped (type_name v))"

definition typed_list :: "pyval list \<Rightarrow> exn + string list" where
  "typed_list vs = map_r as_str vs"

definition typed_module :: "pyval module \<Rightarrow> exn + string module" where
  "typed_module m =
     rbind (typed_list (m_srcs m)) (\<lambda>srcs.
     rbind (typed_list (m_exclude_srcs m)) (\<lambda>exclude_srcs.
     rbind (typed_list (m_cflags m)) (\<lambda>cflags.
     rbind (typed_list (m_cppflags m)) (\<lambda>cppflags.
     rbind (typed_list (m_conlyflags m)) (\<lambda>conlyflags.
     rbind (typed_list (m_ldflags m)) (\<lambda>ldflags.
     rbind (typed_list (m_include_dirs m)) (\<lambda>include_dirs.
     rbind (typed_list (m_local_include_dirs m)) (\<lambda>local_include_dirs.
     rbind (typed_list (m_export_include_dirs m)) (\<lambda>export_include_dirs.
     rbind (typed_list (m_shared_libs m)) (\<lambda>shared_libs.
     rbind (typed_list (m_static_libs m)) (\<lambda>static_libs.
     rbind (typed_list (m_whole_static_libs m)) (\<lambda>whole_static_libs.
     rbind (typed_list (m_header_libs m)) (\<lambda>header_libs.
     rbind (typed_list (m_generated_sources m)) (\<lambda>generated_sources.
     rbind (typed_list (m_generated_headers m)) (\<lambda>generated_headers.
       Inr \<lparr>m_name = m_name m, m_type = m_type m, m_bp_dir = m_bp_dir m,
         m_root_var = m_root_var m, m_srcs = srcs, m_exclude_srcs = exclude_srcs,
         m_cflags = cflags, m_cppflags = cppflags, m_conlyflags = conlyflags,
         m_ldflags = ldflags, m_include_dirs = include_dirs,
         m_local_include_dirs = local_include_dirs, m_export_include_dirs = export_include_dirs,
         m_shared_libs = shared_libs, m_static_libs = static_libs,
         m_whole_static_libs = whole_static_libs, m_header_libs = header_libs,
         m_generated_sources = generated_sources, m_generated_headers = generated_headers,
         m_cpp_std = m_cpp_std m, m_c_std = m_c_std m, m_enabled = m_enabled m,
         m_extra = m_extra m\<rparr>)))))))))))))))"

subsection \<open>Effective sources\<close>

lemma set_effective_loop:
  "set (effective_loop ex seen ss) = set ss - set ex - set seen"
  by (induction ss arbitrary: seen) auto

lemma distinct_effective_loop: "distinct (effective_loop ex seen ss)"
  by (induction ss arbitrary: seen) (auto simp: set_effective_loop)

text \<open>The first occurrences, in order: what the loop keeps of the list.\<close>

fun firsts :: "'a list \<Rightarrow> 'a list" where
  "firsts [] = []"
| "firsts (x # xs) = x # firsts (filter (\<lambda>y. y \<noteq> x) xs)"

lemma effective_loop_firsts:
  "effective_loop ex seen ss = firsts (filter (\<lambda>s. s \<notin> set ex \<and> s \<notin> set seen) ss)"
proof (induction ss arbitrary: seen)
  case (Cons s ss)
  have "filter (\<lambda>y. y \<noteq> s) (filter (\<lambda>x. x \<notin> set ex \<and> x \<notin> set seen) ss)
    = filter (\<lambda>x. x \<notin> set ex \<and> x \<notin> set (s # seen)) ss"
    by (auto simp: conj_ac intro: filter_cong)
  then show ?case using Cons [of seen] Cons [of "s # seen"] by auto
qed simp

end
