(* ===== verification/BpEvaluator.thy ===== *)
theory BpEvaluator
  imports BpParser PyString BpConfig BpModel
begin

section \<open>The evaluator\<close>

text \<open>
  \<open>tools/bp2cmake/bp2cmake/evaluator.py\<close>. A file scope is the dictionary of its variables;
  the evaluator's state is the record \<open>evaluator\<close>, whose \<open>ev_decls\<close> is the dictionary
  \<open>self._decls\<close>. Expressions evaluate to \<open>pyval\<close>; \<open>EvalError\<close> and the exceptions of the
  Python operations used (\<open>TypeError\<close>, \<open>ValueError\<close>, \<open>KeyError\<close>) are results. Chains of
  \<open>defaults\<close> recurse as deep as the file makes them, so their expansion takes a recursion
  limit, and reaching it is \<open>RecursionError\<close>.
\<close>

subsection \<open>Tables\<close>

definition select_keys :: "string list" where
  "select_keys = [''target'', ''arch'', ''multilib'', ''soong_config_variables'', ''codegen'', ''avx2'']"

definition list_props :: "string list" where
  "list_props = [''srcs'', ''exclude_srcs'', ''cflags'', ''cppflags'', ''conlyflags'', ''ldflags'',
     ''include_dirs'', ''local_include_dirs'', ''export_include_dirs'', ''shared_libs'',
     ''static_libs'', ''whole_static_libs'', ''header_libs'', ''export_header_lib_headers'',
     ''export_static_lib_headers'', ''generated_sources'', ''generated_headers'']"

definition dep_list_props :: "string list" where
  "dep_list_props = [''shared_libs'', ''static_libs'', ''whole_static_libs'', ''header_libs'',
     ''export_header_lib_headers'', ''export_static_lib_headers'']"

definition ignored_props :: "string list" where
  "ignored_props = [''vndk'', ''apex_available'', ''min_sdk_version'', ''sanitize'', ''stubs'',
     ''vendor_available'', ''product_available'', ''ramdisk_available'',
     ''vendor_ramdisk_available'', ''recovery_available'', ''native_bridge_supported'',
     ''host_supported'', ''device_supported'', ''sdk_version'', ''stl'', ''double_loadable'',
     ''llndk'', ''version_script'', ''afdo'', ''compile_multilib'', ''visibility'',
     ''license_kinds'', ''license_text'', ''default_applicable_licenses'', ''lto'', ''tidy'',
     ''tidy_checks'', ''tidy_flags'', ''pack_relocations'', ''product_variables'',
     ''ndk_headers'', ''system_shared_libs'', ''required'', ''recovery'', ''native_coverage'',
     ''use_version_lib'', ''static'', ''shared'', ''header_abi_checker'', ''name'', ''defaults'']"

definition cc_module_types :: "string list" where
  "cc_module_types = [''cc_library'', ''cc_library_shared'', ''cc_library_static'',
     ''cc_library_headers'', ''cc_binary'', ''cc_binary_host'', ''cc_object'', ''cc_defaults'',
     ''cc_test'', ''art_cc_library'', ''art_cc_library_static'', ''art_cc_binary'',
     ''art_cc_defaults'', ''art_cc_test'', ''art_cc_test_library'', ''libart_cc_defaults'',
     ''libart_static_cc_defaults'', ''art_debug_defaults'', ''filegroup'', ''genrule'',
     ''gensrcs'', ''cc_genrule'', ''python_binary_host'']"

definition portable_relpath :: "string \<Rightarrow> string" where
  "portable_relpath p = replace_char (CHR 0x5C) (CHR ''/'') p"

fun strip_dep_tag :: "pyval \<Rightarrow> pyval" where
  "strip_dep_tag (VStr s) = VStr (takeWhile (\<lambda>c. c \<noteq> CHR ''#'') s)"
| "strip_dep_tag v = v"

subsection \<open>Expressions\<close>

text \<open>\<open>_concat\<close>: a boolean is an integer to \<open>isinstance\<close>.\<close>

fun py_concat :: "pyval \<Rightarrow> pyval \<Rightarrow> exn + pyval" where
  "py_concat VNone b = Inr b"
| "py_concat a VNone = Inr a"
| "py_concat (VStr a) (VStr b) = Inr (VStr (a @ b))"
| "py_concat (VList a) (VList b) = Inr (VList (a @ b))"
| "py_concat a b = (case (as_int a, as_int b) of
      (Some i, Some j) \<Rightarrow> Inr (VInt (i + j))
    | _ \<Rightarrow> Inl (EvalError ''cannot concatenate'' (type_name a @ '' + '' @ type_name b)))"

text \<open>
  \<open>try_match\<close> of \<open>_eval_select\<close>: \<open>match_loop\<close> is its inner loop over the patterns and the
  condition values, \<open>bound\<close> the variable of that name.
\<close>

fun pat_matches :: "bool \<Rightarrow> pattern \<Rightarrow> pyval \<Rightarrow> bool" where
  "pat_matches allow PDefault cv = allow"
| "pat_matches allow PAny cv = (cv \<noteq> VNone)"
| "pat_matches allow (PStr s) cv = py_eq (VStr s) cv"
| "pat_matches allow (PBool b) cv = py_eq (VBool b) cv"

fun match_loop :: "bool \<Rightarrow> pattern list \<Rightarrow> pyval list \<Rightarrow> pyval \<Rightarrow> pyval option" where
  "match_loop allow (p # ps) (cv # cvs) bound =
     (if pat_matches allow p cv then match_loop allow ps cvs cv else None)"
| "match_loop allow ps cvs bound = Some bound"

fun try_match :: "bool \<Rightarrow> pyval list \<Rightarrow> select_case list \<Rightarrow> (select_case \<times> pyval) option" where
  "try_match allow cvs [] = None"
| "try_match allow cvs (SelectCase ps e b l # scs) =
     (if length ps \<noteq> length cvs then try_match allow cvs scs
      else case match_loop allow ps cvs VNone of
             Some bound \<Rightarrow> Some (SelectCase ps e b l, bound)
           | None \<Rightarrow> try_match allow cvs scs)"

definition choose_case :: "pyval list \<Rightarrow> select_case list \<Rightarrow> (select_case \<times> pyval) option" where
  "choose_case cvs scs =
     (case try_match False cvs scs of Some c \<Rightarrow> Some c | None \<Rightarrow> try_match True cvs scs)"

lemma try_match_mem: "try_match allow cvs scs = Some (c, b) \<Longrightarrow> c \<in> set scs"
  by (induction allow cvs scs rule: try_match.induct) (auto split: if_splits option.splits)

lemma choose_case_mem: "choose_case cvs scs = Some (c, b) \<Longrightarrow> c \<in> set scs"
  by (auto simp: choose_case_def split: option.splits dest: try_match_mem)

definition condition_values :: "config \<Rightarrow> (string \<times> string list) list \<Rightarrow> pyval list" where
  "condition_values cfg conds = map (\<lambda>(f, as). select_condition_value cfg f as) conds"

fun case_scope :: "string option \<Rightarrow> pyval \<Rightarrow> dict \<Rightarrow> dict" where
  "case_scope None bound sc = sc"
| "case_scope (Some x) bound sc = AList.update x bound sc"

fun case_value :: "select_case \<Rightarrow> expr" where
  "case_value (SelectCase ps e b l) = e"

fun case_binding :: "select_case \<Rightarrow> string option" where
  "case_binding (SelectCase ps e b l) = b"

function eval :: "config \<Rightarrow> dict \<Rightarrow> expr \<Rightarrow> exn + pyval" where
  "eval cfg sc (StringLit s l) = Inr (VStr s)"
| "eval cfg sc (BoolLit b l) = Inr (VBool b)"
| "eval cfg sc (IntLit i l) = Inr (VInt i)"
| "eval cfg sc (VarRef x l) =
     (case map_of sc x of Some v \<Rightarrow> Inr v | None \<Rightarrow> Inl (EvalError ''undefined variable'' x))"
| "eval cfg sc (ListExpr es l) = rbind (map_r (eval cfg sc) es) (\<lambda>vs. Inr (VList vs))"
| "eval cfg sc (MapExpr es l) =
     rbind (map_r (\<lambda>ke. rbind (eval cfg sc (snd ke)) (\<lambda>v. Inr (fst ke, v))) es)
       (\<lambda>items. Inr (VDict (dict_of items)))"
| "eval cfg sc (Concat a b l) =
     rbind (eval cfg sc a) (\<lambda>x. rbind (eval cfg sc b) (\<lambda>y. py_concat x y))"
| "eval cfg sc (Select conds scs l) =
     (case choose_case (condition_values cfg conds) scs of
        None \<Rightarrow> Inr VNone
      | Some cb \<Rightarrow> eval cfg (case_scope (case_binding (fst cb)) (snd cb) sc) (case_value (fst cb)))"
  by pat_completeness auto

lemma size_case_value: "c \<in> set scs \<Longrightarrow> size (case_value c) < size_list size scs"
proof (induction scs)
  case (Cons d scs)
  have "size (case_value d) < size d" by (cases d) simp
  with Cons show ?case by auto
qed simp

lemma size_entry: "ke \<in> set es \<Longrightarrow> size (snd ke) < Suc (size_list (size_prod (\<lambda>_. 0) size) es)"
  by (induction es) (auto simp: prod.size_neq split: prod.splits)

termination eval
proof (relation "measure (\<lambda>(cfg, sc, e). size e)", goal_cases)
  case (3 cfg sc es l ke)
  then show ?case using size_entry by simp
next
  case (6 cfg sc conds scs l cb)
  then have "fst cb \<in> set scs" by (cases cb) (auto dest: choose_case_mem)
  from size_case_value [OF this] show ?case by simp
qed (auto simp: less_Suc_eq_le size_list_estimation')

text \<open>\<open>{k: self._eval(v, scope) for k, v in entries}\<close>\<close>

definition eval_props :: "config \<Rightarrow> dict \<Rightarrow> (string \<times> expr) list \<Rightarrow> exn + dict" where
  "eval_props cfg sc es =
     rbind (map_r (\<lambda>ke. rbind (eval cfg sc (snd ke)) (\<lambda>v. Inr (fst ke, v))) es)
       (\<lambda>items. Inr (dict_of items))"

subsection \<open>Loading files\<close>

record decl =
  d_type :: string
  d_props :: "(string \<times> expr) list"
  d_bp_dir :: string
  d_scope :: dict
  d_root_var :: string

record evaluator =
  ev_config :: config
  ev_decls :: "(pkey \<times> decl) list"
  ev_source_root :: string

definition new_evaluator :: "config \<Rightarrow> evaluator" where
  "new_evaluator cfg = \<lparr>ev_config = cfg, ev_decls = [], ev_source_root = []\<rparr>"

text \<open>\<open>_build_scope\<close>, one assignment at a time.\<close>

fun assign :: "config \<Rightarrow> statement \<Rightarrow> dict \<Rightarrow> exn + dict" where
  "assign cfg (Assignment x e appending l) sc =
     rbind (eval cfg sc e) (\<lambda>v.
       case (if appending then map_of sc x else None) of
         Some old \<Rightarrow> rbind (py_concat old v) (\<lambda>w. Inr (AList.update x w sc))
       | None \<Rightarrow> Inr (AList.update x v sc))"
| "assign cfg (ModuleDef t es ml l) sc = Inr sc"

definition build_scope :: "config \<Rightarrow> bp_file \<Rightarrow> exn + dict" where
  "build_scope cfg bp = fold_r (assign cfg) (bp_assignments bp) []"

definition eval_module_name :: "config \<Rightarrow> dict \<Rightarrow> (string \<times> expr) list \<Rightarrow> exn + pyval" where
  "eval_module_name cfg sc props =
     (case entries_get props ''name'' of None \<Rightarrow> Inr VNone | Some e \<Rightarrow> eval cfg sc e)"

text \<open>The collision rule: an incumbent cc-type declaration survives a newcomer that is not.\<close>

definition is_cc :: "decl \<Rightarrow> bool" where
  "is_cc d = (d_type d \<in> set cc_module_types)"

definition declare_module :: "pkey \<Rightarrow> decl \<Rightarrow> (pkey \<times> decl) list \<Rightarrow> (pkey \<times> decl) list" where
  "declare_module k d ds =
     (case map_of ds k of
        Some old \<Rightarrow> if is_cc old \<and> \<not> is_cc d then ds else AList.update k d ds
      | None \<Rightarrow> AList.update k d ds)"

text \<open>
  The loop of \<open>add_file\<close>. An exception leaves the declarations made before it in place, so the
  result pairs the exception, if any, with the state.
\<close>

fun add_modules :: "config \<Rightarrow> dict \<Rightarrow> string \<Rightarrow> string \<Rightarrow> statement list \<Rightarrow> (pkey \<times> decl) list \<Rightarrow>
    exn option \<times> (pkey \<times> decl) list" where
  "add_modules cfg sc dir root_var [] ds = (None, ds)"
| "add_modules cfg sc dir root_var (ModuleDef t es ml l # ms) ds =
     (case eval_module_name cfg sc es of
        Inl e \<Rightarrow> (Some e, ds)
      | Inr v \<Rightarrow>
          if \<not> truthy v then add_modules cfg sc dir root_var ms ds
          else case pkey_of v of
            Inl e \<Rightarrow> (Some e, ds)
          | Inr k \<Rightarrow> add_modules cfg sc dir root_var ms
              (declare_module k \<lparr>d_type = t, d_props = es, d_bp_dir = dir, d_scope = sc,
                 d_root_var = root_var\<rparr> ds))"
| "add_modules cfg sc dir root_var (Assignment x e a l # ms) ds =
     add_modules cfg sc dir root_var ms ds"

definition file_bp_dir :: "string \<Rightarrow> string \<Rightarrow> string \<Rightarrow> exn + string" where
  "file_bp_dir cwd path source_root =
     (if source_root = [] then Inr []
      else rbind (relpath cwd (dirname path) source_root) (\<lambda>rel.
        let d = portable_relpath rel in Inr (if d = ''.'' then [] else d)))"

definition add_file ::
  "string \<Rightarrow> string \<Rightarrow> string \<Rightarrow> string \<Rightarrow> string \<Rightarrow> evaluator \<Rightarrow> exn option \<times> evaluator" where
  "add_file cwd contents path source_root root_var ev =
     (case parse_text contents path of
        Inl e \<Rightarrow> (Some e, ev)
      | Inr bp \<Rightarrow>
          let ev1 = (if source_root = [] then ev else ev\<lparr>ev_source_root := source_root\<rparr>) in
          case file_bp_dir cwd path source_root of
            Inl e \<Rightarrow> (Some e, ev1)
          | Inr dir \<Rightarrow>
              case build_scope (ev_config ev) bp of
                Inl e \<Rightarrow> (Some e, ev1)
              | Inr sc \<Rightarrow>
                  let (err, ds) = add_modules (ev_config ev) sc dir root_var (bp_modules bp)
                        (ev_decls ev1)
                  in (err, ev1\<lparr>ev_decls := ds\<rparr>))"

subsection \<open>Merging property maps\<close>

function merge_value :: "pyval \<Rightarrow> pyval \<Rightarrow> pyval" and deep_merge :: "dict \<Rightarrow> dict \<Rightarrow> dict" where
  "merge_value va vb =
     (case (va, vb) of
        (VList xs, VList ys) \<Rightarrow> VList (xs @ ys)
      | (VDict d, VDict e) \<Rightarrow> VDict (deep_merge d e)
      | _ \<Rightarrow> vb)"
| "deep_merge a b =
     foldl (\<lambda>out item. AList.update (fst item)
       (case map_of out (fst item) of Some va \<Rightarrow> merge_value va (snd item) | None \<Rightarrow> snd item) out) a b"
  by pat_completeness auto

lemma size_item: "item \<in> set d \<Longrightarrow> size (snd item) < Suc (size_list (size_prod (\<lambda>_. 0) size) d)"
  by (induction d) (auto simp: prod.size_neq split: prod.splits)

termination merge_value
  by (relation "measure (\<lambda>x. case x of Inl (va, vb) \<Rightarrow> 2 * size vb
      | Inr (a, b) \<Rightarrow> 2 * size (VDict b) - 1)")
    (auto dest!: size_item)

declare merge_value.simps [simp del] deep_merge.simps [simp del]

lemma merge_value_simps [simp]:
  "merge_value (VList xs) (VList ys) = VList (xs @ ys)"
  "merge_value (VDict d) (VDict e) = VDict (deep_merge d e)"
  by (simp_all add: merge_value.simps)

subsection \<open>Collapsing selects\<close>

definition active_branches :: "config \<Rightarrow> string \<Rightarrow> dict \<Rightarrow> pyval list" where
  "active_branches cfg key block =
     (if key = ''target'' then List.map_filter (map_of block) (active_target_keys cfg)
      else if key = ''arch'' then List.map_filter (map_of block) [cfg_arch cfg]
      else if key = ''multilib'' then List.map_filter (map_of block) [multilib_key cfg]
      else if key = ''avx2'' then (if cfg_avx2 cfg then [VDict block] else [])
      else if key = ''codegen'' then List.map_filter (map_of block) (codegen_arches cfg)
      else if key = ''soong_config_variables'' then
        List.map_filter (\<lambda>(var, branch). case branch of
          VDict _ \<Rightarrow> if soong_config_value var then Some branch else None | _ \<Rightarrow> None) block
      else [])"

lemma active_branches_size:
  "b \<in> set (active_branches cfg key block) \<Longrightarrow> size b \<le> size (VDict block)"
  by (auto simp: active_branches_def in_map_filter less_imp_le dest!: size_value_get size_item
      split: if_splits option.splits pyval.splits)

function collapse_selects :: "config \<Rightarrow> dict \<Rightarrow> dict" where
  "collapse_selects cfg propmap =
     foldl (\<lambda>out key.
         case map_of propmap key of
           None \<Rightarrow> out
         | Some v \<Rightarrow> (case v of
             VDict block \<Rightarrow>
               foldl (\<lambda>out branch. case branch of
                   VDict d \<Rightarrow> deep_merge out (collapse_selects cfg d)
                 | _ \<Rightarrow> out) out (active_branches cfg key block)
           | _ \<Rightarrow> out))
       (filter (\<lambda>(k, v). k \<notin> set select_keys) propmap) select_keys"
  by pat_completeness auto
termination collapse_selects
  by (relation "measure (\<lambda>(cfg, d). size (VDict d))")
    (auto dest!: active_branches_size size_value_get)

declare collapse_selects.simps [simp del]

subsection \<open>Module resolution\<close>

text \<open>
  \<open>_resolve_propmap\<close>: the property map of a defaults module, its own defaults merged first, in
  order. \<open>limit\<close> is the recursion limit left.
\<close>

fun resolve_propmap :: "nat \<Rightarrow> evaluator \<Rightarrow> pyval \<Rightarrow> exn + dict" where
  "resolve_propmap 0 ev name = Inl RecursionError"
| "resolve_propmap (Suc limit) ev name =
     rbind (pkey_of name) (\<lambda>k.
       case map_of (ev_decls ev) k of
         None \<Rightarrow> Inl (EvalError ''unknown defaults module'' (pkey_str k))
       | Some d \<Rightarrow>
           rbind (eval_props (ev_config ev) (d_scope d) (d_props d)) (\<lambda>raw.
           rbind (py_iter (get_or_nil raw ''defaults'')) (\<lambda>names.
           rbind (fold_r (\<lambda>n merged. rbind (resolve_propmap limit ev n)
             (\<lambda>base. Inr (deep_merge merged base))) names []) (\<lambda>merged.
             Inr (deep_merge merged raw)))))"

text \<open>The property map that \<open>resolve\<close> builds before it collapses the selects.\<close>

definition merged_props :: "nat \<Rightarrow> evaluator \<Rightarrow> decl \<Rightarrow> exn + dict" where
  "merged_props limit ev d =
     rbind (eval_props (ev_config ev) (d_scope d) (d_props d)) (\<lambda>raw.
     rbind (py_iter (get_or_nil raw ''defaults'')) (\<lambda>names.
     rbind (fold_r (\<lambda>n merged. rbind (resolve_propmap limit ev n)
       (\<lambda>base. Inr (deep_merge merged base))) names []) (\<lambda>merged.
       Inr (deep_merge merged raw))))"

text \<open>\<open>getattr(m, key).extend(vals)\<close> on the list fields, and \<open>hasattr\<close> for them.\<close>

definition list_fields :: "string list" where
  "list_fields = filter (\<lambda>k. k \<notin> {''export_header_lib_headers'', ''export_static_lib_headers''}) list_props"

definition extend_field :: "string \<Rightarrow> 'a list \<Rightarrow> 'a module \<Rightarrow> 'a module" where
  "extend_field key vals m =
     (if key = ''srcs'' then m\<lparr>m_srcs := m_srcs m @ vals\<rparr>
      else if key = ''exclude_srcs'' then m\<lparr>m_exclude_srcs := m_exclude_srcs m @ vals\<rparr>
      else if key = ''cflags'' then m\<lparr>m_cflags := m_cflags m @ vals\<rparr>
      else if key = ''cppflags'' then m\<lparr>m_cppflags := m_cppflags m @ vals\<rparr>
      else if key = ''conlyflags'' then m\<lparr>m_conlyflags := m_conlyflags m @ vals\<rparr>
      else if key = ''ldflags'' then m\<lparr>m_ldflags := m_ldflags m @ vals\<rparr>
      else if key = ''include_dirs'' then m\<lparr>m_include_dirs := m_include_dirs m @ vals\<rparr>
      else if key = ''local_include_dirs'' then m\<lparr>m_local_include_dirs := m_local_include_dirs m @ vals\<rparr>
      else if key = ''export_include_dirs'' then m\<lparr>m_export_include_dirs := m_export_include_dirs m @ vals\<rparr>
      else if key = ''shared_libs'' then m\<lparr>m_shared_libs := m_shared_libs m @ vals\<rparr>
      else if key = ''static_libs'' then m\<lparr>m_static_libs := m_static_libs m @ vals\<rparr>
      else if key = ''whole_static_libs'' then m\<lparr>m_whole_static_libs := m_whole_static_libs m @ vals\<rparr>
      else if key = ''header_libs'' then m\<lparr>m_header_libs := m_header_libs m @ vals\<rparr>
      else if key = ''generated_sources'' then m\<lparr>m_generated_sources := m_generated_sources m @ vals\<rparr>
      else if key = ''generated_headers'' then m\<lparr>m_generated_headers := m_generated_headers m @ vals\<rparr>
      else m)"

definition set_extra :: "string \<Rightarrow> pyval \<Rightarrow> 'a module \<Rightarrow> 'a module" where
  "set_extra key v m = m\<lparr>m_extra := AList.update key v (m_extra m)\<rparr>"

text \<open>One iteration of the loop of \<open>_to_module\<close>; the second component is \<open>extra_header_libs\<close>.\<close>

definition map_property ::
  "string \<Rightarrow> pyval \<Rightarrow> pyval module \<times> pyval list \<Rightarrow> pyval module \<times> pyval list" where
  "map_property key v st =
     (let m = fst st; extra_header_libs = snd st in
      if key = ''enabled'' \<or> key \<in> set ignored_props then st
      else if key = ''cpp_std'' then
        (case v of VStr s \<Rightarrow> (m\<lparr>m_cpp_std := Some s\<rparr>, extra_header_libs) | _ \<Rightarrow> st)
      else if key = ''c_std'' then
        (case v of VStr s \<Rightarrow> (m\<lparr>m_c_std := Some s\<rparr>, extra_header_libs) | _ \<Rightarrow> st)
      else if key = ''export_header_lib_headers'' \<or> key = ''export_static_lib_headers'' then
        (case v of VList vs \<Rightarrow> (m, extra_header_libs @ map strip_dep_tag vs) | _ \<Rightarrow> st)
      else if key \<in> set list_props \<and> key \<in> set list_fields then
        (let vals = (case v of VList vs \<Rightarrow> vs | _ \<Rightarrow> [v]);
             vals = (if key \<in> set dep_list_props then map strip_dep_tag vals else vals)
         in (extend_field key vals m, extra_header_libs))
      else (set_extra key v m, extra_header_libs))"

definition add_header_lib :: "pyval \<Rightarrow> pyval module \<Rightarrow> pyval module" where
  "add_header_lib hl m =
     (if py_in hl (m_header_libs m) then m else m\<lparr>m_header_libs := m_header_libs m @ [hl]\<rparr>)"

definition to_module :: "string \<Rightarrow> string \<Rightarrow> string \<Rightarrow> dict \<Rightarrow> string \<Rightarrow> pyval module" where
  "to_module name type dir props root_var =
     (let m0 = new_module name type dir root_var;
          m1 = (if map_of props ''enabled'' = Some (VBool False) then m0\<lparr>m_enabled := False\<rparr> else m0);
          (m2, extra_header_libs) = foldl (\<lambda>st kv. map_property (fst kv) (snd kv) st) (m1, []) props
      in foldl (\<lambda>m hl. add_header_lib hl m) m2 extra_header_libs)"

definition resolve :: "nat \<Rightarrow> evaluator \<Rightarrow> string \<Rightarrow> exn + pyval module" where
  "resolve limit ev name =
     (case map_of (ev_decls ev) (KStr name) of
        None \<Rightarrow> Inl (EvalError ''unknown module'' name)
      | Some d \<Rightarrow>
          rbind (merged_props limit ev d) (\<lambda>merged.
            Inr (to_module name (d_type d) (d_bp_dir d)
              (collapse_selects (ev_config ev) merged) (d_root_var d))))"

definition resolve_typed :: "nat \<Rightarrow> evaluator \<Rightarrow> string \<Rightarrow> exn + string module" where
  "resolve_typed limit ev name = rbind (resolve limit ev name) typed_module"

definition resolve_source_container ::
  "nat \<Rightarrow> evaluator \<Rightarrow> string \<Rightarrow> exn + (string list \<times> string \<times> string) option" where
  "resolve_source_container limit ev name =
     (case map_of (ev_decls ev) (KStr name) of
        None \<Rightarrow> Inr None
      | Some d \<Rightarrow>
          if d_type d \<notin> {''filegroup'', ''cc_object''} then Inr None
          else rbind (resolve_typed limit ev name) (\<lambda>m.
            Inr (Some (effective_srcs m, m_bp_dir m, m_root_var m))))"

text \<open>\<open>v[0]\<close> on a truthy value.\<close>

fun py_first :: "pyval \<Rightarrow> exn + pyval" where
  "py_first (VList (v # vs)) = Inr v"
| "py_first (VStr (c # s)) = Inr (VStr [c])"
| "py_first (VList []) = Inl IndexError"
| "py_first (VStr []) = Inl IndexError"
| "py_first (VDict d) = Inl (KeyError ''0'')"
| "py_first v = Inl (TypeError (type_name v @ '' object is not subscriptable''))"

definition resolve_gensrcs :: "evaluator \<Rightarrow> string \<Rightarrow> exn + gensrcs" where
  "resolve_gensrcs ev name =
     (case map_of (ev_decls ev) (KStr name) of
        None \<Rightarrow> Inl (EvalError ''unknown gensrcs module'' name)
      | Some d \<Rightarrow>
          rbind (eval_props (ev_config ev) (d_scope d) (d_props d)) (\<lambda>raw.
          let tools = get_or_nil raw ''tools'' in
          rbind (if truthy tools then py_first tools else Inr (VStr [])) (\<lambda>tool.
          rbind (py_iter (get_or_nil raw ''srcs'')) (\<lambda>srcs.
            Inr \<lparr>gs_name = name, gs_bp_dir = d_bp_dir d, gs_tool = tool,
              gs_cmd = dget raw ''cmd'' (VStr []), gs_srcs = srcs,
              gs_output_extension = dget raw ''output_extension'' (VStr ''out''),
              gs_root_var = d_root_var d\<rparr>))))"

definition tool_script :: "evaluator \<Rightarrow> string \<Rightarrow> exn + (string \<times> pyval \<times> string) option" where
  "tool_script ev tool_name =
     (case map_of (ev_decls ev) (KStr tool_name) of
        None \<Rightarrow> Inr None
      | Some d \<Rightarrow>
          rbind (eval_props (ev_config ev) (d_scope d) (d_props d)) (\<lambda>raw.
          let srcs = get_or_nil raw ''srcs''; main = dget raw ''main'' VNone in
          rbind (case main of VStr s \<Rightarrow> Inr main
             | _ \<Rightarrow> if truthy srcs then py_first srcs else Inr VNone) (\<lambda>script.
            Inr (if truthy script then Some (d_bp_dir d, script, d_root_var d) else None))))"

definition build_graph :: "nat \<Rightarrow> evaluator \<Rightarrow> string list \<Rightarrow> exn + pyval graph" where
  "build_graph limit ev names =
     fold_r (\<lambda>n g. rbind (resolve limit ev n) (\<lambda>m. Inr (graph_add g m))) names []"

end
