(* ===== verification/BpMerge.thy ===== *)
theory BpMerge
  imports BpEvaluator
begin

section \<open>Merging property maps: laws\<close>

text \<open>
  What \<open>_deep_merge\<close> computes, key by key, and its algebra: the empty map is its unit and it
  is associative on maps whose entries have the same shape at the same place. Without that
  proviso it is not (a list, a string, a list in a row), which is why the schema of a property
  matters to the order in which defaults are expanded.
\<close>

subsection \<open>Association lists\<close>

lemma alist_eqI:
  assumes "map fst a = map fst b" and "distinct (map fst a)" and "map_of a = map_of b"
  shows "a = b"
proof -
  have rebuild: "d = map (\<lambda>k. (k, the (map_of d k))) (map fst d)" if "distinct (map fst d)" for d :: "('a \<times> 'b) list"
    using that by (auto simp: comp_def intro!: map_idI [symmetric])
  show ?thesis using rebuild [of a] rebuild [of b] assms by metis
qed

lemma map_of_append_not: "k \<notin> fst ` set xs \<Longrightarrow> map_of (xs @ ys) k = map_of ys k"
  by (induction xs) auto

subsection \<open>Lookup and order\<close>

abbreviation merge_step :: "dict \<Rightarrow> string \<times> pyval \<Rightarrow> dict" where
  "merge_step out item \<equiv> AList.update (fst item)
     (case map_of out (fst item) of Some va \<Rightarrow> merge_value va (snd item) | None \<Rightarrow> snd item) out"

text \<open>What one key gets from the two sides.\<close>

definition merge_opt :: "pyval option \<Rightarrow> pyval option \<Rightarrow> pyval option" where
  "merge_opt x y = (case y of None \<Rightarrow> x
     | Some vb \<Rightarrow> Some (case x of None \<Rightarrow> vb | Some va \<Rightarrow> merge_value va vb))"

lemma merge_opt_simps [simp]:
  "merge_opt x None = x" "merge_opt None y = y"
  "merge_opt (Some a) (Some b) = Some (merge_value a b)"
  by (auto simp: merge_opt_def split: option.splits)

lemma map_of_merge_steps:
  "distinct (map fst b) \<Longrightarrow> map_of (foldl merge_step a b) k = merge_opt (map_of a k) (map_of b k)"
proof (induction b arbitrary: a)
  case (Cons item b)
  show ?case
  proof (cases "fst item = k")
    case True
    then have "map_of b k = None" using Cons.prems by (auto simp: map_of_eq_None_iff)
    with Cons True show ?thesis
      by (cases item) (auto simp: update_conv merge_opt_def split: option.splits)
  next
    case False
    with Cons show ?thesis by (cases item) (auto simp: update_conv)
  qed
qed simp

lemma map_of_deep_merge:
  "distinct (map fst b) \<Longrightarrow> map_of (deep_merge a b) k = merge_opt (map_of a k) (map_of b k)"
  unfolding deep_merge.simps [of a b] by (rule map_of_merge_steps)

lemma keys_update: "fst ` set (AList.update k v d) = insert k (fst ` set d)"
  by (induction d) auto

lemma keys_merge_steps:
  "distinct (map fst b) \<Longrightarrow>
   map fst (foldl merge_step a b) = map fst a @ filter (\<lambda>k. k \<notin> fst ` set a) (map fst b)"
proof (induction b arbitrary: a)
  case (Cons item b)
  have "filter (\<lambda>k. k \<notin> fst ` set (merge_step a item)) (map fst b)
      = filter (\<lambda>k. k \<notin> fst ` set a) (map fst b)"
    using Cons.prems by (intro filter_cong) (auto simp: keys_update simp del: set_map)
  with Cons show ?case by (auto simp: update_keys)
qed simp

lemma keys_deep_merge:
  "distinct (map fst b) \<Longrightarrow>
   map fst (deep_merge a b) = map fst a @ filter (\<lambda>k. k \<notin> fst ` set a) (map fst b)"
  unfolding deep_merge.simps [of a b] by (rule keys_merge_steps)

lemma keys_set_deep_merge:
  "distinct (map fst b) \<Longrightarrow> fst ` set (deep_merge a b) = fst ` set a \<union> fst ` set b"
  using keys_deep_merge [of b a] by (auto simp: set_map [symmetric] simp del: set_map)

lemma merge_value_eq:
  "merge_value va vb = (case vb of
      VList ys \<Rightarrow> (case va of VList xs \<Rightarrow> VList (xs @ ys) | _ \<Rightarrow> vb)
    | VDict e \<Rightarrow> (case va of VDict d \<Rightarrow> VDict (deep_merge d e) | _ \<Rightarrow> vb)
    | _ \<Rightarrow> vb)"
  by (cases va; cases vb) (simp_all add: merge_value.simps)

lemma deep_merge_Nil_right [simp]: "deep_merge a [] = a"
  by (simp add: deep_merge.simps)

lemma deep_merge_Nil_left: "distinct (map fst b) \<Longrightarrow> deep_merge [] b = b"
  by (rule alist_eqI) (auto simp: keys_deep_merge map_of_deep_merge)

subsection \<open>Well-formedness\<close>

lemma distinct_deep_merge:
  "distinct (map fst a) \<Longrightarrow> distinct (map fst b) \<Longrightarrow> distinct (map fst (deep_merge a b))"
  by (auto simp: keys_deep_merge)

lemma wf_dict_iff:
  "wf_dict d \<longleftrightarrow> distinct (map fst d) \<and> (\<forall>k v. map_of d k = Some v \<longrightarrow> wf_value v)"
  by (auto simp: list_all_iff map_of_eq_Some_iff)

lemma wf_merge: "wf_value va \<Longrightarrow> wf_value vb \<Longrightarrow> wf_value (merge_value va vb)"
proof (induction vb arbitrary: va)
  case (VList ys)
  then show ?case by (cases va) (auto simp: merge_value_eq)
next
  case (VDict e)
  show ?case
  proof (cases va)
    case (VDict d)
    have "wf_value v" if "map_of (deep_merge d e) k = Some v" for k v
    proof -
      have kd: "wf_value w" if "map_of d k = Some w" for w using VDict VDict.prems that wf_value_get by auto
      have ke: "wf_value w" if "map_of e k = Some w" for w using VDict.prems(2) that wf_value_get by blast
      have "wf_value (merge_value u w)" if "map_of e k = Some w" "wf_value u" for u w
        using VDict.IH map_of_SomeD [OF that(1)] ke that by fastforce
      then show ?thesis
        using that kd ke VDict.prems(2) by (auto simp: map_of_deep_merge merge_opt_def split: option.splits)
    qed
    then have "wf_dict (deep_merge d e)"
      using VDict VDict.prems by (auto simp: wf_dict_iff distinct_deep_merge simp del: wf_value.simps)
    then show ?thesis using VDict by simp
  qed (use VDict.prems in \<open>auto simp: merge_value_eq\<close>)
qed (auto simp: merge_value_eq)

lemma wf_deep_merge: "wf_dict a \<Longrightarrow> wf_dict b \<Longrightarrow> wf_dict (deep_merge a b)"
  using wf_merge [of "VDict a" "VDict b"] by simp

subsection \<open>Associativity\<close>

text \<open>Two values of one shape: both lists, both dictionaries that agree in shape on their common
  keys, or neither a list nor a dictionary.\<close>

fun is_scalar :: "pyval \<Rightarrow> bool" where
  "is_scalar (VList _) = False"
| "is_scalar (VDict _) = False"
| "is_scalar _ = True"

fun same_shape :: "pyval \<Rightarrow> pyval \<Rightarrow> bool" where
  "same_shape (VList xs) w = (case w of VList ys \<Rightarrow> True | _ \<Rightarrow> False)"
| "same_shape (VDict d) w = (case w of
      VDict e \<Rightarrow> list_all (\<lambda>(k, v). case map_of e k of None \<Rightarrow> True | Some x \<Rightarrow> same_shape v x) d
    | _ \<Rightarrow> False)"
| "same_shape v w = is_scalar w"

abbreviation same_shape_dict :: "dict \<Rightarrow> dict \<Rightarrow> bool" where
  "same_shape_dict d e \<equiv> same_shape (VDict d) (VDict e)"

lemma same_shape_dict_get:
  "same_shape_dict d e \<Longrightarrow> map_of d k = Some v \<Longrightarrow> map_of e k = Some w \<Longrightarrow> same_shape v w"
  by (fastforce simp: list_all_iff dest: map_of_SomeD [of d] split: option.splits)

lemma same_shape_dictI:
  "distinct (map fst d) \<Longrightarrow>
   (\<And>k v w. map_of d k = Some v \<Longrightarrow> map_of e k = Some w \<Longrightarrow> same_shape v w) \<Longrightarrow> same_shape_dict d e"
  by (auto simp: list_all_iff split: option.splits)

lemma merge_value_assoc:
  assumes "wf_value va" "wf_value vb" "wf_value vc"
    and "same_shape va vb" "same_shape vb vc" "same_shape va vc"
  shows "merge_value (merge_value va vb) vc = merge_value va (merge_value vb vc)"
  using assms
proof (induction vc arbitrary: va vb)
  case (VList zs)
  then show ?case by (cases va; cases vb) (auto simp: merge_value_eq split: pyval.splits)
next
  case (VDict c)
  then obtain a b where ab: "va = VDict a" "vb = VDict b"
    by (cases va; cases vb) auto
  have wf: "wf_dict a" "wf_dict b" "wf_dict c" using VDict.prems ab by auto
  then have dist: "distinct (map fst a)" "distinct (map fst b)" "distinct (map fst c)" by auto
  have "map_of (deep_merge (deep_merge a b) c) k = map_of (deep_merge a (deep_merge b c)) k" for k
  proof -
    have "merge_value (merge_value x y) z = merge_value x (merge_value y z)"
      if "map_of a k = Some x" "map_of b k = Some y" "map_of c k = Some z" for x y z
    proof (rule VDict.IH [of "(k, z)"])
      show "(k, z) \<in> set c" using that(3) by (rule map_of_SomeD)
    qed (use that ab VDict.prems wf in \<open>auto intro: wf_value_get same_shape_dict_get
          simp del: wf_value.simps same_shape.simps\<close>)
    then show ?thesis
      using dist by (auto simp: map_of_deep_merge distinct_deep_merge merge_opt_def split: option.splits)
  qed
  moreover have "map fst (deep_merge (deep_merge a b) c) = map fst (deep_merge a (deep_merge b c))"
    using dist keys_deep_merge [OF distinct_deep_merge [OF dist(2,3)], of a]
    by (simp add: keys_deep_merge keys_set_deep_merge) (auto intro!: filter_cong)
  ultimately have "deep_merge (deep_merge a b) c = deep_merge a (deep_merge b c)"
    using dist by (intro alist_eqI) (auto simp: distinct_deep_merge)
  then show ?case using ab by simp
qed (cases va; cases vb; auto simp: merge_value_eq)+

lemma deep_merge_assoc:
  assumes "wf_dict a" "wf_dict b" "wf_dict c"
    and "same_shape_dict a b" "same_shape_dict b c" "same_shape_dict a c"
  shows "deep_merge (deep_merge a b) c = deep_merge a (deep_merge b c)"
  using merge_value_assoc [of "VDict a" "VDict b" "VDict c"] assms by simp

end
