(* ===== verification/BpResolve.thy ===== *)
theory BpResolve
  imports BpMerge
begin

section \<open>Module resolution: what a resolved module holds\<close>

text \<open>
  The order in which \<open>resolve\<close> and \<open>_resolve_propmap\<close> merge property maps, as a list: a module's
  defaults, each with its own defaults before it, then the module. Nested merging is the fold of
  that list; a recursion limit above the depth of the defaults is never reached, and a cycle of
  defaults never resolves. The collapsed map is given key by key.
\<close>

declare wf_value.simps(2) [simp del] same_shape.simps(2) [simp del]

lemma wf_dict_Nil [simp]: "wf_dict []"
  by (simp add: wf_value.simps)

subsection \<open>Evaluation yields well-formed values\<close>

lemma wf_py_concat: "py_concat a b = Inr c \<Longrightarrow> wf_value a \<Longrightarrow> wf_value b \<Longrightarrow> wf_value c"
  by (induction a b rule: py_concat.induct) (auto split: option.splits)

lemma map_r_all: "map_r f xs = Inr ys \<Longrightarrow> (\<And>x y. x \<in> set xs \<Longrightarrow> f x = Inr y \<Longrightarrow> P y) \<Longrightarrow> list_all P ys"
proof (induction xs arbitrary: ys)
  case (Cons x xs)
  from Cons.prems(1) obtain y zs where "f x = Inr y" "map_r f xs = Inr zs" "ys = y # zs"
    by (auto simp: result_simps)
  moreover from this Cons.prems(2) have "P y" by (meson list.set_intros(1))
  moreover from calculation Cons.prems(2) have "list_all P zs"
    by (intro Cons.IH) (meson list.set_intros(2))+
  ultimately show ?case by simp
qed simp

lemma match_loop_bound:
  "match_loop allow ps cvs b = Some v \<Longrightarrow> v = b \<or> v \<in> set cvs"
  by (induction allow ps cvs b rule: match_loop.induct) (auto split: if_splits)

lemma try_match_bound:
  "try_match allow cvs scs = Some (c, v) \<Longrightarrow> v = VNone \<or> v \<in> set cvs"
  by (induction allow cvs scs rule: try_match.induct)
    (auto split: if_splits option.splits dest: match_loop_bound)

lemma choose_case_bound: "choose_case cvs scs = Some (c, v) \<Longrightarrow> v = VNone \<or> v \<in> set cvs"
  by (auto simp: choose_case_def split: option.splits dest: try_match_bound)

lemma wf_condition: "v \<in> set (condition_values cfg conds) \<Longrightarrow> wf_value v"
proof -
  assume "v \<in> set (condition_values cfg conds)"
  then obtain f as where "v = select_condition_value cfg f as"
    by (auto simp: condition_values_def)
  then show ?thesis using select_condition_value_cases [of cfg f as] by auto
qed

lemma wf_case_scope: "wf_dict sc \<Longrightarrow> wf_value v \<Longrightarrow> wf_dict (case_scope b v sc)"
  by (cases b) (auto simp: wf_dict_update)

lemma wf_eval: "eval cfg sc e = Inr v \<Longrightarrow> wf_dict sc \<Longrightarrow> wf_value v"
proof (induction cfg sc e arbitrary: v rule: eval.induct)
  case (4 cfg sc x l)
  then show ?case by (auto split: option.splits dest: wf_value_get)
next
  case (5 cfg sc es l)
  from 5(2) obtain vs where vs: "map_r (eval cfg sc) es = Inr vs" "v = VList vs"
    by (auto simp: result_simps)
  have "list_all wf_value vs" by (rule map_r_all [OF vs(1)]) (use 5 in blast)
  with vs(2) show ?case by simp
next
  case (6 cfg sc es l)
  from 6(2) obtain items where items:
    "map_r (\<lambda>ke. rbind (eval cfg sc (snd ke)) (\<lambda>v. Inr (fst ke, v))) es = Inr items"
    "v = VDict (dict_of items)" by (auto simp: result_simps)
  have "list_all (\<lambda>(k, v). wf_value v) items"
    by (rule map_r_all [OF items(1)]) (use 6 in \<open>auto simp: result_simps\<close>)
  with items(2) show ?case using wf_dict_of by blast
next
  case (7 cfg sc a b l)
  then show ?case by (auto simp: result_simps intro: wf_py_concat)
next
  case (8 cfg sc conds scs l)
  show ?case
  proof (cases "choose_case (condition_values cfg conds) scs")
    case None
    then show ?thesis using 8 by auto
  next
    case (Some cb)
    then have "wf_value (snd cb)"
      using choose_case_bound [of "condition_values cfg conds" scs "fst cb" "snd cb"]
        wf_condition by fastforce
    then have "wf_dict (case_scope (case_binding (fst cb)) (snd cb) sc)"
      using 8(3) by (rule wf_case_scope [rotated])
    then show ?thesis using 8(1) [OF Some _] 8(2) Some by simp
  qed
qed auto

lemma eval_MapExpr: "eval cfg sc (MapExpr es l) = rbind (eval_props cfg sc es) (\<lambda>d. Inr (VDict d))"
  by (simp add: eval_props_def rbind_assoc)

lemma wf_eval_props: "eval_props cfg sc es = Inr d \<Longrightarrow> wf_dict sc \<Longrightarrow> wf_dict d"
  using wf_eval [of cfg sc "MapExpr es 0" "VDict d"] by (simp add: eval_MapExpr del: eval.simps)

subsection \<open>The evaluator's invariant\<close>

definition ev_ok :: "evaluator \<Rightarrow> bool" where
  "ev_ok ev = (distinct (map fst (ev_decls ev)) \<and> (\<forall>(k, d) \<in> set (ev_decls ev). wf_dict (d_scope d)))"

abbreviation decls_ok :: "(pkey \<times> decl) list \<Rightarrow> bool" where
  "decls_ok ds \<equiv> distinct (map fst ds) \<and> (\<forall>(k, d) \<in> set ds. wf_dict (d_scope d))"

lemma ev_ok_new: "ev_ok (new_evaluator cfg)"
  by (simp add: ev_ok_def new_evaluator_def)

lemma set_update_subset: "set (AList.update k v ds) \<subseteq> insert (k, v) (set ds)"
  by (induction ds) auto

lemma decls_ok_update: "decls_ok ds \<Longrightarrow> wf_dict (d_scope d) \<Longrightarrow> decls_ok (AList.update k d ds)"
  using set_update_subset [of k d ds] by (auto simp: distinct_update)

lemma decls_ok_declare: "decls_ok ds \<Longrightarrow> wf_dict (d_scope d) \<Longrightarrow> decls_ok (declare_module k d ds)"
  unfolding declare_module_def
  by (cases "map_of ds k") (simp_all add: decls_ok_update)

lemma decls_ok_add_modules:
  "decls_ok ds \<Longrightarrow> wf_dict sc \<Longrightarrow> decls_ok (snd (add_modules cfg sc dir rv ms ds))"
proof (induction cfg sc dir rv ms ds rule: add_modules.induct)
  case (2 cfg sc dir rv t es ml l ms ds)
  let ?d = "\<lparr>d_type = t, d_props = es, d_bp_dir = dir, d_scope = sc, d_root_var = rv\<rparr>"
  have "decls_ok (declare_module k ?d ds)" for k
    using 2(3,4) by (intro decls_ok_declare) simp_all
  then show ?case
    using 2 by (auto split: sum.splits)
qed simp_all

lemma wf_assign: "assign cfg s sc = Inr sc' \<Longrightarrow> wf_dict sc \<Longrightarrow> wf_dict sc'"
proof (cases s)
  case (Assignment x e a l)
  assume s: "assign cfg s sc = Inr sc'" and wf: "wf_dict sc"
  from s Assignment obtain v where v: "eval cfg sc e = Inr v"
    and sc': "(case (if a then map_of sc x else None) of
         Some old \<Rightarrow> rbind (py_concat old v) (\<lambda>w. Inr (AList.update x w sc))
       | None \<Rightarrow> Inr (AList.update x v sc)) = Inr sc'"
    by (auto simp: result_simps)
  have "wf_value v" using v wf by (rule wf_eval)
  moreover have "wf_value old" if "map_of sc x = Some old" for old
    using wf that by (rule wf_value_get)
  ultimately show ?thesis
    using sc' wf by (auto simp: result_simps split: option.splits if_splits
        intro!: wf_dict_update intro: wf_py_concat)
qed simp

lemma wf_build_scope: "build_scope cfg bp = Inr sc \<Longrightarrow> wf_dict sc"
  unfolding build_scope_def
  by (erule fold_r_invariant) (simp, blast intro: wf_assign)

lemma add_file_decls:
  "ev_decls (snd (add_file cwd src path root rv ev)) = ev_decls ev
   \<or> (\<exists>bp sc dir. parse_text src path = Inr bp \<and> build_scope (ev_config ev) bp = Inr sc
        \<and> file_bp_dir cwd path root = Inr dir
        \<and> ev_decls (snd (add_file cwd src path root rv ev))
          = snd (add_modules (ev_config ev) sc dir rv (bp_modules bp) (ev_decls ev)))"
proof (cases "parse_text src path")
  case (Inr bp)
  show ?thesis
  proof (cases "file_bp_dir cwd path root")
    case d: (Inr dir)
    show ?thesis
      using Inr d by (cases "build_scope (ev_config ev) bp")
        (simp_all add: add_file_def Let_def case_prod_unfold)
  qed (use Inr in \<open>simp_all add: add_file_def Let_def\<close>)
qed (simp add: add_file_def)

lemma ev_ok_add_file:
  assumes "ev_ok ev"
  shows "ev_ok (snd (add_file cwd src path root rv ev))"
  using add_file_decls [of cwd src path root rv ev] assms decls_ok_add_modules wf_build_scope
  unfolding ev_ok_def by metis

subsection \<open>The order of merging\<close>

text \<open>
  \<open>linearize\<close> lists the property maps that \<open>_resolve_propmap\<close> merges, in the order of a
  depth-first walk of the defaults: every default before the map that names it.
\<close>

fun linearize :: "nat \<Rightarrow> evaluator \<Rightarrow> pyval \<Rightarrow> exn + dict list" where
  "linearize 0 ev name = Inl RecursionError"
| "linearize (Suc limit) ev name =
     rbind (pkey_of name) (\<lambda>k.
       case map_of (ev_decls ev) k of
         None \<Rightarrow> Inl (EvalError ''unknown defaults module'' (pkey_str k))
       | Some d \<Rightarrow>
           rbind (eval_props (ev_config ev) (d_scope d) (d_props d)) (\<lambda>raw.
           rbind (py_iter (get_or_nil raw ''defaults'')) (\<lambda>names.
           rbind (map_r (linearize limit ev) names) (\<lambda>mss. Inr (concat mss @ [raw])))))"

definition linearize_decl :: "nat \<Rightarrow> evaluator \<Rightarrow> decl \<Rightarrow> exn + dict list" where
  "linearize_decl limit ev d =
     rbind (eval_props (ev_config ev) (d_scope d) (d_props d)) (\<lambda>raw.
     rbind (py_iter (get_or_nil raw ''defaults'')) (\<lambda>names.
     rbind (map_r (linearize limit ev) names) (\<lambda>mss. Inr (concat mss @ [raw]))))"

definition merge_all :: "dict list \<Rightarrow> dict" where
  "merge_all ms = foldl deep_merge [] ms"

definition shaped :: "dict list \<Rightarrow> bool" where
  "shaped ms = (\<forall>a \<in> set ms. \<forall>b \<in> set ms. same_shape_dict a b)"

text \<open>Merging stays within a shape.\<close>

lemma same_shape_merge:
  assumes "wf_value x" "wf_value y" "wf_value z" "same_shape x y"
  shows "same_shape x z \<Longrightarrow> same_shape y z \<Longrightarrow> same_shape (merge_value x y) z"
    and "same_shape z x \<Longrightarrow> same_shape z y \<Longrightarrow> same_shape z (merge_value x y)"
proof -
  have "(same_shape x z \<longrightarrow> same_shape y z \<longrightarrow> same_shape (merge_value x y) z)
      \<and> (same_shape z x \<longrightarrow> same_shape z y \<longrightarrow> same_shape z (merge_value x y))"
    using assms
  proof (induction y arbitrary: x z)
    case (VList ys)
    then obtain xs where "x = VList xs" by (cases x) (auto simp: same_shape.simps)
    then show ?case by (cases z) (auto simp: same_shape.simps)
  next
    case (VDict e)
    then obtain d where x: "x = VDict d" by (cases x) (auto simp: same_shape.simps)
    show ?case
    proof (cases "\<exists>f. z = VDict f")
      case True
      then obtain f where z: "z = VDict f" by blast
      have wf: "wf_dict d" "wf_dict e" "wf_dict f" using VDict.prems x z by auto
      then have dist: "distinct (map fst d)" "distinct (map fst e)" "distinct (map fst f)"
        by (auto simp: wf_value.simps)
      have sub: "(same_shape v w \<longrightarrow> same_shape u w \<longrightarrow> same_shape (merge_value v u) w)
          \<and> (same_shape w v \<longrightarrow> same_shape w u \<longrightarrow> same_shape w (merge_value v u))"
        if "map_of d k = Some v" "map_of e k = Some u" "map_of f k = Some w" for k v u w
      proof (rule VDict.IH [of "(k, u)"])
        show "(k, u) \<in> set e" using that(2) by (rule map_of_SomeD)
      qed (use that wf VDict.prems(4) x in \<open>auto intro: wf_value_get same_shape_dict_get\<close>)
      have "same_shape_dict (deep_merge d e) f" if "same_shape_dict d f" "same_shape_dict e f"
      proof (rule same_shape_dictI)
        fix k v w assume kv: "map_of (deep_merge d e) k = Some v" "map_of f k = Some w"
        then show "same_shape v w"
          using dist sub [of k] same_shape_dict_get [OF that(1), of k] same_shape_dict_get [OF that(2), of k]
          by (auto simp: map_of_deep_merge merge_opt_def split: option.splits)
      qed (use dist in \<open>simp add: distinct_deep_merge\<close>)
      moreover have "same_shape_dict f (deep_merge d e)" if "same_shape_dict f d" "same_shape_dict f e"
      proof (rule same_shape_dictI)
        fix k w v assume kv: "map_of f k = Some w" "map_of (deep_merge d e) k = Some v"
        then show "same_shape w v"
          using dist sub [of k] same_shape_dict_get [OF that(1), of k] same_shape_dict_get [OF that(2), of k]
          by (auto simp: map_of_deep_merge merge_opt_def split: option.splits)
      qed (use dist in simp)
      ultimately show ?thesis using x z by simp
    next
      case False
      then show ?thesis using x by (cases z) (auto simp: same_shape.simps)
    qed
  qed (cases x; cases z; simp add: merge_value_eq same_shape.simps)+
  then show "same_shape x z \<Longrightarrow> same_shape y z \<Longrightarrow> same_shape (merge_value x y) z"
    and "same_shape z x \<Longrightarrow> same_shape z y \<Longrightarrow> same_shape z (merge_value x y)"
    by blast+
qed

lemmas same_shape_deep_merge =
  same_shape_merge [of "VDict a" "VDict b" "VDict c" for a b c, unfolded merge_value_simps]

lemma same_shape_Nil [simp]: "same_shape_dict [] d" "same_shape_dict d []"
  by (auto simp: same_shape.simps list_all_iff)

lemma merge_all_Nil [simp]: "merge_all [] = []"
  by (simp add: merge_all_def)

lemma merge_all_snoc [simp]: "merge_all (ms @ [m]) = deep_merge (merge_all ms) m"
  by (simp add: merge_all_def)

lemma wf_merge_all: "\<forall>m \<in> set ms. wf_dict m \<Longrightarrow> wf_dict (merge_all ms)"
  by (induction ms rule: rev_induct) (auto intro: wf_deep_merge)

lemma same_shape_merge_all:
  assumes "\<forall>m \<in> set ms. wf_dict m" "shaped ms" "wf_dict z"
    and "\<forall>m \<in> set ms. same_shape_dict m z \<and> same_shape_dict z m"
  shows "same_shape_dict (merge_all ms) z \<and> same_shape_dict z (merge_all ms)"
  using assms
proof (induction ms arbitrary: z rule: rev_induct)
  case (snoc m ms)
  have sh: "shaped ms" using snoc.prems(2) by (simp add: shaped_def)
  have wf: "wf_dict (merge_all ms)" "wf_dict m" using snoc.prems(1) wf_merge_all by auto
  have "same_shape_dict (merge_all ms) m"
    using snoc.IH [of m] snoc.prems(1,2) sh by (simp add: shaped_def)
  moreover have "same_shape_dict (merge_all ms) z \<and> same_shape_dict z (merge_all ms)"
    using snoc.IH [of z] snoc.prems sh by simp
  ultimately show ?case using snoc.prems(3,4) wf same_shape_deep_merge by simp
qed simp

lemma merge_all_append:
  assumes "\<forall>m \<in> set (xs @ ys). wf_dict m" "shaped (xs @ ys)"
  shows "merge_all (xs @ ys) = deep_merge (merge_all xs) (merge_all ys)"
  using assms
proof (induction ys rule: rev_induct)
  case (snoc y ys)
  have sh: "shaped xs" "shaped ys" "shaped (xs @ ys)" using snoc.prems(2) by (auto simp: shaped_def)
  have wf: "wf_dict (merge_all xs)" "wf_dict (merge_all ys)" "wf_dict y"
    using snoc.prems(1) wf_merge_all by auto
  have xz: "same_shape_dict (merge_all xs) z \<and> same_shape_dict z (merge_all xs)"
    if "z \<in> set (xs @ ys @ [y])" for z
    by (rule same_shape_merge_all) (use that snoc.prems sh in \<open>auto simp: shaped_def\<close>)
  have yz: "same_shape_dict (merge_all ys) y"
    using same_shape_merge_all [of ys y] snoc.prems sh by (auto simp: shaped_def)
  have xy: "same_shape_dict (merge_all xs) (merge_all ys)"
    using same_shape_merge_all [of ys "merge_all xs"] xz wf snoc.prems sh by auto
  have "merge_all (xs @ ys @ [y]) = deep_merge (merge_all (xs @ ys)) y"
    using merge_all_snoc [of "xs @ ys" y] by simp
  also have "\<dots> = deep_merge (deep_merge (merge_all xs) (merge_all ys)) y"
    using snoc.IH snoc.prems(1) sh by simp
  also have "\<dots> = deep_merge (merge_all xs) (deep_merge (merge_all ys) y)"
    by (rule deep_merge_assoc) (use wf xy yz xz in auto)
  finally show ?case by simp
qed simp

lemma map_r_linearize_wf:
  assumes "map_r f names = Inr mss" and "\<And>n ms. n \<in> set names \<Longrightarrow> f n = Inr ms \<Longrightarrow> \<forall>m \<in> set ms. wf_dict m"
  shows "\<forall>m \<in> set (concat mss). wf_dict m"
  using map_r_all [OF assms(1), of "\<lambda>ms. \<forall>m \<in> set ms. wf_dict m"] assms(2)
  by (auto simp: list_all_iff)

lemma linearize_wf:
  assumes "ev_ok ev"
  shows "linearize limit ev name = Inr ms \<Longrightarrow> \<forall>m \<in> set ms. wf_dict m"
proof (induction limit arbitrary: name ms)
  case (Suc limit)
  from Suc.prems obtain k d raw names mss where
    d: "map_of (ev_decls ev) k = Some d" and raw: "eval_props (ev_config ev) (d_scope d) (d_props d) = Inr raw"
    and mss: "map_r (linearize limit ev) names = Inr mss" and ms: "ms = concat mss @ [raw]"
    by (auto simp: result_simps split: option.splits)
  have "wf_dict (d_scope d)" using assms map_of_SomeD [OF d] by (auto simp: ev_ok_def)
  then have "wf_dict raw" using raw by (rule wf_eval_props [rotated])
  moreover have "\<forall>m \<in> set (concat mss). wf_dict m"
    using mss Suc.IH by (rule map_r_linearize_wf)
  ultimately show ?case using ms by auto
qed simp

text \<open>The loop over the defaults merges what the lists merge to.\<close>

lemma fold_defaults:
  assumes "map_r (linearize limit ev) names = Inr mss"
    and "\<And>n ms. n \<in> set names \<Longrightarrow> linearize limit ev n = Inr ms \<Longrightarrow> shaped ms \<Longrightarrow>
      resolve_propmap limit ev n = Inr (merge_all ms)"
    and "\<forall>m \<in> set (pre @ concat mss). wf_dict m" "shaped (pre @ concat mss)"
  shows "fold_r (\<lambda>n merged. rbind (resolve_propmap limit ev n) (\<lambda>base. Inr (deep_merge merged base)))
      names (merge_all pre) = Inr (merge_all (pre @ concat mss))"
  using assms
proof (induction names arbitrary: mss pre)
  case (Cons n names)
  from Cons.prems(1) obtain ms mss' where n: "linearize limit ev n = Inr ms"
    and rest: "map_r (linearize limit ev) names = Inr mss'" and mss: "mss = ms # mss'"
    by (auto simp: result_simps)
  have sh: "shaped ms" "shaped (pre @ ms)" using Cons.prems(4) mss by (auto simp: shaped_def)
  have run: "resolve_propmap limit ev n = Inr (merge_all ms)" using Cons.prems(2) n sh by simp
  have step: "deep_merge (merge_all pre) (merge_all ms) = merge_all (pre @ ms)"
  proof -
    have "\<forall>m \<in> set (pre @ ms). wf_dict m" using Cons.prems(3) mss by auto
    from merge_all_append [OF this sh(2)] show ?thesis by simp
  qed
  have "fold_r (\<lambda>n merged. rbind (resolve_propmap limit ev n) (\<lambda>base. Inr (deep_merge merged base)))
      names (merge_all (pre @ ms)) = Inr (merge_all ((pre @ ms) @ concat mss'))"
    by (rule Cons.IH [OF rest]) (use Cons.prems mss in auto)
  then show ?case using run step mss by simp
qed simp

lemma shaped_mono: "shaped ms \<Longrightarrow> set ns \<subseteq> set ms \<Longrightarrow> shaped ns"
  by (auto simp: shaped_def)

lemma resolve_propmap_linear:
  assumes "ev_ok ev"
  shows "linearize limit ev name = Inr ms \<Longrightarrow> shaped ms \<Longrightarrow>
    resolve_propmap limit ev name = Inr (merge_all ms)"
proof (induction limit arbitrary: name ms)
  case (Suc limit)
  from Suc.prems(1) obtain k d raw names mss where k: "pkey_of name = Inr k"
    "map_of (ev_decls ev) k = Some d" "eval_props (ev_config ev) (d_scope d) (d_props d) = Inr raw"
    "py_iter (get_or_nil raw ''defaults'') = Inr names"
    and mss: "map_r (linearize limit ev) names = Inr mss" and ms: "ms = concat mss @ [raw]"
    by (auto simp: result_simps split: option.splits)
  have "\<forall>m \<in> set ms. wf_dict m" using assms Suc.prems(1) by (rule linearize_wf)
  then have "fold_r (\<lambda>n merged. rbind (resolve_propmap limit ev n) (\<lambda>base. Inr (deep_merge merged base)))
      names (merge_all []) = Inr (merge_all ([] @ concat mss))"
    using Suc ms mss by (intro fold_defaults) (auto intro: shaped_mono)
  then show ?case using k ms by simp
qed simp

lemma merged_props_linear:
  assumes "ev_ok ev" "wf_dict (d_scope d)" "linearize_decl limit ev d = Inr ms" "shaped ms"
  shows "merged_props limit ev d = Inr (merge_all ms)"
proof -
  from assms(3) obtain raw names mss where k:
    "eval_props (ev_config ev) (d_scope d) (d_props d) = Inr raw"
    "py_iter (get_or_nil raw ''defaults'') = Inr names"
    and mss: "map_r (linearize limit ev) names = Inr mss" and ms: "ms = concat mss @ [raw]"
    by (auto simp: linearize_decl_def result_simps)
  have "wf_dict raw" using k(1) assms(2) by (rule wf_eval_props)
  moreover have "\<forall>m \<in> set (concat mss). wf_dict m"
    using mss linearize_wf [OF assms(1)] by (rule map_r_linearize_wf)
  ultimately have "fold_r (\<lambda>n merged. rbind (resolve_propmap limit ev n)
      (\<lambda>base. Inr (deep_merge merged base))) names (merge_all []) = Inr (merge_all ([] @ concat mss))"
    using assms ms mss resolve_propmap_linear [OF assms(1)]
    by (intro fold_defaults) (auto intro: shaped_mono)
  then show ?thesis using k ms by (simp add: merged_props_def)
qed

text \<open>What a key of the merged map holds: the lists in order, or the last value.\<close>

lemma merge_all_lists:
  assumes "\<forall>m \<in> set ms. wf_dict m" "\<forall>v \<in> set (List.map_filter (\<lambda>m. map_of m k) ms). \<exists>xs. v = VList xs"
  shows "map_of (merge_all ms) k =
    (if List.map_filter (\<lambda>m. map_of m k) ms = [] then None
     else Some (VList (concat (map (\<lambda>v. case v of VList xs \<Rightarrow> xs | _ \<Rightarrow> [])
       (List.map_filter (\<lambda>m. map_of m k) ms)))))"
  using assms
proof (induction ms rule: rev_induct)
  case (snoc m ms)
  have "distinct (map fst m)" using snoc.prems(1) by (auto simp: wf_value.simps)
  moreover have app: "List.map_filter (\<lambda>m. map_of m k) (ms @ [m])
      = List.map_filter (\<lambda>m. map_of m k) ms @ (case map_of m k of None \<Rightarrow> [] | Some v \<Rightarrow> [v])"
    by (simp add: map_filter_def split: option.splits)
  ultimately show ?case
    using snoc by (cases "map_of m k") (auto simp: map_of_deep_merge)
qed (simp add: map_filter_def)

lemma merge_all_scalar:
  assumes "\<forall>m \<in> set ms. wf_dict m" "List.map_filter (\<lambda>m. map_of m k) ms = vs @ [v]" "is_scalar v"
  shows "map_of (merge_all ms) k = Some v"
  using assms
proof (induction ms arbitrary: vs v rule: rev_induct)
  case (snoc m ms)
  have dist: "distinct (map fst m)" using snoc.prems(1) by (auto simp: wf_value.simps)
  have app: "List.map_filter (\<lambda>m. map_of m k) (ms @ [m])
      = List.map_filter (\<lambda>m. map_of m k) ms @ (case map_of m k of None \<Rightarrow> [] | Some v \<Rightarrow> [v])"
    by (simp add: map_filter_def split: option.splits)
  show ?case
  proof (cases "map_of m k")
    case None
    with app snoc.prems(2) have "List.map_filter (\<lambda>m. map_of m k) ms = vs @ [v]" by simp
    with snoc.IH snoc.prems(1,3) have "map_of (merge_all ms) k = Some v" by simp
    then show ?thesis using None dist by (simp add: map_of_deep_merge)
  next
    case (Some w)
    with app snoc.prems(2) have "w = v" by simp
    then show ?thesis using Some dist snoc.prems(3)
      by (auto simp: map_of_deep_merge merge_opt_def merge_value_eq split: option.splits pyval.splits)
  qed
qed (simp add: map_filter_def)

end
