(* ===== verification/BpEvalProps.thy ===== *)
theory BpEvalProps
  imports BpResolve
begin

section \<open>Evaluator: choice of cases, collisions, selects, limits\<close>

text \<open>
  The choice a \<open>select()\<close> makes, the declaration that survives a name collision, the collapsed
  property map key by key, the fields of the module built from it, and when the expansion of
  defaults comes to an end.
\<close>

subsection \<open>The case a select chooses\<close>

fun case_patterns :: "select_case \<Rightarrow> pattern list" where
  "case_patterns (SelectCase ps e b l) = ps"

definition case_matches :: "bool \<Rightarrow> pyval list \<Rightarrow> select_case \<Rightarrow> bool" where
  "case_matches allow cvs c = list_all2 (pat_matches allow) (case_patterns c) cvs"

definition bound_value :: "pyval list \<Rightarrow> pyval" where
  "bound_value cvs = (if cvs = [] then VNone else last cvs)"

lemma match_loop_iff:
  "length ps = length cvs \<Longrightarrow> match_loop allow ps cvs b =
    (if list_all2 (pat_matches allow) ps cvs then Some (if cvs = [] then b else last cvs) else None)"
  by (induction allow ps cvs b rule: match_loop.induct) auto

lemma try_match_find:
  "try_match allow cvs scs = map_option (\<lambda>c. (c, bound_value cvs)) (find (case_matches allow cvs) scs)"
  by (induction allow cvs scs rule: try_match.induct)
    (auto simp: case_matches_def bound_value_def match_loop_iff list_all2_lengthD)

lemma choose_case_find:
  "choose_case cvs scs = map_option (\<lambda>c. (c, bound_value cvs))
     (case find (case_matches False cvs) scs of
        Some c \<Rightarrow> Some c | None \<Rightarrow> find (case_matches True cvs) scs)"
  by (simp add: choose_case_def try_match_find split: option.splits)

lemma strict_match_no_default: "case_matches False cvs c \<Longrightarrow> PDefault \<notin> set (case_patterns c)"
  by (auto simp: case_matches_def list_all2_conv_all_nth in_set_conv_nth)

subsection \<open>Name collisions\<close>

text \<open>The declarations a name has had, in order, and the one that holds it.\<close>

definition winner :: "decl list \<Rightarrow> decl option" where
  "winner ds = (if filter is_cc ds \<noteq> [] then Some (last (filter is_cc ds))
     else if ds \<noteq> [] then Some (last ds) else None)"

lemma winner_snoc:
  "winner (ds @ [d]) = (case winner ds of
     Some old \<Rightarrow> if is_cc old \<and> \<not> is_cc d then Some old else Some d | None \<Rightarrow> Some d)"
proof (cases "filter is_cc ds = []")
  case True
  have "\<not> is_cc (last ds)" if "ds \<noteq> []"
    using True that by (metis filter_empty_conv last_in_set)
  then show ?thesis using True by (auto simp: winner_def)
next
  case False
  have "is_cc (last (filter is_cc ds))" using last_in_set [OF False] by simp
  then show ?thesis using False by (auto simp: winner_def)
qed

text \<open>What \<open>add_modules\<close> declares: the named modules with their keys.\<close>

definition declared_by :: "config \<Rightarrow> dict \<Rightarrow> string \<Rightarrow> string \<Rightarrow> statement list \<Rightarrow> pkey \<Rightarrow> decl list" where
  "declared_by cfg sc dir rv ms k = List.map_filter (\<lambda>s. case s of
      ModuleDef t es ml l \<Rightarrow> (case eval_module_name cfg sc es of
          Inr v \<Rightarrow> if truthy v \<and> pkey_of v = Inr k
            then Some \<lparr>d_type = t, d_props = es, d_bp_dir = dir, d_scope = sc, d_root_var = rv\<rparr>
            else None
        | Inl e \<Rightarrow> None)
    | Assignment x e a l \<Rightarrow> None) ms"

lemma map_of_declare:
  "map_of (declare_module k d ds) j = (if j \<noteq> k then map_of ds j else
     (case map_of ds k of Some old \<Rightarrow> if is_cc old \<and> \<not> is_cc d then Some old else Some d | None \<Rightarrow> Some d))"
  by (auto simp: declare_module_def update_conv split: option.splits)

lemma add_modules_history:
  assumes "add_modules cfg sc dir rv ms ds = (None, ds')" and "\<forall>k. map_of ds k = winner (hist k)"
  shows "map_of ds' k = winner (hist k @ declared_by cfg sc dir rv ms k)"
  using assms
proof (induction cfg sc dir rv ms ds arbitrary: hist rule: add_modules.induct)
  case (1 cfg sc dir rv ds)
  then show ?case by (simp add: declared_by_def map_filter_simps)
next
  case (2 cfg sc dir rv t es ml l ms ds)
  let ?d = "\<lparr>d_type = t, d_props = es, d_bp_dir = dir, d_scope = sc, d_root_var = rv\<rparr>"
  from "2.prems"(1) obtain v where v: "eval_module_name cfg sc es = Inr v"
    by (auto split: sum.splits)
  show ?case
  proof (cases "truthy v")
    case False
    then show ?thesis
      using "2.IH"(1) [OF v, of hist] "2.prems" v by (simp add: declared_by_def map_filter_simps)
  next
    case True
    with "2.prems"(1) v obtain j where j: "pkey_of v = Inr j" by (auto split: sum.splits)
    let ?hist = "\<lambda>k. if k = j then hist k @ [?d] else hist k"
    have "\<forall>k. map_of (declare_module j ?d ds) k = winner (?hist k)"
      using "2.prems"(2) by (auto simp: map_of_declare winner_snoc)
    moreover have "add_modules cfg sc dir rv ms (declare_module j ?d ds) = (None, ds')"
      using "2.prems"(1) v j True by simp
    ultimately have "map_of ds' k = winner (?hist k @ declared_by cfg sc dir rv ms k)"
      using "2.IH"(2) [OF v _ j, of ?hist] True by simp
    then show ?thesis
      using v j True by (simp add: declared_by_def map_filter_simps)
  qed
next
  case (3 cfg sc dir rv x e a l ms ds)
  then show ?case by (simp add: declared_by_def map_filter_simps)
qed

subsection \<open>Collapsed property maps\<close>

definition dict_branches :: "pyval list \<Rightarrow> dict list" where
  "dict_branches bs = List.map_filter (\<lambda>b. case b of VDict d \<Rightarrow> Some d | _ \<Rightarrow> None) bs"

text \<open>The active branches of a property map, in the order in which they are merged.\<close>

definition active_dicts :: "config \<Rightarrow> dict \<Rightarrow> dict list" where
  "active_dicts cfg p = concat (map (\<lambda>key. case map_of p key of
      Some (VDict block) \<Rightarrow> dict_branches (active_branches cfg key block) | _ \<Rightarrow> []) select_keys)"

definition plain_props :: "dict \<Rightarrow> dict" where
  "plain_props p = filter (\<lambda>(k, v). k \<notin> set select_keys) p"

lemma fold_branches:
  "foldl (\<lambda>out branch. case branch of VDict d \<Rightarrow> deep_merge out (f d) | _ \<Rightarrow> out) out bs
     = foldl deep_merge out (map f (dict_branches bs))"
  by (induction bs arbitrary: out) (auto simp: dict_branches_def map_filter_simps split: pyval.splits)

lemma collapse_eq:
  "collapse_selects cfg p = foldl deep_merge (plain_props p) (map (collapse_selects cfg) (active_dicts cfg p))"
proof -
  have "foldl (\<lambda>out key. case map_of p key of None \<Rightarrow> out
      | Some v \<Rightarrow> (case v of VDict block \<Rightarrow>
          foldl (\<lambda>out branch. case branch of VDict d \<Rightarrow> deep_merge out (collapse_selects cfg d) | _ \<Rightarrow> out)
            out (active_branches cfg key block) | _ \<Rightarrow> out)) out keys
    = foldl deep_merge out (map (collapse_selects cfg) (concat (map (\<lambda>key. case map_of p key of
      Some (VDict block) \<Rightarrow> dict_branches (active_branches cfg key block) | _ \<Rightarrow> []) keys)))" for out keys
    by (induction keys arbitrary: out) (auto simp: fold_branches split: option.splits pyval.splits)
  then show ?thesis
    unfolding collapse_selects.simps [of cfg p] active_dicts_def plain_props_def .
qed

lemma wf_plain: "wf_dict p \<Longrightarrow> wf_dict (plain_props p)"
  by (auto simp: plain_props_def wf_value.simps list_all_iff distinct_map_filter)

lemma map_of_plain: "map_of (plain_props p) k = (if k \<in> set select_keys then None else map_of p k)"
  unfolding plain_props_def by (induction p) auto

lemma in_dict_branches: "d \<in> set (dict_branches bs) \<longleftrightarrow> VDict d \<in> set bs"
  by (induction bs) (auto simp: dict_branches_def map_filter_simps split: pyval.splits)

lemma active_dict_in:
  "d \<in> set (active_dicts cfg p) \<Longrightarrow> \<exists>key block. map_of p key = Some (VDict block)
     \<and> VDict d \<in> set (active_branches cfg key block)"
proof -
  assume "d \<in> set (active_dicts cfg p)"
  then obtain key where key: "d \<in> set (case map_of p key of
      Some (VDict block) \<Rightarrow> dict_branches (active_branches cfg key block) | _ \<Rightarrow> [])"
    unfolding active_dicts_def by auto
  then obtain block where "map_of p key = Some (VDict block)"
    and "d \<in> set (dict_branches (active_branches cfg key block))"
    by (cases "map_of p key") (auto split: pyval.splits)
  moreover from this(2) have "VDict d \<in> set (active_branches cfg key block)"
    by (simp add: in_dict_branches)
  ultimately show ?thesis by blast
qed

lemma active_branch_wf:
  "wf_dict block \<Longrightarrow> b \<in> set (active_branches cfg key block) \<Longrightarrow> wf_value b"
  by (auto simp: active_branches_def in_map_filter wf_value_get list_all_iff wf_value.simps(2)
      simp del: map_filter_simps split: if_splits pyval.splits dest!: map_of_SomeD)

lemma wf_foldl_merge: "wf_dict a \<Longrightarrow> \<forall>b \<in> set bs. wf_dict b \<Longrightarrow> wf_dict (foldl deep_merge a bs)"
  by (induction bs arbitrary: a) (auto intro: wf_deep_merge)

lemma active_dict_wf: "wf_dict p \<Longrightarrow> d \<in> set (active_dicts cfg p) \<Longrightarrow> wf_dict d"
  using active_branch_wf wf_value_get active_dict_in by metis

lemma active_dict_size: "d \<in> set (active_dicts cfg p) \<Longrightarrow> size (VDict d) < size (VDict p)"
  using active_branches_size size_value_get active_dict_in by (metis le_less_trans)

lemma wf_collapse: "wf_dict p \<Longrightarrow> wf_dict (collapse_selects cfg p)"
proof (induction p rule: measure_induct_rule [of "\<lambda>p. size (VDict p)"])
  case (less p)
  have "\<forall>b \<in> set (map (collapse_selects cfg) (active_dicts cfg p)). wf_dict b"
    using less active_dict_wf active_dict_size by fastforce
  then show ?case
    unfolding collapse_eq [of cfg p] using wf_plain [OF less.prems] by (rule wf_foldl_merge [rotated])
qed

lemma map_of_foldl_merge:
  "\<forall>b \<in> set bs. distinct (map fst b) \<Longrightarrow>
   map_of (foldl deep_merge a bs) k = foldl merge_opt (map_of a k) (map (\<lambda>b. map_of b k) bs)"
  by (induction bs arbitrary: a) (auto simp: map_of_deep_merge)

lemma wf_distinct: "wf_dict d \<Longrightarrow> distinct (map fst d)"
  by (simp add: wf_value.simps)

lemma foldl_merge_opt_None: "\<forall>x \<in> set xs. x = None \<Longrightarrow> foldl merge_opt None xs = None"
  by (induction xs) auto

lemma collapse_no_select: "wf_dict p \<Longrightarrow> k \<in> set select_keys \<Longrightarrow> map_of (collapse_selects cfg p) k = None"
proof (induction p rule: measure_induct_rule [of "\<lambda>p. size (VDict p)"])
  case (less p)
  have "map_of (collapse_selects cfg d) k = None" if "d \<in> set (active_dicts cfg p)" for d
    using less active_dict_wf active_dict_size that by blast
  moreover have "\<forall>b \<in> set (map (collapse_selects cfg) (active_dicts cfg p)). distinct (map fst b)"
    using active_dict_wf [OF less.prems(1)] wf_collapse wf_distinct by fastforce
  ultimately show ?case
    unfolding collapse_eq [of cfg p]
    by (simp add: map_of_foldl_merge map_of_plain less.prems(2)) (auto intro!: foldl_merge_opt_None)
qed

lemma collapse_get:
  assumes "wf_dict p"
  shows "map_of (collapse_selects cfg p) k =
    (if k \<in> set select_keys then None
     else foldl merge_opt (map_of p k) (map (\<lambda>d. map_of (collapse_selects cfg d) k) (active_dicts cfg p)))"
proof -
  have "\<forall>b \<in> set (map (collapse_selects cfg) (active_dicts cfg p)). distinct (map fst b)"
    using active_dict_wf [OF assms] wf_collapse wf_distinct by fastforce
  then have "map_of (collapse_selects cfg p) k = foldl merge_opt (map_of (plain_props p) k)
      (map (\<lambda>b. map_of b k) (map (collapse_selects cfg) (active_dicts cfg p)))"
    unfolding collapse_eq [of cfg p] by (rule map_of_foldl_merge)
  then show ?thesis
    using collapse_no_select [OF assms, of k cfg] by (simp add: map_of_plain comp_def)
qed

lemma active_target_update:
  "t \<notin> set (active_target_keys cfg) \<Longrightarrow>
   active_branches cfg ''target'' (AList.update t v block) = active_branches cfg ''target'' block"
proof -
  assume t: "t \<notin> set (active_target_keys cfg)"
  have "List.map_filter (map_of (AList.update t v block)) keys = List.map_filter (map_of block) keys"
    if "t \<notin> set keys" for keys
    using that by (induction keys) (auto simp: map_filter_simps update_conv split: option.split)
  then show ?thesis using t by (simp add: active_branches_def)
qed

lemma plain_update_select: "k \<in> set select_keys \<Longrightarrow> plain_props (AList.update k v p) = plain_props p"
  unfolding plain_props_def by (induction p) auto

lemma collapse_inactive_target:
  assumes "map_of p ''target'' = Some (VDict block)" and "t \<notin> set (active_target_keys cfg)"
  shows "collapse_selects cfg (AList.update ''target'' (VDict (AList.update t v block)) p)
    = collapse_selects cfg p"
proof -
  have "active_dicts cfg (AList.update ''target'' (VDict (AList.update t v block)) p) = active_dicts cfg p"
    unfolding active_dicts_def select_keys_def
    using assms by (simp add: update_conv active_target_update)
  moreover have "plain_props (AList.update ''target'' (VDict (AList.update t v block)) p) = plain_props p"
    by (rule plain_update_select) (simp add: select_keys_def)
  ultimately show ?thesis by (simp add: collapse_eq)
qed

subsection \<open>The recursion limit\<close>

text \<open>One default name in a declaration's property map.\<close>

definition default_edge :: "evaluator \<Rightarrow> pkey \<Rightarrow> pkey \<Rightarrow> bool" where
  "default_edge ev a b = (\<exists>d raw names n. map_of (ev_decls ev) a = Some d
     \<and> eval_props (ev_config ev) (d_scope d) (d_props d) = Inr raw
     \<and> py_iter (get_or_nil raw ''defaults'') = Inr names \<and> n \<in> set names \<and> pkey_of n = Inr b)"

lemma map_r_Inl: "map_r f xs = Inl e \<Longrightarrow> \<exists>x \<in> set xs. f x = Inl e"
  by (induction xs) (auto simp: result_simps)

lemma fold_r_Inl: "fold_r f xs s = Inl e \<Longrightarrow> \<exists>x \<in> set xs. \<exists>s. f x s = Inl e"
proof (induction xs arbitrary: s)
  case (Cons x xs)
  then show ?case by (cases "f x s") auto
qed simp

lemma py_concat_no_recursion: "py_concat a b \<noteq> Inl RecursionError"
  by (cases "(a, b)" rule: py_concat.cases) (auto split: option.splits)

lemma eval_no_recursion: "eval cfg sc e \<noteq> Inl RecursionError"
proof (induction cfg sc e rule: eval.induct)
  case (5 cfg sc es l)
  then show ?case using map_r_Inl by (fastforce simp: result_simps)
next
  case (6 cfg sc es l)
  then show ?case using map_r_Inl by (fastforce simp: result_simps)
next
  case (7 cfg sc a b l)
  then show ?case by (auto simp: result_simps py_concat_no_recursion)
qed (auto split: option.splits)

lemma eval_props_no_recursion: "eval_props cfg sc es \<noteq> Inl RecursionError"
  using eval_no_recursion [of cfg sc "MapExpr es 0"] by (auto simp: eval_MapExpr result_simps simp del: eval.simps)

lemma py_iter_no_recursion: "py_iter v \<noteq> Inl RecursionError"
  by (cases v) auto

lemma pkey_of_no_recursion: "pkey_of v \<noteq> Inl RecursionError"
  by (cases v) auto

lemma fold_r_stable:
  assumes "\<And>x s. x \<in> set xs \<Longrightarrow> f x s \<noteq> Inl e \<Longrightarrow> g x s = f x s" and "fold_r f xs s \<noteq> Inl e"
  shows "fold_r g xs s = fold_r f xs s"
  using assms
proof (induction xs arbitrary: s)
  case (Cons x xs)
  have "f x s \<noteq> Inl e" using Cons.prems(2) by auto
  then have "g x s = f x s" using Cons.prems(1) by simp
  then show ?case using Cons by (cases "f x s") auto
qed simp

text \<open>A result that is not the limit's own exception does not depend on the limit.\<close>

lemma resolve_propmap_Suc:
  "resolve_propmap l ev n \<noteq> Inl RecursionError \<Longrightarrow> resolve_propmap (Suc l) ev n = resolve_propmap l ev n"
proof (induction l arbitrary: n)
  case (Suc l)
  let ?f = "\<lambda>l n merged. rbind (resolve_propmap l ev n) (\<lambda>base. Inr (deep_merge merged base))"
  have step: "?f (Suc l) n s = ?f l n s" if "?f l n s \<noteq> Inl RecursionError" for n s
    using Suc.IH [of n] that by (cases "resolve_propmap l ev n") auto
  have "fold_r (?f (Suc l)) names s = fold_r (?f l) names s"
    if "fold_r (?f l) names s \<noteq> Inl RecursionError" for names s
    using that step by (intro fold_r_stable [where e = RecursionError]) auto
  then show ?case
    using Suc.prems unfolding resolve_propmap.simps(2) [of "Suc l"] resolve_propmap.simps(2) [of l]
    by (auto intro!: rbind_cong split: option.splits simp: result_simps)
qed simp

lemma resolve_propmap_add:
  "resolve_propmap l ev n \<noteq> Inl RecursionError \<Longrightarrow> resolve_propmap (l + j) ev n = resolve_propmap l ev n"
  by (induction j) (simp_all add: resolve_propmap_Suc del: resolve_propmap.simps)

lemma resolve_propmap_no_recursion:
  assumes "\<forall>a b. default_edge ev a b \<longrightarrow> rank b < (rank a :: nat)"
  shows "(\<forall>k. pkey_of n = Inr k \<longrightarrow> Suc (rank k) < l) \<Longrightarrow> l \<noteq> 0 \<Longrightarrow> resolve_propmap l ev n \<noteq> Inl RecursionError"
proof (induction l arbitrary: n)
  case (Suc l)
  show ?case
  proof
    assume "resolve_propmap (Suc l) ev n = Inl RecursionError"
    then obtain k d raw names where k: "pkey_of n = Inr k" "map_of (ev_decls ev) k = Some d"
      "eval_props (ev_config ev) (d_scope d) (d_props d) = Inr raw"
      "py_iter (get_or_nil raw ''defaults'') = Inr names"
      and fold: "fold_r (\<lambda>n merged. rbind (resolve_propmap l ev n) (\<lambda>base. Inr (deep_merge merged base)))
        names [] = Inl RecursionError"
      by (auto simp: result_simps pkey_of_no_recursion eval_props_no_recursion py_iter_no_recursion
          split: option.splits)
    from fold_r_Inl [OF fold] obtain x where x: "x \<in> set names" "resolve_propmap l ev x = Inl RecursionError"
      by (auto simp: result_simps)
    have "Suc (rank j) < l" if "pkey_of x = Inr j" for j
    proof -
      have "default_edge ev k j" using k x(1) that by (auto simp: default_edge_def)
      then have "rank j < rank k" using assms by blast
      moreover have "rank k < l" using Suc.prems(1) k(1) by auto
      ultimately show ?thesis by simp
    qed
    moreover have "l \<noteq> 0" using Suc.prems(1) k(1) by auto
    ultimately show False using Suc.IH [of x] x(2) by blast
  qed
qed simp

lemma merged_props_stable:
  assumes "merged_props l ev d \<noteq> Inl RecursionError"
  shows "merged_props (l + j) ev d = merged_props l ev d"
proof -
  let ?f = "\<lambda>l n merged. rbind (resolve_propmap l ev n) (\<lambda>base. Inr (deep_merge merged base))"
  have step: "?f (l + j) n s = ?f l n s" if "?f l n s \<noteq> Inl RecursionError" for n s
    using resolve_propmap_add [of l ev n j] that by (cases "resolve_propmap l ev n") auto
  have "fold_r (?f (l + j)) names s = fold_r (?f l) names s"
    if "fold_r (?f l) names s \<noteq> Inl RecursionError" for names s
    using that step by (intro fold_r_stable [where e = RecursionError]) auto
  then show ?thesis
    using assms unfolding merged_props_def
    by (auto intro!: rbind_cong split: option.splits simp: result_simps)
qed

text \<open>A set of modules each of which names one of the set as a default never resolves.\<close>

lemma fold_r_fails:
  "x \<in> set xs \<Longrightarrow> (\<And>s. \<exists>e. f x s = Inl e) \<Longrightarrow> \<exists>e. fold_r f xs s = Inl e"
proof (induction xs arbitrary: s)
  case (Cons y ys)
  show ?case
  proof (cases "f y s")
    case (Inr t)
    then have "y \<noteq> x" using Cons.prems(2) [of s] by auto
    then show ?thesis using Cons Inr by auto
  qed simp
qed simp

lemma cyclic_propmap:
  assumes "\<forall>c \<in> C. \<exists>b \<in> C. default_edge ev c b"
  shows "pkey_of n = Inr c \<Longrightarrow> c \<in> C \<Longrightarrow> \<exists>e. resolve_propmap l ev n = Inl e"
proof (induction l arbitrary: n c)
  case (Suc l)
  obtain b where b: "b \<in> C" "default_edge ev c b" using assms Suc.prems(2) by blast
  then obtain d raw names x where d: "map_of (ev_decls ev) c = Some d"
    "eval_props (ev_config ev) (d_scope d) (d_props d) = Inr raw"
    "py_iter (get_or_nil raw ''defaults'') = Inr names" "x \<in> set names" "pkey_of x = Inr b"
    by (auto simp: default_edge_def)
  have "\<exists>e. resolve_propmap l ev x = Inl e" using Suc.IH d(5) b(1) by blast
  then have "\<exists>e. fold_r (\<lambda>n merged. rbind (resolve_propmap l ev n) (\<lambda>base. Inr (deep_merge merged base)))
      names [] = Inl e"
    using d(4) by (intro fold_r_fails [of x]) auto
  then show ?case using d Suc.prems(1) by auto
qed simp

lemma cyclic_resolve:
  assumes "\<forall>c \<in> C. \<exists>b \<in> C. default_edge ev c b" and "KStr name \<in> C"
  shows "\<exists>e. resolve l ev name = Inl e"
proof -
  obtain b where b: "b \<in> C" "default_edge ev (KStr name) b" using assms by blast
  then obtain d raw names x where d: "map_of (ev_decls ev) (KStr name) = Some d"
    "eval_props (ev_config ev) (d_scope d) (d_props d) = Inr raw"
    "py_iter (get_or_nil raw ''defaults'') = Inr names" "x \<in> set names" "pkey_of x = Inr b"
    by (auto simp: default_edge_def)
  have "\<exists>e. resolve_propmap l ev x = Inl e" using cyclic_propmap [OF assms(1) d(5) b(1)] .
  then have "\<exists>e. fold_r (\<lambda>n merged. rbind (resolve_propmap l ev n) (\<lambda>base. Inr (deep_merge merged base)))
      names [] = Inl e"
    using d(4) by (intro fold_r_fails [of x]) auto
  then show ?thesis using d by (auto simp: resolve_def merged_props_def)
qed

subsection \<open>The fields of a module\<close>

definition get_field :: "string \<Rightarrow> 'a module \<Rightarrow> 'a list" where
  "get_field key m =
     (if key = ''srcs'' then m_srcs m
      else if key = ''exclude_srcs'' then m_exclude_srcs m
      else if key = ''cflags'' then m_cflags m
      else if key = ''cppflags'' then m_cppflags m
      else if key = ''conlyflags'' then m_conlyflags m
      else if key = ''ldflags'' then m_ldflags m
      else if key = ''include_dirs'' then m_include_dirs m
      else if key = ''local_include_dirs'' then m_local_include_dirs m
      else if key = ''export_include_dirs'' then m_export_include_dirs m
      else if key = ''shared_libs'' then m_shared_libs m
      else if key = ''static_libs'' then m_static_libs m
      else if key = ''whole_static_libs'' then m_whole_static_libs m
      else if key = ''header_libs'' then m_header_libs m
      else if key = ''generated_sources'' then m_generated_sources m
      else if key = ''generated_headers'' then m_generated_headers m
      else [])"

definition field_values :: "string \<Rightarrow> pyval \<Rightarrow> pyval list" where
  "field_values key v =
     (let vals = (case v of VList vs \<Rightarrow> vs | _ \<Rightarrow> [v]) in
      if key \<in> set dep_list_props then map strip_dep_tag vals else vals)"

lemma list_fields_eq:
  "list_fields = [''srcs'', ''exclude_srcs'', ''cflags'', ''cppflags'', ''conlyflags'', ''ldflags'',
     ''include_dirs'', ''local_include_dirs'', ''export_include_dirs'', ''shared_libs'',
     ''static_libs'', ''whole_static_libs'', ''header_libs'', ''generated_sources'', ''generated_headers'']"
  by code_simp

lemma get_extend:
  assumes "j \<in> set list_fields"
  shows "get_field k (extend_field j vs m) = (if k = j then get_field k m @ vs else get_field k m)"
proof (cases "k = j")
  case True
  have "get_field j (extend_field j vs m) = get_field j m @ vs"
    using assms unfolding list_fields_eq
    by (simp, elim disjE, simp_all add: get_field_def extend_field_def)
  with True show ?thesis by simp
next
  case False
  then have "get_field k (extend_field j vs m) = get_field k m"
    using assms unfolding list_fields_eq
    by (simp, elim disjE, simp_all add: get_field_def extend_field_def)
  with False show ?thesis by simp
qed

lemma get_field_updates [simp]:
  "get_field k (m\<lparr>m_enabled := b\<rparr>) = get_field k m"
  "get_field k (m\<lparr>m_cpp_std := s\<rparr>) = get_field k m"
  "get_field k (m\<lparr>m_c_std := s\<rparr>) = get_field k m"
  "get_field k (set_extra x v m) = get_field k m"
  "get_field k (new_module n t d r) = []"
  by (simp_all add: get_field_def set_extra_def new_module_def)

lemma list_field_kinds:
  "k \<in> set list_fields \<Longrightarrow> k \<noteq> ''enabled'' \<and> k \<notin> set ignored_props \<and> k \<noteq> ''cpp_std'' \<and> k \<noteq> ''c_std''
     \<and> k \<noteq> ''export_header_lib_headers'' \<and> k \<noteq> ''export_static_lib_headers'' \<and> k \<in> set list_props"
  unfolding list_fields_eq ignored_props_def list_props_def by (simp, elim disjE, simp_all)

lemma get_map_property:
  assumes "k \<in> set list_fields"
  shows "get_field k (fst (map_property key v st))
    = get_field k (fst st) @ (if key = k then field_values k v else [])"
proof (cases "key = k")
  case True
  then show ?thesis using list_field_kinds [OF assms] assms
    by (simp add: map_property_def Let_def get_extend field_values_def split: pyval.split)
next
  case False
  then show ?thesis using assms
    by (auto simp: map_property_def Let_def get_extend split: pyval.split)
qed

lemma get_map_properties:
  assumes "k \<in> set list_fields" "distinct (map fst props)"
  shows "get_field k (fst (foldl (\<lambda>st kv. map_property (fst kv) (snd kv) st) st props))
    = get_field k (fst st) @ (case map_of props k of None \<Rightarrow> [] | Some v \<Rightarrow> field_values k v)"
  using assms(2)
proof (induction props arbitrary: st)
  case (Cons item props)
  have "map_of props (fst item) = None" using Cons.prems by (auto simp: map_of_eq_None_iff)
  then show ?case using Cons assms(1)
    by (auto simp: get_map_property split: option.splits)
qed simp

lemma get_add_header_libs:
  "k \<noteq> ''header_libs'' \<Longrightarrow> get_field k (foldl (\<lambda>m hl. add_header_lib hl m) m hls) = get_field k m"
  by (induction hls arbitrary: m) (simp_all add: add_header_lib_def get_field_def)

lemma to_module_field:
  assumes "k \<in> set list_fields" "k \<noteq> ''header_libs''" "distinct (map fst props)"
  shows "get_field k (to_module name type dir props rv)
    = (case map_of props k of None \<Rightarrow> [] | Some v \<Rightarrow> field_values k v)"
  using assms
  by (simp add: to_module_def Let_def case_prod_unfold get_add_header_libs get_map_properties)

subsection \<open>Properties\<close>

text \<open>C7. A \<open>select()\<close> takes the first case that matches without using a \<open>default\<close> pattern, wherever
  it stands in the list, and only if there is none the first case that matches at all; it has no
  value when nothing matches. The name a case binds is bound to the value of the last condition.\<close>

theorem select_choice:
  "eval cfg sc (Select conds scs l) =
     (let cvs = condition_values cfg conds in
      case (case find (case_matches False cvs) scs of
              Some c \<Rightarrow> Some c | None \<Rightarrow> find (case_matches True cvs) scs) of
        None \<Rightarrow> Inr VNone
      | Some c \<Rightarrow> eval cfg (case_scope (case_binding c) (bound_value cvs) sc) (case_value c))"
  by (simp add: Let_def choose_case_find split: option.split)

text \<open>Of several modules with one name, the evaluator keeps the last one whose type is a C/C++
  type, and the last one of all if none is: whatever the files loaded before, \<open>hist\<close>, and
  whatever the order inside the file.\<close>

theorem collision_winner:
  assumes "add_modules cfg sc dir rv ms ds = (None, ds')"
    and "\<forall>k. map_of ds k = winner (hist k)"
  shows "map_of ds' k = winner (hist k @ declared_by cfg sc dir rv ms k)"
  using assms by (rule add_modules_history)

theorem collision_winner_witness:
  "map_of (snd (add_modules default_config [] [] ''R''
      [ModuleDef ''cc_library'' [(''name'', StringLit ''liblog'' 1)] 1 1,
       ModuleDef ''ndk_library'' [(''name'', StringLit ''liblog'' 2)] 2 2] [])) (KStr ''liblog'')
   = winner ([] @ declared_by default_config [] [] ''R''
      [ModuleDef ''cc_library'' [(''name'', StringLit ''liblog'' 1)] 1 1,
       ModuleDef ''ndk_library'' [(''name'', StringLit ''liblog'' 2)] 2 2] (KStr ''liblog''))"
proof -
  have run: "add_modules default_config [] [] ''R''
      [ModuleDef ''cc_library'' [(''name'', StringLit ''liblog'' 1)] 1 1,
       ModuleDef ''ndk_library'' [(''name'', StringLit ''liblog'' 2)] 2 2] []
    = (None, [(KStr ''liblog'', \<lparr>d_type = ''cc_library'', d_props = [(''name'', StringLit ''liblog'' 1)],
        d_bp_dir = [], d_scope = [], d_root_var = ''R''\<rparr>)])"
    by code_simp
  have "\<forall>k. map_of [] k = winner ((\<lambda>_. []) k)" by (simp add: winner_def)
  from collision_winner [OF run this, of "KStr ''liblog''"] run show ?thesis by simp
qed






definition sample_decl :: decl where
  "sample_decl = \<lparr>d_type = ''cc_library'', d_props = [(''defaults'', ListExpr [StringLit ''d'' 1] 1),
     (''srcs'', ListExpr [StringLit ''b'' 1] 1)], d_bp_dir = [], d_scope = [], d_root_var = ''R''\<rparr>"

definition sample_evaluator :: evaluator where
  "sample_evaluator = \<lparr>ev_config = default_config, ev_decls = [(KStr ''m'', sample_decl),
     (KStr ''d'', \<lparr>d_type = ''cc_defaults'', d_props = [(''srcs'', ListExpr [StringLit ''a'' 1] 1)],
       d_bp_dir = [], d_scope = [], d_root_var = ''R''\<rparr>)], ev_source_root = []\<rparr>"


text \<open>In a merged chain of property maps, a property that every map has as a list is the
  concatenation of those lists in the order of the chain.\<close>

theorem merged_list_property:
  assumes "\<forall>m \<in> set ms. wf_dict m"
    and "\<forall>v \<in> set (List.map_filter (\<lambda>m. map_of m k) ms). \<exists>xs. v = VList xs"
  shows "map_of (merge_all ms) k =
    (if List.map_filter (\<lambda>m. map_of m k) ms = [] then None
     else Some (VList (concat (map (\<lambda>v. case v of VList xs \<Rightarrow> xs | _ \<Rightarrow> [])
       (List.map_filter (\<lambda>m. map_of m k) ms)))))"
  using assms by (rule merge_all_lists)

theorem merged_list_property_witness:
  "map_of (merge_all [[(''srcs'', VList [VStr ''a''])], [(''t'', VInt 1)], [(''srcs'', VList [VStr ''b''])]]) ''srcs''
   = Some (VList [VStr ''a'', VStr ''b''])"
  using merged_list_property [of "[[(''srcs'', VList [VStr ''a''])], [(''t'', VInt 1)],
      [(''srcs'', VList [VStr ''b''])]]" "''srcs''"]
  by (simp add: map_filter_simps wf_value.simps)

text \<open>Collapsing the selects leaves no select key at the top of the map, and every other key
  holds its own value merged with that of each active branch, in the fixed order of the
  select keys.\<close>

theorem collapse_lookup:
  assumes "wf_dict p"
  shows "map_of (collapse_selects cfg p) k =
    (if k \<in> set select_keys then None
     else foldl merge_opt (map_of p k) (map (\<lambda>d. map_of (collapse_selects cfg d) k) (active_dicts cfg p)))"
  using assms by (rule collapse_get)

theorem collapse_lookup_witness:
  "map_of (collapse_selects default_config [(''target'', VDict [(''linux'', VDict [(''srcs'', VList [VStr ''l''])])]),
      (''srcs'', VList [VStr ''s''])]) ''srcs'' = Some (VList [VStr ''s'', VStr ''l''])
   \<and> map_of (collapse_selects default_config [(''target'', VDict [(''linux'', VDict [(''srcs'', VList [VStr ''l''])])]),
      (''srcs'', VList [VStr ''s''])]) ''target'' = None"
proof -
  let ?p = "[(''target'', VDict [(''linux'', VDict [(''srcs'', VList [VStr ''l''])])]), (''srcs'', VList [VStr ''s''])]"
  have wf: "wf_dict ?p" by code_simp
  have "map_of (collapse_selects default_config ?p) ''srcs'' = Some (VList [VStr ''s'', VStr ''l''])"
    by code_simp
  then show ?thesis using collapse_lookup [OF wf, of default_config "''target''"]
    by (simp add: select_keys_def)
qed

text \<open>A \<open>target\<close> branch for another platform has no influence: adding it, or replacing it by
  anything, does not change the collapsed map.\<close>

theorem inactive_target_ignored:
  assumes "map_of p ''target'' = Some (VDict block)" and "t \<notin> set (active_target_keys cfg)"
  shows "collapse_selects cfg (AList.update ''target'' (VDict (AList.update t v block)) p)
    = collapse_selects cfg p"
  using assms by (rule collapse_inactive_target)

theorem inactive_target_ignored_witness:
  "collapse_selects default_config [(''target'', VDict [(''android'', VDict [(''srcs'', VList [])])])]
   = collapse_selects default_config [(''target'', VDict [])]"
  using inactive_target_ignored [of "[(''target'', VDict [])]" "[]" "''android''" default_config
      "VDict [(''srcs'', VList [])]"]
  by (simp add: active_target_keys_def default_config_def is_windows_def)



text \<open>C12. Modules that name one another as defaults in a cycle never resolve, whatever the recursion
  limit.\<close>

theorem cyclic_defaults_fail:
  assumes "\<forall>c \<in> C. \<exists>b \<in> C. default_edge ev c b" and "KStr name \<in> C"
  shows "\<exists>e. resolve limit ev name = Inl e"
  using assms by (rule cyclic_resolve)

theorem cyclic_defaults_fail_witness:
  "\<exists>e. resolve 100 \<lparr>ev_config = default_config, ev_decls = [(KStr ''a'',
      \<lparr>d_type = ''cc_defaults'', d_props = [(''defaults'', ListExpr [StringLit ''a'' 1] 1)],
       d_bp_dir = [], d_scope = [], d_root_var = ''R''\<rparr>)], ev_source_root = []\<rparr> ''a'' = Inl e"
  by (rule cyclic_defaults_fail [of "{KStr ''a''}"])
    (simp_all add: default_edge_def eval_props_def get_or_nil_def dget_def dict_of_def)

text \<open>Every list field of a resolved module other than \<open>header_libs\<close> holds exactly the values of
  its property, a single value as a list of one, with the tags of dependency names stripped; a
  property that is absent leaves the field empty.\<close>

theorem module_fields:
  assumes "k \<in> set list_fields" "k \<noteq> ''header_libs''" "distinct (map fst props)"
  shows "get_field k (to_module name type dir props rv)
    = (case map_of props k of None \<Rightarrow> [] | Some v \<Rightarrow> field_values k v)"
  using assms by (rule to_module_field)

theorem module_fields_witness:
  "m_shared_libs (to_module ''m'' ''cc_library'' [] [(''shared_libs'', VList [VStr ''libdexfile#impl'', VStr ''libbase''])] ''R'')
   = [VStr ''libdexfile'', VStr ''libbase'']"
proof -
  have "get_field ''shared_libs'' (to_module ''m'' ''cc_library'' []
      [(''shared_libs'', VList [VStr ''libdexfile#impl'', VStr ''libbase''])] ''R'')
    = field_values ''shared_libs'' (VList [VStr ''libdexfile#impl'', VStr ''libbase''])"
    by (subst module_fields) (simp_all add: list_fields_eq)
  then show ?thesis by (simp add: get_field_def field_values_def dep_list_props_def)
qed

end
