(* ===== verification/BpOverlay.thy ===== *)
theory BpOverlay
  imports BpModel PyString
begin

section \<open>The port-policy overlay\<close>

text \<open>
  \<open>tools/bp2cmake/bp2cmake/overlay.py\<close>: the schema of the overlay and its application to a
  module. Loading an overlay executes a Python file and is not modelled; the overlay is data
  here. Fields that the dataclasses annotate as strings are strings, so the \<open>isinstance\<close>
  checks of \<open>__post_init__\<close> have no counterpart, its other two checks do.
\<close>

record module_policy =
  p_kind :: "string option"
  p_absorb_whole_static :: bool
  p_add_srcs :: "string list"
  p_remove_srcs :: "string list"
  p_add_shared_libs :: "string list"
  p_remove_shared_libs :: "string list"
  p_add_static_libs :: "string list"
  p_remove_static_libs :: "string list"
  p_add_cflags :: "string list"
  p_add_cppflags :: "string list"
  p_add_conlyflags :: "string list"
  p_add_ldflags :: "string list"
  p_add_defines :: "string list"
  p_add_public_defines :: "string list"
  p_remove_cflags :: "string list"
  p_set_c_std :: "string option"
  p_set_cpp_std :: "string option"
  p_add_include_dirs :: "string list"
  p_add_compat_include_dirs :: "string list"
  p_add_gensrc_sources :: "string list"
  p_add_gensrc_includes :: "string list"
  p_skip :: bool
  p_force_enabled :: bool

definition new_module_policy :: module_policy where
  "new_module_policy =
     \<lparr>p_kind = None, p_absorb_whole_static = True, p_add_srcs = [], p_remove_srcs = [],
      p_add_shared_libs = [], p_remove_shared_libs = [], p_add_static_libs = [],
      p_remove_static_libs = [], p_add_cflags = [], p_add_cppflags = [], p_add_conlyflags = [],
      p_add_ldflags = [], p_add_defines = [], p_add_public_defines = [], p_remove_cflags = [],
      p_set_c_std = None, p_set_cpp_std = None, p_add_include_dirs = [],
      p_add_compat_include_dirs = [], p_add_gensrc_sources = [], p_add_gensrc_includes = [],
      p_skip = False, p_force_enabled = False\<rparr>"

record scan_policy =
  excluded_path_components :: "string list"
  excluded_top_levels :: "(string \<times> string list) list"

definition new_scan_policy :: scan_policy where
  "new_scan_policy = \<lparr>excluded_path_components = [], excluded_top_levels = []\<rparr>"

text \<open>\<open>BlueprintScanPolicy.excludes\<close>: the first entry of the root variable decides.\<close>

definition scan_excludes :: "scan_policy \<Rightarrow> string \<Rightarrow> string list \<Rightarrow> bool" where
  "scan_excludes sp root_variable parts =
     (if \<exists>p \<in> set parts. p \<in> set (excluded_path_components sp) then True
      else if parts = [] then False
      else case map_of (excluded_top_levels sp) root_variable of
             Some names \<Rightarrow> hd parts \<in> set names
           | None \<Rightarrow> False)"

text \<open>\<open>BlueprintScanPolicy.to_dict\<close>\<close>

definition scan_to_dict :: "scan_policy \<Rightarrow> dict" where
  "scan_to_dict sp =
     [(''excluded_path_components'', VList (map VStr (excluded_path_components sp))),
      (''excluded_top_levels'', VDict (dict_of (map (\<lambda>(variable, names).
          (variable, VList (map VStr names))) (excluded_top_levels sp))))]"

record global_policy =
  g_name_map :: "(string \<times> string) list"
  g_host_libs :: "string list"
  g_drop_cflags :: "string list"
  g_drop_cppflags :: "string list"
  g_art_defines :: "string list"
  g_drop_ldflags :: "string list"
  g_drop_ldflags_containing :: "string list"
  g_add_ldflags :: "string list"
  g_strip_lib_prefix :: bool

definition new_global_policy :: global_policy where
  "new_global_policy =
     \<lparr>g_name_map = [], g_host_libs = [], g_drop_cflags = [], g_drop_cppflags = [],
      g_art_defines = [], g_drop_ldflags = [], g_drop_ldflags_containing = [],
      g_add_ldflags = [], g_strip_lib_prefix = True\<rparr>"

record overlay =
  ov_global :: global_policy
  ov_modules :: "(string \<times> module_policy) list"
  ov_scan :: scan_policy
  ov_roots :: "string list"

text \<open>The dataclass constructor with its \<open>__post_init__\<close>.\<close>

definition make_overlay ::
  "global_policy \<Rightarrow> (string \<times> module_policy) list \<Rightarrow> scan_policy \<Rightarrow> string list \<Rightarrow> exn + overlay" where
  "make_overlay glob mods sp roots =
     (if \<exists>n \<in> set roots. n = [] then
        Inl (ValueError ''product_root_modules must contain non-empty names'')
      else if \<not> distinct roots then
        Inl (ValueError ''product_root_modules must not contain duplicates'')
      else Inr \<lparr>ov_global = glob, ov_modules = mods, ov_scan = sp, ov_roots = roots\<rparr>)"

definition policy_for :: "overlay \<Rightarrow> string \<Rightarrow> module_policy" where
  "policy_for ov name =
     (case map_of (ov_modules ov) name of Some p \<Rightarrow> p | None \<Rightarrow> new_module_policy)"

definition target_name :: "overlay \<Rightarrow> string \<Rightarrow> string" where
  "target_name ov aosp_name =
     (case map_of (g_name_map (ov_global ov)) aosp_name of
        Some n \<Rightarrow> n
      | None \<Rightarrow>
          if g_strip_lib_prefix (ov_global ov) \<and> starts_with ''lib'' aosp_name \<and> 3 < length aosp_name
          then drop 3 aosp_name else aosp_name)"

subsection \<open>Applying a policy\<close>

text \<open>\<open>while x in xs: xs.remove(x)\<close>\<close>

function remove_loop :: "'a \<Rightarrow> 'a list \<Rightarrow> 'a list" where
  "remove_loop x xs = (if x \<in> set xs then remove_loop x (remove1 x xs) else xs)"
  by pat_completeness auto
termination remove_loop
  by (relation "measure (\<lambda>(x, xs). length xs)") (auto simp: length_remove1 dest: length_pos_if_in_set)

declare remove_loop.simps [simp del]

text \<open>\<open>xs.extend(a for a in adds if a not in xs)\<close>: the generator sees the list grow.\<close>

definition extend_new :: "'a list \<Rightarrow> 'a list \<Rightarrow> 'a list" where
  "extend_new adds xs = foldl (\<lambda>xs a. if a \<in> set xs then xs else xs @ [a]) xs adds"

definition remove_each :: "'a list \<Rightarrow> 'a list \<Rightarrow> 'a list" where
  "remove_each rs xs = foldl (\<lambda>xs r. remove_loop r xs) xs rs"

definition or_else :: "'a option \<Rightarrow> 'a option \<Rightarrow> 'a option" where
  "or_else x y = (case x of Some v \<Rightarrow> Some v | None \<Rightarrow> y)"

definition final_ldflags :: "global_policy \<Rightarrow> string list \<Rightarrow> string list" where
  "final_ldflags glob fs =
     (let fs = remove_each (g_drop_ldflags glob) fs;
          fs = (if g_drop_ldflags_containing glob \<noteq> [] then
                  filter (\<lambda>f. \<not> (\<exists>sub \<in> set (g_drop_ldflags_containing glob). contains sub f)) fs
                else fs)
      in effective_loop [] [] fs)"

definition apply_module_policy ::
  "string module \<Rightarrow> module_policy \<Rightarrow> global_policy \<Rightarrow> string module" where
  "apply_module_policy m pol glob =
     m\<lparr>m_enabled := (p_force_enabled pol \<or> m_enabled m),
       m_srcs := extend_new (p_add_srcs pol) (remove_each (p_remove_srcs pol) (m_srcs m)),
       m_shared_libs := extend_new (p_add_shared_libs pol)
         (remove_each (p_remove_shared_libs pol) (m_shared_libs m)),
       m_static_libs := extend_new (p_add_static_libs pol)
         (remove_each (p_remove_static_libs pol) (m_static_libs m)),
       m_cflags := remove_each (g_drop_cflags glob) (m_cflags m @ p_add_cflags pol),
       m_cppflags := remove_each (g_drop_cppflags glob) (m_cppflags m @ p_add_cppflags pol),
       m_conlyflags := m_conlyflags m @ p_add_conlyflags pol,
       m_c_std := or_else (p_set_c_std pol) (m_c_std m),
       m_cpp_std := or_else (p_set_cpp_std pol) (m_cpp_std m),
       m_ldflags := final_ldflags glob (m_ldflags m @ p_add_ldflags pol @ g_add_ldflags glob)\<rparr>"

subsection \<open>What the edits do\<close>

lemma remove_loop_eq: "remove_loop x xs = removeAll x xs"
proof (induction x xs rule: remove_loop.induct)
  case (1 x xs)
  have "removeAll x (remove1 x xs) = removeAll x xs"
    by (induction xs) auto
  with 1 show ?case by (cases "x \<in> set xs") (simp_all add: remove_loop.simps [of x xs])
qed

lemma remove_each_eq: "remove_each rs xs = filter (\<lambda>x. x \<notin> set rs) xs"
proof (induction rs arbitrary: xs)
  case (Cons r rs)
  have "remove_each (r # rs) xs = remove_each rs (removeAll r xs)"
    by (simp add: remove_each_def remove_loop_eq)
  also have "\<dots> = filter (\<lambda>x. x \<notin> set (r # rs)) xs"
    unfolding Cons by (induction xs) auto
  finally show ?case .
qed (simp add: remove_each_def)

lemma set_extend_new [simp]: "set (extend_new adds xs) = set xs \<union> set adds"
  unfolding extend_new_def by (induction adds arbitrary: xs) auto

lemma extend_new_distinct:
  "distinct adds \<Longrightarrow> extend_new adds xs = xs @ filter (\<lambda>a. a \<notin> set xs) adds"
  unfolding extend_new_def
proof (induction adds arbitrary: xs)
  case (Cons a adds)
  have "filter (\<lambda>x. x \<noteq> a \<and> x \<notin> set xs) adds = filter (\<lambda>x. x \<notin> set xs) adds"
    using Cons.prems by (intro filter_cong) auto
  with Cons show ?case by simp
qed simp

lemma extend_new_distinct_result: "distinct xs \<Longrightarrow> distinct (extend_new adds xs)"
  unfolding extend_new_def by (induction adds arbitrary: xs) auto

lemma final_ldflags_set:
  "set (final_ldflags glob fs) = {f \<in> set fs. f \<notin> set (g_drop_ldflags glob)
     \<and> \<not> (\<exists>sub \<in> set (g_drop_ldflags_containing glob). contains sub f)}"
  by (auto simp: final_ldflags_def Let_def set_effective_loop remove_each_eq)

lemma final_ldflags_distinct: "distinct (final_ldflags glob fs)"
  by (simp add: final_ldflags_def Let_def distinct_effective_loop)

subsection \<open>Properties\<close>

text \<open>After the policy is applied, the sources are those of the module that the policy does not
  remove together with those it adds, no dropped compile flag is left, and the link flags are
  distinct and contain neither a dropped flag nor one with a dropped substring, while no other
  flag of the module, the policy or the global policy is lost.\<close>

theorem policy_applied:
  "let m' = apply_module_policy m pol glob in
    set (m_srcs m') = (set (m_srcs m) - set (p_remove_srcs pol)) \<union> set (p_add_srcs pol)
    \<and> set (m_cflags m') = (set (m_cflags m) \<union> set (p_add_cflags pol)) - set (g_drop_cflags glob)
    \<and> set (m_cppflags m') = (set (m_cppflags m) \<union> set (p_add_cppflags pol)) - set (g_drop_cppflags glob)
    \<and> distinct (m_ldflags m')
    \<and> set (m_ldflags m') = {f \<in> set (m_ldflags m @ p_add_ldflags pol @ g_add_ldflags glob).
        f \<notin> set (g_drop_ldflags glob) \<and> \<not> (\<exists>sub \<in> set (g_drop_ldflags_containing glob). contains sub f)}"
  by (auto simp: Let_def apply_module_policy_def remove_each_eq final_ldflags_distinct final_ldflags_set)

end
