(* ===== verification/BpClosure.thy ===== *)
theory BpClosure
  imports BpOverlay BpEvaluator
begin

section \<open>The dependency closure\<close>

text \<open>
  \<open>tools/bp2cmake/bp2cmake/closure.py\<close>. The walk asks the evaluator for modules through one
  function, \<open>rs\<close> below, which is \<open>resolve\<close>; the locale \<open>resolver\<close> states what the walk and the
  emitter rely on, and the evaluator is shown to provide it. The recursion of \<open>visit\<close> takes a
  recursion limit, as in \<open>BpEvaluator\<close>.
\<close>

subsection \<open>Link dependencies\<close>

definition effective_link_deps :: "string module \<Rightarrow> overlay \<Rightarrow> string list \<times> string list" where
  "effective_link_deps m ov =
     (let pol = policy_for ov (m_name m);
          shared = filter (\<lambda>d. d \<notin> set (p_remove_shared_libs pol)) (m_shared_libs m);
          shared = shared @ filter (\<lambda>d. d \<notin> set shared) (p_add_shared_libs pol);
          static = filter (\<lambda>d. d \<notin> set (p_remove_static_libs pol)) (m_static_libs m);
          static = static @ filter (\<lambda>d. d \<notin> set static) (p_add_static_libs pol);
          whole = m_whole_static_libs m
      in if p_absorb_whole_static pol then (shared @ static, whole)
         else (shared @ static @ whole, []))"

definition is_buildable :: "string module \<Rightarrow> overlay \<Rightarrow> bool" where
  "is_buildable m ov =
     (let pol = policy_for ov (m_name m) in
      if effective_srcs m \<noteq> [] then True
      else if p_add_srcs pol \<noteq> [] then True
      else p_absorb_whole_static pol \<and> m_whole_static_libs m \<noteq> [])"

subsection \<open>The walk\<close>

datatype mark = Visiting | Done

record walk =
  w_state :: "(string \<times> mark) list"
  w_order :: "string list"

definition set_mark :: "string \<Rightarrow> mark \<Rightarrow> walk \<Rightarrow> walk" where
  "set_mark name k w = w\<lparr>w_state := AList.update name k (w_state w)\<rparr>"

text \<open>
  The link dependencies of one absorbed module: none for a host library or one that does not
  resolve.
\<close>

definition absorbed_deps ::
  "(string \<Rightarrow> exn + string module) \<Rightarrow> overlay \<Rightarrow> string \<Rightarrow> exn + string list" where
  "absorbed_deps rs ov a =
     (if a \<in> set (g_host_libs (ov_global ov)) then Inr []
      else case rs a of
        Inl e \<Rightarrow> if is_eval_error e then Inr [] else Inl e
      | Inr am \<Rightarrow> Inr (fst (effective_link_deps am ov)))"

fun visit :: "nat \<Rightarrow> (string \<Rightarrow> exn + string module) \<Rightarrow> overlay \<Rightarrow> string \<Rightarrow> walk \<Rightarrow> exn + walk" where
  "visit 0 rs ov name w = Inl RecursionError"
| "visit (Suc limit) rs ov name w =
     (if name \<in> set (g_host_libs (ov_global ov)) \<or> map_of (w_state w) name = Some Done then Inr w
      else if map_of (w_state w) name = Some Visiting then Inr w
      else case rs name of
        Inl e \<Rightarrow> if is_eval_error e then Inr w else Inl e
      | Inr m \<Rightarrow>
          if \<not> is_buildable m ov then Inr w
          else
            let w1 = set_mark name Visiting w; deps = effective_link_deps m ov in
            rbind (fold_r (visit limit rs ov) (fst deps) w1) (\<lambda>w2.
            rbind (fold_r (\<lambda>a w. rbind (absorbed_deps rs ov a)
                (\<lambda>ds. fold_r (visit limit rs ov) ds w)) (snd deps) w2) (\<lambda>w3.
              let w4 = set_mark name Done w3 in Inr (w4\<lparr>w_order := w_order w4 @ [name]\<rparr>))))"

definition dependency_closure ::
  "nat \<Rightarrow> (string \<Rightarrow> exn + string module) \<Rightarrow> overlay \<Rightarrow> string list \<Rightarrow> exn + string list" where
  "dependency_closure limit rs ov roots =
     rbind (fold_r (visit limit rs ov) roots \<lparr>w_state = [], w_order = []\<rparr>) (\<lambda>w. Inr (w_order w))"

subsection \<open>The graph of the walk\<close>

text \<open>
  The nodes the walk emits, the edges it follows, and what holds between two visits.
\<close>

definition emittable :: "(string \<Rightarrow> exn + string module) \<Rightarrow> overlay \<Rightarrow> string \<Rightarrow> bool" where
  "emittable rs ov n = (n \<notin> set (g_host_libs (ov_global ov))
     \<and> (\<exists>m. rs n = Inr m \<and> is_buildable m ov))"

definition dep_edge :: "(string \<Rightarrow> exn + string module) \<Rightarrow> overlay \<Rightarrow> string \<Rightarrow> string \<Rightarrow> bool" where
  "dep_edge rs ov a b = (emittable rs ov a \<and> (\<exists>m. rs a = Inr m \<and>
     (b \<in> set (fst (effective_link_deps m ov))
      \<or> (\<exists>c ds. c \<in> set (snd (effective_link_deps m ov)) \<and> absorbed_deps rs ov c = Inr ds \<and> b \<in> set ds))))"

definition before :: "'x \<Rightarrow> 'x \<Rightarrow> 'x list \<Rightarrow> bool" where
  "before b a xs = (\<exists>us vs. xs = us @ a # vs \<and> b \<in> set us)"

lemma before_append: "before b a xs \<Longrightarrow> before b a (xs @ ys)"
  unfolding before_def by (metis append.assoc append_Cons)

lemma before_snoc: "b \<in> set xs \<Longrightarrow> before b a (xs @ [a])"
  unfolding before_def by blast

definition reach :: "(string \<Rightarrow> exn + string module) \<Rightarrow> overlay \<Rightarrow> string \<Rightarrow> string \<Rightarrow> bool" where
  "reach rs ov = (dep_edge rs ov)\<^sup>*\<^sup>*"

definition seen :: "walk \<Rightarrow> string set" where
  "seen w = {x. map_of (w_state w) x \<noteq> None}"

definition open_nodes :: "walk \<Rightarrow> string set" where
  "open_nodes w = {x. map_of (w_state w) x = Some Visiting}"

definition walk_ok :: "(string \<Rightarrow> exn + string module) \<Rightarrow> overlay \<Rightarrow> walk \<Rightarrow> bool" where
  "walk_ok rs ov w = (distinct (w_order w)
     \<and> (\<forall>x. map_of (w_state w) x = Some Done \<longleftrightarrow> x \<in> set (w_order w))
     \<and> (\<forall>a \<in> set (w_order w). emittable rs ov a \<and>
          (\<forall>b. dep_edge rs ov a b \<and> emittable rs ov b \<longrightarrow> b \<in> seen w \<and> (before b a (w_order w) \<or> reach rs ov b a))))"

subsection \<open>The interface to the evaluator\<close>

text \<open>
  What the clients of \<open>resolve\<close> rely on: a module resolves under its own name, and only finitely
  many names resolve.
\<close>

locale resolver =
  fixes rs :: "string \<Rightarrow> exn + string module"
  assumes finite_known: "finite {n. \<exists>m. rs n = Inr m}"
    and resolved_name: "rs n = Inr m \<Longrightarrow> m_name m = n"
begin

text \<open>What a step of the walk from \<open>w\<close> to \<open>w'\<close> may do: finish nodes satisfying \<open>P\<close>, no more.\<close>

definition extends :: "overlay \<Rightarrow> (string \<Rightarrow> bool) \<Rightarrow> walk \<Rightarrow> walk \<Rightarrow> bool" where
  "extends ov P w w' = (walk_ok rs ov w' \<and> open_nodes w' = open_nodes w \<and> seen w \<subseteq> seen w'
     \<and> (\<exists>new. w_order w' = w_order w @ new \<and> (\<forall>x \<in> set new. P x)))"

lemma extends_refl: "walk_ok rs ov w \<Longrightarrow> extends ov P w w"
  by (auto simp: extends_def)

lemma extends_trans: "extends ov P u v \<Longrightarrow> extends ov P v w \<Longrightarrow> extends ov P u w"
  by (auto simp: extends_def)

lemma extends_mono: "extends ov P u v \<Longrightarrow> (\<And>x. P x \<Longrightarrow> Q x) \<Longrightarrow> extends ov Q u v"
  by (auto simp: extends_def)

lemma seen_iff: "walk_ok rs ov w \<Longrightarrow> seen w = open_nodes w \<union> set (w_order w)"
  unfolding walk_ok_def seen_def open_nodes_def by (auto, metis mark.exhaust)

text \<open>Visiting a list of names, given what one visit does.\<close>

definition good_visit :: "overlay \<Rightarrow> (string \<Rightarrow> bool) \<Rightarrow> nat \<Rightarrow> string set \<Rightarrow> string \<Rightarrow> bool" where
  "good_visit ov P l V d = (\<forall>w w'. visit l rs ov d w = Inr w' \<longrightarrow> walk_ok rs ov w \<longrightarrow> open_nodes w = V \<longrightarrow>
      extends ov P w w' \<and> (emittable rs ov d \<longrightarrow> d \<in> seen w'))"

lemma fold_visit:
  assumes "\<forall>d \<in> set ds. good_visit ov P l V d"
    and "fold_r (visit l rs ov) ds w = Inr w'" "walk_ok rs ov w" "open_nodes w = V"
  shows "extends ov P w w' \<and> (\<forall>d \<in> set ds. emittable rs ov d \<longrightarrow> d \<in> seen w')"
  using assms
proof (induction ds arbitrary: w)
  case Nil
  then show ?case by (auto intro: extends_refl)
next
  case (Cons d ds)
  from Cons.prems(2) obtain u where u: "visit l rs ov d w = Inr u"
    and rest: "fold_r (visit l rs ov) ds u = Inr w'" by (auto simp: result_simps)
  have 1: "extends ov P w u \<and> (emittable rs ov d \<longrightarrow> d \<in> seen u)"
    using Cons.prems(1,3,4) u by (simp add: good_visit_def)
  then have ok: "walk_ok rs ov u" "open_nodes u = V" using Cons.prems(4) by (auto simp: extends_def)
  have 2: "extends ov P u w' \<and> (\<forall>d \<in> set ds. emittable rs ov d \<longrightarrow> d \<in> seen w')"
    using Cons.prems(1) by (intro Cons.IH [OF _ rest ok]) simp
  have "extends ov P w w'" using 1 2 extends_trans by blast
  moreover have "seen u \<subseteq> seen w'" using 2 by (simp add: extends_def)
  ultimately show ?case using 1 2 by auto
qed

lemma fold_absorbed:
  assumes "\<forall>a \<in> set as. \<forall>ds. absorbed_deps rs ov a = Inr ds \<longrightarrow> (\<forall>d \<in> set ds. good_visit ov P l V d)"
    and "fold_r (\<lambda>a w. rbind (absorbed_deps rs ov a) (\<lambda>ds. fold_r (visit l rs ov) ds w)) as w = Inr w'"
    and "walk_ok rs ov w" "open_nodes w = V"
  shows "extends ov P w w' \<and> (\<forall>a \<in> set as. \<exists>ds. absorbed_deps rs ov a = Inr ds
    \<and> (\<forall>d \<in> set ds. emittable rs ov d \<longrightarrow> d \<in> seen w'))"
  using assms
proof (induction as arbitrary: w)
  case Nil
  then show ?case by (auto intro: extends_refl)
next
  case (Cons a as)
  from Cons.prems(2) obtain ds u where ds: "absorbed_deps rs ov a = Inr ds"
    and u: "fold_r (visit l rs ov) ds w = Inr u"
    and rest: "fold_r (\<lambda>a w. rbind (absorbed_deps rs ov a) (\<lambda>ds. fold_r (visit l rs ov) ds w)) as u = Inr w'"
    by (auto simp: result_simps)
  have 1: "extends ov P w u \<and> (\<forall>d \<in> set ds. emittable rs ov d \<longrightarrow> d \<in> seen u)"
    using Cons.prems(1) ds by (intro fold_visit [OF _ u Cons.prems(3,4)]) simp
  then have ok: "walk_ok rs ov u" "open_nodes u = V" using Cons.prems(4) by (auto simp: extends_def)
  have 2: "extends ov P u w' \<and> (\<forall>a \<in> set as. \<exists>ds. absorbed_deps rs ov a = Inr ds
    \<and> (\<forall>d \<in> set ds. emittable rs ov d \<longrightarrow> d \<in> seen w'))"
    using Cons.prems(1) by (intro Cons.IH [OF _ rest ok]) simp
  have "extends ov P w w'" using 1 2 extends_trans by blast
  moreover have "seen u \<subseteq> seen w'" using 2 by (simp add: extends_def)
  ultimately show ?case using 1 2 ds by auto
qed

lemma open_set_mark: "open_nodes (set_mark n Visiting w) = insert n (open_nodes w)"
  by (auto simp: open_nodes_def set_mark_def update_conv)

lemma walk_ok_open:
  "walk_ok rs ov w \<Longrightarrow> n \<notin> seen w \<Longrightarrow> walk_ok rs ov (set_mark n Visiting w)"
proof -
  assume ok: "walk_ok rs ov w" and n: "n \<notin> seen w"
  then have "n \<notin> set (w_order w)" unfolding walk_ok_def seen_def by fastforce
  then show ?thesis using ok n unfolding walk_ok_def seen_def set_mark_def by (auto simp: update_conv)
qed

lemma walk_ok_close:
  assumes "walk_ok rs ov w" "map_of (w_state w) n = Some Visiting" "emittable rs ov n"
    and "\<And>b. dep_edge rs ov n b \<Longrightarrow> emittable rs ov b \<Longrightarrow> b \<in> seen w \<and> (b \<in> set (w_order w) \<or> reach rs ov b n)"
  shows "walk_ok rs ov (w\<lparr>w_state := AList.update n Done (w_state w), w_order := w_order w @ [n]\<rparr>)"
proof -
  have "n \<notin> set (w_order w)" using assms(1,2) unfolding walk_ok_def by (metis mark.distinct(1) option.inject)
  let ?w = "w\<lparr>w_state := AList.update n Done (w_state w), w_order := w_order w @ [n]\<rparr>"
  have seen: "seen ?w = insert n (seen w)" by (auto simp: seen_def update_conv)
  have "emittable rs ov a \<and> (\<forall>b. dep_edge rs ov a b \<and> emittable rs ov b \<longrightarrow>
      b \<in> seen ?w \<and> (before b a (w_order w @ [n]) \<or> reach rs ov b a))" if "a \<in> set (w_order w @ [n])" for a
  proof (cases "a = n")
    case True
    then show ?thesis using assms(3,4) before_snoc [of _ "w_order w" n] seen by auto
  next
    case False
    then have "a \<in> set (w_order w)" using that by simp
    then have "emittable rs ov a \<and> (\<forall>b. dep_edge rs ov a b \<and> emittable rs ov b \<longrightarrow>
        b \<in> seen w \<and> (before b a (w_order w) \<or> reach rs ov b a))"
      using assms(1) unfolding walk_ok_def by blast
    then show ?thesis using before_append [of _ a "w_order w" "[n]"] seen by auto
  qed
  moreover have "distinct (w_order ?w)" using \<open>n \<notin> set (w_order w)\<close> assms(1) by (simp add: walk_ok_def)
  moreover have "map_of (w_state ?w) x = Some Done \<longleftrightarrow> x \<in> set (w_order ?w)" for x
    using assms(1) by (simp add: walk_ok_def update_conv)
  ultimately show ?thesis unfolding walk_ok_def by simp
qed

lemma visit_extends:
  "visit l rs ov n w = Inr w' \<Longrightarrow> walk_ok rs ov w \<Longrightarrow> \<forall>v \<in> open_nodes w. reach rs ov v n \<Longrightarrow>
   extends ov (reach rs ov n) w w' \<and> (emittable rs ov n \<longrightarrow> n \<in> seen w')"
proof (induction l arbitrary: n w w')
  case (Suc l)
  let ?host = "set (g_host_libs (ov_global ov))"
  show ?case
  proof (cases "n \<in> ?host \<or> n \<in> seen w \<or> \<not> emittable rs ov n")
    case True
    have "w' = w"
    proof -
      consider "n \<in> ?host" | "n \<in> seen w" | "n \<notin> ?host" "n \<notin> seen w" "\<not> emittable rs ov n" using True by blast
      then show ?thesis
      proof cases
        case 2
        then obtain k where "map_of (w_state w) n = Some k" by (auto simp: seen_def)
        with Suc.prems(1) show ?thesis by (cases k) (auto split: if_splits)
      next
        case 3
        then show ?thesis using Suc.prems(1)
          by (auto simp: emittable_def seen_def split: sum.splits if_splits)
      qed (use Suc.prems(1) in auto)
    qed
    moreover have "emittable rs ov n \<longrightarrow> n \<in> seen w" using True by (auto simp: emittable_def)
    ultimately show ?thesis using extends_refl Suc.prems(2) by auto
  next
    case False
    then obtain m where m: "rs n = Inr m" "is_buildable m ov" "n \<notin> ?host" and new: "n \<notin> seen w"
      by (auto simp: emittable_def)
    let ?w1 = "set_mark n Visiting w" and ?deps = "effective_link_deps m ov"
    from Suc.prems(1) m new obtain w2 w3 where
      w2: "fold_r (visit l rs ov) (fst ?deps) ?w1 = Inr w2"
      and w3: "fold_r (\<lambda>a w. rbind (absorbed_deps rs ov a) (\<lambda>ds. fold_r (visit l rs ov) ds w)) (snd ?deps) w2 = Inr w3"
      and w': "w' = w3\<lparr>w_state := AList.update n Done (w_state w3), w_order := w_order w3 @ [n]\<rparr>"
      by (auto simp: result_simps seen_def Let_def set_mark_def)
    define V where "V = open_nodes ?w1"
    have step: "good_visit ov (reach rs ov n) l V d" if e: "dep_edge rs ov n d" for d
      unfolding good_visit_def
    proof (intro allI impI)
      fix u v assume run: "visit l rs ov d u = Inr v" and ok: "walk_ok rs ov u" and V: "open_nodes u = V"
      have nd: "reach rs ov n d" using e by (simp add: reach_def r_into_rtranclp)
      have "\<forall>x \<in> open_nodes u. reach rs ov x d"
        using Suc.prems(3) nd V by (auto simp: V_def open_set_mark reach_def)
      from Suc.IH [OF run ok this] have "extends ov (reach rs ov d) u v \<and> (emittable rs ov d \<longrightarrow> d \<in> seen v)" .
      then show "extends ov (reach rs ov n) u v \<and> (emittable rs ov d \<longrightarrow> d \<in> seen v)"
        using nd by (auto intro: extends_mono simp: reach_def)
    qed
    have edges: "dep_edge rs ov n d" if "d \<in> set (fst ?deps)" for d
      using that False m by (auto simp: dep_edge_def)
    have edges': "dep_edge rs ov n d" if "a \<in> set (snd ?deps)" "absorbed_deps rs ov a = Inr ds" "d \<in> set ds" for a ds d
      using that False m by (auto simp: dep_edge_def)
    have ok1: "walk_ok rs ov ?w1" using Suc.prems(2) new by (rule walk_ok_open)
    have 2: "extends ov (reach rs ov n) ?w1 w2 \<and> (\<forall>d \<in> set (fst ?deps). emittable rs ov d \<longrightarrow> d \<in> seen w2)"
      using step edges by (intro fold_visit [OF _ w2 ok1]) (auto simp: V_def)
    then have ok2: "walk_ok rs ov w2" "open_nodes w2 = V" by (auto simp: extends_def V_def)
    have 3: "extends ov (reach rs ov n) w2 w3 \<and> (\<forall>a \<in> set (snd ?deps). \<exists>ds. absorbed_deps rs ov a = Inr ds
        \<and> (\<forall>d \<in> set ds. emittable rs ov d \<longrightarrow> d \<in> seen w3))"
      using step edges' by (intro fold_absorbed [OF _ w3 ok2]) auto
    then have ok3: "walk_ok rs ov w3" "open_nodes w3 = V" using ok2 by (auto simp: extends_def)
    have succ: "b \<in> seen w3" if "dep_edge rs ov n b" "emittable rs ov b" for b
      using that 2 3 m(1) by (auto simp: dep_edge_def extends_def)
    have close: "walk_ok rs ov w'"
      unfolding w'
    proof (rule walk_ok_close [OF ok3(1)])
      have "n \<in> open_nodes w3" unfolding ok3(2) V_def open_set_mark by simp
      then show "map_of (w_state w3) n = Some Visiting" by (simp add: open_nodes_def)
      show "emittable rs ov n" using False by simp
      fix b assume b: "dep_edge rs ov n b" "emittable rs ov b"
      have "b \<in> V \<or> b \<in> set (w_order w3)" using succ [OF b] seen_iff [OF ok3(1)] ok3(2) by auto
      then show "b \<in> seen w3 \<and> (b \<in> set (w_order w3) \<or> reach rs ov b n)"
        using succ [OF b] Suc.prems(3) by (auto simp: V_def open_set_mark reach_def)
    qed
    have "extends ov (reach rs ov n) ?w1 w3" using 2 3 extends_trans by blast
    then obtain news where ord: "w_order w3 = w_order w @ news" "\<forall>x \<in> set news. reach rs ov n x"
      by (auto simp: extends_def set_mark_def)
    have "open_nodes w' = open_nodes w3 - {n}"
      by (auto simp: w' open_nodes_def update_conv split: if_splits)
    then have "open_nodes w' = open_nodes w"
      using ok3(2) new by (auto simp: V_def open_set_mark) (auto simp: open_nodes_def seen_def)
    moreover have "seen w \<subseteq> seen ?w1" "seen w3 \<subseteq> seen w'"
      by (auto simp: w' seen_def set_mark_def update_conv)
    then have "seen w \<subseteq> seen w'"
      using \<open>extends ov (reach rs ov n) ?w1 w3\<close> by (auto simp: extends_def)
    ultimately have "extends ov (reach rs ov n) w w'"
      using close ord by (auto simp: extends_def w' reach_def)
    moreover have "n \<in> seen w'" by (simp add: w' seen_def update_conv)
    ultimately show ?thesis by blast
  qed
qed simp


text \<open>The closure: its members and their order.\<close>

lemma closure_spec:
  assumes "dependency_closure l rs ov roots = Inr ord"
  shows "distinct ord
    \<and> set ord = {x. emittable rs ov x \<and> (\<exists>r \<in> set roots. emittable rs ov r \<and> reach rs ov r x)}
    \<and> (\<forall>a \<in> set ord. \<forall>b. dep_edge rs ov a b \<and> emittable rs ov b \<longrightarrow> before b a ord \<or> reach rs ov b a)"
proof -
  let ?w = "\<lparr>w_state = [], w_order = []\<rparr>"
  let ?P = "\<lambda>x. \<exists>r \<in> set roots. reach rs ov r x"
  from assms obtain w where run: "fold_r (visit l rs ov) roots ?w = Inr w" and ord: "ord = w_order w"
    by (auto simp: dependency_closure_def result_simps)
  have ok: "walk_ok rs ov ?w" "open_nodes ?w = {}" by (auto simp: walk_ok_def open_nodes_def)
  have "good_visit ov ?P l {} r" if "r \<in> set roots" for r
    unfolding good_visit_def
  proof (intro allI impI)
    fix u v assume "visit l rs ov r u = Inr v" "walk_ok rs ov u" "open_nodes u = {}"
    from visit_extends [OF this(1,2)] this(3)
    have "extends ov (reach rs ov r) u v \<and> (emittable rs ov r \<longrightarrow> r \<in> seen v)" by simp
    then show "extends ov ?P u v \<and> (emittable rs ov r \<longrightarrow> r \<in> seen v)"
      using that by (auto intro: extends_mono)
  qed
  then have ext: "extends ov ?P ?w w" and roots: "\<forall>r \<in> set roots. emittable rs ov r \<longrightarrow> r \<in> seen w"
    using fold_visit [OF _ run ok, of ?P] by auto
  then have okw: "walk_ok rs ov w" and seen: "seen w = set ord"
    using seen_iff ok(2) by (auto simp: extends_def ord)
  have sound: "emittable rs ov x \<and> (\<exists>r \<in> set roots. reach rs ov r x)" if "x \<in> set ord" for x
    using that ext okw by (auto simp: extends_def walk_ok_def ord)
  have complete: "x \<in> set ord" if "reach rs ov r x" "r \<in> set roots" "emittable rs ov r" "emittable rs ov x" for r x
    using that unfolding reach_def
  proof (induction rule: rtranclp_induct)
    case base
    then show ?case using roots seen by auto
  next
    case (step y z)
    then have "y \<in> set ord" by (auto simp: dep_edge_def)
    moreover have "\<forall>a \<in> set ord. \<forall>b. dep_edge rs ov a b \<and> emittable rs ov b \<longrightarrow> b \<in> seen w"
      using okw unfolding walk_ok_def ord by blast
    ultimately show ?case using step seen by blast
  qed
  have "emittable rs ov r" if "reach rs ov r x" "emittable rs ov x" for r x
    using that unfolding reach_def by (cases rule: converse_rtranclpE) (auto simp: dep_edge_def)
  then have "set ord = {x. emittable rs ov x \<and> (\<exists>r \<in> set roots. emittable rs ov r \<and> reach rs ov r x)}"
    using sound complete by blast
  then show ?thesis using okw by (simp add: walk_ok_def ord)
qed

text \<open>Termination: each level of the recursion marks a further name of the finitely many.\<close>

lemma absorbed_deps_error:
  "absorbed_deps rs ov a = Inl e \<Longrightarrow> \<exists>x. rs x = Inl e \<and> \<not> is_eval_error e"
  by (auto simp: absorbed_deps_def split: sum.splits if_splits)

lemma fold_r_seen:
  "fold_r f xs w = Inr w' \<Longrightarrow> (\<And>x u v. f x u = Inr v \<Longrightarrow> seen u \<subseteq> seen v) \<Longrightarrow> seen w \<subseteq> seen w'"
  by (erule fold_r_invariant) (simp, blast)

lemma visit_skip: "n \<in> set (g_host_libs (ov_global ov)) \<or> n \<in> seen w \<Longrightarrow> visit (Suc l) rs ov n w = Inr w"
proof -
  assume n: "n \<in> set (g_host_libs (ov_global ov)) \<or> n \<in> seen w"
  show ?thesis
  proof (cases "map_of (w_state w) n")
    case None
    then show ?thesis using n by (simp add: seen_def)
  next
    case (Some k)
    then show ?thesis by (cases k) simp_all
  qed
qed

lemma visit_step:
  "n \<notin> set (g_host_libs (ov_global ov)) \<Longrightarrow> n \<notin> seen w \<Longrightarrow> visit (Suc l) rs ov n w =
     (case rs n of
        Inl e \<Rightarrow> if is_eval_error e then Inr w else Inl e
      | Inr m \<Rightarrow>
          if \<not> is_buildable m ov then Inr w
          else rbind (fold_r (visit l rs ov) (fst (effective_link_deps m ov)) (set_mark n Visiting w)) (\<lambda>w2.
            rbind (fold_r (\<lambda>a w. rbind (absorbed_deps rs ov a)
                (\<lambda>ds. fold_r (visit l rs ov) ds w)) (snd (effective_link_deps m ov)) w2) (\<lambda>w3.
              Inr ((set_mark n Done w3)\<lparr>w_order := w_order (set_mark n Done w3) @ [n]\<rparr>))))"
  by (simp add: seen_def Let_def split: sum.split)

lemma visit_seen: "visit l rs ov n w = Inr w' \<Longrightarrow> seen w \<subseteq> seen w'"
proof (induction l arbitrary: n w w')
  case (Suc l)
  have fold: "fold_r (visit l rs ov) ds u = Inr v \<Longrightarrow> seen u \<subseteq> seen v" for ds u v
    using fold_r_seen Suc.IH by blast
  have mark: "seen u \<subseteq> seen (set_mark n k u)" for u k
    by (auto simp: seen_def set_mark_def update_conv)
  have order: "seen (u\<lparr>w_order := x\<rparr>) = seen u" for u x by (simp add: seen_def)
  consider (skip) "n \<in> set (g_host_libs (ov_global ov)) \<or> n \<in> seen w"
    | (step) "n \<notin> set (g_host_libs (ov_global ov))" "n \<notin> seen w" by blast
  then show ?case
  proof cases
    case skip
    then show ?thesis using Suc.prems visit_skip by simp
  next
    case step
    from Suc.prems consider "w' = w" | m w2 w3 where
      "fold_r (visit l rs ov) (fst (effective_link_deps m ov)) (set_mark n Visiting w) = Inr w2"
        "fold_r (\<lambda>a w. rbind (absorbed_deps rs ov a) (\<lambda>ds. fold_r (visit l rs ov) ds w))
          (snd (effective_link_deps m ov)) w2 = Inr w3"
        "w' = (set_mark n Done w3)\<lparr>w_order := w_order (set_mark n Done w3) @ [n]\<rparr>"
      unfolding visit_step [OF step] by (auto simp: result_simps split: sum.splits if_splits)
    then show ?thesis
    proof cases
      case 2
      have "seen w \<subseteq> seen w2" using fold [OF 2(1)] mark by blast
      also have "\<dots> \<subseteq> seen w3"
        using 2(2) by (rule fold_r_seen) (auto simp: result_simps dest!: fold)
      also have "\<dots> \<subseteq> seen w'" unfolding 2(3) order by (rule mark)
      finally show ?thesis .
    qed simp
  qed
qed simp

lemma fold_r_error:
  assumes "fold_r f xs w = Inl e"
    and "\<And>x u v. f x u = Inr v \<Longrightarrow> Q u \<Longrightarrow> Q v" and "Q w"
  shows "\<exists>x \<in> set xs. \<exists>u. Q u \<and> f x u = Inl e"
  using assms
proof (induction xs arbitrary: w)
  case (Cons x xs)
  show ?case
  proof (cases "f x w")
    case (Inl e')
    then show ?thesis using Cons.prems by auto
  next
    case (Inr v)
    then show ?thesis using Cons.IH [of v] Cons.prems by auto
  qed
qed simp

abbreviation known :: "string set" where
  "known \<equiv> {n. \<exists>m. rs n = Inr m}"

lemma visit_error:
  "visit l rs ov n w = Inl e \<Longrightarrow> card (known - seen w) < l \<Longrightarrow> \<exists>x. rs x = Inl e \<and> \<not> is_eval_error e"
proof (induction l arbitrary: n w)
  case (Suc l)
  have new: "n \<notin> set (g_host_libs (ov_global ov))" "n \<notin> seen w"
    using Suc.prems(1) visit_skip [of n ov w l] by auto
  show ?case
  proof (cases "rs n")
    case (Inl e')
    then show ?thesis using Suc.prems(1) unfolding visit_step [OF new] by (auto split: if_splits)
  next
    case (Inr m)
    let ?w1 = "set_mark n Visiting w" and ?Q = "\<lambda>u. card (known - seen u) < l"
    have sub: "?Q v" if "seen u \<subseteq> seen v" "?Q u" for u v
    proof -
      have "card (known - seen v) \<le> card (known - seen u)"
        using that(1) finite_known by (intro card_mono) auto
      then show ?thesis using that(2) by simp
    qed
    have "seen ?w1 = insert n (seen w)" by (auto simp: seen_def set_mark_def update_conv)
    moreover have "n \<in> known - seen w" using Inr new by simp
    ultimately have "known - seen ?w1 = (known - seen w) - {n}" by auto
    then have "card (known - seen ?w1) < card (known - seen w)"
      using \<open>n \<in> known - seen w\<close> finite_known by (simp add: card_Diff1_less del: card_Diff_insert)
    then have q1: "?Q ?w1" using Suc.prems(2) by simp
    have qv: "?Q v" if "visit l rs ov d u = Inr v" "?Q u" for d u v
      using visit_seen [OF that(1)] that(2) by (rule sub)
    have qf: "?Q v" if "fold_r (visit l rs ov) ds u = Inr v" "?Q u" for ds u v
      using that by (rule fold_r_invariant) (rule qv)
    have err: "\<exists>x. rs x = Inl e \<and> \<not> is_eval_error e"
      if "fold_r (visit l rs ov) ds u = Inl e" "?Q u" for ds u
      using fold_r_error [OF that(1), of ?Q] qv that(2) Suc.IH by blast
    from Suc.prems(1) Inr consider
      "fold_r (visit l rs ov) (fst (effective_link_deps m ov)) ?w1 = Inl e"
    | w2 where "fold_r (visit l rs ov) (fst (effective_link_deps m ov)) ?w1 = Inr w2"
        "fold_r (\<lambda>a w. rbind (absorbed_deps rs ov a) (\<lambda>ds. fold_r (visit l rs ov) ds w))
           (snd (effective_link_deps m ov)) w2 = Inl e"
      unfolding visit_step [OF new] by (auto simp: result_simps split: if_splits)
    then show ?thesis
    proof cases
      case 1
      then show ?thesis using err q1 by blast
    next
      case 2
      have "?Q w2" using 2(1) q1 by (rule qf)
      moreover have "?Q v" if "rbind (absorbed_deps rs ov a) (\<lambda>ds. fold_r (visit l rs ov) ds u) = Inr v" "?Q u"
        for a u v using that qf by (auto simp: result_simps)
      ultimately obtain a u where
        u: "?Q u" "rbind (absorbed_deps rs ov a) (\<lambda>ds. fold_r (visit l rs ov) ds u) = Inl e"
        using fold_r_error [OF 2(2), of ?Q] by blast
      then show ?thesis using absorbed_deps_error err by (auto simp: result_simps)
    qed
  qed
qed simp

lemma closure_returns:
  assumes "card known < l" and "\<And>n e. rs n = Inl e \<Longrightarrow> is_eval_error e"
  shows "\<exists>ord. dependency_closure l rs ov roots = Inr ord"
proof (cases "fold_r (visit l rs ov) roots \<lparr>w_state = [], w_order = []\<rparr>")
  case (Inl e)
  let ?Q = "\<lambda>u. card (known - seen u) < l"
  have q: "?Q v" if "visit l rs ov d u = Inr v" "?Q u" for d u v
  proof -
    have "card (known - seen v) \<le> card (known - seen u)"
      using visit_seen [OF that(1)] finite_known by (intro card_mono) auto
    then show ?thesis using that(2) by simp
  qed
  have "?Q \<lparr>w_state = [], w_order = []\<rparr>" using assms(1) by (simp add: seen_def)
  from fold_r_error [OF Inl, of ?Q] q this obtain x u where "visit l rs ov x u = Inl e" "?Q u" by blast
  then show ?thesis using visit_error assms(2) by blast
qed (simp add: dependency_closure_def)

end

subsection \<open>The evaluator provides the interface\<close>

lemma m_name_map_property: "m_name (fst (map_property k v st)) = m_name (fst st)"
  by (auto simp: map_property_def Let_def extend_field_def set_extra_def split: pyval.split)

lemma m_name_map_properties:
  "m_name (fst (foldl (\<lambda>st kv. map_property (fst kv) (snd kv) st) st props)) = m_name (fst st)"
  by (induction props arbitrary: st) (simp_all add: m_name_map_property)

lemma m_name_add_header_libs: "m_name (foldl (\<lambda>m hl. add_header_lib hl m) m hls) = m_name m"
  by (induction hls arbitrary: m) (simp_all add: add_header_lib_def)

lemma m_name_to_module: "m_name (to_module name type dir props rv) = name"
  by (simp add: to_module_def Let_def case_prod_unfold m_name_map_properties m_name_add_header_libs
      new_module_def)

lemma m_name_typed: "typed_module m = Inr t \<Longrightarrow> m_name t = m_name m"
  by (auto simp: typed_module_def result_simps)

lemma resolve_typed_name: "resolve_typed limit ev n = Inr m \<Longrightarrow> m_name m = n"
  by (auto simp: resolve_typed_def resolve_def result_simps m_name_to_module dest: m_name_typed
      split: option.splits)

lemma resolve_typed_declared:
  "resolve_typed limit ev n = Inr m \<Longrightarrow> KStr n \<in> fst ` set (ev_decls ev)"
  by (auto simp: resolve_typed_def resolve_def result_simps split: option.splits dest!: map_of_SomeD)
    force

lemma card_resolved:
  "finite {n. \<exists>m. resolve_typed limit ev n = Inr m}
   \<and> card {n. \<exists>m. resolve_typed limit ev n = Inr m} \<le> length (ev_decls ev)"
proof -
  let ?S = "{n. \<exists>m. resolve_typed limit ev n = Inr m}"
  have sub: "KStr ` ?S \<subseteq> fst ` set (ev_decls ev)" using resolve_typed_declared by blast
  have inj: "inj_on KStr ?S" by (simp add: inj_on_def)
  have fin: "finite (KStr ` ?S)" using sub by (rule finite_subset) simp
  have "card ?S = card (KStr ` ?S)" using inj by (simp add: card_image)
  also have "\<dots> \<le> card (fst ` set (ev_decls ev))" using sub by (intro card_mono) auto
  also have "\<dots> \<le> length (ev_decls ev)" using card_length [of "map fst (ev_decls ev)"] by simp
  finally show ?thesis using fin inj finite_image_iff by blast
qed

interpretation evaluated: resolver "resolve_typed limit ev" for limit ev
  by unfold_locales (use card_resolved resolve_typed_name in auto)

subsection \<open>Properties\<close>

text \<open>C13. When the closure returns, it lists every module exactly once: those that are emitted (not a
  host library, resolvable, buildable) and can be reached from an emitted root along link
  dependencies, and no others; and each dependency stands before its dependents unless the two
  lie on a cycle.\<close>

theorem closure_members_and_order:
  assumes "dependency_closure l (resolve_typed limit ev) ov roots = Inr ord"
  shows "distinct ord
    \<and> set ord = {x. emittable (resolve_typed limit ev) ov x \<and> (\<exists>r \<in> set roots.
        emittable (resolve_typed limit ev) ov r \<and> reach (resolve_typed limit ev) ov r x)}
    \<and> (\<forall>a \<in> set ord. \<forall>b. dep_edge (resolve_typed limit ev) ov a b \<and> emittable (resolve_typed limit ev) ov b \<longrightarrow>
         before b a ord \<or> reach (resolve_typed limit ev) ov b a)"
  using assms by (rule evaluated.closure_spec)

definition sample_overlay :: overlay where
  "sample_overlay = \<lparr>ov_global = new_global_policy, ov_modules = [], ov_scan = new_scan_policy, ov_roots = []\<rparr>"

definition cyclic_evaluator :: evaluator where
  "cyclic_evaluator = \<lparr>ev_config = default_config, ev_decls =
     map (\<lambda>(n, libs). (KStr n, \<lparr>d_type = ''cc_library'', d_props =
        [(''srcs'', ListExpr [StringLit ''a.cc'' 1] 1), (''shared_libs'', ListExpr (map (\<lambda>l. StringLit l 1) libs) 1)],
        d_bp_dir = [], d_scope = [], d_root_var = ''R''\<rparr>))
       [(''app'', [''liba'']), (''liba'', [''libb'']), (''libb'', [''liba'', ''libc'']), (''libc'', [''libz''])],
     ev_source_root = []\<rparr>"

definition sample_module :: "string \<Rightarrow> string list \<Rightarrow> string module" where
  "sample_module name libs = (new_module name ''cc_library'' [] ''R'')\<lparr>m_srcs := [''a.cc''], m_shared_libs := libs\<rparr>"

lemma sample_to_module:
  "typed_module (to_module name ''cc_library'' [] [(''srcs'', VList [VStr ''a.cc'']), (''shared_libs'', VList [VStr l])] ''R'')
   = Inr (sample_module name [takeWhile (\<lambda>c. c \<noteq> CHR ''#'') l])"
  "typed_module (to_module name ''cc_library'' [] [(''srcs'', VList [VStr ''a.cc'']), (''shared_libs'', VList [VStr l, VStr l'])] ''R'')
   = Inr (sample_module name [takeWhile (\<lambda>c. c \<noteq> CHR ''#'') l, takeWhile (\<lambda>c. c \<noteq> CHR ''#'') l'])"
  by (simp_all add: to_module_def new_module_def map_property_def ignored_props_def list_props_def
      list_fields_def extend_field_def dep_list_props_def typed_module_def typed_list_def sample_module_def)

lemma sample_collapse:
  "collapse_selects cfg [(''srcs'', x), (''shared_libs'', y)] = [(''srcs'', x), (''shared_libs'', y)]"
  by (simp add: collapse_selects.simps select_keys_def)

lemma sample_resolve:
  "resolve_typed 1 cyclic_evaluator ''app'' = Inr (sample_module ''app'' [''liba''])"
  "resolve_typed 1 cyclic_evaluator ''liba'' = Inr (sample_module ''liba'' [''libb''])"
  "resolve_typed 1 cyclic_evaluator ''libb'' = Inr (sample_module ''libb'' [''liba'', ''libc''])"
  "resolve_typed 1 cyclic_evaluator ''libc'' = Inr (sample_module ''libc'' [''libz''])"
  "resolve_typed 1 cyclic_evaluator ''libz'' = Inl (EvalError ''unknown module'' ''libz'')"
  by (simp_all add: resolve_typed_def resolve_def cyclic_evaluator_def merged_props_def eval_props_def
      get_or_nil_def dget_def dict_of_def deep_merge.simps sample_collapse sample_to_module)

text \<open>A walk through the cycle \<open>liba\<close>, \<open>libb\<close>, with an unknown library at its end.\<close>

lemma sample_closure:
  "dependency_closure 5 (resolve_typed 1 cyclic_evaluator) sample_overlay [''app'']
     = Inr [''libc'', ''libb'', ''liba'', ''app'']"
  by (simp add: dependency_closure_def eval_nat_numeral sample_resolve [unfolded One_nat_def] sample_overlay_def sample_module_def
      new_module_def new_global_policy_def set_mark_def is_buildable_def effective_srcs_def policy_for_def
      new_module_policy_def effective_link_deps_def extend_new_def remove_each_def Let_def)

theorem closure_members_and_order_witness:
  "dependency_closure 5 (resolve_typed 1 cyclic_evaluator) sample_overlay [''app'']
     = Inr [''libc'', ''libb'', ''liba'', ''app'']
   \<and> distinct [''libc'', ''libb'', ''liba'', ''app'']
   \<and> emittable (resolve_typed 1 cyclic_evaluator) sample_overlay ''libc''"
proof -
  note c = closure_members_and_order [OF sample_closure]
  have d: "distinct [''libc'', ''libb'', ''liba'', ''app'']" by (rule conjunct1 [OF c])
  have "''libc'' \<in> set [''libc'', ''libb'', ''liba'', ''app'']" by simp
  then have "emittable (resolve_typed 1 cyclic_evaluator) sample_overlay ''libc''"
    unfolding conjunct1 [OF conjunct2 [OF c]] by blast
  with sample_closure d show ?thesis by (intro conjI)
qed

text \<open>C14. With a recursion limit above the number of declared modules, the walk returns, whatever
  cycles the dependencies have, provided resolving a name fails with nothing but \<open>EvalError\<close>.\<close>

theorem closure_terminates:
  assumes "length (ev_decls ev) < l"
    and "\<forall>n e. resolve_typed limit ev n = Inl e \<longrightarrow> is_eval_error e"
  shows "\<exists>ord. dependency_closure l (resolve_typed limit ev) ov roots = Inr ord"
  using assms card_resolved [of limit ev] by (intro evaluated.closure_returns) auto

theorem closure_terminates_witness:
  "\<exists>ord. dependency_closure 5 (resolve_typed 1 cyclic_evaluator) sample_overlay [''app'', ''none''] = Inr ord"
proof (rule closure_terminates)
  show "length (ev_decls cyclic_evaluator) < 5" by (simp add: cyclic_evaluator_def)
  show "\<forall>n e. resolve_typed 1 cyclic_evaluator n = Inl e \<longrightarrow> is_eval_error e"
  proof (intro allI impI)
    fix n e
    assume e: "resolve_typed 1 cyclic_evaluator n = Inl e"
    then have "n \<notin> set [''app'', ''liba'', ''libb'', ''libc'']" by (auto simp: sample_resolve [unfolded One_nat_def])
    then have "map_of (ev_decls cyclic_evaluator) (KStr n) = None" by (simp add: cyclic_evaluator_def)
    with e show "is_eval_error e" by (auto simp: resolve_typed_def resolve_def)
  qed
qed

text \<open>The closure follows the edges the emitter links: the link dependencies it takes of a module
  whose overlay edits add no library twice are the shared and static libraries that the module has
  after the policy is applied, in the same order, then the whole-static ones unless they are
  absorbed.\<close>

theorem closure_edges_are_policy_edges:
  assumes "distinct (p_add_shared_libs (policy_for ov (m_name m)))"
    and "distinct (p_add_static_libs (policy_for ov (m_name m)))"
  shows "let m' = apply_module_policy m (policy_for ov (m_name m)) (ov_global ov);
             absorb = p_absorb_whole_static (policy_for ov (m_name m))
    in effective_link_deps m ov
      = (m_shared_libs m' @ m_static_libs m' @ (if absorb then [] else m_whole_static_libs m'),
         if absorb then m_whole_static_libs m' else [])"
  using assms
  by (simp add: Let_def effective_link_deps_def apply_module_policy_def remove_each_eq extend_new_distinct)

theorem closure_edges_are_policy_edges_witness:
  "effective_link_deps ((new_module ''m'' ''cc_library'' [] ''R'')\<lparr>m_shared_libs := [''liba'', ''libdl'']\<rparr>)
     (sample_overlay\<lparr>ov_modules := [(''m'', new_module_policy\<lparr>p_remove_shared_libs := [''libdl''],
        p_add_shared_libs := [''liba'', ''libz'']\<rparr>)]\<rparr>)
   = ([''liba'', ''libz''], [])"
  using closure_edges_are_policy_edges [of "sample_overlay\<lparr>ov_modules := [(''m'', new_module_policy\<lparr>p_remove_shared_libs := [''libdl''],
        p_add_shared_libs := [''liba'', ''libz'']\<rparr>)]\<rparr>"
      "(new_module ''m'' ''cc_library'' [] ''R'')\<lparr>m_shared_libs := [''liba'', ''libdl'']\<rparr>"]
  by (simp add: policy_for_def new_module_def new_module_policy_def Let_def apply_module_policy_def
      remove_each_eq extend_new_distinct)

end
