(* ===== verification/BpEmitter.thy ===== *)
theory BpEmitter
  imports BpClosure "HOL-Library.List_Lexorder" "HOL-Library.Char_ord"
begin

section \<open>The CMake emitter\<close>

text \<open>
  \<open>tools/bp2cmake/bp2cmake/emitter.py\<close>. The emitter's state is its cache of exported include
  directories, threaded through the functions that use it; everything else it holds is fixed and
  is the record \<open>emitter\<close>. Outside the program are the file system's answer to a glob pattern,
  \<open>em_glob\<close>, and the working directory. \<open>em_limit\<close> bounds the depth of recursive calls as the
  interpreter does, where the depth depends on the files.
\<close>

record emitter =
  em_ev :: evaluator
  em_limit :: nat
  em_ov :: overlay
  em_root_paths :: "(string \<times> string) list"
  em_cwd :: string
  em_glob :: "string \<Rightarrow> string list"

type_synonym include_cache = "(string \<times> string list) list"

definition em_resolve :: "emitter \<Rightarrow> string \<Rightarrow> exn + string module" where
  "em_resolve em name = resolve_typed (em_limit em) (em_ev em) name"

definition em_policy :: "emitter \<Rightarrow> string \<Rightarrow> module_policy" where
  "em_policy em name = policy_for (em_ov em) name"

definition em_global :: "emitter \<Rightarrow> global_policy" where
  "em_global em = ov_global (em_ov em)"

subsection \<open>Text\<close>

definition dquote :: string where
  "dquote = [CHR 0x22]"

text \<open>\<open>${name}\<close>, \<open>"\n".join(lines)\<close>.\<close>

definition var_ref :: "string \<Rightarrow> string" where
  "var_ref name = ''${'' @ name @ ''}''"

definition join_lines :: "string list \<Rightarrow> string" where
  "join_lines ls = join_str [newline] ls"

definition src_var :: string where "src_var = ''${MDVM_NATIVE_SRC_ROOT_DIR}''"
definition compat_var :: string where "compat_var = ''${MDVM_COMPAT_INCLUDE_DIR}''"
definition gensrc_var :: string where "gensrc_var = ''${MDVM_GENSRC_DIR}''"
definition bp2cmake_var :: string where "bp2cmake_var = ''${MDVM_BP2CMAKE}''"

text \<open>\<open>_dedupe\<close>\<close>

fun dedupe_loop :: "'a list \<Rightarrow> 'a list \<Rightarrow> 'a list" where
  "dedupe_loop old [] = []"
| "dedupe_loop old (it # items) =
     (if it \<notin> set old then it # dedupe_loop (it # old) items else dedupe_loop old items)"

definition dedupe :: "'a list \<Rightarrow> 'a list" where
  "dedupe items = dedupe_loop [] items"

text \<open>\<open>_quote_define\<close> and \<open>_std_flag\<close>\<close>

definition quote_define :: "string \<Rightarrow> string" where
  "quote_define d =
     (if \<exists>c \<in> set d. c = CHR ''('' \<or> c = CHR '')'' \<or> c = CHR '' '' \<or> c = CHR 0x09
      then dquote @ concat (map (\<lambda>c. if c = CHR 0x22 then [CHR 0x5C, CHR 0x22] else [c]) d) @ dquote
      else d)"

definition std_flag :: "string \<Rightarrow> bool \<Rightarrow> string" where
  "std_flag v cpp =
     (if v = ''experimental'' then (if cpp then ''gnu++2a'' else ''gnu11'') else v)"

subsection \<open>Helpers\<close>

text \<open>\<open>_expand_globs\<close>\<close>

definition expand_globs :: "emitter \<Rightarrow> string list \<Rightarrow> string \<Rightarrow> string \<Rightarrow> exn + string list" where
  "expand_globs em srcs bp_dir root_var =
     (let root = (case map_of (em_root_paths em) root_var of Some r \<Rightarrow> r | None \<Rightarrow> []) in
      rbind (map_r (\<lambda>s.
          if CHR ''*'' \<notin> set s then Inr [s]
          else if root = [] then Inr [s]
          else let base = (if bp_dir \<noteq> [] then path_join root bp_dir else root);
                   matches = sort (em_glob em (path_join base s))
               in map_r (\<lambda>mpath. rbind (relpath (em_cwd em) mpath base) (\<lambda>rel.
                    Inr (portable_relpath rel))) matches) srcs)
        (\<lambda>outs. Inr (concat outs)))"

text \<open>\<open>_kind\<close>\<close>

definition kind :: "emitter \<Rightarrow> 'a module \<Rightarrow> string" where
  "kind em m =
     (let pol = em_policy em (m_name m); t = m_type m in
      case p_kind pol of
        Some (c # k) \<Rightarrow> c # k
      | _ \<Rightarrow>
          if t \<in> {''cc_binary'', ''cc_binary_host'', ''art_cc_binary''} then ''executable''
          else if t \<in> {''cc_library_static'', ''art_cc_library_static''} then ''static''
          else if t = ''cc_library_shared'' then ''shared''
          else ''shared'')"

text \<open>\<open>_join\<close>\<close>

definition join_src :: "string \<Rightarrow> string \<Rightarrow> string \<Rightarrow> string" where
  "join_src bp_dir rel root_var =
     (let d = portable_relpath bp_dir; r = portable_relpath rel;
          p = (if d \<noteq> [] then normpath (path_join d r) else r)
      in var_ref root_var @ ''/'' @ p)"

text \<open>
  \<open>_exported_includes\<close>. The state is the set \<open>_seen\<close> that one outermost call shares with its
  recursive calls, and the cache.
\<close>

fun exported_includes ::
  "nat \<Rightarrow> (string \<Rightarrow> exn + string module) \<Rightarrow> string \<Rightarrow> string list \<times> include_cache
   \<Rightarrow> exn + (string list \<times> (string list \<times> include_cache))" where
  "exported_includes 0 rs name st = Inl RecursionError"
| "exported_includes (Suc limit) rs name st =
     (case map_of (snd st) name of
        Some dirs \<Rightarrow> Inr (dirs, st)
      | None \<Rightarrow>
          if name \<in> set (fst st) then Inr ([], st)
          else let st1 = (name # fst st, snd st) in
            case rs name of
              Inl e \<Rightarrow> if is_eval_error e then Inr ([], st1) else Inl e
            | Inr dep \<Rightarrow>
                rbind (fold_r (\<lambda>hl acc. rbind (exported_includes limit rs hl (snd acc))
                    (\<lambda>res. Inr (fst acc @ fst res, snd res)))
                  (m_header_libs dep)
                  (map (\<lambda>d. join_src (m_bp_dir dep) d (m_root_var dep)) (m_export_include_dirs dep), st1))
                (\<lambda>acc. let dirs = dedupe (fst acc) in
                  Inr (dirs, (fst (snd acc), AList.update name dirs (snd (snd acc))))))"

text \<open>
  \<open>_absorbed_modules\<close>: the loop over \<open>stack\<close>. It ends because each pop shortens the stack or
  visits one more declared module.
\<close>

definition unvisited :: "evaluator \<Rightarrow> string list \<Rightarrow> nat" where
  "unvisited ev old = card {n. KStr n \<in> fst ` set (ev_decls ev) \<and> n \<notin> set old}"

lemma finite_declared: "finite {n. KStr n \<in> fst ` set (ev_decls ev) \<and> n \<notin> set old}"
proof -
  have "{n. KStr n \<in> fst ` set (ev_decls ev)} = KStr -` (fst ` set (ev_decls ev))" by auto
  moreover have "finite (KStr -` (fst ` set (ev_decls ev)))"
    by (rule finite_vimageI) (simp_all add: inj_on_def)
  ultimately show ?thesis by (auto intro: rev_finite_subset)
qed

lemma unvisited_mono: "unvisited ev (x # old) \<le> unvisited ev old"
  unfolding unvisited_def by (rule card_mono [OF finite_declared]) auto

lemma unvisited_less:
  "KStr x \<in> fst ` set (ev_decls ev) \<Longrightarrow> x \<notin> set old \<Longrightarrow> unvisited ev (x # old) < unvisited ev old"
  unfolding unvisited_def by (rule psubset_card_mono [OF finite_declared]) auto

function absorbed_loop ::
  "nat \<Rightarrow> evaluator \<Rightarrow> string list \<Rightarrow> string list \<Rightarrow> exn + string module list" where
  "absorbed_loop limit ev old [] = Inr []"
| "absorbed_loop limit ev old (name # stack) =
     (if name \<in> set old then absorbed_loop limit ev old stack
      else case resolve_typed limit ev name of
        Inl e \<Rightarrow> if is_eval_error e then absorbed_loop limit ev (name # old) stack else Inl e
      | Inr dep \<Rightarrow>
          rbind (absorbed_loop limit ev (name # old) (stack @ m_whole_static_libs dep))
            (\<lambda>out. Inr (dep # out)))"
  by pat_completeness auto
termination absorbed_loop
proof (relation "measures [\<lambda>(l, ev, old, st). unvisited ev old, \<lambda>(l, ev, old, st). length st]", goal_cases)
  case (3 limit ev old name stack e)
  then show ?case using unvisited_mono [of ev name old] by auto
next
  case (4 limit ev old name stack dep)
  then show ?case using unvisited_less resolve_typed_declared by auto
qed auto

definition absorbed_modules :: "emitter \<Rightarrow> string module \<Rightarrow> exn + string module list" where
  "absorbed_modules em m = absorbed_loop (em_limit em) (em_ev em) [] (m_whole_static_libs m)"

text \<open>
  \<open>_module_files\<close>: \<open>add_source\<close> with its set \<open>active_refs\<close> expands a reference to a source
  container; \<open>collect_files\<close> is the last loop.
\<close>

lemma container_declared:
  "resolve_source_container limit ev name = Inr (Some c) \<Longrightarrow> KStr name \<in> fst ` set (ev_decls ev)"
  by (auto simp: resolve_source_container_def split: option.splits dest!: map_of_SomeD) force

function add_source ::
  "nat \<Rightarrow> evaluator \<Rightarrow> string list \<Rightarrow> string \<Rightarrow> string \<Rightarrow> string \<Rightarrow> exn + (string \<times> string \<times> string) list" where
  "add_source limit ev active_refs bp_dir source root_var =
     (if \<not> starts_with '':'' source then Inr [(bp_dir, source, root_var)]
      else let name = drop 1 source in
        if name \<in> set active_refs then Inr []
        else case resolve_source_container limit ev name of
          Inl e \<Rightarrow> Inl e
        | Inr None \<Rightarrow> Inr []
        | Inr (Some container) \<Rightarrow>
            rbind (map_r (\<lambda>child. add_source limit ev (name # active_refs)
                (fst (snd container)) child (snd (snd container))) (fst container))
              (\<lambda>outs. Inr (concat outs)))"
  by pat_completeness auto
termination add_source
proof (relation "measure (\<lambda>(l, ev, active, d, s, rv). unvisited ev active)", goal_cases)
  case (2 limit ev active_refs bp_dir source root_var name x2 container child)
  then show ?case using unvisited_less container_declared by auto
qed simp

declare add_source.simps [simp del]

fun collect_files ::
  "string list \<Rightarrow> (string \<times> string) list \<Rightarrow> (string \<times> string \<times> string) list \<Rightarrow> string list" where
  "collect_files excluded old [] = []"
| "collect_files excluded old ((bp_dir, s, rv) # files) =
     (if s \<in> set excluded then collect_files excluded old files
      else let key = (rv, path_join bp_dir s) in
        if key \<in> set old then collect_files excluded old files
        else join_src bp_dir s rv # collect_files excluded (key # old) files)"

definition raw_files :: "emitter \<Rightarrow> string module \<Rightarrow> exn + (string \<times> string \<times> string) list" where
  "raw_files em m =
     rbind (map_r (\<lambda>s.
         if starts_with '':'' s
         then add_source (em_limit em) (em_ev em) [] (m_bp_dir m) s (m_root_var m)
         else Inr [(m_bp_dir m, s, m_root_var m)]) (m_srcs m)) (\<lambda>raws.
     rbind (map_r (\<lambda>(bp_dir, s, rv).
         if CHR ''*'' \<in> set s
         then rbind (expand_globs em [s] bp_dir rv) (\<lambda>es. Inr (map (\<lambda>e. (bp_dir, e, rv)) es))
         else Inr [(bp_dir, s, rv)]) (concat raws)) (\<lambda>expanded.
       Inr (concat expanded)))"

definition module_files :: "emitter \<Rightarrow> string module \<Rightarrow> exn + string list" where
  "module_files em m =
     rbind (raw_files em m) (\<lambda>expanded. Inr (collect_files (m_exclude_srcs m) [] expanded))"

text \<open>\<open>_sources\<close>\<close>

definition banned :: "string list \<Rightarrow> string \<Rightarrow> bool" where
  "banned ban s = (basename s \<in> set ban \<or> (\<exists>b \<in> set ban. ends_with (''/'' @ b) s \<or> ends_with b s))"

definition sources :: "emitter \<Rightarrow> string module \<Rightarrow> exn + string list" where
  "sources em m =
     (let pol = em_policy em (m_name m) in
      rbind (module_files em m) (\<lambda>own.
      rbind (if p_absorb_whole_static pol then
               rbind (absorbed_modules em m) (\<lambda>deps.
               rbind (map_r (\<lambda>dep. module_files em
                   (apply_module_policy dep (em_policy em (m_name dep)) (em_global em))) deps)
                 (\<lambda>outs. Inr (concat outs)))
             else Inr []) (\<lambda>inlined.
      let srcs = own @ inlined;
          srcs = (if p_remove_srcs pol \<noteq> [] then filter (\<lambda>s. \<not> banned (p_remove_srcs pol) s) srcs else srcs);
          srcs = srcs @ map (\<lambda>s. join_src (m_bp_dir m) s (m_root_var m)) (p_add_srcs pol)
      in Inr (dedupe srcs))))"

text \<open>\<open>_absorbed_source_props\<close>: \<open>source_props_block\<close> is one iteration, at most one block.\<close>

definition indent8 :: string where
  "indent8 = replicate 8 (CHR '' '')"

definition source_props_block :: "emitter \<Rightarrow> string module \<Rightarrow> string list" where
  "source_props_block em dep =
     (let opts = filter (\<lambda>c. c \<notin> set (g_drop_cflags (em_global em))) (m_cflags dep);
          dep2 = apply_module_policy dep (em_policy em (m_name dep)) (em_global em);
          files = map (\<lambda>s. join_src (m_bp_dir dep2) s (m_root_var dep2))
            (filter (\<lambda>s. \<not> starts_with '':'' s) (effective_srcs dep2))
      in if opts = [] then []
         else if files = [] then []
         else [join_lines ([''set_source_files_properties(''] @ map (\<lambda>f. indent8 @ f) files @
                [indent8 @ ''PROPERTIES COMPILE_OPTIONS '' @ dquote @ join_str '';'' opts @ dquote @ '')''])])"

definition absorbed_source_props :: "emitter \<Rightarrow> string module \<Rightarrow> exn + string list" where
  "absorbed_source_props em m =
     (if \<not> p_absorb_whole_static (em_policy em (m_name m)) then Inr []
      else rbind (absorbed_modules em m) (\<lambda>deps.
        Inr (concat (map (source_props_block em) deps))))"

text \<open>\<open>_include_dirs\<close>; every outermost call of \<open>_exported_includes\<close> has a set \<open>_seen\<close> of its own.\<close>

definition includes_of ::
  "emitter \<Rightarrow> string list \<Rightarrow> include_cache \<Rightarrow> exn + (string list \<times> include_cache)" where
  "includes_of em names cache =
     fold_r (\<lambda>name acc. rbind (exported_includes (em_limit em) (em_resolve em) name ([], snd acc))
       (\<lambda>res. Inr (fst acc @ fst res, snd (snd res)))) names ([], cache)"

definition rooted_dir :: "string \<Rightarrow> string \<Rightarrow> string" where
  "rooted_dir root d = (if d = ''.'' \<or> d = [] then root else root @ ''/'' @ d)"

definition include_dirs ::
  "emitter \<Rightarrow> string module \<Rightarrow> include_cache \<Rightarrow> exn + (string list \<times> include_cache)" where
  "include_dirs em m cache =
     (let pol = em_policy em (m_name m);
          own = map (\<lambda>d. join_src (m_bp_dir m) d (m_root_var m)) (m_export_include_dirs m)
            @ map (\<lambda>d. join_src (m_bp_dir m) d (m_root_var m)) (m_local_include_dirs m)
            @ map (\<lambda>d. var_ref (m_root_var m) @ ''/'' @ d) (m_include_dirs m)
      in rbind (includes_of em (m_header_libs m) cache) (\<lambda>hdr.
         rbind (includes_of em (m_whole_static_libs m @ m_shared_libs m @ m_static_libs m) (snd hdr)) (\<lambda>dep.
           Inr (dedupe (own @ fst hdr @ fst dep
               @ map (\<lambda>d. src_var @ ''/'' @ d) (p_add_include_dirs pol)
               @ map (rooted_dir compat_var) (p_add_compat_include_dirs pol)
               @ map (rooted_dir gensrc_var) (p_add_gensrc_includes pol)), snd dep))))"

text \<open>\<open>_link_libs\<close>\<close>

definition link_libs :: "emitter \<Rightarrow> string module \<Rightarrow> exn + string list" where
  "link_libs em m =
     (let pol = em_policy em (m_name m) in
      rbind (if p_absorb_whole_static pol
             then rbind (absorbed_modules em m) (\<lambda>deps. Inr (map m_name deps @ m_whole_static_libs m))
             else Inr []) (\<lambda>skip.
        Inr (dedupe (map (target_name (em_ov em))
          (filter (\<lambda>lib. lib \<notin> set skip) (m_shared_libs m @ m_static_libs m))))))"

subsection \<open>Generated sources\<close>

text \<open>\<open>_emit_one_gensrcs\<close>: the paths and blocks it appends.\<close>

definition gensrcs_block ::
  "string \<Rightarrow> string \<Rightarrow> string \<Rightarrow> string \<Rightarrow> string \<Rightarrow> string \<Rightarrow> string \<Rightarrow> string" where
  "gensrcs_block gname src out_path tool_path reldir rel_in src_root = join_lines
     [''add_custom_command('',
      ''    OUTPUT '' @ out_path,
      ''    COMMAND ${Python3_EXECUTABLE} '' @ bp2cmake_var @ ''/bp2cmake/capture_output.py'',
      ''            --output '' @ out_path @ '' --'',
      ''            ${Python3_EXECUTABLE} '' @ tool_path @ '' '' @ reldir @ '' '' @ rel_in,
      ''    DEPENDS '' @ tool_path @ '' '' @ src_root @ ''/'' @ rel_in,
      ''            '' @ bp2cmake_var @ ''/bp2cmake/capture_output.py'',
      ''    WORKING_DIRECTORY '' @ src_root,
      ''    COMMENT '' @ dquote @ ''gensrcs '' @ gname @ '': '' @ src @ dquote,
      ''    VERBATIM)'']"

definition emit_one_gensrcs ::
  "evaluator \<Rightarrow> string \<Rightarrow> string list \<times> string list \<Rightarrow> exn + (string list \<times> string list)" where
  "emit_one_gensrcs ev gname acc =
     (case resolve_gensrcs ev gname of
        Inl e \<Rightarrow> if is_eval_error e then Inr acc else Inl e
      | Inr gs \<Rightarrow>
          rbind (as_str (gs_tool gs)) (\<lambda>tool.
          rbind (tool_script ev tool) (\<lambda>found.
          case found of
            None \<Rightarrow> Inr (fst acc, snd acc @
              [''# WARNING: gensrcs '' @ gname @ '': tool '' @ py_repr tool @ '' not resolved''])
          | Some (tool_dir, script, tool_root) \<Rightarrow>
              rbind (as_str script) (\<lambda>script.
              rbind (as_str (gs_output_extension gs)) (\<lambda>ext.
              rbind (typed_list (gs_srcs gs)) (\<lambda>srcs.
              let tool_path = join_src tool_dir script tool_root;
                  src_root = var_ref (gs_root_var gs);
                  d = gs_bp_dir gs;
                  rel_in = (\<lambda>src. if d \<noteq> [] then d @ ''/'' @ src else src);
                  out_path = (\<lambda>src. gensrc_var @ ''/'' @ rel_in src @ ''.'' @ ext)
              in Inr (fst acc @ map out_path srcs,
                   snd acc @ map (\<lambda>src. gensrcs_block gname src (out_path src) tool_path d (rel_in src) src_root)
                     srcs)))))))"

text \<open>
  \<open>_generated_sources\<close>. The set \<open>seen_gensrcs\<close> makes the two nested loops a walk over the first
  occurrences of the names.
\<close>

definition gensrcs_step ::
  "evaluator \<Rightarrow> string \<Rightarrow> string list \<times> string list \<times> string list \<Rightarrow> exn + (string list \<times> string list \<times> string list)" where
  "gensrcs_step ev gname st =
     (if gname \<in> set (fst st) then Inr st
      else rbind (emit_one_gensrcs ev gname (snd st)) (\<lambda>acc. Inr (gname # fst st, acc)))"

definition generated_sources :: "emitter \<Rightarrow> string module \<Rightarrow> exn + (string list \<times> string list)" where
  "generated_sources em m =
     rbind (if p_absorb_whole_static (em_policy em (m_name m)) then absorbed_modules em m else Inr []) (\<lambda>deps.
     rbind (fold_r (\<lambda>mo st. fold_r (gensrcs_step (em_ev em)) (m_generated_sources mo) st) (m # deps) ([], [], []))
       (\<lambda>st. Inr (snd st)))"

subsection \<open>Emission\<close>

definition is_funcmacro :: "string \<Rightarrow> bool" where
  "is_funcmacro d = (CHR ''('' \<in> set (takeWhile (\<lambda>c. c \<noteq> CHR ''='') d))"

definition in_art_tree :: "string \<Rightarrow> bool" where
  "in_art_tree dir = (dir = ''art'' \<or> starts_with ''art/'' dir)"

text \<open>What \<open>emit_module\<close> gathers before it writes.\<close>

record target_data =
  t_target :: string
  t_kind :: string
  t_srcs :: "string list"
  t_gen_blocks :: "string list"
  t_includes :: "string list"
  t_cflags :: "string list"
  t_cppflags :: "string list"
  t_conlyflags :: "string list"
  t_defines :: "string list"
  t_public_defines :: "string list"
  t_ldflags :: "string list"
  t_link :: "string list"
  t_props :: "string list"

text \<open>The first half of \<open>emit_module\<close>, on a module that already has its policy applied.\<close>

definition std_flags :: "string option \<Rightarrow> bool \<Rightarrow> string list \<Rightarrow> string list" where
  "std_flags std cpp flags =
     (case std of Some (c # s) \<Rightarrow> (''-std='' @ std_flag (c # s) cpp) # flags | _ \<Rightarrow> flags)"

definition gather :: "emitter \<Rightarrow> string module \<Rightarrow> include_cache \<Rightarrow> exn + (target_data \<times> include_cache)" where
  "gather em m cache =
     (let pol = em_policy em (m_name m); gp = em_global em in
      rbind (sources em m) (\<lambda>srcs.
      rbind (generated_sources em m) (\<lambda>gen.
      rbind (include_dirs em m cache) (\<lambda>inc.
      rbind (link_libs em m) (\<lambda>link.
      rbind (absorbed_source_props em m) (\<lambda>props.
      Inr (\<lparr>t_target = target_name (em_ov em) (m_name m), t_kind = kind em m,
           t_srcs = srcs @ fst gen @ map (\<lambda>p. gensrc_var @ ''/'' @ p) (p_add_gensrc_sources pol),
           t_gen_blocks = snd gen, t_includes = fst inc, t_cflags = m_cflags m,
           t_cppflags = std_flags (m_cpp_std m) True (m_cppflags m),
           t_conlyflags = std_flags (m_c_std m) False (m_conlyflags m),
           t_defines = (if g_art_defines gp \<noteq> [] \<and> in_art_tree (m_bp_dir m)
             then extend_new (g_art_defines gp) (p_add_defines pol) else p_add_defines pol),
           t_public_defines = p_add_public_defines pol, t_ldflags = m_ldflags m, t_link = link,
           t_props = props\<rparr>, snd inc)))))))"

text \<open>The second half: the lines of the file.\<close>

definition para :: "bool \<Rightarrow> string list \<Rightarrow> string list" where
  "para cond ls = (if cond then ls @ [[]] else [])"

definition declaration_lines :: "target_data \<Rightarrow> string list" where
  "declaration_lines t =
     [if t_kind t = ''executable'' then ''add_executable('' @ t_target t
      else ''add_library('' @ t_target t @ '' '' @ (if t_kind t = ''shared'' then ''SHARED'' else ''STATIC'')]
     @ map (\<lambda>s. indent8 @ s) (t_srcs t) @ ['')'', []]"

definition option_lines :: "target_data \<Rightarrow> string list" where
  "option_lines t =
     (if t_cflags t \<noteq> [] then [indent8 @ ''PRIVATE '' @ join_str '' '' (t_cflags t)] else [])
     @ (if t_cppflags t \<noteq> []
        then [indent8 @ ''PRIVATE $<$<COMPILE_LANGUAGE:CXX>:'' @ join_str '' '' (t_cppflags t) @ ''>''] else [])
     @ (if t_conlyflags t \<noteq> []
        then [indent8 @ ''PRIVATE $<$<COMPILE_LANGUAGE:C>:'' @ join_str '' '' (t_conlyflags t) @ ''>''] else [])"

definition define_lines :: "target_data \<Rightarrow> string list" where
  "define_lines t =
     (let fn_defines = filter is_funcmacro (t_defines t);
          defines = filter (\<lambda>d. \<not> is_funcmacro d) (t_defines t);
          fn_public = filter is_funcmacro (t_public_defines t);
          public_defines = filter (\<lambda>d. \<not> is_funcmacro d) (t_public_defines t)
      in para (defines \<noteq> [] \<or> public_defines \<noteq> [])
           ([''target_compile_definitions('' @ t_target t]
            @ (if public_defines \<noteq> [] then [indent8 @ ''PUBLIC '' @ join_str '' '' (map quote_define public_defines)] else [])
            @ (if defines \<noteq> [] then [indent8 @ ''PRIVATE '' @ join_str '' '' (map quote_define defines)] else [])
            @ ['')''])
         @ para (fn_defines \<noteq> [] \<or> fn_public \<noteq> [])
           ([''target_compile_options('' @ t_target t]
            @ map (\<lambda>d. indent8 @ ''PUBLIC '' @ dquote @ ''SHELL:-D'' @ d @ dquote) fn_public
            @ map (\<lambda>d. indent8 @ ''PRIVATE '' @ dquote @ ''SHELL:-D'' @ d @ dquote) fn_defines
            @ ['')'']))"

definition emitted_lines :: "string \<Rightarrow> string \<Rightarrow> target_data \<Rightarrow> string list" where
  "emitted_lines type name t =
     [''# Generated by bp2cmake from '' @ type @ '' '' @ dquote @ name @ dquote @ ''. Do not edit by hand.'',
      ''# Port-policy decisions live in //overlay/art_port_policy.py.'', []]
     @ para (t_gen_blocks t \<noteq> []) (t_gen_blocks t)
     @ declaration_lines t
     @ para (t_includes t \<noteq> []) ([''target_include_directories('' @ t_target t]
         @ map (\<lambda>d. indent8 @ ''PUBLIC '' @ d) (t_includes t) @ ['')''])
     @ para (option_lines t \<noteq> []) ([''target_compile_options('' @ t_target t] @ option_lines t @ ['')''])
     @ define_lines t
     @ para (t_ldflags t \<noteq> [] \<and> t_kind t \<noteq> ''static'')
         [''target_link_options('' @ t_target t @ '' PRIVATE '' @ join_str '' '' (t_ldflags t) @ '')'']
     @ para (t_link t \<noteq> []) [''target_link_libraries('' @ t_target t @ '' '' @ join_str '' '' (t_link t) @ '')'']
     @ concat (map (\<lambda>b. [b, []]) (t_props t))"

text \<open>
  \<open>emit_module\<close> applies the policy to its argument in place; its callers hand it a fresh module
  and drop it. The result pairs the text with the cache.
\<close>

definition emit_module :: "emitter \<Rightarrow> string module \<Rightarrow> include_cache \<Rightarrow> exn + (string \<times> include_cache)" where
  "emit_module em m0 cache =
     (let m = apply_module_policy m0 (em_policy em (m_name m0)) (em_global em) in
      rbind (gather em m cache) (\<lambda>res.
        Inr (rstrip whitespace (join_lines (emitted_lines (m_type m) (m_name m) (fst res))) @ [newline], snd res)))"

text \<open>\<open>module_manifest\<close>; strings are ordered by code points.\<close>

definition module_manifest :: "emitter \<Rightarrow> string module \<Rightarrow> include_cache \<Rightarrow> exn + (dict \<times> include_cache)" where
  "module_manifest em m0 cache =
     (let m = apply_module_policy m0 (em_policy em (m_name m0)) (em_global em);
          pol = em_policy em (m_name m0); strs = (\<lambda>xs. VList (map VStr (sort xs))) in
      rbind (sources em m) (\<lambda>srcs.
      rbind (generated_sources em m) (\<lambda>gen.
      rbind (include_dirs em m cache) (\<lambda>inc.
      rbind (link_libs em m) (\<lambda>link.
      Inr ([(''aosp_name'', VStr (m_name m)),
         (''cmake_target'', VStr (target_name (em_ov em) (m_name m))),
         (''module_type'', VStr (m_type m)),
         (''kind'', VStr (kind em m)),
         (''sources'', strs (dedupe (srcs @ fst gen @ map (\<lambda>p. gensrc_var @ ''/'' @ p) (p_add_gensrc_sources pol)))),
         (''include_dirs'', strs (fst inc)),
         (''link_dependencies'', strs link),
         (''enabled'', VBool (m_enabled m))], snd inc))))))"

end
