(* ===== verification/BpEmitProps.thy ===== *)
theory BpEmitProps
  imports BpEmitter
begin

section \<open>Correctness of the emitter's traversals\<close>

text \<open>
  The three traversals of \<open>emitter.py\<close> against what they compute: the absorbed modules are those
  reachable through \<open>whole_static_libs\<close>, a source reference expands to the sources of every
  container it reaches, and the cache of exported include directories does not change a result
  when the header libraries are acyclic.
\<close>

subsection \<open>Duplicates\<close>

lemma dedupe_loop_effective: "dedupe_loop old xs = effective_loop [] old xs"
  by (induction old xs rule: dedupe_loop.induct) auto

lemma set_dedupe_loop: "set (dedupe_loop old xs) = set xs - set old"
  by (induction old xs rule: dedupe_loop.induct) auto

lemma set_dedupe [simp]: "set (dedupe xs) = set xs"
  by (simp add: dedupe_def set_dedupe_loop)

lemma distinct_dedupe_loop: "distinct (dedupe_loop old xs)"
  by (induction old xs rule: dedupe_loop.induct) (auto simp: set_dedupe_loop)

lemma distinct_dedupe [simp]: "distinct (dedupe xs)"
  by (simp add: dedupe_def distinct_dedupe_loop)

lemma dedupe_loop_distinct: "distinct xs \<Longrightarrow> set xs \<inter> set old = {} \<Longrightarrow> dedupe_loop old xs = xs"
  by (induction old xs rule: dedupe_loop.induct) auto

lemma dedupe_distinct: "distinct xs \<Longrightarrow> dedupe xs = xs"
  by (simp add: dedupe_def dedupe_loop_distinct)

lemma dedupe_firsts: "dedupe xs = firsts xs"
  by (simp add: dedupe_def dedupe_loop_effective effective_loop_firsts)

subsection \<open>Absorbed modules\<close>

definition resolves :: "(string \<Rightarrow> exn + string module) \<Rightarrow> string \<Rightarrow> bool" where
  "resolves rs n = (\<exists>m. rs n = Inr m)"

definition only_eval_errors :: "(string \<Rightarrow> exn + string module) \<Rightarrow> bool" where
  "only_eval_errors rs = (\<forall>n e. rs n = Inl e \<longrightarrow> is_eval_error e)"

definition whole_edge :: "(string \<Rightarrow> exn + string module) \<Rightarrow> string \<Rightarrow> string \<Rightarrow> bool" where
  "whole_edge rs a b = (\<exists>m. rs a = Inr m \<and> b \<in> set (m_whole_static_libs m))"

definition absorbed_name :: "emitter \<Rightarrow> string module \<Rightarrow> string \<Rightarrow> bool" where
  "absorbed_name em m n = (resolves (em_resolve em) n
     \<and> (\<exists>r \<in> set (m_whole_static_libs m). (whole_edge (em_resolve em))\<^sup>*\<^sup>* r n))"

text \<open>What one run of the loop establishes, from the set \<open>old\<close> and the stack it starts with.\<close>

definition absorbs :: "(string \<Rightarrow> exn + string module) \<Rightarrow> string list \<Rightarrow> string list \<Rightarrow> string module list \<Rightarrow> bool" where
  "absorbs rs old st out =
     (distinct (map m_name out) \<and> set (map m_name out) \<inter> set old = {}
      \<and> (\<forall>d \<in> set out. rs (m_name d) = Inr d \<and> (\<exists>r \<in> set st. (whole_edge rs)\<^sup>*\<^sup>* r (m_name d)))
      \<and> (\<forall>r \<in> set st. r \<in> set old \<or> r \<in> set (map m_name out) \<or> \<not> resolves rs r)
      \<and> (\<forall>d \<in> set out. \<forall>b \<in> set (m_whole_static_libs d).
           b \<in> set old \<or> b \<in> set (map m_name out) \<or> \<not> resolves rs b))"

lemma absorbs_visit:
  assumes "rs name = Inr dep" "m_name dep = name" "name \<notin> set old"
    and "absorbs rs (name # old) (stack @ m_whole_static_libs dep) out"
  shows "absorbs rs old (name # stack) (dep # out)"
proof -
  have "(whole_edge rs)\<^sup>*\<^sup>* name r" if "r \<in> set (m_whole_static_libs dep)" for r
    using that assms(1) by (auto simp: whole_edge_def)
  then have "\<exists>r \<in> set (name # stack). (whole_edge rs)\<^sup>*\<^sup>* r x"
    if "\<exists>r \<in> set (stack @ m_whole_static_libs dep). (whole_edge rs)\<^sup>*\<^sup>* r x" for x
    using that by (auto intro: rtranclp_trans)
  with assms show ?thesis unfolding absorbs_def by auto
qed

lemma absorbs_skip:
  assumes "\<not> resolves rs name" "absorbs rs (name # old) stack out"
  shows "absorbs rs old (name # stack) out"
  using assms unfolding absorbs_def by (auto 4 3)

lemma absorbed_loop_absorbs:
  "absorbed_loop limit ev old st = Inr out \<Longrightarrow> absorbs (resolve_typed limit ev) old st out"
proof (induction limit ev old st arbitrary: out rule: absorbed_loop.induct)
  case (1 limit ev old)
  then show ?case by (simp add: absorbs_def)
next
  case (2 limit ev old name stack)
  show ?case
  proof (cases "name \<in> set old")
    case True
    then have "absorbs (resolve_typed limit ev) old stack out" using 2 by simp
    with True show ?thesis by (auto simp: absorbs_def)
  next
    case False
    show ?thesis
    proof (cases "resolve_typed limit ev name")
      case (Inl e)
      with 2 False have "absorbs (resolve_typed limit ev) (name # old) stack out"
        by (auto split: if_splits)
      then show ?thesis by (rule absorbs_skip [rotated]) (simp add: resolves_def Inl)
    next
      case (Inr dep)
      with 2 False obtain out' where out: "out = dep # out'"
        and "absorbs (resolve_typed limit ev) (name # old) (stack @ m_whole_static_libs dep) out'"
        by (auto simp: result_simps)
      then show ?thesis using absorbs_visit [where rs = "resolve_typed limit ev"] Inr resolve_typed_name [OF Inr] False by simp
    qed
  qed
qed

lemma absorbs_reach:
  assumes "absorbs rs [] st out" "r \<in> set st" "(whole_edge rs)\<^sup>*\<^sup>* r n" "resolves rs n"
  shows "n \<in> set (map m_name out)"
proof -
  have "resolves rs n \<longrightarrow> n \<in> set (map m_name out)" using assms(3)
  proof (induction rule: rtranclp_induct)
    case base
    then show ?case using assms(1,2) by (auto simp: absorbs_def)
  next
    case (step y z)
    then obtain m where m: "rs y = Inr m" "z \<in> set (m_whole_static_libs m)" by (auto simp: whole_edge_def)
    then obtain d where d: "d \<in> set out" "m_name d = y" using step.IH by (auto simp: resolves_def)
    then have "d = m" using assms(1) m by (auto simp: absorbs_def)
    with assms(1) m(2) d(1) show ?case by (fastforce simp: absorbs_def)
  qed
  with assms(4) show ?thesis by simp
qed

lemma absorbed_modules_spec:
  assumes "absorbed_modules em m = Inr deps"
  shows "distinct (map m_name deps) \<and> (\<forall>d \<in> set deps. em_resolve em (m_name d) = Inr d)
    \<and> set (map m_name deps) = {n. absorbed_name em m n}"
proof -
  have a: "absorbs (em_resolve em) [] (m_whole_static_libs m) deps"
    using absorbed_loop_absorbs assms by (simp add: absorbed_modules_def em_resolve_def [abs_def])
  then have 1: "distinct (map m_name deps)" "\<forall>d \<in> set deps. em_resolve em (m_name d) = Inr d"
    by (simp_all add: absorbs_def)
  have "absorbed_name em m n" if "n \<in> set (map m_name deps)" for n
    using that a by (auto simp: absorbs_def absorbed_name_def resolves_def)
  moreover have "n \<in> set (map m_name deps)" if "absorbed_name em m n" for n
    using that absorbs_reach [OF a] by (auto simp: absorbed_name_def)
  ultimately show ?thesis using 1 by blast
qed

text \<open>The loop never runs into the recursion limit of its own: it returns whenever \<open>resolve\<close> does.\<close>

lemma absorbed_loop_total:
  "only_eval_errors (resolve_typed limit ev) \<Longrightarrow> \<exists>out. absorbed_loop limit ev old st = Inr out"
proof (induction limit ev old st rule: absorbed_loop.induct)
  case (2 limit ev old name stack)
  then show ?case
    by (cases "resolve_typed limit ev name") (auto simp: result_simps only_eval_errors_def)
qed simp

lemma link_libs_spec:
  assumes "link_libs em m = Inr libs"
  shows "libs = firsts (map (target_name (em_ov em)) (filter (\<lambda>lib.
      \<not> (p_absorb_whole_static (em_policy em (m_name m))
         \<and> (lib \<in> set (m_whole_static_libs m) \<or> absorbed_name em m lib)))
    (m_shared_libs m @ m_static_libs m)))"
proof (cases "p_absorb_whole_static (em_policy em (m_name m))")
  case True
  with assms obtain deps where deps: "absorbed_modules em m = Inr deps"
    and libs: "libs = firsts (map (target_name (em_ov em)) (filter (\<lambda>lib.
      lib \<notin> set (map m_name deps @ m_whole_static_libs m)) (m_shared_libs m @ m_static_libs m)))"
    by (auto simp: link_libs_def Let_def result_simps dedupe_firsts)
  have "set (map m_name deps) = {n. absorbed_name em m n}" using absorbed_modules_spec [OF deps] by simp
  then have "lib \<in> set (map m_name deps @ m_whole_static_libs m)
      \<longleftrightarrow> lib \<in> set (m_whole_static_libs m) \<or> absorbed_name em m lib" for lib by auto
  with libs True show ?thesis by (metis (no_types, lifting) filter_cong)
next
  case False
  with assms show ?thesis by (simp add: link_libs_def Let_def dedupe_firsts)
qed

subsection \<open>Source references\<close>

text \<open>The containers that a reference names, and the edges between them.\<close>

definition container :: "emitter \<Rightarrow> string \<Rightarrow> (string list \<times> string \<times> string) option" where
  "container em n =
     (case resolve_source_container (em_limit em) (em_ev em) n of Inr c \<Rightarrow> c | Inl e \<Rightarrow> None)"

definition ref_edge :: "emitter \<Rightarrow> string \<Rightarrow> string \<Rightarrow> bool" where
  "ref_edge em a b = (\<exists>ss loc. container em a = Some (ss, loc) \<and> CHR '':'' # b \<in> set ss)"

definition ref_edge_avoiding :: "emitter \<Rightarrow> string list \<Rightarrow> string \<Rightarrow> string \<Rightarrow> bool" where
  "ref_edge_avoiding em active a b = (ref_edge em a b \<and> a \<notin> set active \<and> b \<notin> set active)"

text \<open>The plain sources of a container, with the place they are relative to.\<close>

definition plain_files :: "emitter \<Rightarrow> string \<Rightarrow> (string \<times> string \<times> string) set" where
  "plain_files em n = {(bp_dir, s, root). \<exists>ss. container em n = Some (ss, bp_dir, root)
     \<and> s \<in> set ss \<and> \<not> starts_with '':'' s}"

lemma avoiding_first_step:
  assumes "(ref_edge_avoiding em active)\<^sup>*\<^sup>* n c" "n \<notin> set active"
  shows "c = n \<or> (\<exists>b. ref_edge em n b \<and> b \<notin> set (n # active)
    \<and> (ref_edge_avoiding em (n # active))\<^sup>*\<^sup>* b c)"
  using assms(1)
proof (induction rule: rtranclp_induct)
  case (step y z)
  show ?case
  proof (cases "z = n \<or> y = n")
    case True
    with step.hyps(2) show ?thesis by (auto simp: ref_edge_avoiding_def)
  next
    case False
    with step obtain b where b: "ref_edge em n b" "b \<notin> set (n # active)"
      "(ref_edge_avoiding em (n # active))\<^sup>*\<^sup>* b y" by auto
    moreover have "ref_edge_avoiding em (n # active) y z"
      using step.hyps(2) False by (auto simp: ref_edge_avoiding_def)
    ultimately show ?thesis by (metis rtranclp.rtrancl_into_rtrancl)
  qed
qed simp

lemma avoiding_weaken:
  "(ref_edge_avoiding em (n # active))\<^sup>*\<^sup>* b c \<Longrightarrow> (ref_edge_avoiding em active)\<^sup>*\<^sup>* b c"
  by (rule rtranclp_mono [THEN predicate2D, rotated]) (auto simp: ref_edge_avoiding_def)

lemma avoiding_decompose:
  assumes "n \<notin> set active"
  shows "(ref_edge_avoiding em active)\<^sup>*\<^sup>* n c \<longleftrightarrow> c = n \<or> (\<exists>b. ref_edge em n b \<and> b \<notin> set (n # active)
    \<and> (ref_edge_avoiding em (n # active))\<^sup>*\<^sup>* b c)"
proof
  assume "c = n \<or> (\<exists>b. ref_edge em n b \<and> b \<notin> set (n # active)
    \<and> (ref_edge_avoiding em (n # active))\<^sup>*\<^sup>* b c)"
  then show "(ref_edge_avoiding em active)\<^sup>*\<^sup>* n c"
    using assms avoiding_weaken
    by (metis ref_edge_avoiding_def converse_rtranclp_into_rtranclp list.set_intros(2) rtranclp.rtrancl_refl)
qed (rule avoiding_first_step [OF _ assms])

lemma map_r_concat_set:
  assumes "map_r f xs = Inr outs"
  shows "set (concat outs) = {y. \<exists>x \<in> set xs. \<exists>out. f x = Inr out \<and> y \<in> set out}"
proof -
  have "list_all2 (\<lambda>x y. f x = Inr y) xs outs" using assms by (simp add: map_r_Inr_iff)
  then show ?thesis by (induction rule: list_all2_induct) auto
qed

lemma add_source_plain:
  "\<not> starts_with '':'' s \<Longrightarrow> add_source limit ev active d s rv = Inr [(d, s, rv)]"
  by (subst add_source.simps) simp

lemma starts_with_colon: "starts_with '':'' s \<longleftrightarrow> (\<exists>n. s = CHR '':'' # n)"
  by (auto simp: prefix_def)

lemma map_r_defined: "map_r f xs = Inr outs \<Longrightarrow> x \<in> set xs \<Longrightarrow> \<exists>out. f x = Inr out"
  by (induction xs arbitrary: outs) (auto simp: result_simps)

lemma split_references:
  "(\<Union> x \<in> set ss. if \<not> starts_with '':'' x then {P x} else if drop 1 x \<in> A then {} else D (drop 1 x))
   = {P x | x. x \<in> set ss \<and> \<not> starts_with '':'' x} \<union> (\<Union> b \<in> {b. CHR '':'' # b \<in> set ss \<and> b \<notin> A}. D b)"
proof -
  have "(if \<not> starts_with '':'' x then {P x} else if drop 1 x \<in> A then {} else D (drop 1 x))
    = {P x | y. y = x \<and> \<not> starts_with '':'' x} \<union> (\<Union> b \<in> {b. CHR '':'' # b = x \<and> b \<notin> A}. D b)" for x
    by (auto simp: starts_with_colon)
  then show ?thesis by auto
qed

lemma add_source_ref:
  "add_source (em_limit em) (em_ev em) active d (CHR '':'' # n) rv = Inr files \<Longrightarrow> n \<notin> set active \<Longrightarrow>
   set files = \<Union> (plain_files em ` {c. (ref_edge_avoiding em active)\<^sup>*\<^sup>* n c})"
proof (induction "unvisited (em_ev em) active" arbitrary: active d n rv files rule: less_induct)
  case less
  let ?add = "add_source (em_limit em) (em_ev em)"
  from less.prems obtain oc where oc: "resolve_source_container (em_limit em) (em_ev em) n = Inr oc"
    by (subst (asm) add_source.simps) (auto simp: starts_with_colon Let_def split: sum.splits)
  show ?case
  proof (cases oc)
    case None
    then have "files = []" using less.prems oc
      by (subst (asm) add_source.simps) (simp add: starts_with_colon Let_def)
    moreover have "container em n = None" using None oc by (simp add: container_def)
    ultimately show ?thesis
      by (auto simp: avoiding_decompose [OF less.prems(2)] plain_files_def ref_edge_def)
  next
    case (Some c)
    obtain ss dir root where c: "c = (ss, dir, root)" by (cases c) auto
    have cont: "container em n = Some (ss, dir, root)" using Some oc c by (simp add: container_def)
    from less.prems Some oc c obtain outs where
      outs: "map_r (\<lambda>child. ?add (n # active) dir child root) ss = Inr outs" and files: "files = concat outs"
      by (subst (asm) add_source.simps) (auto simp: starts_with_colon Let_def result_simps)
    have child: "set out = \<Union> (plain_files em ` {c. (ref_edge_avoiding em (n # active))\<^sup>*\<^sup>* b c})"
      if "?add (n # active) dir (CHR '':'' # b) root = Inr out" "b \<notin> set (n # active)" for b out
      using unvisited_less [OF container_declared less.prems(2)] oc Some that by (intro less.hyps) auto
    have skip: "out = []" if "?add (n # active) dir (CHR '':'' # b) root = Inr out" "b \<in> set (n # active)" for b out
      using that by (subst (asm) add_source.simps) (auto simp: starts_with_colon Let_def)
    have reach: "{c. (ref_edge_avoiding em active)\<^sup>*\<^sup>* n c} = insert n (\<Union> b \<in> {b. CHR '':'' # b \<in> set ss
        \<and> b \<notin> set (n # active)}. {c. (ref_edge_avoiding em (n # active))\<^sup>*\<^sup>* b c})"
      using avoiding_decompose [OF less.prems(2)] cont by (auto simp: ref_edge_def)
    have "set files = (\<Union> x \<in> set ss. {y. \<exists>out. ?add (n # active) dir x root = Inr out \<and> y \<in> set out})"
      unfolding files map_r_concat_set [OF outs] by blast
    also have "\<dots> = (\<Union> x \<in> set ss. if \<not> starts_with '':'' x then {(dir, x, root)}
        else if drop 1 x \<in> set (n # active) then {}
        else \<Union> (plain_files em ` {c. (ref_edge_avoiding em (n # active))\<^sup>*\<^sup>* (drop 1 x) c}))"
    proof (rule SUP_cong [OF refl])
      fix x assume x: "x \<in> set ss"
      then obtain out where out: "?add (n # active) dir x root = Inr out" using map_r_defined [OF outs] by blast
      show "{y. \<exists>out. ?add (n # active) dir x root = Inr out \<and> y \<in> set out} = (if \<not> starts_with '':'' x then {(dir, x, root)}
        else if drop 1 x \<in> set (n # active) then {}
        else \<Union> (plain_files em ` {c. (ref_edge_avoiding em (n # active))\<^sup>*\<^sup>* (drop 1 x) c}))"
      proof (cases "starts_with '':'' x")
        case True
        then obtain b where "x = CHR '':'' # b" by (auto simp: starts_with_colon)
        then show ?thesis using out child [of b out] skip [of b out] by (auto simp: starts_with_colon)
      next
        case False
        then show ?thesis by (simp add: add_source_plain)
      qed
    qed
    also have "\<dots> = \<Union> (plain_files em ` {c. (ref_edge_avoiding em active)\<^sup>*\<^sup>* n c})"
      unfolding reach split_references [where P = "\<lambda>x. (dir, x, root)"
          and D = "\<lambda>b. \<Union> (plain_files em ` {c. (ref_edge_avoiding em (n # active))\<^sup>*\<^sup>* b c})"]
      using cont by (auto simp: plain_files_def)
    finally show ?thesis .
  qed
qed

lemma add_source_reach:
  assumes "add_source (em_limit em) (em_ev em) [] d (CHR '':'' # n) rv = Inr files"
  shows "set files = \<Union> (plain_files em ` {c. (ref_edge em)\<^sup>*\<^sup>* n c})"
proof -
  have "ref_edge_avoiding em [] = ref_edge em" by (auto simp: ref_edge_avoiding_def fun_eq_iff)
  with add_source_ref [OF assms] show ?thesis by simp
qed

subsection \<open>Exported include directories\<close>

text \<open>The directories a module exports, by plain recursion through its header libraries.\<close>

definition own_exports :: "string module \<Rightarrow> string list" where
  "own_exports m = map (\<lambda>d. join_src (m_bp_dir m) d (m_root_var m)) (m_export_include_dirs m)"

fun plain_exports :: "nat \<Rightarrow> (string \<Rightarrow> exn + string module) \<Rightarrow> string \<Rightarrow> string list" where
  "plain_exports 0 rs name = []"
| "plain_exports (Suc depth) rs name =
     (case rs name of
        Inl e \<Rightarrow> []
      | Inr dep \<Rightarrow> dedupe (own_exports dep @ concat (map (plain_exports depth rs) (m_header_libs dep))))"

definition header_rank :: "(string \<Rightarrow> exn + string module) \<Rightarrow> (string \<Rightarrow> nat) \<Rightarrow> bool" where
  "header_rank rs rank = (\<forall>a m. rs a = Inr m \<longrightarrow> (\<forall>b \<in> set (m_header_libs m). rank b < rank a))"

definition exports :: "(string \<Rightarrow> exn + string module) \<Rightarrow> (string \<Rightarrow> nat) \<Rightarrow> string \<Rightarrow> string list" where
  "exports rs rank name = plain_exports (Suc (rank name)) rs name"

lemma plain_exports_depth:
  "header_rank rs rank \<Longrightarrow> rank n < depth \<Longrightarrow> plain_exports depth rs n = exports rs rank n"
proof (induction "rank n" arbitrary: n depth rule: less_induct)
  case less
  obtain d where d: "depth = Suc d" using less.prems(2) by (cases depth) auto
  show ?case
  proof (cases "rs n")
    case (Inr m)
    have "plain_exports d rs b = plain_exports (rank n) rs b" if "b \<in> set (m_header_libs m)" for b
    proof -
      have b: "rank b < rank n" using that Inr less.prems(1) by (auto simp: header_rank_def)
      with less.prems d have "rank b < d" by simp
      with b less.hyps [OF b less.prems(1)] show ?thesis by simp
    qed
    then have "map (plain_exports d rs) (m_header_libs m) = map (plain_exports (rank n) rs) (m_header_libs m)"
      by simp
    then show ?thesis by (simp add: d Inr exports_def del: map_eq_conv)
  qed (simp add: d exports_def)
qed

lemma exports_resolved:
  assumes "header_rank rs rank" "rs n = Inr m"
  shows "exports rs rank n = dedupe (own_exports m @ concat (map (exports rs rank) (m_header_libs m)))"
proof -
  have "plain_exports (rank n) rs b = exports rs rank b" if "b \<in> set (m_header_libs m)" for b
    using that assms by (intro plain_exports_depth) (auto simp: header_rank_def)
  then have "map (plain_exports (rank n) rs) (m_header_libs m) = map (exports rs rank) (m_header_libs m)" by simp
  then show ?thesis by (simp add: exports_def [of rs rank n] assms(2) del: map_eq_conv)
qed

lemma exports_unresolved: "\<not> resolves rs n \<Longrightarrow> exports rs rank n = []"
  by (cases "rs n") (auto simp: exports_def resolves_def)

text \<open>The state of a run: right cache entries, and visited names that are finished or still open.\<close>

definition cache_right :: "(string \<Rightarrow> exn + string module) \<Rightarrow> (string \<Rightarrow> nat) \<Rightarrow> include_cache \<Rightarrow> bool" where
  "cache_right rs rank cache = (\<forall>n dirs. map_of cache n = Some dirs \<longrightarrow> dirs = exports rs rank n)"

definition enterable ::
  "(string \<Rightarrow> exn + string module) \<Rightarrow> (string \<Rightarrow> nat) \<Rightarrow> nat \<Rightarrow> string list \<times> include_cache \<Rightarrow> bool" where
  "enterable rs rank k st =
     (\<forall>x \<in> set (fst st). x \<in> dom (map_of (snd st)) \<or> \<not> resolves rs x \<or> k < rank x)"

definition grows ::
  "(string \<Rightarrow> exn + string module) \<Rightarrow> string list \<times> include_cache \<Rightarrow> string list \<times> include_cache \<Rightarrow> bool" where
  "grows rs st st' = (dom (map_of (snd st)) \<subseteq> dom (map_of (snd st'))
     \<and> (\<forall>x \<in> set (fst st'). x \<in> set (fst st) \<or> x \<in> dom (map_of (snd st')) \<or> \<not> resolves rs x))"

lemma grows_refl [simp]: "grows rs st st"
  by (simp add: grows_def)

lemma grows_trans: "grows rs a b \<Longrightarrow> grows rs b c \<Longrightarrow> grows rs a c"
  unfolding grows_def by blast

lemma enterable_grows: "enterable rs rank k st \<Longrightarrow> grows rs st st' \<Longrightarrow> enterable rs rank k st'"
  unfolding enterable_def grows_def by blast

definition exported_right ::
  "nat \<Rightarrow> (string \<Rightarrow> exn + string module) \<Rightarrow> (string \<Rightarrow> nat) \<Rightarrow> string \<Rightarrow> string list \<times> include_cache \<Rightarrow> bool" where
  "exported_right limit rs rank name st =
     (\<exists>st'. exported_includes limit rs name st = Inr (exports rs rank name, st')
        \<and> grows rs st st' \<and> cache_right rs rank (snd st'))"

lemma fold_exported:
  assumes "\<And>n st. n \<in> set names \<Longrightarrow> cache_right rs rank (snd st) \<Longrightarrow> enterable rs rank k st
      \<Longrightarrow> exported_right limit rs rank n st"
    and "cache_right rs rank (snd st)" "enterable rs rank k st"
  shows "\<exists>st'. fold_r (\<lambda>hl acc. rbind (exported_includes limit rs hl (snd acc))
        (\<lambda>res. Inr (fst acc @ fst res, snd res))) names (out, st)
      = Inr (out @ concat (map (exports rs rank) names), st')
    \<and> grows rs st st' \<and> cache_right rs rank (snd st')"
  using assms
proof (induction names arbitrary: out st)
  case (Cons n names)
  have "exported_right limit rs rank n st" using Cons.prems by simp
  then obtain st1 where st1: "exported_includes limit rs n st = Inr (exports rs rank n, st1)"
    "grows rs st st1" "cache_right rs rank (snd st1)" unfolding exported_right_def by blast
  have "enterable rs rank k st1" using Cons.prems(3) st1(2) by (rule enterable_grows)
  with Cons.IH [of st1 "out @ exports rs rank n"] Cons.prems(1) st1(3) obtain st2 where
    "fold_r (\<lambda>hl acc. rbind (exported_includes limit rs hl (snd acc))
        (\<lambda>res. Inr (fst acc @ fst res, snd res))) names (out @ exports rs rank n, st1)
      = Inr ((out @ exports rs rank n) @ concat (map (exports rs rank) names), st2)"
    "grows rs st1 st2" "cache_right rs rank (snd st2)" by auto
  with st1 show ?case using grows_trans [OF st1(2)] by auto
qed simp

lemma exported_includes_right:
  assumes "header_rank rs rank" and "only_eval_errors rs"
  shows "rank name < limit \<Longrightarrow> cache_right rs rank (snd st) \<Longrightarrow> enterable rs rank (rank name) st
    \<Longrightarrow> exported_right limit rs rank name st"
proof (induction limit arbitrary: name st)
  case (Suc limit)
  obtain old cache where st: "st = (old, cache)" by (cases st)
  consider (hit) dirs where "map_of cache name = Some dirs"
    | (old) "map_of cache name = None" "name \<in> set old"
    | (err) e where "map_of cache name = None" "name \<notin> set old" "rs name = Inl e"
    | (new) dep where "map_of cache name = None" "name \<notin> set old" "rs name = Inr dep"
    by (cases "map_of cache name"; cases "name \<in> set old"; cases "rs name") auto
  then show ?case
  proof cases
    case hit
    with Suc.prems(2) st show ?thesis by (auto simp: exported_right_def cache_right_def)
  next
    case old
    then have "\<not> resolves rs name" using Suc.prems(3) st by (auto simp: enterable_def)
    with old Suc.prems(2) st show ?thesis by (auto simp: exported_right_def exports_unresolved)
  next
    case err
    then have "\<not> resolves rs name" by (simp add: resolves_def)
    with err assms(2) Suc.prems(2) st show ?thesis
      by (auto simp: exported_right_def exports_unresolved grows_def only_eval_errors_def)
  next
    case new
    have sub: "exported_right limit rs rank hl u" if "hl \<in> set (m_header_libs dep)"
      "cache_right rs rank (snd u)" "enterable rs rank (rank name - 1) u" for hl u
    proof -
      have "rank hl < rank name" using assms(1) new(3) that(1) by (auto simp: header_rank_def)
      moreover from this have "enterable rs rank (rank hl) u" using that(3) by (fastforce simp: enterable_def)
      ultimately show ?thesis using Suc.prems(1) that(2) by (intro Suc.IH) auto
    qed
    have ent: "enterable rs rank (rank name - 1) (name # old, cache)" if ne: "m_header_libs dep \<noteq> []"
    proof -
      obtain hl where "hl \<in> set (m_header_libs dep)" using ne by (cases "m_header_libs dep") auto
      then have "0 < rank name" using assms(1) new(3) by (fastforce simp: header_rank_def)
      with Suc.prems(3) st show ?thesis by (fastforce simp: enterable_def)
    qed
    have "\<exists>st'. fold_r (\<lambda>hl acc. rbind (exported_includes limit rs hl (snd acc))
        (\<lambda>res. Inr (fst acc @ fst res, snd res))) (m_header_libs dep) (own_exports dep, (name # old, cache))
      = Inr (own_exports dep @ concat (map (exports rs rank) (m_header_libs dep)), st')
      \<and> grows rs (name # old, cache) st' \<and> cache_right rs rank (snd st')"
    proof (cases "m_header_libs dep = []")
      case True
      with Suc.prems(2) st show ?thesis by simp
    next
      case False
      show ?thesis by (rule fold_exported [OF sub]) (use Suc.prems(2) st ent [OF False] in simp_all)
    qed
    then obtain st' where run: "fold_r (\<lambda>hl acc. rbind (exported_includes limit rs hl (snd acc))
        (\<lambda>res. Inr (fst acc @ fst res, snd res))) (m_header_libs dep) (own_exports dep, (name # old, cache))
      = Inr (own_exports dep @ concat (map (exports rs rank) (m_header_libs dep)), st')"
      and gr: "grows rs (name # old, cache) st'" and right: "cache_right rs rank (snd st')" by blast
    let ?st = "(fst st', AList.update name (exports rs rank name) (snd st'))"
    have "exported_includes (Suc limit) rs name st = Inr (exports rs rank name, ?st)"
      using new st run by (simp add: Let_def own_exports_def [symmetric] exports_resolved [OF assms(1) new(3)])
    moreover have "grows rs st ?st" using gr st by (auto simp: grows_def update_conv')
    moreover have "cache_right rs rank (snd ?st)" using right by (auto simp: cache_right_def update_conv')
    ultimately show ?thesis unfolding exported_right_def by blast
  qed
qed simp

lemma includes_of_right:
  assumes "header_rank (em_resolve em) rank" and "only_eval_errors (em_resolve em)"
    and "\<And>n. rank n < em_limit em" and "cache_right (em_resolve em) rank cache"
  shows "\<exists>cache'. includes_of em names cache = Inr (concat (map (exports (em_resolve em) rank) names), cache')
    \<and> cache_right (em_resolve em) rank cache'"
proof -
  let ?f = "\<lambda>name acc. rbind (exported_includes (em_limit em) (em_resolve em) name ([], snd acc))
       (\<lambda>res. Inr (fst acc @ fst res, snd (snd res)))"
  have "\<exists>cache'. fold_r ?f names (out, cache) = Inr (out @ concat (map (exports (em_resolve em) rank) names), cache')
    \<and> cache_right (em_resolve em) rank cache'" for out
    using assms(4)
  proof (induction names arbitrary: out cache)
    case (Cons n names)
    have "exported_right (em_limit em) (em_resolve em) rank n ([], cache)"
      using assms(1-3) Cons.prems by (intro exported_includes_right) (auto simp: enterable_def)
    then obtain st where st: "exported_includes (em_limit em) (em_resolve em) n ([], cache)
        = Inr (exports (em_resolve em) rank n, st)" "cache_right (em_resolve em) rank (snd st)"
      unfolding exported_right_def by blast
    from Cons.IH [OF st(2), of "out @ exports (em_resolve em) rank n"] st(1) show ?case by auto
  qed simp
  from this [of "[]"] show ?thesis by (simp add: includes_of_def)
qed

lemma include_dirs_right:
  assumes "header_rank (em_resolve em) rank" and "only_eval_errors (em_resolve em)"
    and "\<And>n. rank n < em_limit em" and "cache_right (em_resolve em) rank cache"
  shows "\<exists>cache'. include_dirs em m cache = Inr (firsts (own_exports m
        @ map (\<lambda>d. join_src (m_bp_dir m) d (m_root_var m)) (m_local_include_dirs m)
        @ map (\<lambda>d. var_ref (m_root_var m) @ ''/'' @ d) (m_include_dirs m)
        @ concat (map (exports (em_resolve em) rank)
            (m_header_libs m @ m_whole_static_libs m @ m_shared_libs m @ m_static_libs m))
        @ map (\<lambda>d. src_var @ ''/'' @ d) (p_add_include_dirs (em_policy em (m_name m)))
        @ map (rooted_dir compat_var) (p_add_compat_include_dirs (em_policy em (m_name m)))
        @ map (rooted_dir gensrc_var) (p_add_gensrc_includes (em_policy em (m_name m)))), cache')
    \<and> cache_right (em_resolve em) rank cache'"
proof -
  from includes_of_right [OF assms, where names = "m_header_libs m"] obtain c1 where
    c1: "includes_of em (m_header_libs m) cache
      = Inr (concat (map (exports (em_resolve em) rank) (m_header_libs m)), c1)"
      "cache_right (em_resolve em) rank c1" by blast
  from includes_of_right [OF assms(1-3) c1(2), where names = "m_whole_static_libs m @ m_shared_libs m @ m_static_libs m"]
  obtain c2 where c2: "includes_of em (m_whole_static_libs m @ m_shared_libs m @ m_static_libs m) c1
      = Inr (concat (map (exports (em_resolve em) rank)
          (m_whole_static_libs m @ m_shared_libs m @ m_static_libs m)), c2)"
      "cache_right (em_resolve em) rank c2" by blast
  show ?thesis using c1(1) c2 by (simp add: include_dirs_def Let_def own_exports_def dedupe_firsts)
qed

text \<open>
  With a cycle of header libraries the cache does change results: the library whose directories
  are asked for second has lost those of the first.
\<close>

definition header_cycle :: "string \<Rightarrow> exn + string module" where
  "header_cycle n =
     (if n = ''h1'' then Inr ((new_module ''h1'' ''cc_library_headers'' [] ''R'')
          \<lparr>m_export_include_dirs := [''i1''], m_header_libs := [''h2'']\<rparr>)
      else if n = ''h2'' then Inr ((new_module ''h2'' ''cc_library_headers'' [] ''R'')
          \<lparr>m_export_include_dirs := [''i2''], m_header_libs := [''h1'']\<rparr>)
      else Inl (EvalError ''unknown module'' n))"

lemma exported_includes_cycle:
  "exported_includes 9 header_cycle ''h2'' ([], []) = Inr ([''${R}/i2'', ''${R}/i1''],
     ([''h1'', ''h2''], [(''h1'', [''${R}/i1'']), (''h2'', [''${R}/i2'', ''${R}/i1''])]))"
  "exported_includes 9 header_cycle ''h1'' ([], [(''h1'', [''${R}/i1'']), (''h2'', [''${R}/i2'', ''${R}/i1''])])
     = Inr ([''${R}/i1''], ([], [(''h1'', [''${R}/i1'']), (''h2'', [''${R}/i2'', ''${R}/i1''])]))"
  "exported_includes 9 header_cycle ''h1'' ([], []) = Inr ([''${R}/i1'', ''${R}/i2''],
     ([''h2'', ''h1''], [(''h2'', [''${R}/i2'']), (''h1'', [''${R}/i1'', ''${R}/i2''])]))"
  by (simp_all add: eval_nat_numeral header_cycle_def new_module_def Let_def dedupe_def join_src_def
      portable_relpath_def replace_char_def var_ref_def)

subsection \<open>The emitter and the closure\<close>

lemma effective_deps_applied:
  assumes "d \<in> set (m_shared_libs (apply_module_policy m (policy_for ov (m_name m)) (ov_global ov))
      @ m_static_libs (apply_module_policy m (policy_for ov (m_name m)) (ov_global ov)))"
  shows "d \<in> set (fst (effective_link_deps m ov))"
  using assms by (auto simp: effective_link_deps_def apply_module_policy_def remove_each_eq Let_def)

lemma linked_in_closure:
  assumes "dependency_closure l (em_resolve em) (em_ov em) roots = Inr ord" "x \<in> set ord"
    and "em_resolve em x = Inr m" "d \<in> set (fst (effective_link_deps m (em_ov em)))"
    and "emittable (em_resolve em) (em_ov em) d"
  shows "d \<in> set ord"
proof -
  have rs: "em_resolve em = resolve_typed (em_limit em) (em_ev em)" by (simp add: em_resolve_def fun_eq_iff)
  have spec: "set ord = {x. emittable (em_resolve em) (em_ov em) x \<and> (\<exists>r \<in> set roots.
      emittable (em_resolve em) (em_ov em) r \<and> reach (em_resolve em) (em_ov em) r x)}"
    using evaluated.closure_spec assms(1) unfolding rs by blast
  have "dep_edge (em_resolve em) (em_ov em) x d" using assms(2-4) spec by (auto simp: dep_edge_def)
  then have "reach (em_resolve em) (em_ov em) r x \<Longrightarrow> reach (em_resolve em) (em_ov em) r d" for r
    by (auto simp: reach_def)
  with assms(2,5) spec show ?thesis by blast
qed

subsection \<open>Sample files\<close>

definition list_decl :: "string \<Rightarrow> (string \<times> string list) list \<Rightarrow> decl" where
  "list_decl type props = \<lparr>d_type = type,
     d_props = map (\<lambda>(k, vs). (k, ListExpr (map (\<lambda>v. StringLit v 1) vs) 1)) props,
     d_bp_dir = ''d'', d_scope = [], d_root_var = ''R''\<rparr>"

definition sample_emitter :: emitter where
  "sample_emitter = \<lparr>em_ev = \<lparr>ev_config = default_config, ev_decls =
       [(KStr ''libx'', list_decl ''cc_library'' [(''whole_static_libs'', [''libw'', ''libgone''])]),
        (KStr ''libw'', list_decl ''cc_library'' [(''whole_static_libs'', [''libx''])]),
        (KStr ''fg'', list_decl ''filegroup'' [(''srcs'', [''f.cc'', '':fg2''])]),
        (KStr ''fg2'', list_decl ''filegroup'' [(''srcs'', ['':fg'', ''g.cc''])]),
        (KStr ''h1'', list_decl ''cc_library_headers'' [(''export_include_dirs'', [''i1'']), (''header_libs'', [''h2''])]),
        (KStr ''h2'', list_decl ''cc_library_headers'' [(''export_include_dirs'', [''i2'']), (''header_libs'', [])])],
     ev_source_root = []\<rparr>, em_limit = 3, em_ov = sample_overlay, em_root_paths = [], em_cwd = ''/'',
     em_glob = (\<lambda>_. [])\<rparr>"

definition plain_module :: "string \<Rightarrow> string \<Rightarrow> string module" where
  "plain_module name type = new_module name type ''d'' ''R''"

lemma sample_field:
  "typed_module (to_module name type ''d'' [(''whole_static_libs'', VList [VStr a])] ''R'')
   = Inr ((plain_module name type)\<lparr>m_whole_static_libs := [takeWhile (\<lambda>c. c \<noteq> CHR ''#'') a]\<rparr>)"
  "typed_module (to_module name type ''d'' [(''whole_static_libs'', VList [VStr a, VStr b])] ''R'')
   = Inr ((plain_module name type)\<lparr>m_whole_static_libs :=
       [takeWhile (\<lambda>c. c \<noteq> CHR ''#'') a, takeWhile (\<lambda>c. c \<noteq> CHR ''#'') b]\<rparr>)"
  "typed_module (to_module name type ''d'' [(''srcs'', VList [VStr a, VStr b])] ''R'')
   = Inr ((plain_module name type)\<lparr>m_srcs := [a, b]\<rparr>)"
  by (simp_all add: to_module_def new_module_def map_property_def ignored_props_def list_props_def
      list_fields_def extend_field_def dep_list_props_def typed_module_def typed_list_def plain_module_def)

lemma sample_header:
  "typed_module (to_module name type ''d'' [(''export_include_dirs'', VList [VStr a]), (''header_libs'', VList [])] ''R'')
   = Inr ((plain_module name type)\<lparr>m_export_include_dirs := [a]\<rparr>)"
  "typed_module (to_module name type ''d'' [(''export_include_dirs'', VList [VStr a]), (''header_libs'', VList [VStr b])] ''R'')
   = Inr ((plain_module name type)\<lparr>m_export_include_dirs := [a], m_header_libs := [takeWhile (\<lambda>c. c \<noteq> CHR ''#'') b]\<rparr>)"
  by (simp_all add: to_module_def new_module_def map_property_def ignored_props_def list_props_def
      list_fields_def extend_field_def dep_list_props_def typed_module_def typed_list_def plain_module_def)

lemma foldl_skip: "(\<And>x out. x \<in> set xs \<Longrightarrow> f out x = out) \<Longrightarrow> foldl f z xs = z"
  by (induction xs) auto

lemma collapse_no_selects:
  assumes "\<forall>k \<in> set select_keys. map_of p k = None"
  shows "collapse_selects cfg p = p"
proof -
  have "filter (\<lambda>(k, v). k \<notin> set select_keys) p = p"
    using assms by (auto simp: map_of_eq_None_iff filter_id_conv)
  then show ?thesis using assms by (subst collapse_selects.simps) (simp add: foldl_skip)
qed

lemma collapse_one:
  "k \<notin> set select_keys \<Longrightarrow> collapse_selects cfg [(k, x)] = [(k, x)]"
  "k \<notin> set select_keys \<Longrightarrow> k' \<notin> set select_keys \<Longrightarrow> collapse_selects cfg [(k, x), (k', y)] = [(k, x), (k', y)]"
  by (rule collapse_no_selects, auto)+

lemma sample_emit_resolve:
  "em_resolve sample_emitter ''libx'' = Inr ((plain_module ''libx'' ''cc_library'')\<lparr>m_whole_static_libs := [''libw'', ''libgone'']\<rparr>)"
  "em_resolve sample_emitter ''libw'' = Inr ((plain_module ''libw'' ''cc_library'')\<lparr>m_whole_static_libs := [''libx'']\<rparr>)"
  "em_resolve sample_emitter ''fg'' = Inr ((plain_module ''fg'' ''filegroup'')\<lparr>m_srcs := [''f.cc'', '':fg2'']\<rparr>)"
  "em_resolve sample_emitter ''fg2'' = Inr ((plain_module ''fg2'' ''filegroup'')\<lparr>m_srcs := ['':fg'', ''g.cc'']\<rparr>)"
  "em_resolve sample_emitter ''h1'' = Inr ((plain_module ''h1'' ''cc_library_headers'')
     \<lparr>m_export_include_dirs := [''i1''], m_header_libs := [''h2'']\<rparr>)"
  "em_resolve sample_emitter ''h2'' = Inr ((plain_module ''h2'' ''cc_library_headers'')\<lparr>m_export_include_dirs := [''i2'']\<rparr>)"
  by (simp_all add: em_resolve_def resolve_typed_def resolve_def sample_emitter_def list_decl_def merged_props_def
      eval_props_def get_or_nil_def dget_def dict_of_def deep_merge.simps collapse_one sample_field sample_header
      select_keys_def)

lemma sample_emit_unknown:
  "n \<notin> {''libx'', ''libw'', ''fg'', ''fg2'', ''h1'', ''h2''} \<Longrightarrow>
   em_resolve sample_emitter n = Inl (EvalError ''unknown module'' n)"
  by (simp add: em_resolve_def resolve_typed_def resolve_def sample_emitter_def)

lemma sample_emit_cases:
  "P ''libx'' \<Longrightarrow> P ''libw'' \<Longrightarrow> P ''fg'' \<Longrightarrow> P ''fg2'' \<Longrightarrow> P ''h1'' \<Longrightarrow> P ''h2'' \<Longrightarrow>
   (\<And>n. em_resolve sample_emitter n = Inl (EvalError ''unknown module'' n) \<Longrightarrow> P n) \<Longrightarrow> P n"
  by (cases "n = ''libx''"; cases "n = ''libw''"; cases "n = ''fg''"; cases "n = ''fg2''"; cases "n = ''h1''";
      cases "n = ''h2''") (simp_all add: sample_emit_unknown)

lemma sample_only_eval_errors: "only_eval_errors (em_resolve sample_emitter)"
proof -
  have "em_resolve sample_emitter n = Inl e \<longrightarrow> is_eval_error e" for n e
    by (rule sample_emit_cases [where P = "\<lambda>n. em_resolve sample_emitter n = Inl e \<longrightarrow> is_eval_error e"])
      (auto simp: sample_emit_resolve)
  then show ?thesis by (simp add: only_eval_errors_def)
qed

lemma sample_header_rank: "header_rank (em_resolve sample_emitter) (\<lambda>n. if n = ''h1'' then 1 else 0)"
proof -
  let ?rank = "\<lambda>n. if n = ''h1'' then 1 else 0 :: nat"
  have "\<forall>m. em_resolve sample_emitter n = Inr m \<longrightarrow> (\<forall>b \<in> set (m_header_libs m). ?rank b < ?rank n)" for n
    by (rule sample_emit_cases [where P = "\<lambda>n. \<forall>m. em_resolve sample_emitter n = Inr m
        \<longrightarrow> (\<forall>b \<in> set (m_header_libs m). ?rank b < ?rank n)"])
      (auto simp: sample_emit_resolve plain_module_def new_module_def)
  then show ?thesis by (simp add: header_rank_def)
qed

subsection \<open>Properties\<close>

text \<open>C15. The modules absorbed into a target are exactly those that resolve and can be reached from
  it through \<open>whole_static_libs\<close>, each once and as \<open>resolve\<close> builds it; the worklist ends on every
  graph, cyclic ones included.\<close>

theorem absorbed_modules_reach:
  assumes "only_eval_errors (em_resolve em)"
  shows "\<exists>deps. absorbed_modules em m = Inr deps \<and> distinct (map m_name deps)
    \<and> (\<forall>d \<in> set deps. em_resolve em (m_name d) = Inr d)
    \<and> set (map m_name deps) = {n. resolves (em_resolve em) n
        \<and> (\<exists>r \<in> set (m_whole_static_libs m). (whole_edge (em_resolve em))\<^sup>*\<^sup>* r n)}"
proof -
  have "only_eval_errors (resolve_typed (em_limit em) (em_ev em))"
    using assms by (simp add: em_resolve_def [abs_def])
  then obtain deps where deps: "absorbed_modules em m = Inr deps"
    unfolding absorbed_modules_def using absorbed_loop_total by blast
  with absorbed_modules_spec [OF deps] show ?thesis by (auto simp: absorbed_name_def)
qed

theorem absorbed_modules_reach_witness:
  "absorbed_modules sample_emitter ((plain_module ''app'' ''cc_binary'')\<lparr>m_whole_static_libs := [''libx'']\<rparr>)
     = Inr [(plain_module ''libx'' ''cc_library'')\<lparr>m_whole_static_libs := [''libw'', ''libgone'']\<rparr>,
         (plain_module ''libw'' ''cc_library'')\<lparr>m_whole_static_libs := [''libx'']\<rparr>]
   \<and> {''libx'', ''libw''} = {n. resolves (em_resolve sample_emitter) n
        \<and> (whole_edge (em_resolve sample_emitter))\<^sup>*\<^sup>* ''libx'' n}"
proof -
  let ?m = "(plain_module ''app'' ''cc_binary'')\<lparr>m_whole_static_libs := [''libx'']\<rparr>"
  have run: "absorbed_modules sample_emitter ?m
     = Inr [(plain_module ''libx'' ''cc_library'')\<lparr>m_whole_static_libs := [''libw'', ''libgone'']\<rparr>,
         (plain_module ''libw'' ''cc_library'')\<lparr>m_whole_static_libs := [''libx'']\<rparr>]"
    using sample_emit_resolve(1,2) [unfolded em_resolve_def] sample_emit_unknown [of "''libgone''", unfolded em_resolve_def]
    by (simp add: absorbed_modules_def)
  with absorbed_modules_reach [OF sample_only_eval_errors, of ?m] show ?thesis
    by (simp add: plain_module_def new_module_def)
qed

text \<open>A target is linked against its shared and static libraries, by their target names, once each
  and in order, except those whose objects it absorbs.\<close>

theorem link_libs_not_absorbed:
  assumes "link_libs em m = Inr libs"
  shows "libs = firsts (map (target_name (em_ov em)) (filter (\<lambda>lib.
      \<not> (p_absorb_whole_static (em_policy em (m_name m))
         \<and> (lib \<in> set (m_whole_static_libs m) \<or> absorbed_name em m lib)))
    (m_shared_libs m @ m_static_libs m)))"
  using assms by (rule link_libs_spec)

theorem link_libs_not_absorbed_witness:
  "absorbed_name sample_emitter ((plain_module ''app'' ''cc_binary'')\<lparr>m_whole_static_libs := [''libx''],
     m_static_libs := [''libw'', ''liblog'']\<rparr>) ''libw''"
proof -
  let ?m = "(plain_module ''app'' ''cc_binary'')\<lparr>m_whole_static_libs := [''libx''], m_static_libs := [''libw'', ''liblog'']\<rparr>"
  have pol: "p_absorb_whole_static (em_policy sample_emitter (m_name ?m))"
    by (simp add: em_policy_def policy_for_def sample_emitter_def sample_overlay_def new_module_policy_def)
  have run: "link_libs sample_emitter ?m = Inr [''log'']"
    using sample_emit_resolve(1,2) [unfolded em_resolve_def] sample_emit_unknown [of "''libgone''", unfolded em_resolve_def]
      pol
    by (simp add: link_libs_def absorbed_modules_def plain_module_def new_module_def dedupe_def target_name_def
        sample_emitter_def sample_overlay_def new_global_policy_def)
  show ?thesis
  proof (rule ccontr)
    assume "\<not> ?thesis"
    with link_libs_not_absorbed [OF run] pol show False
      by (auto simp: plain_module_def new_module_def target_name_def sample_emitter_def sample_overlay_def
          new_global_policy_def split: if_splits)
  qed
qed

text \<open>C16. A source reference \<open>:name\<close> expands to the plain sources of every container that can be
  reached from \<open>name\<close> through references, each relative to its own container; cutting cycles loses
  no file.\<close>

theorem source_reference_expansion:
  assumes "add_source (em_limit em) (em_ev em) [] d (CHR '':'' # n) rv = Inr files"
  shows "set files = \<Union> (plain_files em ` {c. (ref_edge em)\<^sup>*\<^sup>* n c})"
  using assms by (rule add_source_reach)

theorem source_reference_expansion_witness:
  "(\<Union> (plain_files sample_emitter ` {c. (ref_edge sample_emitter)\<^sup>*\<^sup>* ''fg'' c}))
   = {(''d'', ''f.cc'', ''R''), (''d'', ''g.cc'', ''R'')}"
proof -
  have c: "resolve_source_container 3 (em_ev sample_emitter) ''fg'' = Inr (Some ([''f.cc'', '':fg2''], ''d'', ''R''))"
    "resolve_source_container 3 (em_ev sample_emitter) ''fg2'' = Inr (Some (['':fg'', ''g.cc''], ''d'', ''R''))"
    using sample_emit_resolve(3,4) [unfolded em_resolve_def]
    by (simp_all add: resolve_source_container_def sample_emitter_def list_decl_def plain_module_def new_module_def
        effective_srcs_def)
  have "add_source 3 (em_ev sample_emitter) [] [] '':fg'' [] = Inr [(''d'', ''f.cc'', ''R''), (''d'', ''g.cc'', ''R'')]"
    by (simp add: add_source.simps [of 3 "em_ev sample_emitter"] c)
  then have run: "add_source (em_limit sample_emitter) (em_ev sample_emitter) [] [] (CHR '':'' # ''fg'') []
    = Inr [(''d'', ''f.cc'', ''R''), (''d'', ''g.cc'', ''R'')]" by (simp add: sample_emitter_def)
  show ?thesis using source_reference_expansion [OF run] by simp
qed

text \<open>C17. When no header library exports itself through a cycle, the include directories of a target do
  not depend on what the cache holds from earlier targets: they are the first occurrences of its
  own directories, those that its libraries export by plain recursion through header libraries,
  and those of the overlay; and the cache stays right for the next target.\<close>

theorem include_dirs_cache_free:
  assumes "header_rank (em_resolve em) rank" and "only_eval_errors (em_resolve em)"
    and "\<And>n. rank n < em_limit em" and "cache_right (em_resolve em) rank cache"
  shows "\<exists>cache'. include_dirs em m cache = Inr (firsts (own_exports m
        @ map (\<lambda>d. join_src (m_bp_dir m) d (m_root_var m)) (m_local_include_dirs m)
        @ map (\<lambda>d. var_ref (m_root_var m) @ ''/'' @ d) (m_include_dirs m)
        @ concat (map (exports (em_resolve em) rank)
            (m_header_libs m @ m_whole_static_libs m @ m_shared_libs m @ m_static_libs m))
        @ map (\<lambda>d. src_var @ ''/'' @ d) (p_add_include_dirs (em_policy em (m_name m)))
        @ map (rooted_dir compat_var) (p_add_compat_include_dirs (em_policy em (m_name m)))
        @ map (rooted_dir gensrc_var) (p_add_gensrc_includes (em_policy em (m_name m)))), cache')
    \<and> cache_right (em_resolve em) rank cache'"
  using assms by (rule include_dirs_right)

theorem include_dirs_cache_free_witness:
  "\<exists>cache'. include_dirs sample_emitter ((plain_module ''app'' ''cc_binary'')\<lparr>m_header_libs := [''h2'', ''h1'', ''h2'']\<rparr>) []
     = Inr ([''${R}/d/i2'', ''${R}/d/i1''], cache')"
proof -
  let ?m = "(plain_module ''app'' ''cc_binary'')\<lparr>m_header_libs := [''h2'', ''h1'', ''h2'']\<rparr>"
  let ?rank = "\<lambda>n. if n = ''h1'' then 1 else 0 :: nat"
  have j: "join_src ''d'' ''i1'' ''R'' = ''${R}/d/i1''" "join_src ''d'' ''i2'' ''R'' = ''${R}/d/i2''"
    by code_simp+
  have e: "exports (em_resolve sample_emitter) ?rank ''h2'' = [''${R}/d/i2'']"
    "exports (em_resolve sample_emitter) ?rank ''h1'' = [''${R}/d/i1'', ''${R}/d/i2'']"
    by (simp_all add: exports_def sample_emit_resolve plain_module_def new_module_def own_exports_def j dedupe_def)
  have "?rank n < em_limit sample_emitter" for n by (simp add: sample_emitter_def)
  moreover have "cache_right (em_resolve sample_emitter) ?rank []" by (simp add: cache_right_def)
  moreover have pol: "em_policy sample_emitter name = new_module_policy" for name
    by (simp add: em_policy_def policy_for_def sample_emitter_def sample_overlay_def)
  moreover have m: "m_header_libs ?m = [''h2'', ''h1'', ''h2'']" "m_whole_static_libs ?m = []" "m_shared_libs ?m = []"
    "m_static_libs ?m = []" "m_include_dirs ?m = []" "m_local_include_dirs ?m = []" "own_exports ?m = []"
    by (simp_all add: plain_module_def new_module_def own_exports_def)
  ultimately show ?thesis
    using include_dirs_cache_free [OF sample_header_rank sample_only_eval_errors, of "[]" ?m]
    by (auto simp: m e pol new_module_policy_def simp del: split_paired_Ex)
qed


definition cyclic_emitter :: emitter where
  "cyclic_emitter = \<lparr>em_ev = cyclic_evaluator, em_limit = 1, em_ov = sample_overlay, em_root_paths = [],
     em_cwd = ''/'', em_glob = (\<lambda>_. [])\<rparr>"


end
