(* ===== verification/BpTarget.thy ===== *)
theory BpTarget
  imports PyString BpConfig PyValue "HOL-Library.List_Lexorder" "HOL-Library.Char_ord"
begin

section \<open>Target profiles\<close>

text \<open>
  \<open>tools/bp2cmake/bp2cmake/target.py\<close>: the closed registry of ART targets. The module builds its
  table when it is imported and stops with an \<open>AssertionError\<close> when an entry is inconsistent, so
  the registry is a result; \<open>registry_loads\<close> shows that it is a table.
\<close>

definition target_platforms :: "string list" where
  "target_platforms = [''linux'', ''windows'', ''wasm'', ''uefi'']"

definition target_arches :: "string list" where
  "target_arches = [''x86'', ''x86_64'', ''armv7'', ''aarch64'', ''riscv64'', ''arm64ec'', ''wasm32'', ''wasm64'']"

definition target_abis :: "string list" where
  "target_abis = [''gnu'', ''msvc'', ''posixshim'']"

record target_profile =
  tp_id :: string
  tp_platform :: string
  tp_arch :: string
  tp_base_isa :: string
  tp_aosp_arch :: string
  tp_mterp_source_dir :: string
  tp_mterp_output :: string
  tp_abi :: string
  tp_object_format :: string
  tp_llvm_file_format :: string
  tp_llvm_arch :: string
  tp_pointer_bits :: nat
  tp_endianness :: string
  tp_triple :: string
  tp_cmake_system_name :: string
  tp_cmake_system_processor :: string
  tp_capabilities :: "string list"
  tp_support_status :: string
  tp_unavailable_reason :: string

definition aosp_os :: "target_profile \<Rightarrow> string" where
  "aosp_os p =
     (if tp_platform p = ''linux'' then ''linux_glibc''
      else if tp_platform p = ''windows'' then ''windows''
      else tp_platform p)"

definition target_buildable :: "target_profile \<Rightarrow> bool" where
  "target_buildable p = (tp_support_status p \<in> {''supported'', ''experimental''})"

definition require_generation :: "target_profile \<Rightarrow> exn + unit" where
  "require_generation p =
     (if target_buildable p then Inr ()
      else let detail = (if tp_unavailable_reason p \<noteq> [] then tp_unavailable_reason p
               else ''the target has not passed its capability gates'')
        in Inl (TargetError ''TargetUnavailableError''
             (''target '' @ py_repr (tp_id p) @ '' is '' @ tp_support_status p @ '': '' @ detail)))"

text \<open>\<open>to_dict\<close>: the fields by name, the capabilities as a list.\<close>

definition target_to_dict :: "target_profile \<Rightarrow> dict" where
  "target_to_dict p =
     [(''target_id'', VStr (tp_id p)), (''target_platform'', VStr (tp_platform p)),
      (''target_arch'', VStr (tp_arch p)), (''base_isa'', VStr (tp_base_isa p)),
      (''aosp_arch'', VStr (tp_aosp_arch p)), (''mterp_source_dir'', VStr (tp_mterp_source_dir p)),
      (''mterp_output'', VStr (tp_mterp_output p)), (''target_abi'', VStr (tp_abi p)),
      (''object_format'', VStr (tp_object_format p)),
      (''llvm_file_format'', VStr (tp_llvm_file_format p)), (''llvm_arch'', VStr (tp_llvm_arch p)),
      (''pointer_bits'', VInt (int (tp_pointer_bits p))), (''endianness'', VStr (tp_endianness p)),
      (''target_triple'', VStr (tp_triple p)), (''cmake_system_name'', VStr (tp_cmake_system_name p)),
      (''cmake_system_processor'', VStr (tp_cmake_system_processor p)),
      (''capabilities'', VList (map VStr (tp_capabilities p))),
      (''support_status'', VStr (tp_support_status p)),
      (''unavailable_reason'', VStr (tp_unavailable_reason p))]"

subsection \<open>Tables\<close>

definition native_capabilities :: "string list" where
  "native_capabilities = [''native'', ''dso'', ''threads'', ''virtual_memory'', ''executable_memory'',
     ''dynamic_loading'', ''target_assembly'']"

definition windows_placeholder_reason :: string where
  "windows_placeholder_reason = ''recognized registry placeholder; implementation is not expected on the ''
     @ ''near or far roadmap''"

definition posixshim_art_reason :: string where
  "posixshim_art_reason = ''ART requires native DSO, executable-memory, signal/fault, threading, ''
     @ ''and JIT contracts''"

definition uefi_art_reason :: string where
  "uefi_art_reason = ''UEFI lacks ART's required process, threading, signal/fault, virtual-memory, ''
     @ ''dynamic-loader, and native DSO contracts''"

definition mterp_layouts :: "(string \<times> (string \<times> string)) list" where
  "mterp_layouts =
     [(''x86'', (''x86ng'', ''mterp_x86.S'')),
      (''x86_64'', (''x86_64ng'', ''mterp_x86_64.S'')),
      (''arm'', (''armng'', ''mterp_arm.S'')),
      (''arm64'', (''arm64ng'', ''mterp_arm64.S'')),
      (''riscv64'', (''riscv64'', ''mterp_riscv64.S''))]"

definition llvm_file_identities :: "((string \<times> string) \<times> (string \<times> string)) list" where
  "llvm_file_identities =
     [((''linux'', ''x86''), (''elf32-i386'', ''i386'')),
      ((''linux'', ''x86_64''), (''elf64-x86-64'', ''x86_64'')),
      ((''linux'', ''armv7''), (''elf32-littlearm'', ''arm'')),
      ((''linux'', ''aarch64''), (''elf64-littleaarch64'', ''aarch64'')),
      ((''linux'', ''riscv64''), (''elf64-littleriscv'', ''riscv64'')),
      ((''windows'', ''x86''), (''COFF-i386'', ''i386'')),
      ((''windows'', ''x86_64''), (''COFF-x86-64'', ''x86_64'')),
      ((''windows'', ''armv7''), (''COFF-ARM'', ''thumb'')),
      ((''windows'', ''aarch64''), (''COFF-ARM64'', ''aarch64'')),
      ((''windows'', ''arm64ec''), (''COFF-ARM64EC'', ''aarch64'')),
      ((''wasm'', ''wasm32''), (''WASM'', ''wasm32'')),
      ((''wasm'', ''wasm64''), (''WASM'', ''wasm64'')),
      ((''uefi'', ''x86_64''), (''COFF-x86-64'', ''x86_64'')),
      ((''uefi'', ''aarch64''), (''COFF-ARM64'', ''aarch64'')),
      ((''uefi'', ''riscv64''), (''elf64-littleriscv'', ''riscv64''))]"

text \<open>\<open>_profile\<close>\<close>

definition make_profile ::
  "string \<Rightarrow> string \<Rightarrow> string \<Rightarrow> string \<Rightarrow> string \<Rightarrow> string \<Rightarrow> string \<Rightarrow> nat \<Rightarrow> string \<Rightarrow> string \<Rightarrow>
   string \<Rightarrow> string list \<Rightarrow> string \<Rightarrow> exn + target_profile" where
  "make_profile target_id platform arch base_isa aosp_arch abi object_format pointer_bits triple
     cmake_system_name status capabilities reason =
     (let expected_id = platform @ ''-'' @ arch @ ''-'' @ abi;
          layout = (case map_of mterp_layouts aosp_arch of Some l \<Rightarrow> l | None \<Rightarrow> ([], [])) in
      if platform \<notin> set target_platforms then Inl (AssertionError (''unregistered target platform: '' @ platform))
      else if arch \<notin> set target_arches then Inl (AssertionError (''unregistered target architecture: '' @ arch))
      else if abi \<notin> set target_abis then Inl (AssertionError (''unregistered target ABI: '' @ abi))
      else if target_id \<noteq> expected_id then Inl (AssertionError
        (''target ID '' @ py_repr target_id @ '' must be '' @ py_repr expected_id))
      else case map_of llvm_file_identities (platform, arch) of
        None \<Rightarrow> Inl (AssertionError
          (''target profile has no LLVM file identity: '' @ platform @ ''-'' @ arch))
      | Some ident \<Rightarrow> Inr
          \<lparr>tp_id = target_id, tp_platform = platform, tp_arch = arch, tp_base_isa = base_isa,
           tp_aosp_arch = aosp_arch, tp_mterp_source_dir = fst layout, tp_mterp_output = snd layout,
           tp_abi = abi, tp_object_format = object_format, tp_llvm_file_format = fst ident,
           tp_llvm_arch = snd ident, tp_pointer_bits = pointer_bits, tp_endianness = ''little'',
           tp_triple = triple, tp_cmake_system_name = cmake_system_name,
           tp_cmake_system_processor = arch, tp_capabilities = sort capabilities,
           tp_support_status = status, tp_unavailable_reason = reason\<rparr>)"

definition profile_table :: "(string \<times> (exn + target_profile)) list" where
  "profile_table =
    [(''linux-x86-gnu'', make_profile ''linux-x86-gnu'' ''linux'' ''x86'' ''x86''
       ''x86'' ''gnu'' ''elf32'' 32 ''i686-unknown-linux-gnu'' ''Linux''
       ''planned'' [] (''32-bit dependency and runtime gates are not validated'')),
     (''linux-x86_64-gnu'', make_profile ''linux-x86_64-gnu'' ''linux'' ''x86_64'' ''x86_64''
       ''x86_64'' ''gnu'' ''elf64'' 64 ''x86_64-unknown-linux-gnu'' ''Linux''
       ''supported'' (native_capabilities @ [''boot_image'', ''signals'', ''jit'']) []),
     (''linux-armv7-gnu'', make_profile ''linux-armv7-gnu'' ''linux'' ''armv7'' ''armv7''
       ''arm'' ''gnu'' ''elf32'' 32 ''armv7-unknown-linux-gnueabihf'' ''Linux''
       ''planned'' [] (''ARMv7 hard-float dependency and runtime gates are not validated'')),
     (''linux-aarch64-gnu'', make_profile ''linux-aarch64-gnu'' ''linux'' ''aarch64'' ''aarch64''
       ''arm64'' ''gnu'' ''elf64'' 64 ''aarch64-unknown-linux-gnu'' ''Linux''
       ''experimental'' (native_capabilities) []),
     (''linux-riscv64-gnu'', make_profile ''linux-riscv64-gnu'' ''linux'' ''riscv64'' ''riscv64''
       ''riscv64'' ''gnu'' ''elf64'' 64 ''riscv64-unknown-linux-gnu'' ''Linux''
       ''planned'' [] (''RISC-V dependency and runtime policy are not validated'')),
     (''windows-x86-msvc'', make_profile ''windows-x86-msvc'' ''windows'' ''x86'' ''x86''
       ''x86'' ''msvc'' ''pe32'' 32 ''i686-pc-windows-msvc'' ''Windows''
       ''planned'' [] (windows_placeholder_reason)),
     (''windows-x86_64-msvc'', make_profile ''windows-x86_64-msvc'' ''windows'' ''x86_64'' ''x86_64''
       ''x86_64'' ''msvc'' ''pe32+'' 64 ''x86_64-pc-windows-msvc'' ''Windows''
       ''experimental'' (native_capabilities @ [''seh'', ''jit'', ''windows_contracts'']) []),
     (''windows-armv7-msvc'', make_profile ''windows-armv7-msvc'' ''windows'' ''armv7'' ''armv7''
       ''arm'' ''msvc'' ''pe32'' 32 ''armv7-pc-windows-msvc'' ''Windows''
       ''planned'' [] (windows_placeholder_reason)),
     (''windows-aarch64-msvc'', make_profile ''windows-aarch64-msvc'' ''windows'' ''aarch64'' ''aarch64''
       ''arm64'' ''msvc'' ''pe32+'' 64 ''aarch64-pc-windows-msvc'' ''Windows''
       ''planned'' [] (''Windows AArch64 sources and ABI gates are not implemented'')),
     (''windows-arm64ec-msvc'', make_profile ''windows-arm64ec-msvc'' ''windows'' ''arm64ec'' ''aarch64''
       ''arm64'' ''msvc'' ''pe32+'' 64 ''arm64ec-pc-windows-msvc'' ''Windows''
       ''planned'' [] (''ARM64EC source, macro, import/export, and runtime gates are not implemented'')),
     (''wasm-wasm32-posixshim'', make_profile ''wasm-wasm32-posixshim'' ''wasm'' ''wasm32'' ''wasm32''
       ''wasm32'' ''posixshim'' ''wasm'' 32 ''wasm32-unknown-unknown'' ''Generic''
       ''impossible_under_current_art_contract'' [] (posixshim_art_reason)),
     (''wasm-wasm64-posixshim'', make_profile ''wasm-wasm64-posixshim'' ''wasm'' ''wasm64'' ''wasm64''
       ''wasm64'' ''posixshim'' ''wasm'' 64 ''wasm64-unknown-unknown'' ''Generic''
       ''impossible_under_current_art_contract'' [] (posixshim_art_reason)),
     (''uefi-x86_64-posixshim'', make_profile ''uefi-x86_64-posixshim'' ''uefi'' ''x86_64'' ''x86_64''
       ''x86_64'' ''posixshim'' ''pe32+'' 64 ''x86_64-pc-windows-msvc'' ''Generic''
       ''impossible_under_current_art_contract'' [] (uefi_art_reason)),
     (''uefi-aarch64-posixshim'', make_profile ''uefi-aarch64-posixshim'' ''uefi'' ''aarch64'' ''aarch64''
       ''arm64'' ''posixshim'' ''pe32+'' 64 ''aarch64-pc-windows-msvc'' ''Generic''
       ''impossible_under_current_art_contract'' [] (uefi_art_reason)),
     (''uefi-riscv64-posixshim'', make_profile ''uefi-riscv64-posixshim'' ''uefi'' ''riscv64'' ''riscv64''
       ''riscv64'' ''posixshim'' ''pe32+'' 64 ''riscv64-pc-windows-msvc'' ''Generic''
       ''impossible_under_current_art_contract'' [] (uefi_art_reason @ ''; Clang cannot currently emit RISC-V64 COFF and emits ELF for the accepted Windows triple''))]"

definition target_registry :: "exn + (string \<times> target_profile) list" where
  "target_registry = map_r (\<lambda>(name, profile). rbind profile (\<lambda>p. Inr (name, p))) profile_table"

definition target_profiles :: "(string \<times> target_profile) list" where
  "target_profiles = (case target_registry of Inr ps \<Rightarrow> ps | Inl e \<Rightarrow> [])"

definition non_canonical_hints :: "(string \<times> string list) list" where
  "non_canonical_hints =
    [(''linux-x64'', [''linux-x86_64-gnu'']),
     (''linux_x86_64'', [''linux-x86_64-gnu'']),
     (''linux-x86_64'', [''linux-x86_64-gnu'']),
     (''linux-x86'', [''linux-x86-gnu'']),
     (''linux-arm'', [''linux-armv7-gnu'']),
     (''linux-armv7'', [''linux-armv7-gnu'']),
     (''linux-arm64'', [''linux-aarch64-gnu'']),
     (''linux-aarch64'', [''linux-aarch64-gnu'']),
     (''linux-riscv64'', [''linux-riscv64-gnu'']),
     (''windows-x64'', [''windows-x86_64-msvc'']),
     (''windows_x86_64'', [''windows-x86_64-msvc'']),
     (''windows-x86_64'', [''windows-x86_64-msvc'']),
     (''windows-x86'', [''windows-x86-msvc'']),
     (''windows-arm'', [''windows-armv7-msvc'']),
     (''windows-armv7'', [''windows-armv7-msvc'']),
     (''windows-arm64'', [''windows-aarch64-msvc'']),
     (''windows-aarch64'', [''windows-aarch64-msvc'']),
     (''windows-aarch64-arm64ec'', [''windows-arm64ec-msvc'']),
     (''windows-arm64ec'', [''windows-arm64ec-msvc'']),
     (''wasm-wasm32'', [''wasm-wasm32-posixshim'']),
     (''wasm-wasm64'', [''wasm-wasm64-posixshim'']),
     (''wasm32-posixshim'', [''wasm-wasm32-posixshim'']),
     (''wasm64-posixshim'', [''wasm-wasm64-posixshim'']),
     (''uefi-x86_64'', [''uefi-x86_64-posixshim'']),
     (''uefi-aarch64'', [''uefi-aarch64-posixshim'']),
     (''uefi-riscv64'', [''uefi-riscv64-posixshim''])]"

definition resolve_target :: "string \<Rightarrow> exn + target_profile" where
  "resolve_target target_id =
     (case map_of target_profiles target_id of
        Some p \<Rightarrow> Inr p
      | None \<Rightarrow>
          (case map_of non_canonical_hints target_id of
             Some (h # hs) \<Rightarrow>
               let detail = (if hs = [] then ''use '' @ py_repr h
                   else ''use one of '' @ join_str '', '' (map py_repr (h # hs)))
               in Inl (TargetError ''UnknownTargetError''
                    (''non-canonical target ID '' @ py_repr target_id @ ''; '' @ detail))
           | _ \<Rightarrow> Inl (TargetError ''UnknownTargetError''
                    (''unknown target ID '' @ py_repr target_id @ ''; registered targets: ''
                     @ join_str '', '' (map fst target_profiles)))))"

text \<open>\<open>Config.from_target\<close>\<close>

definition config_from_target :: "target_profile \<Rightarrow> bool \<Rightarrow> config" where
  "config_from_target target avx2 =
     default_config\<lparr>cfg_os := aosp_os target, cfg_arch := tp_aosp_arch target,
       cfg_bitness := int (tp_pointer_bits target), cfg_avx2 := avx2\<rparr>"

subsection \<open>The CMake projection\<close>

text \<open>\<open>_cmake_escape\<close>: first the backslashes, then the quotes.\<close>

definition cmake_escape :: "string \<Rightarrow> string" where
  "cmake_escape v =
     concat (map (\<lambda>c. if c = CHR 0x22 then [CHR 0x5C, CHR 0x22] else [c])
       (concat (map (\<lambda>c. if c = CHR 0x5C then [CHR 0x5C, CHR 0x5C] else [c]) v)))"

definition profile_values :: "target_profile \<Rightarrow> (string \<times> string) list" where
  "profile_values p =
     [(''ART_TARGET_ID'', tp_id p),
      (''ART_TARGET_PLATFORM'', tp_platform p),
      (''ART_TARGET_ARCH'', tp_arch p),
      (''ART_TARGET_BASE_ISA'', tp_base_isa p),
      (''ART_TARGET_AOSP_ARCH'', tp_aosp_arch p),
      (''ART_TARGET_MTERP_SOURCE_DIR'', tp_mterp_source_dir p),
      (''ART_TARGET_MTERP_OUTPUT'', tp_mterp_output p),
      (''ART_TARGET_ABI'', tp_abi p),
      (''ART_TARGET_OBJECT_FORMAT'', tp_object_format p),
      (''ART_TARGET_LLVM_FILE_FORMAT'', tp_llvm_file_format p),
      (''ART_TARGET_LLVM_ARCH'', tp_llvm_arch p),
      (''ART_TARGET_POINTER_BITS'', nat_str (tp_pointer_bits p)),
      (''ART_TARGET_ENDIANNESS'', tp_endianness p),
      (''ART_TARGET_TRIPLE'', tp_triple p),
      (''ART_TARGET_CMAKE_SYSTEM_NAME'', tp_cmake_system_name p),
      (''ART_TARGET_CMAKE_SYSTEM_PROCESSOR'', tp_cmake_system_processor p),
      (''ART_TARGET_CAPABILITIES'', join_str '';'' (tp_capabilities p)),
      (''ART_TARGET_SUPPORT_STATUS'', tp_support_status p),
      (''ART_TARGET_ID_ENUM'', join_str '';'' (map fst target_profiles)),
      (''ART_TARGET_PLATFORM_ENUM'', join_str '';'' target_platforms),
      (''ART_TARGET_ARCH_ENUM'', join_str '';'' target_arches),
      (''ART_TARGET_ABI_ENUM'', join_str '';'' target_abis)]"

definition to_cmake :: "target_profile \<Rightarrow> string" where
  "to_cmake p =
     join_str [newline] (''# Generated target data. Do not edit.'' #
       map (\<lambda>kv. ''set('' @ fst kv @ '' '' @ [CHR 0x22] @ cmake_escape (snd kv) @ [CHR 0x22] @ '')'')
         (profile_values p)) @ [newline]"

subsection \<open>The registry\<close>

lemma make_profile_Inr:
  assumes "make_profile target_id platform arch base_isa aosp_arch abi object_format pointer_bits triple
     cmake_system_name status capabilities reason = Inr p"
  shows "tp_id p = target_id \<and> target_id = tp_platform p @ ''-'' @ tp_arch p @ ''-'' @ tp_abi p
    \<and> tp_platform p \<in> set target_platforms \<and> tp_arch p \<in> set target_arches \<and> tp_abi p \<in> set target_abis
    \<and> map_of llvm_file_identities (tp_platform p, tp_arch p) = Some (tp_llvm_file_format p, tp_llvm_arch p)
    \<and> tp_cmake_system_processor p = tp_arch p \<and> sorted (tp_capabilities p)"
  using assms by (auto simp: make_profile_def Let_def split: if_splits option.splits)

definition profile_ok :: "string \<Rightarrow> target_profile \<Rightarrow> bool" where
  "profile_ok n p =
     (tp_id p = n \<and> n = tp_platform p @ ''-'' @ tp_arch p @ ''-'' @ tp_abi p
      \<and> tp_platform p \<in> set target_platforms \<and> tp_arch p \<in> set target_arches \<and> tp_abi p \<in> set target_abis
      \<and> map_of llvm_file_identities (tp_platform p, tp_arch p) = Some (tp_llvm_file_format p, tp_llvm_arch p)
      \<and> tp_cmake_system_processor p = tp_arch p \<and> sorted (tp_capabilities p))"

lemma make_profile_ok:
  "(make_profile n platform arch base_isa aosp_arch abi object_format pointer_bits triple
     cmake_system_name status capabilities reason = Inr p \<longrightarrow> profile_ok n p) = True"
  using make_profile_Inr [of n platform arch base_isa aosp_arch abi object_format pointer_bits triple
     cmake_system_name status capabilities reason p] by (simp add: profile_ok_def)

lemma profile_table_all_ok: "\<forall>x \<in> set profile_table. \<forall>p. snd x = Inr p \<longrightarrow> profile_ok (fst x) p"
  unfolding profile_table_def by (simp only: list.set ball_simps insert_iff fst_conv snd_conv make_profile_ok) simp

lemma profile_table_ok: "(n, r) \<in> set profile_table \<Longrightarrow> r = Inr p \<Longrightarrow> profile_ok n p"
  using profile_table_all_ok by force

lemma profile_table_loads: "\<forall>(n, r) \<in> set profile_table. \<exists>p. r = Inr p"
  by (simp add: profile_table_def make_profile_def target_platforms_def target_arches_def target_abis_def
      llvm_file_identities_def Let_def)

lemma registry_loads:
  "\<exists>ps. target_registry = Inr ps \<and> map fst ps = map fst profile_table \<and> (\<forall>(n, p) \<in> set ps. profile_ok n p)"
proof -
  have "\<exists>ps. map_r (\<lambda>(name, profile). rbind profile (\<lambda>p. Inr (name, p))) t = Inr ps
      \<and> map fst ps = map fst t \<and> (\<forall>(n, p) \<in> set ps. profile_ok n p)"
    if "\<forall>(n, r) \<in> set t. \<exists>p. r = Inr p \<and> profile_ok n p" for t :: "(string \<times> (exn + target_profile)) list"
    using that by (induction t) (auto simp: result_simps)
  moreover have "\<forall>(n, r) \<in> set profile_table. \<exists>p. r = Inr p \<and> profile_ok n p"
    using profile_table_loads profile_table_ok by fastforce
  ultimately show ?thesis unfolding target_registry_def by blast
qed

lemma target_profiles_ok:
  "map fst target_profiles = map fst profile_table"
  "(n, p) \<in> set target_profiles \<Longrightarrow> profile_ok n p"
proof -
  obtain ps where ps: "target_registry = Inr ps" "map fst ps = map fst profile_table"
    "\<forall>(n, p) \<in> set ps. profile_ok n p" using registry_loads by blast
  have "target_profiles = ps" unfolding target_profiles_def ps(1) by simp
  with ps(2,3) show "map fst target_profiles = map fst profile_table"
    and "(n, p) \<in> set target_profiles \<Longrightarrow> profile_ok n p" by auto
qed

lemma profile_names: "map fst profile_table =
  [''linux-x86-gnu'', ''linux-x86_64-gnu'', ''linux-armv7-gnu'', ''linux-aarch64-gnu'', ''linux-riscv64-gnu'',
   ''windows-x86-msvc'', ''windows-x86_64-msvc'', ''windows-armv7-msvc'', ''windows-aarch64-msvc'',
   ''windows-arm64ec-msvc'', ''wasm-wasm32-posixshim'', ''wasm-wasm64-posixshim'', ''uefi-x86_64-posixshim'',
   ''uefi-aarch64-posixshim'', ''uefi-riscv64-posixshim'']"
  by (simp add: profile_table_def)

lemma resolve_target_iff: "resolve_target n = Inr p \<longleftrightarrow> map_of target_profiles n = Some p"
  by (auto simp: resolve_target_def Let_def split: option.splits list.splits)

lemma resolve_target_Inr:
  "(\<exists>p. resolve_target n = Inr p) \<longleftrightarrow> n \<in> set (map fst profile_table)"
  "resolve_target n = Inr p \<Longrightarrow> profile_ok n p"
proof -
  have "(\<exists>p. map_of target_profiles n = Some p) \<longleftrightarrow> n \<in> set (map fst target_profiles)"
    using map_of_eq_None_iff [of target_profiles n] by force
  then show "(\<exists>p. resolve_target n = Inr p) \<longleftrightarrow> n \<in> set (map fst profile_table)"
    by (simp add: resolve_target_iff target_profiles_ok(1))
  show "resolve_target n = Inr p \<Longrightarrow> profile_ok n p"
    by (auto simp: resolve_target_iff intro: target_profiles_ok(2) dest: map_of_SomeD)
qed

lemma resolve_target_error: "resolve_target n = Inl e \<Longrightarrow> \<exists>msg. e = TargetError ''UnknownTargetError'' msg"
  by (auto simp: resolve_target_def Let_def split: option.splits list.splits)

subsection \<open>Reading the CMake projection back\<close>

text \<open>
  The reader of a quoted CMake argument: a backslash takes the next character as it is, a quote
  ends the argument. \<open>read_settings\<close> reads a list of \<open>set\<close> commands of one key and one quoted value.
\<close>

fun read_quoted :: "string \<Rightarrow> (string \<times> string) option" where
  "read_quoted [] = None"
| "read_quoted (c # s) =
     (if c = CHR 0x22 then Some ([], s)
      else if c = CHR 0x5C then
        (case s of [] \<Rightarrow> None | d # t \<Rightarrow> map_option (\<lambda>(v, r). (d # v, r)) (read_quoted t))
      else map_option (\<lambda>(v, r). (c # v, r)) (read_quoted s))"

definition read_setting :: "string \<Rightarrow> ((string \<times> string) \<times> string) option" where
  "read_setting s =
     (if starts_with ''set('' s then
        let key = takeWhile (\<lambda>c. c \<noteq> CHR '' '') (drop 4 s); t = dropWhile (\<lambda>c. c \<noteq> CHR '' '') (drop 4 s)
        in if starts_with ('' '' @ [CHR 0x22]) t then
          (case read_quoted (drop 2 t) of
             Some (v, r) \<Rightarrow> if starts_with ('')'' @ [newline]) r then Some ((key, v), drop 2 r) else None
           | None \<Rightarrow> None)
        else None
      else None)"

function read_settings :: "string \<Rightarrow> (string \<times> string) list option" where
  "read_settings s =
     (if s = [] then Some []
      else case read_setting s of
        None \<Rightarrow> None
      | Some (kv, r) \<Rightarrow> if length r < length s then map_option ((#) kv) (read_settings r) else None)"
  by pat_completeness auto
termination read_settings
  by (relation "measure length") auto

declare read_settings.simps [simp del]

lemma cmake_escape_simps [simp]:
  "cmake_escape [] = []"
  "cmake_escape (c # s) = (if c = CHR 0x22 \<or> c = CHR 0x5C then [CHR 0x5C, c] else [c]) @ cmake_escape s"
  by (simp_all add: cmake_escape_def)

lemma read_quoted_escape: "read_quoted (cmake_escape s @ CHR 0x22 # rest) = Some (s, rest)"
  by (induction s) auto

lemma read_setting_line:
  assumes "CHR '' '' \<notin> set key"
  shows "read_setting (''set('' @ key @ '' '' @ [CHR 0x22] @ cmake_escape v @ [CHR 0x22] @ '')'' @ newline # rest)
    = Some ((key, v), rest)"
  using assms by (simp add: read_setting_def Let_def takeWhile_append dropWhile_append read_quoted_escape
      takeWhile_eq_all_conv [THEN iffD2] dropWhile_eq_Nil_conv [THEN iffD2])

lemma read_settings_lines:
  assumes "\<forall>(k, v) \<in> set kvs. CHR '' '' \<notin> set k"
  shows "read_settings (concat (map (\<lambda>kv. ''set('' @ fst kv @ '' '' @ [CHR 0x22] @ cmake_escape (snd kv)
      @ [CHR 0x22] @ '')'' @ [newline]) kvs)) = Some kvs"
  using assms
proof (induction kvs)
  case (Cons kv kvs)
  obtain k v where kv: "kv = (k, v)" by (cases kv)
  let ?rest = "concat (map (\<lambda>kv. ''set('' @ fst kv @ '' '' @ [CHR 0x22] @ cmake_escape (snd kv)
      @ [CHR 0x22] @ '')'' @ [newline]) kvs)"
  have "read_setting (''set('' @ k @ '' '' @ [CHR 0x22] @ cmake_escape v @ [CHR 0x22] @ '')'' @ newline # ?rest)
      = Some ((k, v), ?rest)" using Cons.prems kv by (intro read_setting_line) auto
  moreover have "read_settings ?rest = Some kvs" using Cons by auto
  ultimately show ?case by (subst read_settings.simps) (simp add: kv)
qed (simp add: read_settings.simps)

lemma join_lines_concat: "join_str [newline] (x # xs) @ [newline] = concat (map (\<lambda>l. l @ [newline]) (x # xs))"
  by (induction "[newline]" "x # xs" arbitrary: x xs rule: join_str.induct) auto

lemma to_cmake_lines:
  "to_cmake p = ''# Generated target data. Do not edit.'' @ [newline] @
     concat (map (\<lambda>kv. ''set('' @ fst kv @ '' '' @ [CHR 0x22] @ cmake_escape (snd kv)
       @ [CHR 0x22] @ '')'' @ [newline]) (profile_values p))"
  unfolding to_cmake_def join_lines_concat by (simp add: comp_def)

subsection \<open>Properties\<close>

text \<open>A target ID resolves exactly when it is registered, and then to the profile whose ID it is:
  platform, architecture and ABI joined by dashes, each from its closed enumeration, with the LLVM
  file identity of that platform and architecture. Every other ID is an \<open>UnknownTargetError\<close>.\<close>

theorem resolve_target_canonical:
  "(case resolve_target n of
      Inr p \<Rightarrow> n \<in> set (map fst profile_table) \<and> tp_id p = n
        \<and> n = tp_platform p @ ''-'' @ tp_arch p @ ''-'' @ tp_abi p
        \<and> tp_platform p \<in> set target_platforms \<and> tp_arch p \<in> set target_arches \<and> tp_abi p \<in> set target_abis
        \<and> map_of llvm_file_identities (tp_platform p, tp_arch p) = Some (tp_llvm_file_format p, tp_llvm_arch p)
        \<and> tp_cmake_system_processor p = tp_arch p \<and> sorted (tp_capabilities p)
    | Inl e \<Rightarrow> n \<notin> set (map fst profile_table) \<and> (\<exists>msg. e = TargetError ''UnknownTargetError'' msg))"
proof (cases "resolve_target n")
  case (Inl e)
  then show ?thesis using resolve_target_error resolve_target_Inr(1) [of n] by simp
next
  case (Inr p)
  then show ?thesis using resolve_target_Inr(2) [OF Inr] resolve_target_Inr(1) [of n] by (simp add: profile_ok_def)
qed

text \<open>The hints for misspelt IDs are sound: no hinted spelling is itself registered, and every ID
  that a hint suggests resolves.\<close>

lemma target_hints_sound:
  "\<forall>(alias, ids) \<in> set non_canonical_hints.
     (\<exists>e. resolve_target alias = Inl e) \<and> ids \<noteq> [] \<and> (\<forall>i \<in> set ids. \<exists>p. resolve_target i = Inr p)"
proof -
  have "(\<exists>e. resolve_target n = Inl e) \<longleftrightarrow> n \<notin> set (map fst profile_table)" for n
    using resolve_target_Inr(1) [of n] by (cases "resolve_target n") auto
  then show ?thesis unfolding resolve_target_Inr(1) profile_names
    by (simp add: non_canonical_hints_def)
qed

text \<open>C21. The CMake projection of a profile is read back value for value, whatever quotes and
  backslashes the values contain.\<close>

theorem to_cmake_read_back:
  "read_settings (drop (Suc (length ''# Generated target data. Do not edit.'')) (to_cmake p)) = Some (profile_values p)"
proof -
  have "\<forall>(k, v) \<in> set (profile_values p). CHR '' '' \<notin> set k" by (simp add: profile_values_def)
  from read_settings_lines [OF this] show ?thesis by (simp add: to_cmake_lines)
qed

end
