(* ===== verification/BpJson.thy ===== *)
theory BpJson
  imports PyValue PyString BpEvaluator "HOL-Library.List_Lexorder" "HOL-Library.Char_ord"
begin

section \<open>JSON text\<close>

text \<open>
  \<open>json.dumps(v, indent=2, sort_keys=True)\<close> of the standard library, as the manifests use it: keys
  in code-point order, two spaces per level, everything outside printable ASCII escaped.
\<close>

definition json_char :: "char \<Rightarrow> string" where
  "json_char c =
     (if c = CHR 0x22 then [CHR 0x5C, CHR 0x22]
      else if c = CHR 0x5C then [CHR 0x5C, CHR 0x5C]
      else if c = CHR 0x0A then [CHR 0x5C, CHR ''n'']
      else if c = CHR 0x0D then [CHR 0x5C, CHR ''r'']
      else if c = CHR 0x09 then [CHR 0x5C, CHR ''t'']
      else if c = CHR 0x0C then [CHR 0x5C, CHR ''f'']
      else if c = CHR 0x08 then [CHR 0x5C, CHR ''b'']
      else if in_ranges [(32, 126)] (code_point c) then [c]
      else [CHR 0x5C, CHR ''u'', CHR ''0'', CHR ''0'', hex_digit (code_point c div 16), hex_digit (code_point c)])"

definition json_string :: "string \<Rightarrow> string" where
  "json_string s = [CHR 0x22] @ concat (map json_char s) @ [CHR 0x22]"

definition json_indent :: "nat \<Rightarrow> string" where
  "json_indent n = newline # replicate (2 * n) (CHR '' '')"

function json_value :: "nat \<Rightarrow> pyval \<Rightarrow> string" where
  "json_value n VNone = ''null''"
| "json_value n (VBool b) = (if b then ''true'' else ''false'')"
| "json_value n (VInt i) = int_str i"
| "json_value n (VStr s) = json_string s"
| "json_value n (VList vs) =
     (if vs = [] then ''[]''
      else ''['' @ json_indent (Suc n) @ join_str ('','' @ json_indent (Suc n)) (map (json_value (Suc n)) vs)
        @ json_indent n @ '']'')"
| "json_value n (VDict d) =
     (if d = [] then ''{}''
      else ''{'' @ json_indent (Suc n) @ join_str ('','' @ json_indent (Suc n))
          (map (\<lambda>kv. json_string (fst kv) @ '': '' @ json_value (Suc n) (snd kv)) (sort_key fst d))
        @ json_indent n @ ''}'')"
  by pat_completeness auto
termination json_value
proof (relation "measure (\<lambda>(n, v). size v)", goal_cases)
  case (3 n d x)
  then show ?case using size_item [of x d] by simp
qed (auto simp: less_Suc_eq_le size_list_estimation')

definition json_dumps :: "pyval \<Rightarrow> string" where
  "json_dumps v = json_value 0 v"

end
