(* ===== verification/BpFiles.thy ===== *)
theory BpFiles
  imports PyString
begin

section \<open>Files\<close>

text \<open>
  The file system as the generators see it: regular files by path, each with its bytes and the
  time it was last written, the paths that are symbolic links, and a clock. Directories are taken
  to exist, so \<open>os.makedirs\<close> has no effect here. A fault of the environment (a full disk, an
  interrupt) is a parameter of the operations whose clean-up the code spells out.
\<close>

record file_node =
  f_data :: string
  f_stamp :: nat

record fsys =
  fs_files :: "string \<Rightarrow> file_node option"
  fs_links :: "string \<Rightarrow> bool"
  fs_clock :: nat

definition file_content :: "fsys \<Rightarrow> string \<Rightarrow> string option" where
  "file_content fs p = map_option f_data (fs_files fs p)"

definition not_found :: "string \<Rightarrow> exn" where
  "not_found p = OSError ''FileNotFoundError'' p"

definition read_file :: "fsys \<Rightarrow> string \<Rightarrow> exn + string" where
  "read_file fs p = (case fs_files fs p of Some f \<Rightarrow> Inr (f_data f) | None \<Rightarrow> Inl (not_found p))"

text \<open>\<open>open(p, "w").write(data)\<close>, \<open>os.replace(src, dst)\<close>, \<open>os.remove(p)\<close>\<close>

definition write_file :: "string \<Rightarrow> string \<Rightarrow> fsys \<Rightarrow> fsys" where
  "write_file p data fs =
     fs\<lparr>fs_files := (fs_files fs)(p := Some \<lparr>f_data = data, f_stamp = fs_clock fs\<rparr>),
        fs_clock := Suc (fs_clock fs)\<rparr>"

definition os_replace :: "string \<Rightarrow> string \<Rightarrow> fsys \<Rightarrow> exn + fsys" where
  "os_replace src dst fs =
     (case fs_files fs src of
        None \<Rightarrow> Inl (not_found src)
      | Some f \<Rightarrow> Inr (fs\<lparr>fs_files := ((fs_files fs)(src := None))(dst := Some f)\<rparr>))"

definition remove_file :: "string \<Rightarrow> fsys \<Rightarrow> fsys" where
  "remove_file p fs = fs\<lparr>fs_files := (fs_files fs)(p := None)\<rparr>"

subsection \<open>The interface of the output writers\<close>

text \<open>
  Every generator installs its outputs through a writer that leaves an up-to-date file alone.
  \<open>staged p\<close> is the set of paths a writer may use on the way to \<open>p\<close>.
\<close>

locale output_writer =
  fixes install :: "string \<Rightarrow> string \<Rightarrow> fsys \<Rightarrow> exn + fsys"
    and staged :: "string \<Rightarrow> string set"
  assumes installs: "install p data fs = Inr fs' \<Longrightarrow> file_content fs' p = Some data"
    and current: "file_content fs p = Some data \<Longrightarrow> install p data fs = Inr fs' \<Longrightarrow> fs_files fs' p = fs_files fs p"
    and others: "install p data fs = Inr fs' \<Longrightarrow> q \<noteq> p \<Longrightarrow> q \<notin> staged p \<Longrightarrow> fs_files fs' q = fs_files fs q"
    and returns: "\<exists>fs'. install p data fs = Inr fs'"
begin

definition install_all :: "(string \<times> string) list \<Rightarrow> fsys \<Rightarrow> exn + fsys" where
  "install_all items fs = fold_r (\<lambda>pd. install (fst pd) (snd pd)) items fs"

definition separate :: "(string \<times> string) list \<Rightarrow> bool" where
  "separate items = (distinct (map fst items)
     \<and> (\<forall>p \<in> set (map fst items). \<forall>q \<in> set (map fst items). p \<notin> staged q))"

lemma install_all_others:
  "install_all items fs = Inr fs' \<Longrightarrow> q \<notin> set (map fst items) \<Longrightarrow>
   (\<forall>p \<in> set (map fst items). q \<notin> staged p) \<Longrightarrow> fs_files fs' q = fs_files fs q"
  unfolding install_all_def
proof (induction items arbitrary: fs)
  case (Cons pd items)
  then obtain fs1 where "install (fst pd) (snd pd) fs = Inr fs1"
    "fold_r (\<lambda>pd. install (fst pd) (snd pd)) items fs1 = Inr fs'" by (auto simp: result_simps)
  with Cons others [of "fst pd" "snd pd" fs fs1 q] show ?case by auto
qed simp

lemma install_all_content:
  "install_all items fs = Inr fs' \<Longrightarrow> separate items \<Longrightarrow> (p, data) \<in> set items \<Longrightarrow> file_content fs' p = Some data"
proof (induction items arbitrary: fs)
  case (Cons pd items)
  then obtain fs1 where 1: "install (fst pd) (snd pd) fs = Inr fs1" "install_all items fs1 = Inr fs'"
    by (auto simp: result_simps install_all_def)
  show ?case
  proof (cases "(p, data) = pd")
    case True
    then have "p \<notin> set (map fst items)" "\<forall>q \<in> set (map fst items). p \<notin> staged q"
      using Cons.prems(2) by (auto simp: separate_def image_iff)
    from install_all_others [OF 1(2) this] installs [OF 1(1)] True show ?thesis
      by (auto simp: file_content_def)
  next
    case False
    with Cons.prems have "separate items" "(p, data) \<in> set items" by (auto simp: separate_def)
    with Cons.IH [OF 1(2)] show ?thesis by simp
  qed
qed simp

lemma install_all_current:
  "(\<And>p data. (p, data) \<in> set items \<Longrightarrow> file_content fs p = Some data) \<Longrightarrow> separate items \<Longrightarrow>
   install_all items fs = Inr fs' \<Longrightarrow> (\<forall>p \<in> set (map fst items). q \<notin> staged p) \<Longrightarrow> fs_files fs' q = fs_files fs q"
proof (induction items arbitrary: fs)
  case (Cons pd items)
  then obtain fs1 where 1: "install (fst pd) (snd pd) fs = Inr fs1" "install_all items fs1 = Inr fs'"
    by (auto simp: result_simps install_all_def)
  have same: "fs_files fs1 x = fs_files fs x" if "x \<notin> staged (fst pd)" for x
    using current [OF _ 1(1)] others [OF 1(1), of x] Cons.prems(1) [of "fst pd" "snd pd"] that
    by (cases "x = fst pd") auto
  have "file_content fs1 p = Some data" if "(p, data) \<in> set items" for p data
    using that Cons.prems(1,2) same [of p] by (force simp: separate_def file_content_def)
  moreover have "separate items" using Cons.prems(2) by (auto simp: separate_def)
  ultimately have "fs_files fs' q = fs_files fs1 q" using Cons.IH [of fs1] 1(2) Cons.prems(4) by simp
  with same [of q] Cons.prems(4) show ?case by simp
qed (simp add: install_all_def)

lemma install_all_returns: "\<exists>fs'. install_all items fs = Inr fs'"
  unfolding install_all_def
proof (induction items arbitrary: fs)
  case (Cons pd items)
  then show ?case using returns [of "fst pd" "snd pd" fs] by auto
qed simp

text \<open>A second run changes no file, not even a time stamp.\<close>

lemma install_all_idempotent:
  assumes "install_all items fs = Inr fs'" and "separate items" and "install_all items fs' = Inr fs''"
    and "\<forall>p \<in> set (map fst items). q \<notin> staged p"
  shows "fs_files fs'' q = fs_files fs' q"
  using install_all_content [OF assms(1,2)] assms(2-4) by (rule install_all_current)

end

subsection \<open>Writers\<close>

text \<open>\<open>aconfig._write_if_changed\<close>\<close>

definition tmp_path :: "string \<Rightarrow> string" where
  "tmp_path p = p @ ''.tmp''"

definition write_if_changed :: "string \<Rightarrow> string \<Rightarrow> fsys \<Rightarrow> exn + fsys" where
  "write_if_changed path content fs =
     (if (case fs_files fs path of Some f \<Rightarrow> f_data f = content | None \<Rightarrow> False) then Inr fs
      else os_replace (tmp_path path) path (write_file (tmp_path path) content fs))"

text \<open>\<open>codegen._files_equal\<close> and \<open>codegen._replace_if_changed\<close>\<close>

definition files_equal :: "string \<Rightarrow> string \<Rightarrow> fsys \<Rightarrow> exn + bool" where
  "files_equal a b fs = rbind (read_file fs a) (\<lambda>x. rbind (read_file fs b) (\<lambda>y. Inr (x = y)))"

definition replace_if_changed :: "string \<Rightarrow> string \<Rightarrow> fsys \<Rightarrow> exn + fsys" where
  "replace_if_changed staged_path output_path fs =
     rbind (if fs_files fs output_path \<noteq> None then files_equal staged_path output_path fs else Inr False)
       (\<lambda>same. if same then Inr (remove_file staged_path fs) else os_replace staged_path output_path fs)"

text \<open>Writing the staged file and installing it, as the generators of \<open>codegen.py\<close> do.\<close>

definition stage_and_install :: "string \<Rightarrow> string \<Rightarrow> fsys \<Rightarrow> exn + fsys" where
  "stage_and_install path content fs =
     replace_if_changed (tmp_path path) path (write_file (tmp_path path) content fs)"

lemma tmp_path_neq [simp]: "tmp_path p \<noteq> p" "p \<noteq> tmp_path p"
  by (simp_all add: tmp_path_def)

lemma file_content_eq: "(case fs_files fs p of Some f \<Rightarrow> f_data f = d | None \<Rightarrow> False) \<longleftrightarrow> file_content fs p = Some d"
  by (auto simp: file_content_def split: option.splits)

lemma write_if_changed_cases:
  "write_if_changed p d fs = (if file_content fs p = Some d then Inr fs else
     Inr (fs\<lparr>fs_files := (fs_files fs)(tmp_path p := None, p := Some \<lparr>f_data = d, f_stamp = fs_clock fs\<rparr>),
       fs_clock := Suc (fs_clock fs)\<rparr>))"
  by (simp add: write_if_changed_def file_content_eq os_replace_def write_file_def)

lemma stage_and_install_cases:
  "stage_and_install p d fs = (if file_content fs p = Some d
     then Inr (fs\<lparr>fs_files := (fs_files fs)(tmp_path p := None), fs_clock := Suc (fs_clock fs)\<rparr>)
     else Inr (fs\<lparr>fs_files := (fs_files fs)(tmp_path p := None, p := Some \<lparr>f_data = d, f_stamp = fs_clock fs\<rparr>),
       fs_clock := Suc (fs_clock fs)\<rparr>))"
  by (auto simp: stage_and_install_def replace_if_changed_def files_equal_def read_file_def os_replace_def
      write_file_def remove_file_def file_content_def split: option.splits)

interpretation changed: output_writer write_if_changed "\<lambda>p. {tmp_path p}"
  by unfold_locales (auto simp: write_if_changed_cases file_content_def split: if_splits)

interpretation installed: output_writer stage_and_install "\<lambda>p. {tmp_path p}"
  by unfold_locales (auto simp: stage_and_install_cases file_content_def split: if_splits)

subsection \<open>Atomic replacement\<close>

text \<open>
  The writers of \<open>__main__.py\<close> and \<open>capture_output.py\<close>: a fresh temporary file beside the output is
  written, synced and renamed over it; whatever interrupts this, the temporary file is removed and
  the exception passed on. \<open>fault\<close> says which step is interrupted.
\<close>

datatype fs_step = StageWrite | StageSync | StageRename

definition staged_write ::
  "(fs_step \<Rightarrow> exn option) \<Rightarrow> string \<Rightarrow> string \<Rightarrow> string \<Rightarrow> fsys \<Rightarrow> exn option \<times> fsys" where
  "staged_write fault staged path data fs =
     (let fs0 = write_file staged [] fs in
      case fault StageWrite of
        Some e \<Rightarrow> (Some e, remove_file staged fs0)
      | None \<Rightarrow>
          let fs1 = write_file staged data fs0 in
          case fault StageSync of
            Some e \<Rightarrow> (Some e, remove_file staged fs1)
          | None \<Rightarrow>
              (case fault StageRename of
                 Some e \<Rightarrow> (Some e, remove_file staged fs1)
               | None \<Rightarrow>
                   (case os_replace staged path fs1 of
                      Inl e \<Rightarrow> (Some e, remove_file staged fs1)
                    | Inr fs2 \<Rightarrow> (None, fs2))))"

lemma staged_write_cases:
  assumes "staged_write fault staged path data fs = (e, fs')" "staged \<noteq> path"
  shows "(e = None \<and> fs_files fs' = (fs_files fs)(staged := None, path := Some \<lparr>f_data = data, f_stamp = Suc (fs_clock fs)\<rparr>))
    \<or> (e \<noteq> None \<and> fs_files fs' = (fs_files fs)(staged := None))"
  using assms by (auto simp: staged_write_def Let_def write_file_def remove_file_def os_replace_def split: option.splits)

lemma staged_write_no_fault:
  "(\<And>s. fault s = None) \<Longrightarrow> \<exists>fs'. staged_write fault staged path data fs = (None, fs')"
  by (simp add: staged_write_def Let_def write_file_def os_replace_def)

end
