(* ===== verification/BpMain.thy ===== *)
theory BpMain
  imports BpEmitProps BpTarget BpJson BpFiles "HOL-Library.Product_Lexorder" "HOL-Library.Multiset"
begin

section \<open>The command line\<close>

text \<open>
  \<open>tools/bp2cmake/bp2cmake/__main__.py\<close>, from the parsed arguments on. The environment is the
  record \<open>world\<close>: what \<open>os.walk\<close> finds below a root, the working directory, glob expansion, the
  SHA-256 function, the loaders of overlay files (which execute Python), the names \<open>mkstemp\<close>
  picks, and the faults that may interrupt a write. Files are the state \<open>fsys\<close>. \<open>parser.error\<close>
  leaves the program as \<open>SystemExit\<close>; warnings and progress lines are not modelled.
\<close>

record main_args =
  a_root :: string
  a_overlay :: "string option"
  a_overlay_factory :: "string option"
  a_target_id :: "string option"
  a_modules :: "string list"
  a_root_modules :: "string list"
  a_out :: "string option"
  a_manifest_out :: "string option"
  a_profile_out :: "string option"
  a_check :: bool
  a_list_only :: bool
  a_extra_roots :: "string list"
  a_os :: "string option"
  a_arch :: "string option"

record world =
  w_walk :: "string \<Rightarrow> (string \<times> string list) list"
  w_cwd :: string
  w_glob :: "string \<Rightarrow> string list"
  w_sha256 :: "string \<Rightarrow> string"
  w_limit :: nat
  w_load_overlay :: "string \<Rightarrow> exn + overlay"
  w_load_factory :: "string \<Rightarrow> target_profile \<Rightarrow> exn + overlay"
  w_mkstemp :: "fsys \<Rightarrow> string \<Rightarrow> string"
  w_fault :: "string \<Rightarrow> fs_step \<Rightarrow> exn option"

definition parser_error :: "string \<Rightarrow> exn" where
  "parser_error msg = RaisedError ''SystemExit'' msg"

text \<open>The truth value of an optional string argument, and \<open>x or default\<close>.\<close>

fun given :: "string option \<Rightarrow> bool" where
  "given (Some (c # s)) = True"
| "given _ = False"

fun or_default :: "string option \<Rightarrow> string \<Rightarrow> string" where
  "or_default (Some (c # s)) d = c # s"
| "or_default _ d = d"

subsection \<open>Loading\<close>

definition find_bp_files :: "world \<Rightarrow> string \<Rightarrow> string list \<Rightarrow> string list" where
  "find_bp_files w root names =
     sort (concat (map (\<lambda>(dirpath, files). map (path_join dirpath)
       (filter (\<lambda>f. f \<in> set names \<or> (ends_with ''.bp'' f \<and> ''blueprint-allbp'' \<in> set names)) files)) (w_walk w root)))"

definition input_record :: "string \<Rightarrow> string \<Rightarrow> string \<Rightarrow> dict" where
  "input_record root_var rel digest =
     [(''root_variable'', VStr root_var), (''path'', VStr rel), (''sha256'', VStr digest)]"

record load_state =
  l_ev :: evaluator
  l_records :: "(string \<times> string \<times> string) list"
  l_loaded :: nat

text \<open>
  One iteration of \<open>_load_root\<close>; a record is the triple of root variable, path and digest. An
  exception while the file is loaded is reported and dropped, with what it had changed.
\<close>

definition load_blueprint ::
  "world \<Rightarrow> fsys \<Rightarrow> string \<Rightarrow> string \<Rightarrow> scan_policy \<Rightarrow> string \<Rightarrow> load_state \<Rightarrow> exn + load_state" where
  "load_blueprint w fs root_dir root_var scan blueprint st =
     rbind (relpath (w_cwd w) blueprint root_dir) (\<lambda>rel.
       if scan_excludes scan root_var (split_on slash rel) then Inr st
       else case read_file fs blueprint of
         Inl e \<Rightarrow> Inr st
       | Inr contents \<Rightarrow>
           let (err, ev) = add_file (w_cwd w) contents blueprint root_dir root_var (l_ev st) in
           Inr (case err of
                  Some e \<Rightarrow> st\<lparr>l_ev := ev\<rparr>
                | None \<Rightarrow> \<lparr>l_ev = ev, l_records = l_records st @ [(root_var, rel, w_sha256 w contents)],
                    l_loaded = Suc (l_loaded st)\<rparr>))"

definition load_root ::
  "world \<Rightarrow> fsys \<Rightarrow> string \<Rightarrow> string \<Rightarrow> string list \<Rightarrow> scan_policy \<Rightarrow> load_state \<Rightarrow> exn + load_state" where
  "load_root w fs root_dir root_var names scan st =
     fold_r (load_blueprint w fs root_dir root_var scan) (find_bp_files w root_dir names) st"

subsection \<open>Arguments\<close>

definition resolve_config :: "main_args \<Rightarrow> exn + (target_profile option \<times> config)" where
  "resolve_config args =
     (if given (a_target_id args) then
        if given (a_os args) \<or> given (a_arch args)
        then Inl (parser_error ''--target-id cannot be combined with legacy --os/--arch'')
        else rbind (resolve_target (or_default (a_target_id args) [])) (\<lambda>target.
          rbind (require_generation target) (\<lambda>_. Inr (Some target, config_from_target target False)))
      else if given (a_overlay_factory args) then Inl (parser_error ''--overlay-factory requires --target-id'')
      else let arch = or_default (a_arch args) ''x86_64'' in
        Inr (None, default_config\<lparr>cfg_os := or_default (a_os args) ''linux_glibc'', cfg_arch := arch,
          cfg_bitness := (if contains ''64'' arch then 64 else 32)\<rparr>))"

definition resolve_overlay :: "world \<Rightarrow> main_args \<Rightarrow> target_profile option \<Rightarrow> exn + overlay" where
  "resolve_overlay w args target =
     (if given (a_overlay_factory args) then
        (case target of
           None \<Rightarrow> Inl (AssertionError [])
         | Some t \<Rightarrow> w_load_factory w (or_default (a_overlay_factory args) []) t)
      else if \<not> given (a_overlay args) then Inl (parser_error ''legacy generation requires --overlay'')
      else w_load_overlay w (or_default (a_overlay args) []))"

subsection \<open>Writing\<close>

text \<open>\<open>_write_generated\<close>\<close>

definition write_generated ::
  "world \<Rightarrow> bool \<Rightarrow> string \<Rightarrow> string \<Rightarrow> fsys \<Rightarrow> exn option \<times> fsys" where
  "write_generated w check path content fs =
     (if fs_links fs path then (Some (ValueError (''refusing generated symlink output: '' @ path)), fs)
      else if file_content fs path = Some content then (None, fs)
      else if check then
        (Some (StaleOutput (if file_content fs path = None then ''missing'' else ''stale'') path), fs)
      else staged_write (w_fault w path) (w_mkstemp w fs path) path content fs)"

text \<open>\<open>_reject_bound_paths\<close>\<close>

definition root_spelling :: "world \<Rightarrow> string \<Rightarrow> string" where
  "root_spelling w root = rstrip ''/'' (replace_char (CHR 0x5C) (CHR ''/'') (abspath (w_cwd w) root))"

definition reject_bound_paths :: "world \<Rightarrow> string \<Rightarrow> (string \<times> string) list \<Rightarrow> exn + unit" where
  "reject_bound_paths w output root_paths =
     (let normalized = replace_char (CHR 0x5C) (CHR ''/'') output in
      case filter (\<lambda>root. root_spelling w root \<noteq> [] \<and> contains (root_spelling w root) normalized) (map snd root_paths) of
        [] \<Rightarrow> Inr ()
      | root # _ \<Rightarrow> Inl (ValueError (''generated graph contains bound source path for '' @ py_repr root)))"

subsection \<open>Generation\<close>

text \<open>\<open>spec.rpartition(":")\<close>: what stands before and after the last colon.\<close>

definition rpartition_colon :: "string \<Rightarrow> string \<times> string" where
  "rpartition_colon spec =
     (if CHR '':'' \<in> set spec
      then (rev (drop 1 (dropWhile (\<lambda>c. c \<noteq> CHR '':'') (rev spec))), rev (takeWhile (\<lambda>c. c \<noteq> CHR '':'') (rev spec)))
      else ([], spec))"

definition native_root_var :: string where
  "native_root_var = ''MDVM_NATIVE_SRC_ROOT_DIR''"

definition load_extra_root ::
  "world \<Rightarrow> fsys \<Rightarrow> scan_policy \<Rightarrow> string \<Rightarrow> (string \<times> string) list \<times> load_state
   \<Rightarrow> exn + ((string \<times> string) list \<times> load_state)" where
  "load_extra_root w fs scan spec st =
     (let (directory, variable) = rpartition_colon spec in
      if directory = [] \<or> variable = []
      then Inl (parser_error (''--extra-root must be DIR:CMAKEVAR, got '' @ py_repr spec))
      else rbind (load_root w fs directory variable [''blueprint-allbp''] scan (snd st)) (\<lambda>ls.
        Inr (AList.update variable (abspath (w_cwd w) directory) (fst st), ls)))"

definition load_all ::
  "world \<Rightarrow> fsys \<Rightarrow> main_args \<Rightarrow> config \<Rightarrow> overlay \<Rightarrow> exn + ((string \<times> string) list \<times> load_state)" where
  "load_all w fs args cfg ov =
     rbind (load_root w fs (a_root args) native_root_var [''Android.bp'', ''sources.bp''] (ov_scan ov)
         \<lparr>l_ev = new_evaluator cfg, l_records = [], l_loaded = 0\<rparr>) (\<lambda>ls.
       fold_r (load_extra_root w fs (ov_scan ov)) (a_extra_roots args)
         ([(native_root_var, abspath (w_cwd w) (a_root args))], ls))"

text \<open>The modules to emit: those named, then the closure of the root modules.\<close>

definition chosen_modules :: "world \<Rightarrow> main_args \<Rightarrow> evaluator \<Rightarrow> overlay \<Rightarrow> string list \<Rightarrow> exn + string list" where
  "chosen_modules w args ev ov root_modules =
     rbind (if root_modules \<noteq> [] then dependency_closure (w_limit w) (resolve_typed (w_limit w) ev) ov root_modules
            else Inr []) (\<lambda>closure.
       let modules = extend_new closure (a_modules args) in
       if modules = []
       then Inl (parser_error ''nothing to emit: define overlay product roots or pass --module/--root-module'')
       else Inr modules)"

definition emit_one ::
  "emitter \<Rightarrow> string \<Rightarrow> (dict list \<times> string list) \<times> include_cache \<Rightarrow> exn + ((dict list \<times> string list) \<times> include_cache)" where
  "emit_one em name st =
     rbind (em_resolve em name) (\<lambda>m.
     rbind (module_manifest em m (snd st)) (\<lambda>mani.
     rbind (emit_module em m (snd mani)) (\<lambda>chunk.
       Inr ((fst (fst st) @ [fst mani], snd (fst st) @ [fst chunk]), snd chunk))))"

definition graph_manifest ::
  "world \<Rightarrow> main_args \<Rightarrow> target_profile option \<Rightarrow> config \<Rightarrow> overlay \<Rightarrow> string \<Rightarrow> string list \<Rightarrow>
   (string \<times> string) list \<Rightarrow> load_state \<Rightarrow> dict list \<Rightarrow> string \<Rightarrow> dict" where
  "graph_manifest w args target cfg ov source root_modules root_paths ls module_dicts output =
     [(''schema_version'', VInt 2),
      (''target'', VDict (case target of Some t \<Rightarrow> target_to_dict t
        | None \<Rightarrow> [(''legacy_os'', VStr (cfg_os cfg)), (''legacy_arch'', VStr (cfg_arch cfg)),
            (''pointer_bits'', VInt (cfg_bitness cfg))])),
      (''blueprint_scan_policy'', VDict (scan_to_dict (ov_scan ov))),
      (''root_variables'', VList (map VStr (sort (map fst root_paths)))),
      (''blueprint_inputs'', VList (map (\<lambda>(v, rel, digest). VDict (input_record v rel digest))
        (sort_key (\<lambda>(v, rel, digest). (v, rel)) (l_records ls)))),
      (''root_module_source'', VStr source),
      (''root_modules'', VList (map VStr root_modules)),
      (''modules'', VList (map VDict module_dicts)),
      (''graph_sha256'', VStr (w_sha256 w output))]"

text \<open>
  The writes at the end of \<open>_generate\<close>, in order; the result pairs the exception, if any, and the text
  written to standard output with the file system.
\<close>

definition write_optional ::
  "world \<Rightarrow> bool \<Rightarrow> string option \<Rightarrow> (exn + string) \<Rightarrow> exn option \<times> fsys \<Rightarrow> exn option \<times> fsys" where
  "write_optional w check path content st =
     (case st of
        (Some e, fs) \<Rightarrow> (Some e, fs)
      | (None, fs) \<Rightarrow>
          if given path then
            (case content of Inl e \<Rightarrow> (Some e, fs) | Inr c \<Rightarrow> write_generated w check (or_default path []) c fs)
          else (None, fs))"

definition write_outputs ::
  "world \<Rightarrow> main_args \<Rightarrow> target_profile option \<Rightarrow> string \<Rightarrow> string \<Rightarrow> fsys \<Rightarrow> exn option \<times> fsys" where
  "write_outputs w args target output manifest_text fs =
     write_optional w (a_check args) (a_profile_out args)
       (case target of Some t \<Rightarrow> Inr (to_cmake t)
        | None \<Rightarrow> Inl (parser_error ''--profile-out requires --target-id''))
       (write_optional w (a_check args) (a_manifest_out args) (Inr manifest_text)
         (if given (a_out args) then write_generated w (a_check args) (or_default (a_out args) []) output fs
          else if a_check args then (Some (parser_error ''--check requires --out''), fs)
          else (None, fs)))"

definition main_emitter :: "world \<Rightarrow> overlay \<Rightarrow> (string \<times> string) list \<Rightarrow> evaluator \<Rightarrow> emitter" where
  "main_emitter w ov root_paths ev =
     \<lparr>em_ev = ev, em_limit = w_limit w, em_ov = ov, em_root_paths = root_paths, em_cwd = w_cwd w, em_glob = w_glob w\<rparr>"

text \<open>Everything before the writes: the modules, the CMake text and the manifest text.\<close>

definition build_graph_text ::
  "world \<Rightarrow> fsys \<Rightarrow> main_args \<Rightarrow> target_profile option \<Rightarrow> config \<Rightarrow> overlay \<Rightarrow> exn + (string list \<times> (string \<times> string) option)" where
  "build_graph_text w fs args target cfg ov =
     (if ov_roots ov \<noteq> [] \<and> (a_modules args \<noteq> [] \<or> a_root_modules args \<noteq> [])
      then Inl (parser_error ''overlay-owned product roots cannot be combined with --module or --root-module'')
      else
        let root_modules = (if ov_roots ov \<noteq> [] then ov_roots ov else a_root_modules args);
            source = (if ov_roots ov \<noteq> [] then ''overlay-policy'' else ''command-line'') in
        rbind (load_all w fs args cfg ov) (\<lambda>(root_paths, ls).
        rbind (chosen_modules w args (l_ev ls) ov root_modules) (\<lambda>modules.
        if a_list_only args then Inr (modules, None)
        else
          rbind (fold_r (emit_one (main_emitter w ov root_paths (l_ev ls))) modules (([], []), [])) (\<lambda>res.
          let output = join_lines (snd (fst res)) in
          rbind (reject_bound_paths w output root_paths) (\<lambda>_.
            Inr (modules, Some (output, json_dumps (VDict (graph_manifest w args target cfg ov source root_modules
              root_paths ls (fst (fst res)) output)) @ [newline])))))))"

definition generate_graph ::
  "world \<Rightarrow> main_args \<Rightarrow> target_profile option \<Rightarrow> config \<Rightarrow> overlay \<Rightarrow> fsys \<Rightarrow> (exn + string) \<times> fsys" where
  "generate_graph w args target cfg ov fs =
     (case build_graph_text w fs args target cfg ov of
        Inl e \<Rightarrow> (Inl e, fs)
      | Inr (modules, None) \<Rightarrow> (Inr (concat (map (\<lambda>n. n @ [newline]) modules)), fs)
      | Inr (modules, Some (output, manifest_text)) \<Rightarrow>
          (case write_outputs w args target output manifest_text fs of
             (Some e, fs') \<Rightarrow> (Inl e, fs')
           | (None, fs') \<Rightarrow> (Inr (if given (a_out args) then [] else output), fs')))"

text \<open>\<open>main\<close>: the exit code and the standard output, or the exception that leaves the program.\<close>

fun is_reported :: "exn \<Rightarrow> bool" where
  "is_reported (TargetError _ _) = True"
| "is_reported (StaleOutput _ _) = True"
| "is_reported (ValueError _) = True"
| "is_reported _ = False"

definition main_program :: "world \<Rightarrow> main_args \<Rightarrow> fsys \<Rightarrow> (exn + (nat \<times> string)) \<times> fsys" where
  "main_program w args fs =
     (let run = (case resolve_config args of
            Inl e \<Rightarrow> (Inl e, fs)
          | Inr (target, cfg) \<Rightarrow>
              (case resolve_overlay w args target of
                 Inl e \<Rightarrow> (Inl e, fs)
               | Inr ov \<Rightarrow> generate_graph w args target cfg ov fs)) in
      case run of
        (Inr out, fs') \<Rightarrow> (Inr (0, out), fs')
      | (Inl e, fs') \<Rightarrow> (if is_reported e then Inr (2, []) else Inl e, fs'))"

subsection \<open>Capturing the output of a command\<close>

text \<open>
  \<open>tools/bp2cmake/bp2cmake/capture_output.py\<close>: \<open>run\<close> is the subprocess, its standard output or the
  exception of \<open>check=True\<close>. The exit code is 0 whenever the program returns.
\<close>

definition capture_output_main ::
  "world \<Rightarrow> (string list \<Rightarrow> exn + string) \<Rightarrow> string \<Rightarrow> string list \<Rightarrow> fsys \<Rightarrow> exn option \<times> fsys" where
  "capture_output_main w run output args fs =
     (let command = (case args of c # cs \<Rightarrow> if c = ''--'' then cs else args | [] \<Rightarrow> []) in
      if command = [] then (Some (parser_error ''a command is required after --''), fs)
      else case run command of
        Inl e \<Rightarrow> (Some e, fs)
      | Inr stdout \<Rightarrow>
          if file_content fs output = Some stdout then (None, fs)
          else staged_write (w_fault w output) (w_mkstemp w fs output) output stdout fs)"

subsection \<open>Writes\<close>

lemma write_generated_check: "write_generated w True path content fs = (e, fs') \<Longrightarrow> fs' = fs"
  by (auto simp: write_generated_def split: if_splits)

lemma write_outputs_check: "a_check args \<Longrightarrow> write_outputs w args target output mt fs = (e, fs') \<Longrightarrow> fs' = fs"
  unfolding write_outputs_def write_optional_def
  by (auto split: prod.splits option.splits sum.splits if_splits dest: write_generated_check)

lemma generate_graph_check: "a_check args \<Longrightarrow> snd (generate_graph w args target cfg ov fs) = fs"
  unfolding generate_graph_def
  by (auto split: sum.splits prod.splits option.splits dest: write_outputs_check)

lemma write_generated_all_or_nothing:
  assumes "write_generated w check path content fs = (e, fs')"
    and "fs_files fs (w_mkstemp w fs path) = None" "w_mkstemp w fs path \<noteq> path"
  shows "case e of
      None \<Rightarrow> file_content fs' path = Some content \<and> (\<forall>q. q \<noteq> path \<longrightarrow> fs_files fs' q = fs_files fs q)
    | Some _ \<Rightarrow> fs_files fs' = fs_files fs"
proof -
  have gone: "(fs_files fs)(w_mkstemp w fs path := None) = fs_files fs" using assms(2) by (simp add: fun_upd_idem)
  consider "fs' = fs" "e = None \<longrightarrow> file_content fs path = Some content"
    | "staged_write (w_fault w path) (w_mkstemp w fs path) path content fs = (e, fs')"
    using assms(1) by (auto simp: write_generated_def split: if_splits)
  then show ?thesis
  proof cases
    case 1
    then show ?thesis by (cases e) auto
  next
    case 2
    from staged_write_cases [OF 2 assms(3)] show ?thesis
      unfolding gone by (cases e) (auto simp: file_content_def)
  qed
qed

lemma sort_mset: "mset xs = mset ys \<Longrightarrow> sort xs = sort ys"
  using sorted_list_of_multiset_mset [of xs] sorted_list_of_multiset_mset [of ys] by simp

subsection \<open>Properties\<close>

text \<open>C19. Writing a generated file is all or nothing, whatever step is interrupted: either the call
  returns, the output holds the new text and no other file has changed, or it raises and the file
  system is as before, without a leftover temporary file.\<close>

theorem write_generated_atomic:
  assumes "write_generated w check path content fs = (e, fs')"
    and "fs_files fs (w_mkstemp w fs path) = None" "w_mkstemp w fs path \<noteq> path"
  shows "(e = None \<and> file_content fs' path = Some content \<and> (\<forall>q. q \<noteq> path \<longrightarrow> fs_files fs' q = fs_files fs q))
    \<or> (e \<noteq> None \<and> fs_files fs' = fs_files fs)"
  using write_generated_all_or_nothing [OF assms] by (auto split: option.splits)

definition sample_world :: world where
  "sample_world = \<lparr>w_walk = (\<lambda>_. []), w_cwd = ''/'', w_glob = (\<lambda>_. []), w_sha256 = id, w_limit = 9,
     w_load_overlay = (\<lambda>_. Inl (ValueError [])), w_load_factory = (\<lambda>_ _. Inl (ValueError [])),
     w_mkstemp = (\<lambda>_ p. p @ ''.tmp''), w_fault = (\<lambda>_ s. if s = StageRename then Some (OSError ''OSError'' []) else None)\<rparr>"

definition no_files :: fsys where
  "no_files = \<lparr>fs_files = (\<lambda>_. None), fs_links = (\<lambda>_. False), fs_clock = 0\<rparr>"

theorem write_generated_atomic_witness:
  "fst (write_generated sample_world False ''out.cmake'' ''x'' no_files) = Some (OSError ''OSError'' [])
   \<and> fs_files (snd (write_generated sample_world False ''out.cmake'' ''x'' no_files)) = fs_files no_files"
proof -
  let ?r = "write_generated sample_world False ''out.cmake'' ''x'' no_files"
  have e: "fst ?r = Some (OSError ''OSError'' [])"
    by (simp add: write_generated_def sample_world_def no_files_def file_content_def staged_write_def Let_def)
  have "?r = (fst ?r, snd ?r)" by simp
  from write_generated_atomic [OF this] e show ?thesis by (simp add: sample_world_def no_files_def)
qed

text \<open>C20. With \<open>--check\<close> the program changes no file, on any arguments and any outcome.\<close>

theorem check_changes_nothing:
  assumes "a_check args"
  shows "snd (main_program w args fs) = fs"
  using generate_graph_check [OF assms, of w]
  by (auto simp: main_program_def Let_def split: sum.splits prod.splits) (metis snd_conv)+

definition sample_args :: main_args where
  "sample_args = \<lparr>a_root = ''/src'', a_overlay = None, a_overlay_factory = Some ''p.py'', a_target_id = Some ''linux-x64'',
     a_modules = [], a_root_modules = [], a_out = Some ''out.cmake'', a_manifest_out = None, a_profile_out = None,
     a_check = True, a_list_only = False, a_extra_roots = [], a_os = None, a_arch = None\<rparr>"

theorem check_changes_nothing_witness:
  "snd (main_program sample_world sample_args no_files) = no_files"
  by (rule check_changes_nothing) (simp add: sample_args_def)

text \<open>The order in which the file system lists directories and their entries does not matter: the
  Blueprint files are loaded in the same order.\<close>

theorem find_bp_files_order:
  assumes "mset (map (map_prod id mset) (w_walk w root)) = mset (map (map_prod id mset) (w_walk w' root))"
  shows "find_bp_files w root names = find_bp_files w' root names"
proof -
  let ?ok = "\<lambda>f. f \<in> set names \<or> (ends_with ''.bp'' f \<and> ''blueprint-allbp'' \<in> set names)"
  let ?entry = "\<lambda>(d, fs). image_mset (path_join d) (filter_mset ?ok fs)"
  have "mset (concat (map (\<lambda>(d, fs). map (path_join d) (filter ?ok fs)) xs))
      = \<Sum>\<^sub># (image_mset ?entry (mset (map (map_prod id mset) xs)))" for xs
    by (induction xs) auto
  with assms have "mset (concat (map (\<lambda>(d, fs). map (path_join d) (filter ?ok fs)) (w_walk w root)))
      = mset (concat (map (\<lambda>(d, fs). map (path_join d) (filter ?ok fs)) (w_walk w' root)))" by simp
  then show ?thesis unfolding find_bp_files_def by (rule sort_mset)
qed

theorem find_bp_files_order_witness:
  "find_bp_files (sample_world\<lparr>w_walk := \<lambda>_. [(''b'', [''Android.bp'', ''x.cc'']), (''a'', [''Android.bp''])]\<rparr>) ''r'' [''Android.bp'']
   = find_bp_files (sample_world\<lparr>w_walk := \<lambda>_. [(''a'', [''Android.bp'']), (''b'', [''x.cc'', ''Android.bp''])]\<rparr>) ''r'' [''Android.bp'']"
  by (rule find_bp_files_order) (simp add: ac_simps)

end
