(* ===== verification/BpAconfig.thy ===== *)
theory BpAconfig
  imports BpFiles
begin

section \<open>Feature-flag headers\<close>

text \<open>
  \<open>tools/bp2cmake/bp2cmake/aconfig.py\<close>: the parser of \<open>.aconfig\<close> declarations, the C++ and Java
  renderers, and the two generators. The regular expressions are written as the searches they
  perform: leftmost match, and what each repetition can take is decided by the next character.
\<close>

record flag =
  fl_name :: string
  fl_read_only :: bool
  fl_enabled :: bool

record package =
  pk_package :: string
  pk_flags :: "flag list"

definition pkg_namespace :: "package \<Rightarrow> string" where
  "pkg_namespace pkg = join_str ''::'' (split_on CHR ''.'' (pk_package pkg))"

definition c_prefix :: "package \<Rightarrow> string" where
  "c_prefix pkg = replace_char (CHR ''.'') (CHR ''_'') (pk_package pkg)"

definition header_name :: "package \<Rightarrow> string" where
  "header_name pkg = c_prefix pkg @ ''.h''"

definition upper :: "string \<Rightarrow> string" where
  "upper s = map upper_char s"

definition macro_prefix :: "package \<Rightarrow> string" where
  "macro_prefix pkg = upper (c_prefix pkg)"

subsection \<open>Lines and searches\<close>

definition is_line_end :: "char \<Rightarrow> bool" where
  "is_line_end c = (code_point c \<in> {10, 11, 12, 13, 28, 29, 30, 133})"

text \<open>\<open>str.splitlines()\<close>\<close>

function split_lines :: "string \<Rightarrow> string list" where
  "split_lines s =
     (if s = [] then []
      else takeWhile (\<lambda>c. \<not> is_line_end c) s #
        (case dropWhile (\<lambda>c. \<not> is_line_end c) s of
           [] \<Rightarrow> []
         | c # r \<Rightarrow> split_lines (if c = CHR 0x0D \<and> starts_with [CHR 0x0A] r then drop 1 r else r)))"
  by pat_completeness auto
termination split_lines
proof (relation "measure length", goal_cases)
  case (2 s c r)
  have "length (dropWhile (\<lambda>c. \<not> is_line_end c) s) \<le> length s" by (rule length_dropWhile_le)
  with 2 show ?case by auto
qed simp

declare split_lines.simps [simp del]

definition is_space_char :: "char \<Rightarrow> bool" where
  "is_space_char c = (c \<in> set whitespace)"

definition skip_space :: "string \<Rightarrow> string" where
  "skip_space s = dropWhile is_space_char s"

definition is_word_char :: "char \<Rightarrow> bool" where
  "is_word_char c = (is_alnum c \<or> c = CHR ''_'')"

text \<open>\<open>re.search\<close>: the first position at which the pattern matches.\<close>

fun re_search :: "(string \<Rightarrow> 'a option) \<Rightarrow> string \<Rightarrow> 'a option" where
  "re_search f s = (case f s of Some r \<Rightarrow> Some r
     | None \<Rightarrow> (case s of [] \<Rightarrow> None | c # t \<Rightarrow> re_search f t))"

text \<open>\<open>key\s*"([^"]+)"\<close>\<close>

definition match_quoted :: "string \<Rightarrow> string \<Rightarrow> string option" where
  "match_quoted key s =
     (if \<not> starts_with key s then None
      else case skip_space (drop (length key) s) of
        [] \<Rightarrow> None
      | c # t \<Rightarrow>
          let v = takeWhile (\<lambda>d. d \<noteq> CHR 0x22) t in
          if c = CHR 0x22 \<and> v \<noteq> [] \<and> CHR 0x22 \<in> set t then Some v else None)"

text \<open>\<open>is_fixed_read_only:\s*(true|false)\<close>\<close>

definition match_bool :: "string \<Rightarrow> string \<Rightarrow> bool option" where
  "match_bool key s =
     (if \<not> starts_with key s then None
      else let t = skip_space (drop (length key) s) in
        if starts_with ''true'' t then Some True
        else if starts_with ''false'' t then Some False else None)"

text \<open>\<open>state:\s*(\w+)\<close>\<close>

definition match_word :: "string \<Rightarrow> string \<Rightarrow> string option" where
  "match_word key s =
     (if \<not> starts_with key s then None
      else let v = takeWhile is_word_char (skip_space (drop (length key) s)) in
        if v \<noteq> [] then Some v else None)"

text \<open>\<open>_FLAG_RE\<close>: the group of the match at the front, and what follows the match.\<close>

definition match_flag :: "string \<Rightarrow> (string \<times> string) option" where
  "match_flag s =
     (if \<not> starts_with ''flag'' s then None
      else case skip_space (drop 4 s) of
        [] \<Rightarrow> None
      | c # t \<Rightarrow> if c = CHR ''{'' \<and> CHR ''}'' \<in> set t
          then Some (takeWhile (\<lambda>d. d \<noteq> CHR ''}'') t, drop 1 (dropWhile (\<lambda>d. d \<noteq> CHR ''}'') t)) else None)"

lemma match_flag_shorter: "match_flag s = Some (b, r) \<Longrightarrow> length r < length s"
proof -
  assume m: "match_flag s = Some (b, r)"
  then obtain c t where "skip_space (drop 4 s) = c # t" "r = drop 1 (dropWhile (\<lambda>d. d \<noteq> CHR ''}'') t)"
    by (auto simp: match_flag_def split: if_splits list.splits)
  moreover have "length (skip_space (drop 4 s)) \<le> length s"
    unfolding skip_space_def by (metis length_dropWhile_le length_drop diff_le_self le_trans)
  moreover have "length (dropWhile (\<lambda>d. d \<noteq> CHR ''}'') t) \<le> length t" by (rule length_dropWhile_le)
  ultimately show ?thesis by simp
qed

text \<open>
  \<open>_FLAG_RE.findall\<close>; \<open>after_word\<close> says whether the character before is a word character, where
  \<open>\b\<close> fails.
\<close>

function flag_blocks :: "bool \<Rightarrow> string \<Rightarrow> string list" where
  "flag_blocks after_word s =
     (case (if after_word then None else match_flag s) of
        Some (b, r) \<Rightarrow> b # flag_blocks False r
      | None \<Rightarrow> (case s of [] \<Rightarrow> [] | c # t \<Rightarrow> flag_blocks (is_word_char c) t))"
  by pat_completeness auto
termination flag_blocks
  by (relation "measure (\<lambda>(w, s). length s)") (auto split: if_splits dest: match_flag_shorter)

declare flag_blocks.simps [simp del] re_search.simps [simp del]

subsection \<open>Parsing\<close>

definition parse_flag :: "string \<Rightarrow> flag option" where
  "parse_flag block =
     (case re_search (match_quoted ''name:'') block of
        None \<Rightarrow> None
      | Some name \<Rightarrow> Some
          \<lparr>fl_name = name, fl_read_only = (re_search (match_bool ''is_fixed_read_only:'') block = Some True),
           fl_enabled = (re_search (match_word ''state:'') block = Some ''ENABLED'')\<rparr>)"

definition parse_aconfig :: "string \<Rightarrow> package" where
  "parse_aconfig t =
     (let no_comments = join_str [newline]
            (filter (\<lambda>line. \<not> starts_with ''#'' (lstrip whitespace line)) (split_lines t))
      in \<lparr>pk_package = (case re_search (match_quoted ''package:'') no_comments of Some p \<Rightarrow> p | None \<Rightarrow> ''unknown''),
          pk_flags = List.map_filter parse_flag (flag_blocks False no_comments)\<rparr>)"

subsection \<open>Rendering\<close>

definition bool_lit :: "bool \<Rightarrow> string" where
  "bool_lit b = (if b then ''true'' else ''false'')"

definition render_header :: "package \<Rightarrow> string" where
  "render_header pkg =
     (let guard = macro_prefix pkg @ ''_H_'';
          parts = split_on CHR ''.'' (pk_package pkg);
          ns_open = concat (map (\<lambda>p. ''namespace '' @ p @ '' { '') parts);
          ns_close = replicate (length parts) (CHR ''}'')
      in join_str [newline]
        ([''// Generated by bp2cmake.aconfig (host aconfig stand-in). Do not edit.'',
          ''// Source: '' @ pk_package pkg @ '' aconfig declarations.'',
          ''#ifndef '' @ guard, ''#define '' @ guard, []]
         @ map (\<lambda>f. ''#define '' @ macro_prefix pkg @ ''_'' @ upper (fl_name f) @ '' '' @ bool_lit (fl_enabled f))
             (filter fl_read_only (pk_flags pkg))
         @ [[], ''#ifdef __cplusplus'', ns_open]
         @ map (\<lambda>f. if fl_read_only f
             then ''inline constexpr bool '' @ fl_name f @ ''() { return '' @ bool_lit (fl_enabled f) @ ''; }''
             else ''inline bool '' @ fl_name f @ ''() { return '' @ bool_lit (fl_enabled f) @ ''; }'') (pk_flags pkg)
         @ [ns_close @ ''  // '' @ pkg_namespace pkg, ''#endif  // __cplusplus'', [],
            ''#ifdef __cplusplus'', ''extern '' @ [CHR 0x22] @ ''C'' @ [CHR 0x22] @ '' {'', ''#endif'']
         @ map (\<lambda>f. ''inline bool '' @ c_prefix pkg @ ''_'' @ fl_name f @ ''() { return ''
             @ bool_lit (fl_enabled f) @ ''; }'') (pk_flags pkg)
         @ [''#ifdef __cplusplus'', ''}'', ''#endif'', [], ''#endif  // '' @ guard, []]))"

definition camel :: "string \<Rightarrow> string" where
  "camel name =
     (let parts = split_on CHR ''_'' name in
      hd parts @ concat (map (\<lambda>p. upper (take 1 p) @ drop 1 p) (tl parts)))"

definition render_java :: "package \<Rightarrow> string" where
  "render_java pkg = join_str [newline]
     ([''package '' @ pk_package pkg @ '';'', [],
       ''// Generated by bp2cmake.aconfig (host aconfig stand-in). Do not edit.'',
       ''/** @hide */'', ''public final class Flags {'']
      @ map (\<lambda>f. ''    public static final String FLAG_'' @ upper (fl_name f) @ '' = '' @ [CHR 0x22]
          @ pk_package pkg @ ''.'' @ fl_name f @ [CHR 0x22] @ '';'') (pk_flags pkg)
      @ [[]]
      @ map (\<lambda>f. ''    public static boolean '' @ camel (fl_name f) @ ''() { return ''
          @ bool_lit (fl_enabled f) @ ''; }'') (pk_flags pkg)
      @ [''}'', []])"

subsection \<open>Generating\<close>

definition aconfig_step ::
  "(package \<Rightarrow> string) \<Rightarrow> (package \<Rightarrow> string) \<Rightarrow> string \<Rightarrow> string list \<times> fsys \<Rightarrow> exn + (string list \<times> fsys)" where
  "aconfig_step out_path render path st =
     rbind (read_file (snd st) path) (\<lambda>t.
       let pkg = parse_aconfig t in
       rbind (write_if_changed (out_path pkg) (render pkg) (snd st)) (\<lambda>fs.
         Inr (fst st @ [out_path pkg], fs)))"

definition generate_java :: "string list \<Rightarrow> string \<Rightarrow> fsys \<Rightarrow> exn + (string list \<times> fsys)" where
  "generate_java files out_dir fs =
     fold_r (aconfig_step (\<lambda>pkg. path_join (foldl path_join out_dir (split_on CHR ''.'' (pk_package pkg))) ''Flags.java'')
       render_java) files ([], fs)"

definition generate :: "string list \<Rightarrow> string \<Rightarrow> fsys \<Rightarrow> exn + (string list \<times> fsys)" where
  "generate files out_dir fs =
     fold_r (aconfig_step (\<lambda>pkg. path_join out_dir (header_name pkg)) render_header) files ([], fs)"

subsection \<open>Reading printed declarations\<close>

text \<open>The canonical text of a package, one declaration per line.\<close>

definition flag_lines :: "flag \<Rightarrow> string list" where
  "flag_lines f = [''flag {'', ''  name: '' @ [CHR 0x22] @ fl_name f @ [CHR 0x22],
     ''  is_fixed_read_only: '' @ bool_lit (fl_read_only f),
     ''  state: '' @ (if fl_enabled f then ''ENABLED'' else ''DISABLED''), ''}'']"

definition aconfig_text :: "package \<Rightarrow> string" where
  "aconfig_text pkg = join_str [newline]
     ((''package: '' @ [CHR 0x22] @ pk_package pkg @ [CHR 0x22]) # concat (map flag_lines (pk_flags pkg)))"

definition plain_name :: "string \<Rightarrow> bool" where
  "plain_name n = (n \<noteq> [] \<and> (\<forall>c \<in> set n. is_word_char c \<or> c = CHR ''.''))"

definition name_char :: "char \<Rightarrow> bool" where
  "name_char c = (is_word_char c \<or> c = CHR ''.'')"

lemma name_char_not:
  assumes "name_char c"
  shows "c \<noteq> CHR 0x22" "c \<noteq> CHR ''{''" "c \<noteq> CHR ''}''" "c \<noteq> CHR '':''" "\<not> is_space_char c" "\<not> is_line_end c"
proof -
  have "\<not> name_char (CHR 0x22)" "\<not> name_char (CHR ''{'')" "\<not> name_char (CHR ''}'')" "\<not> name_char (CHR '':'')" by code_simp+
  then show "c \<noteq> CHR 0x22" "c \<noteq> CHR ''{''" "c \<noteq> CHR ''}''" "c \<noteq> CHR '':''" using assms by auto
  have "\<forall>d \<in> set whitespace. \<not> name_char d" by code_simp
  then show "\<not> is_space_char c" using assms by (auto simp: is_space_char_def)
  show "\<not> is_line_end c"
  proof
    assume "is_line_end c"
    then have "code_point c \<in> set [10, 11, 12, 13, 28, 29, 30, 133]" by (simp add: is_line_end_def)
    then have "char_of (code_point c) \<in> char_of ` set [10::nat, 11, 12, 13, 28, 29, 30, 133]" by (rule imageI)
    then have "c \<in> set (map char_of [10::nat, 11, 12, 13, 28, 29, 30, 133])" by (simp add: code_point_def)
    moreover have "\<forall>d \<in> set (map char_of [10::nat, 11, 12, 13, 28, 29, 30, 133]). \<not> name_char d" by code_simp
    ultimately show False using assms by blast
  qed
qed

lemma split_lines_line:
  assumes "\<forall>c \<in> set l. \<not> is_line_end c"
  shows "split_lines (l @ newline # s) = l # split_lines s" "l \<noteq> [] \<Longrightarrow> split_lines l = [l]"
proof -
  have n: "is_line_end newline" by (simp add: is_line_end_def newline_def code_point_def)
  have "takeWhile (\<lambda>c. \<not> is_line_end c) (l @ newline # s) = l" "dropWhile (\<lambda>c. \<not> is_line_end c) (l @ newline # s) = newline # s"
    using assms n by (simp_all add: takeWhile_append dropWhile_append)
  then show "split_lines (l @ newline # s) = l # split_lines s"
    by (subst split_lines.simps) (simp add: newline_def)
  assume "l \<noteq> []"
  have "takeWhile (\<lambda>c. \<not> is_line_end c) l = l" "dropWhile (\<lambda>c. \<not> is_line_end c) l = []"
    using assms by (simp_all add: takeWhile_eq_all_conv dropWhile_eq_Nil_conv)
  with \<open>l \<noteq> []\<close> show "split_lines l = [l]"
    by (subst split_lines.simps) (simp del: dropWhile_eq_Nil_conv takeWhile_eq_all_conv)
qed

lemma split_lines_join:
  assumes "\<forall>l \<in> set (x # xs). l \<noteq> [] \<and> (\<forall>c \<in> set l. \<not> is_line_end c)"
  shows "split_lines (join_str [newline] (x # xs)) = x # xs"
  using assms
proof (induction xs arbitrary: x)
  case Nil
  then show ?case by (simp add: split_lines_line(2))
next
  case (Cons y ys)
  then show ?case by (simp add: split_lines_line(1))
qed

lemma printed_lines:
  assumes "plain_name (pk_package pkg)" "\<forall>f \<in> set (pk_flags pkg). plain_name (fl_name f)"
  shows "\<forall>l \<in> set ((''package: '' @ [CHR 0x22] @ pk_package pkg @ [CHR 0x22]) # concat (map flag_lines (pk_flags pkg))).
    l \<noteq> [] \<and> (\<forall>c \<in> set l. \<not> is_line_end c) \<and> \<not> starts_with ''#'' (lstrip whitespace l)"
proof -
  have name: "\<forall>c \<in> set n. \<not> is_line_end c" if "plain_name n" for n
    using that name_char_not(6) by (auto simp: plain_name_def name_char_def)
  have lit: "\<forall>c \<in> set ''package: ''. \<not> is_line_end c" "\<forall>c \<in> set ''flag {''. \<not> is_line_end c"
    "\<forall>c \<in> set ''  name: ''. \<not> is_line_end c" "\<forall>c \<in> set ''  is_fixed_read_only: ''. \<not> is_line_end c"
    "\<forall>c \<in> set ''  state: ''. \<not> is_line_end c" "\<forall>c \<in> set ''ENABLED''. \<not> is_line_end c"
    "\<forall>c \<in> set ''DISABLED''. \<not> is_line_end c" "\<forall>c \<in> set [CHR 0x22]. \<not> is_line_end c"
    "\<forall>c \<in> set ''}''. \<not> is_line_end c" "\<forall>c \<in> set (bool_lit b). \<not> is_line_end c" for b
    by (simp_all add: is_line_end_def code_point_def bool_lit_def)
  have ws: "CHR '' '' \<in> set whitespace" "CHR ''p'' \<notin> set whitespace" "CHR ''f'' \<notin> set whitespace"
    "CHR ''n'' \<notin> set whitespace" "CHR ''i'' \<notin> set whitespace" "CHR ''s'' \<notin> set whitespace" "CHR ''}'' \<notin> set whitespace"
    by code_simp+
  have pkg: "''package: '' @ [CHR 0x22] @ pk_package pkg @ [CHR 0x22] \<noteq> []
      \<and> (\<forall>c \<in> set (''package: '' @ [CHR 0x22] @ pk_package pkg @ [CHR 0x22]). \<not> is_line_end c)
      \<and> \<not> starts_with ''#'' (lstrip whitespace (''package: '' @ [CHR 0x22] @ pk_package pkg @ [CHR 0x22]))"
    using lit(1,8) name [OF assms(1)] ws by (simp add: lstrip_def)
  have "l \<noteq> [] \<and> (\<forall>c \<in> set l. \<not> is_line_end c) \<and> \<not> starts_with ''#'' (lstrip whitespace l)"
    if "f \<in> set (pk_flags pkg)" "l \<in> set (flag_lines f)" for f l
    using that(2) name [of "fl_name f"] assms(2) that(1) lit ws by (auto simp: flag_lines_def lstrip_def split: if_splits)
  with pkg show ?thesis by auto
qed

text \<open>The declarations as one string: what follows a flag name, and a whole block.\<close>

definition flag_tail :: "bool \<Rightarrow> bool \<Rightarrow> string" where
  "flag_tail ro en = newline # ''  is_fixed_read_only: '' @ bool_lit ro @ newline # ''  state: ''
     @ (if en then ''ENABLED'' else ''DISABLED'') @ [newline]"

definition flag_body :: "flag \<Rightarrow> string" where
  "flag_body f = newline # ''  name: '' @ [CHR 0x22] @ fl_name f @ [CHR 0x22] @ flag_tail (fl_read_only f) (fl_enabled f)"

definition flag_block :: "flag \<Rightarrow> string" where
  "flag_block f = newline # ''flag {'' @ flag_body f @ ''}''"

lemma join_flag_lines:
  "join_str [newline] (x # concat (map flag_lines fs)) = x @ concat (map flag_block fs)"
proof (induction fs arbitrary: x)
  case (Cons f fs)
  show ?case using Cons [of "''}''"]
    by (simp add: flag_lines_def flag_block_def flag_body_def flag_tail_def)
qed simp

lemma re_search_hit: "f s = Some r \<Longrightarrow> re_search f s = Some r"
  by (subst re_search.simps) simp

lemma re_search_miss: "f (c # s) = None \<Longrightarrow> re_search f (c # s) = re_search f s"
  by (subst re_search.simps) simp

lemma re_search_skip_name:
  assumes "\<And>s. f s \<noteq> None \<Longrightarrow> starts_with key s" "CHR '':'' \<in> set key" "CHR 0x22 \<notin> set key" "\<forall>c \<in> set n. name_char c"
  shows "re_search f (n @ CHR 0x22 # s) = re_search f (CHR 0x22 # s)"
  using assms(4)
proof (induction n)
  case (Cons c n)
  have "\<not> starts_with key ((c # n) @ CHR 0x22 # s)"
  proof
    assume "starts_with key ((c # n) @ CHR 0x22 # s)"
    then have "prefix key (c # n) \<or> (\<exists>r. key = (c # n) @ CHR 0x22 # r)"
      by (auto simp: prefix_append prefix_Cons)
    then show False
    proof
      assume "prefix key (c # n)"
      then have "CHR '':'' \<in> set (c # n)" using assms(2) set_mono_prefix by blast
      with Cons.prems name_char_not(4) show False by blast
    next
      assume "\<exists>r. key = (c # n) @ CHR 0x22 # r"
      with assms(3) show False by auto
    qed
  qed
  then have "f ((c # n) @ CHR 0x22 # s) = None" using assms(1) by blast
  with Cons show ?case by (simp add: re_search_miss)
qed simp

lemma space_chars: "is_space_char (CHR '' '')" "\<not> is_space_char (CHR 0x22)" "\<not> is_space_char (CHR ''{'')"
  by code_simp+

lemma match_quoted_value:
  assumes "\<forall>c \<in> set n. name_char c" "n \<noteq> []"
  shows "match_quoted key (key @ '' '' @ CHR 0x22 # n @ CHR 0x22 # s) = Some n"
proof -
  have "skip_space ('' '' @ CHR 0x22 # n @ CHR 0x22 # s) = CHR 0x22 # n @ CHR 0x22 # s"
    using space_chars by (simp add: skip_space_def)
  moreover have "takeWhile (\<lambda>d. d \<noteq> CHR 0x22) (n @ CHR 0x22 # s) = n"
    using assms(1) name_char_not(1) by (intro takeWhile_append_stop) auto
  ultimately show ?thesis using assms(2) by (simp add: match_quoted_def)
qed

lemma not_prefix_key [simp]:
  "match_quoted (k # ks) (c # s) = None" "match_bool (k # ks) (c # s) = None" "match_word (k # ks) (c # s) = None"
  if "c \<noteq> k"
  using that by (simp_all add: match_quoted_def match_bool_def match_word_def)

lemma tail_searches:
  "\<forall>ro en. re_search (match_bool ''is_fixed_read_only:'') (CHR 0x22 # flag_tail ro en) = Some ro"
  "\<forall>ro en. re_search (match_word ''state:'') (CHR 0x22 # flag_tail ro en) = Some (if en then ''ENABLED'' else ''DISABLED'')"
  by code_simp+

lemma parse_flag_body:
  assumes "plain_name (fl_name f)"
  shows "parse_flag (flag_body f) = Some f"
proof -
  have n: "\<forall>c \<in> set (fl_name f). name_char c" "fl_name f \<noteq> []"
    using assms by (auto simp: plain_name_def name_char_def)
  let ?tail = "flag_tail (fl_read_only f) (fl_enabled f)"
  have nl: "newline \<noteq> CHR ''n''" "newline \<noteq> CHR ''i''" "newline \<noteq> CHR ''s''" by (simp_all add: newline_def)
  have "re_search (match_quoted ''name:'') (flag_body f) = re_search (match_quoted ''name:'')
      (''name:'' @ '' '' @ CHR 0x22 # fl_name f @ CHR 0x22 # ?tail)"
    using nl by (simp add: flag_body_def re_search_miss)
  also have "\<dots> = Some (fl_name f)" by (rule re_search_hit) (rule match_quoted_value [OF n])
  finally have name: "re_search (match_quoted ''name:'') (flag_body f) = Some (fl_name f)" .
  have "re_search (match_bool ''is_fixed_read_only:'') (flag_body f)
      = re_search (match_bool ''is_fixed_read_only:'') (fl_name f @ CHR 0x22 # ?tail)"
    using nl by (simp add: flag_body_def re_search_miss)
  also have "\<dots> = re_search (match_bool ''is_fixed_read_only:'') (CHR 0x22 # ?tail)"
    by (rule re_search_skip_name [where key = "''is_fixed_read_only:''", OF _ _ _ n(1)])
      (auto simp: match_bool_def split: if_splits)
  also have "\<dots> = Some (fl_read_only f)"
    using tail_searches(1) by blast
  finally have ro: "re_search (match_bool ''is_fixed_read_only:'') (flag_body f) = Some (fl_read_only f)" .
  have "re_search (match_word ''state:'') (flag_body f)
      = re_search (match_word ''state:'') (fl_name f @ CHR 0x22 # ?tail)"
    using nl by (simp add: flag_body_def re_search_miss)
  also have "\<dots> = re_search (match_word ''state:'') (CHR 0x22 # ?tail)"
    by (rule re_search_skip_name [where key = "''state:''", OF _ _ _ n(1)])
      (auto simp: match_word_def split: if_splits)
  also have "\<dots> = Some (if fl_enabled f then ''ENABLED'' else ''DISABLED'')"
    using tail_searches(2) by blast
  finally have st: "re_search (match_word ''state:'') (flag_body f) = Some (if fl_enabled f then ''ENABLED'' else ''DISABLED'')" .
  show ?thesis using name ro st by (cases f) (simp add: parse_flag_def)
qed

lemma flag_blocks_step:
  "match_flag (c # s) = None \<Longrightarrow> flag_blocks w (c # s) = flag_blocks (is_word_char c) s"
  by (subst flag_blocks.simps) simp

lemma match_flag_other: "c \<noteq> CHR ''f'' \<Longrightarrow> match_flag (c # s) = None"
  by (simp add: match_flag_def)

lemma match_flag_name:
  assumes "\<forall>c \<in> set (c # n). name_char c"
  shows "match_flag ((c # n) @ CHR 0x22 # s) = None"
proof -
  have skip: "skip_space (rest @ CHR 0x22 # s) = rest @ CHR 0x22 # s
      \<and> hd (rest @ CHR 0x22 # s) \<noteq> CHR ''{''" if "\<forall>c \<in> set rest. name_char c" for rest
    using that name_char_not(2,5) space_chars by (cases rest) (auto simp: skip_space_def)
  consider "n = []" | a where "n = [a]" | a b where "n = [a, b]" | a b d rest where "n = a # b # d # rest"
    by (cases n rule: remdups_adj.cases; metis neq_Nil_conv)
  then show ?thesis
  proof cases
    case 4
    then have "\<forall>c \<in> set rest. name_char c" using assms by simp
    with skip [of rest] 4 show ?thesis
      by (cases rest) (simp_all add: match_flag_def)
  qed (simp_all add: match_flag_def)
qed

lemma flag_blocks_name:
  "\<forall>c \<in> set n. name_char c \<Longrightarrow> flag_blocks w (n @ CHR 0x22 # s) = flag_blocks False s"
proof (induction n arbitrary: w)
  case Nil
  have "\<not> is_word_char (CHR 0x22)" by code_simp
  then show ?case by (simp add: flag_blocks_step match_flag_other)
next
  case (Cons c n)
  have "flag_blocks w ((c # n) @ CHR 0x22 # s) = flag_blocks (is_word_char c) (n @ CHR 0x22 # s)"
    using match_flag_name [OF Cons.prems, of s] by (simp add: flag_blocks_step)
  with Cons show ?case by simp
qed

lemma body_no_brace:
  assumes "plain_name (fl_name f)"
  shows "\<forall>c \<in> set (flag_body f). c \<noteq> CHR ''}''"
proof -
  have "\<forall>ro en. \<forall>c \<in> set (flag_tail ro en). c \<noteq> CHR ''}''" by code_simp
  then have "\<forall>c \<in> set (flag_tail (fl_read_only f) (fl_enabled f)). c \<noteq> CHR ''}''" by blast
  moreover have "\<forall>c \<in> set (fl_name f). c \<noteq> CHR ''}''"
    using assms name_char_not(3) by (auto simp: plain_name_def name_char_def)
  moreover have "newline \<noteq> CHR ''}''" by (simp add: newline_def)
  ultimately show ?thesis by (auto simp: flag_body_def)
qed

lemma flag_blocks_printed:
  "\<forall>f \<in> set fs. plain_name (fl_name f) \<Longrightarrow> flag_blocks False (concat (map flag_block fs)) = map flag_body fs"
proof (induction fs)
  case Nil
  show ?case by (subst flag_blocks.simps) (simp add: match_flag_def)
next
  case (Cons f fs)
  let ?rest = "concat (map flag_block fs)"
  have nl: "newline \<noteq> CHR ''f''" "\<not> is_word_char newline" by code_simp+
  have body: "takeWhile (\<lambda>d. d \<noteq> CHR ''}'') (flag_body f @ CHR ''}'' # ?rest) = flag_body f"
    "dropWhile (\<lambda>d. d \<noteq> CHR ''}'') (flag_body f @ CHR ''}'' # ?rest) = CHR ''}'' # ?rest"
    using body_no_brace [of f] Cons.prems by (simp_all add: takeWhile_append dropWhile_append)
  have "skip_space ('' {'' @ flag_body f @ CHR ''}'' # ?rest) = ''{'' @ flag_body f @ CHR ''}'' # ?rest"
    using space_chars by (simp add: skip_space_def)
  then have "match_flag (''flag {'' @ flag_body f @ CHR ''}'' # ?rest) = Some (flag_body f, ?rest)"
    by (simp add: match_flag_def body)
  then have "flag_blocks False (''flag {'' @ flag_body f @ CHR ''}'' # ?rest) = flag_body f # flag_blocks False ?rest"
    by (subst flag_blocks.simps) simp
  with Cons nl show ?case by (simp add: flag_block_def [of f] flag_blocks_step match_flag_other)
qed

lemma parse_printed:
  assumes "plain_name (pk_package pkg)" "\<forall>f \<in> set (pk_flags pkg). plain_name (fl_name f)"
  shows "parse_aconfig (aconfig_text pkg) = pkg"
proof -
  let ?lines = "(''package: '' @ [CHR 0x22] @ pk_package pkg @ [CHR 0x22]) # concat (map flag_lines (pk_flags pkg))"
  have n: "\<forall>c \<in> set (pk_package pkg). name_char c" "pk_package pkg \<noteq> []"
    using assms(1) by (auto simp: plain_name_def name_char_def)
  have "split_lines (aconfig_text pkg) = ?lines"
    unfolding aconfig_text_def using printed_lines [OF assms] by (intro split_lines_join) blast
  moreover have "filter (\<lambda>line. \<not> starts_with ''#'' (lstrip whitespace line)) ?lines = ?lines"
    using printed_lines [OF assms] by (intro filter_True) blast
  ultimately have t: "join_str [newline] (filter (\<lambda>line. \<not> starts_with ''#'' (lstrip whitespace line))
      (split_lines (aconfig_text pkg))) = ''package:'' @ '' '' @ CHR 0x22 # pk_package pkg @ CHR 0x22 # concat (map flag_block (pk_flags pkg))"
    by (simp add: join_flag_lines)
  have pk: "re_search (match_quoted ''package:'') (''package:'' @ '' '' @ CHR 0x22 # pk_package pkg @ CHR 0x22 #
      concat (map flag_block (pk_flags pkg))) = Some (pk_package pkg)"
    by (rule re_search_hit) (rule match_quoted_value [OF n])
  have "flag_blocks False (''package:'' @ '' '' @ CHR 0x22 # pk_package pkg @ CHR 0x22 # concat (map flag_block (pk_flags pkg)))
      = flag_blocks False (concat (map flag_block (pk_flags pkg)))"
    using n(1) by (simp add: flag_blocks_step match_flag_other flag_blocks_name)
  then have fl: "flag_blocks False (''package:'' @ '' '' @ CHR 0x22 # pk_package pkg @ CHR 0x22 # concat (map flag_block (pk_flags pkg)))
      = map flag_body (pk_flags pkg)" using flag_blocks_printed [OF assms(2)] by simp
  have "List.map_filter parse_flag (map flag_body fs) = fs" if "\<forall>f \<in> set fs. plain_name (fl_name f)" for fs
    using that by (induction fs) (simp_all add: map_filter_simps parse_flag_body)
  with assms(2) show ?thesis unfolding parse_aconfig_def Let_def t pk fl by simp
qed

subsection \<open>Runs of the generators\<close>

text \<open>What one run installs, from the texts of the inputs.\<close>

definition aconfig_items ::
  "(package \<Rightarrow> string) \<Rightarrow> (package \<Rightarrow> string) \<Rightarrow> (string \<Rightarrow> string) \<Rightarrow> string list \<Rightarrow> (string \<times> string) list" where
  "aconfig_items out_path render txt files =
     map (\<lambda>f. (out_path (parse_aconfig (txt f)), render (parse_aconfig (txt f)))) files"

lemma aconfig_run:
  assumes "\<forall>f \<in> set files. file_content fs f = Some (txt f)"
    and "\<forall>p \<in> set (map fst (aconfig_items op rd txt files)). \<forall>f \<in> set files. f \<noteq> p \<and> f \<noteq> tmp_path p"
  shows "fold_r (aconfig_step op rd) files (w, fs)
    = rbind (changed.install_all (aconfig_items op rd txt files) fs) (\<lambda>fs'.
        Inr (w @ map fst (aconfig_items op rd txt files), fs'))"
  using assms
proof (induction files arbitrary: w fs)
  case Nil
  show ?case by (simp add: aconfig_items_def changed.install_all_def)
next
  case (Cons f files)
  let ?p = "op (parse_aconfig (txt f))" and ?d = "rd (parse_aconfig (txt f))"
  obtain fs1 where fs1: "write_if_changed ?p ?d fs = Inr fs1" using changed.returns by blast
  have "read_file fs f = Inr (txt f)" using Cons.prems(1) by (auto simp: read_file_def file_content_def)
  then have step: "aconfig_step op rd f (w, fs) = Inr (w @ [?p], fs1)"
    by (simp add: aconfig_step_def Let_def fs1)
  have "file_content fs1 g = Some (txt g)" if "g \<in> set files" for g
  proof -
    have "fs_files fs1 g = fs_files fs g"
      using Cons.prems(2) that by (intro changed.others [OF fs1]) (auto simp: aconfig_items_def)
    with Cons.prems(1) that show ?thesis by (simp add: file_content_def)
  qed
  moreover have "\<forall>p \<in> set (map fst (aconfig_items op rd txt files)). \<forall>g \<in> set files. g \<noteq> p \<and> g \<noteq> tmp_path p"
    using Cons.prems(2) by (simp add: aconfig_items_def)
  ultimately have "fold_r (aconfig_step op rd) files (w @ [?p], fs1)
    = rbind (changed.install_all (aconfig_items op rd txt files) fs1) (\<lambda>fs'.
        Inr ((w @ [?p]) @ map fst (aconfig_items op rd txt files), fs'))" by (intro Cons.IH) blast+
  moreover have "changed.install_all (aconfig_items op rd txt (f # files)) fs
    = changed.install_all (aconfig_items op rd txt files) fs1"
    by (simp add: changed.install_all_def aconfig_items_def fs1)
  ultimately show ?case by (simp add: step) (simp add: aconfig_items_def)
qed

subsection \<open>Properties\<close>

text \<open>C22. A package printed in canonical form is parsed back: its name and its flags in order, with
  their read-only and enabled bits, whatever the names, as long as they are words and dots.\<close>

theorem parse_aconfig_printed:
  assumes "plain_name (pk_package pkg)" "\<forall>f \<in> set (pk_flags pkg). plain_name (fl_name f)"
  shows "parse_aconfig (aconfig_text pkg) = pkg"
  using assms by (rule parse_printed)

theorem parse_aconfig_printed_witness:
  "parse_aconfig (aconfig_text \<lparr>pk_package = ''com.android.flag'', pk_flags =
      [\<lparr>fl_name = ''state'', fl_read_only = True, fl_enabled = False\<rparr>,
       \<lparr>fl_name = ''flag'', fl_read_only = False, fl_enabled = True\<rparr>]\<rparr>)
   = \<lparr>pk_package = ''com.android.flag'', pk_flags =
      [\<lparr>fl_name = ''state'', fl_read_only = True, fl_enabled = False\<rparr>,
       \<lparr>fl_name = ''flag'', fl_read_only = False, fl_enabled = True\<rparr>]\<rparr>"
proof (rule parse_aconfig_printed)
  have n: "plain_name ''com.android.flag''" "plain_name ''state''" "plain_name ''flag''" by code_simp+
  then show "plain_name (pk_package \<lparr>pk_package = ''com.android.flag'', pk_flags =
      [\<lparr>fl_name = ''state'', fl_read_only = True, fl_enabled = False\<rparr>,
       \<lparr>fl_name = ''flag'', fl_read_only = False, fl_enabled = True\<rparr>]\<rparr>)" by simp
  from n show "\<forall>f \<in> set (pk_flags \<lparr>pk_package = ''com.android.flag'', pk_flags =
      [\<lparr>fl_name = ''state'', fl_read_only = True, fl_enabled = False\<rparr>,
       \<lparr>fl_name = ''flag'', fl_read_only = False, fl_enabled = True\<rparr>]\<rparr>). plain_name (fl_name f)" by simp
qed

text \<open>\<open>generate\<close> always returns on readable inputs and leaves every header with the rendering of its
  declarations; running it again leaves every file as it was, its time stamp included, so that
  nothing is rebuilt. Outputs must differ from one another, from the inputs and from the temporary
  names.\<close>

theorem generate_installs:
  assumes "\<forall>f \<in> set files. file_content fs f = Some (txt f)"
    and "items = map (\<lambda>f. (path_join out (header_name (parse_aconfig (txt f))), render_header (parse_aconfig (txt f)))) files"
    and "distinct (map fst items)"
    and "\<forall>p \<in> set (map fst items). tmp_path p \<notin> set (map fst items) \<and> (\<forall>f \<in> set files. f \<noteq> p \<and> f \<noteq> tmp_path p)"
  shows "\<exists>fs'. generate files out fs = Inr (map fst items, fs')
    \<and> (\<forall>(p, d) \<in> set items. file_content fs' p = Some d)
    \<and> (\<exists>fs''. generate files out fs' = Inr (map fst items, fs'')
        \<and> (\<forall>q. q \<notin> tmp_path ` set (map fst items) \<longrightarrow> fs_files fs'' q = fs_files fs' q))"
proof -
  let ?op = "\<lambda>pkg. path_join out (header_name pkg)"
  have items: "aconfig_items ?op render_header txt files = items" using assms(2) by (simp add: aconfig_items_def)
  have sep: "changed.separate items" using assms(3,4) unfolding changed.separate_def by blast
  have io: "\<forall>p \<in> set (map fst (aconfig_items ?op render_header txt files)). \<forall>f \<in> set files. f \<noteq> p \<and> f \<noteq> tmp_path p"
    using assms(4) unfolding items by blast
  obtain fs' where fs': "changed.install_all items fs = Inr fs'" using changed.install_all_returns by blast
  obtain fs'' where fs'': "changed.install_all items fs' = Inr fs''" using changed.install_all_returns by blast
  have "file_content fs' f = Some (txt f)" if "f \<in> set files" for f
  proof -
    have "fs_files fs' f = fs_files fs f" using assms(4) that by (intro changed.install_all_others [OF fs']) auto
    with assms(1) that show ?thesis by (simp add: file_content_def)
  qed
  then have 2: "generate files out fs' = Inr (map fst items, fs'')"
    using aconfig_run [of files fs' "txt" ?op render_header "[]"] io items fs'' by (simp add: generate_def)
  have 1: "generate files out fs = Inr (map fst items, fs')"
    using aconfig_run [OF assms(1) io, of "[]"] items fs' by (simp add: generate_def)
  have "fs_files fs'' q = fs_files fs' q" if "q \<notin> tmp_path ` set (map fst items)" for q
    using that by (intro changed.install_all_idempotent [OF fs' sep fs'']) auto
  with 1 2 changed.install_all_content [OF fs' sep] show ?thesis by blast
qed

definition sample_files :: fsys where
  "sample_files = \<lparr>fs_files = (\<lambda>_. None)(''f.aconfig'' := Some \<lparr>f_data = ''package: '' @ [CHR 0x22] @ ''p.q'' @ [CHR 0x22],
     f_stamp = 0\<rparr>), fs_links = (\<lambda>_. False), fs_clock = 1\<rparr>"

theorem generate_installs_witness:
  "\<exists>fs'. generate [''f.aconfig''] ''out'' sample_files = Inr ([''out/p_q.h''], fs')
    \<and> file_content fs' ''out/p_q.h'' = Some (render_header \<lparr>pk_package = ''p.q'', pk_flags = []\<rparr>)"
proof -
  have p: "parse_aconfig (''package: '' @ [CHR 0x22] @ ''p.q'' @ [CHR 0x22]) = \<lparr>pk_package = ''p.q'', pk_flags = []\<rparr>"
    by code_simp
  have h: "path_join ''out'' (header_name \<lparr>pk_package = ''p.q'', pk_flags = []\<rparr>) = ''out/p_q.h''" by code_simp
  let ?t = "''package: '' @ [CHR 0x22] @ ''p.q'' @ [CHR 0x22] :: string"
  let ?item = "(''out/p_q.h'', render_header \<lparr>pk_package = ''p.q'', pk_flags = []\<rparr>)"
  have 1: "\<forall>f \<in> set [''f.aconfig'']. file_content sample_files f = Some ?t"
    by (simp add: sample_files_def file_content_def)
  have 2: "[?item] = map (\<lambda>f. (path_join ''out'' (header_name (parse_aconfig ?t)), render_header (parse_aconfig ?t))) [''f.aconfig'']"
    unfolding p h by simp
  have 3: "distinct (map fst [?item])" by simp
  have 4: "\<forall>p \<in> set (map fst [?item]). tmp_path p \<notin> set (map fst [?item]) \<and> (\<forall>f \<in> set [''f.aconfig'']. f \<noteq> p \<and> f \<noteq> tmp_path p)"
    by (simp add: tmp_path_def)
  from generate_installs [OF 1 2 3 4] obtain fs' where "generate [''f.aconfig''] ''out'' sample_files = Inr (map fst [?item], fs')"
    "\<forall>(p, d) \<in> set [?item]. file_content fs' p = Some d" by blast
  then show ?thesis by (intro exI [of _ fs']) simp
qed

end
