(* ===== verification/BpCodegen.thy ===== *)
theory BpCodegen
  imports BpAconfig "HOL-Library.List_Lexorder" "HOL-Library.Char_ord"
begin

section \<open>The code-generation driver\<close>

text \<open>
  \<open>tools/bp2cmake/bp2cmake/codegen.py\<close> and the dispatch of \<open>codegen_main.py\<close>. The tools it runs
  (clang and the Python generators of the ART tree) are outside the program: \<open>ce_exec\<close> is what a
  command does to the file system, with its exit status and its two output streams. A step is a
  function from the file system to a result and the file system it leaves, also when it raises.
\<close>

subsection \<open>Steps\<close>

type_synonym 'a step = "fsys \<Rightarrow> (exn + 'a) \<times> fsys"

definition step_return :: "'a \<Rightarrow> 'a step" where
  "step_return x fs = (Inr x, fs)"

definition step_raise :: "exn \<Rightarrow> 'a step" where
  "step_raise e fs = (Inl e, fs)"

definition step_bind :: "'a step \<Rightarrow> ('a \<Rightarrow> 'b step) \<Rightarrow> 'b step" where
  "step_bind m f fs = (case m fs of (Inl e, fs') \<Rightarrow> (Inl e, fs') | (Inr x, fs') \<Rightarrow> f x fs')"

definition step_get :: "fsys step" where
  "step_get fs = (Inr fs, fs)"

definition step_put :: "(fsys \<Rightarrow> exn + fsys) \<Rightarrow> unit step" where
  "step_put f fs = (case f fs of Inl e \<Rightarrow> (Inl e, fs) | Inr fs' \<Rightarrow> (Inr (), fs'))"

fun step_map :: "('a \<Rightarrow> 'b step) \<Rightarrow> 'a list \<Rightarrow> 'b list step" where
  "step_map f [] = step_return []"
| "step_map f (x # xs) = step_bind (f x) (\<lambda>y. step_bind (step_map f xs) (\<lambda>ys. step_return (y # ys)))"

subsection \<open>Configuration\<close>

record codegen_config =
  c_native_root :: string
  c_gensrc_dir :: string
  c_arch :: string
  c_mterp_source_dir :: string
  c_mterp_output :: string
  c_clang :: string
  c_asm_target_triple :: string
  c_art_root :: string
  c_aconfig_files :: "string list"
  c_libcore_root :: string
  c_libcore_aconfig_files :: "string list"
  c_compat_include :: string
  c_asm_includes :: "string list"
  c_asm_target_os :: string
  c_asm_target_include_dirs :: "string list"
  c_asm_extra_defines :: "string list"
  c_asm_defines_macros :: "string list"
  c_asm_force_includes :: "string list"

definition new_codegen_config :: "string \<Rightarrow> string \<Rightarrow> codegen_config" where
  "new_codegen_config native_root gensrc_dir =
     \<lparr>c_native_root = native_root, c_gensrc_dir = gensrc_dir, c_arch = ''x86_64'', c_mterp_source_dir = [],
      c_mterp_output = [], c_clang = ''clang++'', c_asm_target_triple = [], c_art_root = [],
      c_aconfig_files = [''art/build/flags/art-flags.aconfig'', ''art/build/flags/art-rw-flags.aconfig''],
      c_libcore_root = [], c_libcore_aconfig_files = [''libcore.aconfig''], c_compat_include = [],
      c_asm_includes = [''art/libartbase'', ''art/runtime'', ''art/libdexfile'', ''libnativehelper/include_jni'',
       ''libbase/include'', ''logging/liblog/include'', ''external/fmtlib/include'',
       ''external/tinyxml2'', ''libziparchive/include'', ''art/tools/cpp-define-generator''],
      c_asm_target_os = ''linux'', c_asm_target_include_dirs = [], c_asm_extra_defines = [],
      c_asm_defines_macros = [''ART_STACK_OVERFLOW_GAP_arm=8192'', ''ART_STACK_OVERFLOW_GAP_arm64=8192'',
       ''ART_STACK_OVERFLOW_GAP_riscv64=8192'', ''ART_STACK_OVERFLOW_GAP_x86=8192'',
       ''ART_STACK_OVERFLOW_GAP_x86_64=8192'', ''ART_FRAME_SIZE_LIMIT=1744'',
       ''ART_PAGE_SIZE_AGNOSTIC=1'', ''ART_DEFAULT_GC_TYPE_IS_CMS'',
       ''ART_BASE_ADDRESS=0x60000000'', ''ART_BASE_ADDRESS_MIN_DELTA=(-0x1000000)'',
       ''ART_BASE_ADDRESS_MAX_DELTA=0x1000000'', ''ART_TARGET'', ''ART_TARGET_LINUX'',
       ''USE_D8_DESUGAR=1''],
      c_asm_force_includes = [''cstdint'', ''algorithm'']\<rparr>"

record codegen_env =
  ce_exec :: "string list \<Rightarrow> string option \<Rightarrow> fsys \<Rightarrow> (int \<times> string \<times> string) \<times> fsys"
  ce_python :: string
  ce_is_dir :: "string \<Rightarrow> bool"
  ce_listdir :: "string \<Rightarrow> string list"
  ce_cwd :: string
  ce_file :: string

definition path_joins :: "string \<Rightarrow> string list \<Rightarrow> string" where
  "path_joins root parts = foldl path_join root parts"

definition cfg_p :: "codegen_config \<Rightarrow> string list \<Rightarrow> string" where
  "cfg_p cfg parts = path_joins (c_native_root cfg) parts"

definition art_base :: "codegen_config \<Rightarrow> string" where
  "art_base cfg = (if c_art_root cfg \<noteq> [] then c_art_root cfg else c_native_root cfg)"

definition cfg_pa :: "codegen_config \<Rightarrow> string list \<Rightarrow> string" where
  "cfg_pa cfg parts = path_joins (art_base cfg) parts"

definition cfg_inc :: "codegen_config \<Rightarrow> string \<Rightarrow> string" where
  "cfg_inc cfg rel =
     (if rel = ''art'' \<or> starts_with ''art/'' rel then path_join (art_base cfg) rel
      else path_join (c_native_root cfg) rel)"

definition cfg_out :: "codegen_config \<Rightarrow> string list \<Rightarrow> string" where
  "cfg_out cfg parts = path_joins (c_gensrc_dir cfg) parts"

definition compat_inc :: "codegen_env \<Rightarrow> codegen_config \<Rightarrow> string" where
  "compat_inc env cfg =
     (if c_compat_include cfg \<noteq> [] then c_compat_include cfg
      else abspath (ce_cwd env) (path_joins (dirname (abspath (ce_cwd env) (ce_file env)))
        [''..'', ''..'', ''..'', ''compat'', ''include'']))"

definition forward_slash_path :: "string \<Rightarrow> string" where
  "forward_slash_path p = replace_char (CHR 0x5C) (CHR ''/'') p"

subsection \<open>Running a tool\<close>

text \<open>\<open>_run\<close> with and without \<open>capture_stdout_to\<close>\<close>

definition command_failed :: "int \<Rightarrow> string list \<Rightarrow> string \<Rightarrow> exn" where
  "command_failed code cmd err =
     CodegenError (''command failed ('' @ int_str code @ ''): '' @ join_str '' '' cmd) err"

definition run_tool :: "codegen_env \<Rightarrow> string list \<Rightarrow> string option \<Rightarrow> unit step" where
  "run_tool env cmd cwd fs =
     (case ce_exec env cmd cwd fs of ((code, out, err), fs1) \<Rightarrow>
        (if code \<noteq> 0 then Inl (command_failed code cmd err) else Inr (), fs1))"

definition run_capture :: "codegen_env \<Rightarrow> string list \<Rightarrow> string option \<Rightarrow> string \<Rightarrow> unit step" where
  "run_capture env cmd cwd output fs =
     (let staged_path = tmp_path output in
      case ce_exec env cmd cwd (write_file staged_path [] fs) of ((code, out, err), fs1) \<Rightarrow>
        let fs2 = write_file staged_path out fs1 in
        if code \<noteq> 0 then (Inl (command_failed code cmd err), remove_file staged_path fs2)
        else step_put (replace_if_changed staged_path output) fs2)"

definition gen_operator_out :: "codegen_env \<Rightarrow> codegen_config \<Rightarrow> string \<Rightarrow> string list \<Rightarrow> string list step" where
  "gen_operator_out env cfg module_reldir headers =
     (let tool = cfg_pa cfg [''art/tools/generate_operator_out.py''] in
      step_map (\<lambda>h.
        let out_path = cfg_out cfg [module_reldir, h @ ''.operator_out.cc'']; rel = path_join module_reldir h in
        step_bind (run_capture env [ce_python env, tool, module_reldir, rel] (Some (art_base cfg)) out_path)
          (\<lambda>_. step_return out_path)) headers)"

subsection \<open>The interpreter\<close>

definition valid_mterp_source :: "string \<Rightarrow> bool" where
  "valid_mterp_source d = (\<not> (d = [] \<or> d \<in> {''.'', ''..''} \<or> CHR ''/'' \<in> set d \<or> CHR 0x5C \<in> set d))"

definition valid_mterp_output :: "string \<Rightarrow> bool" where
  "valid_mterp_output o_name =
     (\<not> (\<not> ends_with ''.S'' o_name \<or> basename o_name \<noteq> o_name \<or> CHR 0x5C \<in> set o_name))"

definition gen_mterp :: "codegen_env \<Rightarrow> codegen_config \<Rightarrow> string step" where
  "gen_mterp env cfg =
     (if \<not> valid_mterp_source (c_mterp_source_dir cfg)
      then step_raise (CodegenError ''invalid explicit mterp source directory'' (c_mterp_source_dir cfg))
      else if \<not> valid_mterp_output (c_mterp_output cfg)
      then step_raise (CodegenError ''invalid explicit mterp output'' (c_mterp_output cfg))
      else
        let tool = cfg_pa cfg [''art/runtime/interpreter/mterp/gen_mterp.py''];
            src_dir = cfg_pa cfg [''art/runtime/interpreter/mterp'', c_mterp_source_dir cfg];
            asm_inputs = sort (map (path_join src_dir) (filter (ends_with ''.S'') (ce_listdir env src_dir)));
            out_path = cfg_out cfg [''art/asm/mterp'', c_mterp_output cfg];
            staged_path = tmp_path out_path; staged_script = staged_path @ ''.py'' in
        if \<not> ce_is_dir env src_dir then step_raise (CodegenError ''mterp source dir not found'' src_dir)
        else if asm_inputs = [] then step_raise (CodegenError ''no .S inputs in'' src_dir)
        else
          step_bind (run_tool env ([ce_python env, forward_slash_path tool, forward_slash_path staged_path]
              @ map forward_slash_path asm_inputs) (Some (art_base cfg))) (\<lambda>_.
          step_bind (step_put (replace_if_changed staged_path out_path)) (\<lambda>_.
          step_bind step_get (\<lambda>fs.
          step_bind (if fs_files fs staged_script \<noteq> None
              then step_put (replace_if_changed staged_script (out_path @ ''.py'')) else step_return ()) (\<lambda>_.
            step_return out_path)))))"

subsection \<open>The assembly constants\<close>

definition windows_os :: "codegen_config \<Rightarrow> bool" where
  "windows_os cfg =
     (map lower_char (if c_asm_target_os cfg \<noteq> [] then c_asm_target_os cfg else ''linux'')
      \<in> {''windows'', ''win32'', ''windows_x64'', ''pe''})"

definition windows_macros :: "string list" where
  "windows_macros = [''ART_TARGET_WINDOWS'', ''_WIN32'', ''WIN32'', ''WIN32_LEAN_AND_MEAN'', ''NOMINMAX'', ''NOGDI'']"

definition defines_macro :: "string \<Rightarrow> string \<Rightarrow> bool" where
  "defines_macro name m = (m = name \<or> starts_with (name @ ''='') m)"

definition add_macro :: "string list \<Rightarrow> string \<Rightarrow> string list" where
  "add_macro macros extra =
     (if extra \<notin> set macros \<and> \<not> (\<exists>m \<in> set macros. defines_macro extra m) then macros @ [extra] else macros)"

definition asm_defines_macros_for :: "codegen_config \<Rightarrow> string list" where
  "asm_defines_macros_for cfg =
     (let macros = c_asm_defines_macros cfg;
          macros = (if windows_os cfg
            then foldl add_macro (filter (\<lambda>m. m \<noteq> ''ART_TARGET_LINUX'' \<and> \<not> starts_with ''ART_TARGET_LINUX='' m) macros)
              windows_macros
            else macros)
      in foldl (\<lambda>macros extra. if extra \<notin> set macros then macros @ [extra] else macros) macros (c_asm_extra_defines cfg))"

definition asm_command :: "codegen_env \<Rightarrow> codegen_config \<Rightarrow> string \<Rightarrow> string list" where
  "asm_command env cfg staged_s_path =
     [c_clang cfg, ''--target='' @ c_asm_target_triple cfg, ''-std=gnu++20'', ''-S'', ''-o'', staged_s_path]
     @ concat (map (\<lambda>inc. [''-I'', cfg_inc cfg inc]) (c_asm_includes cfg))
     @ [''-I'', cfg_out cfg [''art/aconfig/include'']]
     @ [''-I'', compat_inc env cfg]
     @ (if windows_os cfg
        then [''-nostdinc++''] @ concat (map (\<lambda>inc. [''-isystem'', inc]) (c_asm_target_include_dirs cfg)) else [])
     @ map (\<lambda>m. ''-D'' @ m) (asm_defines_macros_for cfg)
     @ concat (map (\<lambda>fi. [''-include'', fi]) (c_asm_force_includes cfg))
     @ [''-Wno-strict-primary-template-shadow'', ''-Wno-invalid-offsetof'', ''-Wno-attribute'',
        ''-Wno-deprecated-declarations'', ''-UDEBUG'']
     @ [cfg_pa cfg [''art/tools/cpp-define-generator/asm_defines.cc'']]"

definition gen_asm_defines :: "codegen_env \<Rightarrow> codegen_config \<Rightarrow> string step" where
  "gen_asm_defines env cfg =
     (if c_asm_target_triple cfg = [] \<or> (\<exists>c \<in> set (c_asm_target_triple cfg). c \<in> set whitespace)
      then step_raise (CodegenError ''invalid explicit asm target triple'' (c_asm_target_triple cfg))
      else
        let s_path = cfg_out cfg [''art/asm_defines.s'']; staged_s_path = tmp_path s_path;
            h_path = cfg_out cfg [''art/asm/include/asm_defines.h''];
            make_header = cfg_pa cfg [''art/tools/cpp-define-generator/make_header.py''] in
        step_bind (run_tool env (asm_command env cfg staged_s_path) (Some (art_base cfg))) (\<lambda>_.
        step_bind (run_capture env [ce_python env, make_header, staged_s_path] (Some (art_base cfg)) h_path) (\<lambda>_.
        step_bind (step_put (replace_if_changed staged_s_path s_path)) (\<lambda>_.
          step_return h_path))))"

definition operator_out_sets :: "(string \<times> string list) list" where
  "operator_out_sets =
    [(''art/libartbase'', [
       ''arch/instruction_set.h'', ''base/allocator.h'', ''base/unix_file/fd_file.h'']),
     (''art/libdexfile'', [
       ''dex/dex_file.h'', ''dex/dex_file_layout.h'', ''dex/dex_instruction.h'',
       ''dex/dex_instruction_utils.h'', ''dex/invoke_type.h'']),
     (''art/runtime'', [
       ''base/callee_save_type.h'', ''base/locks.h'', ''class_status.h'', ''compilation_kind.h'',
       ''gc_root.h'', ''gc/allocator_type.h'', ''gc/allocator/rosalloc.h'',
       ''gc/collector_type.h'', ''gc/collector/gc_type.h'', ''gc/collector/mark_compact.h'',
       ''gc/space/region_space.h'', ''gc/space/space.h'', ''gc/weak_root_state.h'', ''image.h'',
       ''instrumentation.h'', ''indirect_reference_table.h'', ''jdwp_provider.h'',
       ''jni_id_type.h'', ''linear_alloc.h'', ''lock_word.h'', ''oat.h'', ''oat_file.h'',
       ''process_state.h'', ''reflective_value_visitor.h'', ''stack.h'', ''suspend_reason.h'',
       ''thread.h'', ''thread_state.h'', ''trace.h'', ''verifier/verifier_enums.h''])]"

definition gen_aconfig :: "codegen_config \<Rightarrow> string list step" where
  "gen_aconfig cfg =
     step_bind step_get (\<lambda>fs.
       let files = map (\<lambda>f. cfg_pa cfg [f]) (c_aconfig_files cfg)
             @ (if c_libcore_root cfg \<noteq> [] then map (path_join (c_libcore_root cfg)) (c_libcore_aconfig_files cfg) else []);
           files = filter (\<lambda>f. fs_files fs f \<noteq> None) files in
       if files = [] then step_return []
       else case generate files (cfg_out cfg [''art/aconfig/include'']) fs of
         Inl e \<Rightarrow> step_raise e
       | Inr (written, fs') \<Rightarrow> step_bind (step_put (\<lambda>_. Inr fs')) (\<lambda>_. step_return written))"

subsection \<open>The PE header overlays\<close>

definition windows_pe_header_replacements :: "(string \<times> (string \<times> string) list) list" where
  "windows_pe_header_replacements =
    [(''art/runtime/thread.h'', [
      (''  static Thread* Attach(const char* thread_name, bool as_daemon, jobject thread_peer);'',
       ''  EXPORT LIBART_PE_API static Thread* Attach(const char* thread_name, bool as_daemon, jobject thread_peer);''),
      (''  DumpOrder Dump(std::ostream& os,'' @ [newline] @ ''                 bool dump_native_stack = true,'' @ [newline] @ ''                 bool force_dump_stack = false) const'',
       ''  EXPORT LIBART_PE_API DumpOrder Dump(std::ostream& os,'' @ [newline] @ ''                 bool dump_native_stack = true,'' @ [newline] @ ''                 bool force_dump_stack = false) const''),
      (''  bool RequestSynchronousCheckpoint(Closure* function,'',
       ''  EXPORT LIBART_PE_API bool RequestSynchronousCheckpoint(Closure* function,''),
      (''  void FullSuspendCheck(bool implicit = false)'',
       ''  EXPORT LIBART_PE_API void FullSuspendCheck(bool implicit = false)''),
      (''  static int NicenessToPriority(int niceness);'',
       ''  EXPORT LIBART_PE_API static int NicenessToPriority(int niceness);''),
      (''  int GetNativeNiceness() const;'',
       ''  EXPORT LIBART_PE_API int GetNativeNiceness() const;''),
      (''  void SetThreadName(const char* name) REQUIRES_SHARED(Locks::mutator_lock_);'',
       ''  EXPORT LIBART_PE_API void SetThreadName(const char* name) REQUIRES_SHARED(Locks::mutator_lock_);''),
      (''  mirror::Object* GetPeerFromOtherThread() REQUIRES_SHARED(Locks::mutator_lock_);'',
       ''  EXPORT LIBART_PE_API mirror::Object* GetPeerFromOtherThread() REQUIRES_SHARED(Locks::mutator_lock_);''),
      (''  mirror::Object* LockedGetPeerFromOtherThread(ThreadExitFlag* tef)'',
       ''  EXPORT LIBART_PE_API mirror::Object* LockedGetPeerFromOtherThread(ThreadExitFlag* tef)''),
      (''  bool IsStillStarting() const;'',
       ''  EXPORT LIBART_PE_API bool IsStillStarting() const;''),
      (''  void AssertPendingException() const;'',
       ''  EXPORT LIBART_PE_API void AssertPendingException() const;''),
      (''  void AssertPendingOOMException() const REQUIRES_SHARED(Locks::mutator_lock_);'',
       ''  EXPORT LIBART_PE_API void AssertPendingOOMException() const REQUIRES_SHARED(Locks::mutator_lock_);''),
      (''  void AssertNoPendingException() const;'',
       ''  EXPORT LIBART_PE_API void AssertNoPendingException() const;''),
      (''  void SetException(ObjPtr<mirror::Throwable> new_exception) REQUIRES_SHARED(Locks::mutator_lock_);'',
       ''  EXPORT LIBART_PE_API void SetException(ObjPtr<mirror::Throwable> new_exception) REQUIRES_SHARED(Locks::mutator_lock_);''),
      (''  void SetAsyncException(ObjPtr<mirror::Throwable> new_exception)'',
       ''  EXPORT LIBART_PE_API void SetAsyncException(ObjPtr<mirror::Throwable> new_exception)''),
      (''  ArtMethod* GetCurrentMethod(uint32_t* dex_pc,'',
       ''  EXPORT LIBART_PE_API ArtMethod* GetCurrentMethod(uint32_t* dex_pc,''),
      (''  void ThrowOutOfMemoryError(const char* msg) REQUIRES_SHARED(Locks::mutator_lock_)'',
       ''  EXPORT LIBART_PE_API void ThrowOutOfMemoryError(const char* msg) REQUIRES_SHARED(Locks::mutator_lock_)''),
      (''  void Notify() REQUIRES(!wait_mutex_);'',
       ''  EXPORT LIBART_PE_API void Notify() REQUIRES(!wait_mutex_);''),
      (''  ShadowFrame* FindOrCreateDebuggerShadowFrame(size_t frame_id,'',
       ''  EXPORT LIBART_PE_API ShadowFrame* FindOrCreateDebuggerShadowFrame(size_t frame_id,''),
      (''  TLSData* GetCustomTLS(const char* key) REQUIRES(!Locks::custom_tls_lock_);'',
       ''  EXPORT LIBART_PE_API TLSData* GetCustomTLS(const char* key) REQUIRES(!Locks::custom_tls_lock_);''),
      (''  void SetCustomTLS(const char* key, TLSData* data) REQUIRES(!Locks::custom_tls_lock_);'',
       ''  EXPORT LIBART_PE_API void SetCustomTLS(const char* key, TLSData* data) REQUIRES(!Locks::custom_tls_lock_);''),
      (''  bool IsSystemDaemon() const REQUIRES_SHARED(Locks::mutator_lock_);'',
       ''  EXPORT LIBART_PE_API bool IsSystemDaemon() const REQUIRES_SHARED(Locks::mutator_lock_);'')]),
     (''art/runtime/art_method.h'', [
      (''  ObjPtr<mirror::DexCache> GetObsoleteDexCache() REQUIRES_SHARED(Locks::mutator_lock_);'',
       ''  EXPORT LIBART_PE_API ObjPtr<mirror::DexCache> GetObsoleteDexCache() REQUIRES_SHARED(Locks::mutator_lock_);'')]),
     (''art/runtime/jit/jit_code_cache.h'', [
      (''  bool GetGarbageCollectCode() REQUIRES(!Locks::jit_lock_);'',
       ''  EXPORT LIBART_PE_API bool GetGarbageCollectCode() REQUIRES(!Locks::jit_lock_);''),
      (''  JitMemoryRegion* GetCurrentRegion();'',
       ''  EXPORT LIBART_PE_API JitMemoryRegion* GetCurrentRegion();'')]),
     (''art/runtime/runtime_options.h'', [
      (''#define RUNTIME_OPTIONS_KEY(Type, Name, ...) static const Key<Type> (Name);'',
       ''#define RUNTIME_OPTIONS_KEY(Type, Name, ...) LIBART_PE_DATA static const Key<Type> (Name);'')]),
     (''art/runtime/base/locks.h'', [
      (''  static Mutex* intern_table_lock_ ACQUIRED_AFTER(host_dlopen_handles_lock_);'',
       ''  LIBART_PE_DATA static Mutex* intern_table_lock_ ACQUIRED_AFTER(host_dlopen_handles_lock_);'')]),
     (''art/runtime/well_known_classes.h'', [
      (''  static ArtMethod* java_lang_OutOfMemoryError_init;  // Only for the declaring class.'',
       ''  LIBART_PE_DATA static ArtMethod* java_lang_OutOfMemoryError_init;  // Only for the declaring class.''),
      (''  static ArtField* dalvik_system_BaseDexClassLoader_sharedLibraryLoaders;'',
       ''  LIBART_PE_DATA static ArtField* dalvik_system_BaseDexClassLoader_sharedLibraryLoaders;''),
      (''  static ArtField* dalvik_system_BaseDexClassLoader_sharedLibraryLoadersAfter;'',
       ''  LIBART_PE_DATA static ArtField* dalvik_system_BaseDexClassLoader_sharedLibraryLoadersAfter;'')]),
     (''art/runtime/oat/oat_quick_method_header.h'', [
      (''  static OatQuickMethodHeader* NterpMethodHeader;'',
       ''  LIBART_PE_DATA static OatQuickMethodHeader* NterpMethodHeader;''),
      (''  EXPORT static ArrayRef<const uint8_t> NterpWithClinitImpl;'',
       ''  LIBART_PE_DATA EXPORT static ArrayRef<const uint8_t> NterpWithClinitImpl;''),
      (''  EXPORT static ArrayRef<const uint8_t> NterpImpl;'',
       ''  LIBART_PE_DATA EXPORT static ArrayRef<const uint8_t> NterpImpl;'')])]"

text \<open>\<open>contents.replace(original, replacement, 1)\<close>\<close>

fun replace_first :: "string \<Rightarrow> string \<Rightarrow> string \<Rightarrow> string" where
  "replace_first old new s =
     (if starts_with old s then new @ drop (length old) s
      else case s of [] \<Rightarrow> [] | c # t \<Rightarrow> c # replace_first old new t)"

fun apply_replacements :: "string \<Rightarrow> (string \<times> string) list \<Rightarrow> string \<Rightarrow> exn + string" where
  "apply_replacements rel [] contents = Inr contents"
| "apply_replacements rel ((original, replacement) # rs) contents =
     (if contains replacement contents then apply_replacements rel rs contents
      else if \<not> contains original contents
      then Inl (CodegenError (''PE header overlay anchor not found in '' @ rel) original)
      else apply_replacements rel rs (replace_first original replacement contents))"

definition gen_pe_header :: "codegen_config \<Rightarrow> string \<times> (string \<times> string) list \<Rightarrow> string step" where
  "gen_pe_header cfg entry fs =
     (let source_path = cfg_pa cfg [fst entry]; output_path = cfg_out cfg [''art/windows-pe-headers'', fst entry] in
      case fs_files fs source_path of
        None \<Rightarrow> (Inl (CodegenError ''PE header overlay source not found'' source_path), fs)
      | Some f \<Rightarrow>
          (case apply_replacements (fst entry) (snd entry) (f_data f) of
             Inl e \<Rightarrow> (Inl e, fs)
           | Inr contents \<Rightarrow> step_bind (step_put (stage_and_install output_path contents))
               (\<lambda>_. step_return output_path) fs))"

definition gen_windows_pe_headers :: "codegen_config \<Rightarrow> string list step" where
  "gen_windows_pe_headers cfg =
     (if \<not> windows_os cfg then step_return []
      else step_map (gen_pe_header cfg) windows_pe_header_replacements)"

subsection \<open>The driver\<close>

record codegen_report =
  r_operator_out :: "string list"
  r_mterp :: "string list"
  r_asm_defines :: "string list"
  r_aconfig :: "string list"
  r_windows_pe_headers :: "string list"

definition run_all ::
  "codegen_env \<Rightarrow> codegen_config \<Rightarrow> (string \<times> string list) list option \<Rightarrow> bool \<Rightarrow> bool \<Rightarrow> bool \<Rightarrow> codegen_report step" where
  "run_all env cfg operator_sets do_mterp do_asm_defines do_aconfig =
     (let sets = (case operator_sets of Some s \<Rightarrow> s | None \<Rightarrow> operator_out_sets) in
      step_bind (if do_aconfig then gen_aconfig cfg else step_return []) (\<lambda>aconfig.
      step_bind (step_map (\<lambda>(reldir, headers). gen_operator_out env cfg reldir headers) sets) (\<lambda>outs.
      step_bind (if do_mterp then step_bind (gen_mterp env cfg) (\<lambda>p. step_return [p]) else step_return []) (\<lambda>mterp.
      step_bind (if do_asm_defines then step_bind (gen_asm_defines env cfg) (\<lambda>p. step_return [p]) else step_return []) (\<lambda>asm.
      step_bind (gen_windows_pe_headers cfg) (\<lambda>pe.
        step_return \<lparr>r_operator_out = concat outs, r_mterp = mterp, r_asm_defines = asm, r_aconfig = aconfig,
          r_windows_pe_headers = pe\<rparr>))))))"

text \<open>\<open>codegen_main.main\<close> after the arguments are parsed: the exit code; the report is printed only.\<close>

fun is_codegen_error :: "exn \<Rightarrow> bool" where
  "is_codegen_error (CodegenError _ _) = True"
| "is_codegen_error _ = False"

definition codegen_main :: "codegen_env \<Rightarrow> codegen_config \<Rightarrow> string option \<Rightarrow> nat step" where
  "codegen_main env cfg only fs =
     (let run = (case only of
            Some k \<Rightarrow>
              if k = ''mterp'' then step_bind (gen_mterp env cfg) (\<lambda>_. step_return ())
              else if k = ''asm_defines'' then step_bind (gen_asm_defines env cfg) (\<lambda>_. step_return ())
              else if k = ''aconfig'' then step_bind (gen_aconfig cfg) (\<lambda>_. step_return ())
              else if k = ''windows_pe_headers'' then step_bind (gen_windows_pe_headers cfg) (\<lambda>_. step_return ())
              else if k = ''operator_out'' then step_bind (run_all env cfg None False False False) (\<lambda>_. step_return ())
              else step_bind (run_all env cfg None True True True) (\<lambda>_. step_return ())
          | None \<Rightarrow> step_bind (run_all env cfg None True True True) (\<lambda>_. step_return ())) in
      case run fs of
        (Inr u, fs') \<Rightarrow> (Inr 0, fs')
      | (Inl e, fs') \<Rightarrow> (if is_codegen_error e then Inr 1 else Inl e, fs'))"

subsection \<open>Properties\<close>

lemma add_macros_spec:
  "set ms \<subseteq> set (foldl add_macro ms extras)"
  "set (foldl add_macro ms extras) \<subseteq> set ms \<union> set extras"
  "x \<in> set extras \<Longrightarrow> \<exists>m \<in> set (foldl add_macro ms extras). defines_macro x m"
proof (induction extras arbitrary: ms)
  case (Cons e extras)
  {
    case 1
    show ?case using Cons.IH(1) [of "add_macro ms e"] by (auto simp: add_macro_def split: if_splits)
  next
    case 2
    show ?case using Cons.IH(2) [of "add_macro ms e"] by (auto simp: add_macro_def split: if_splits)
  next
    case 3
    have "\<exists>m \<in> set (add_macro ms e). defines_macro e m" by (auto simp: add_macro_def defines_macro_def)
    then show ?case using 3 Cons.IH(1) [of "add_macro ms e"] Cons.IH(3) [of "add_macro ms e"] by auto
  }
qed simp_all

lemma add_extras_set: "set (foldl (\<lambda>ms x. if x \<notin> set ms then ms @ [x] else ms) ms xs) = set ms \<union> set xs"
  by (induction xs arbitrary: ms) auto

text \<open>For a Windows target the constants are compiled as for Windows: each Windows macro is defined,
  \<open>ART_TARGET_LINUX\<close> is not, unless it is asked for explicitly, and no other macro of the
  configuration is lost.\<close>

theorem asm_macros_windows:
  assumes "windows_os cfg"
  shows "(\<forall>x \<in> set windows_macros. \<exists>m \<in> set (asm_defines_macros_for cfg). defines_macro x m)
    \<and> (\<forall>m \<in> set (asm_defines_macros_for cfg). defines_macro ''ART_TARGET_LINUX'' m \<longrightarrow> m \<in> set (c_asm_extra_defines cfg))
    \<and> (\<forall>m \<in> set (c_asm_defines_macros cfg). \<not> defines_macro ''ART_TARGET_LINUX'' m \<longrightarrow> m \<in> set (asm_defines_macros_for cfg))
    \<and> set (c_asm_extra_defines cfg) \<subseteq> set (asm_defines_macros_for cfg)"
proof -
  let ?base = "filter (\<lambda>m. m \<noteq> ''ART_TARGET_LINUX'' \<and> \<not> starts_with ''ART_TARGET_LINUX='' m) (c_asm_defines_macros cfg)"
  let ?win = "foldl add_macro ?base windows_macros"
  have s: "set (asm_defines_macros_for cfg) = set ?win \<union> set (c_asm_extra_defines cfg)"
    using assms by (simp add: asm_defines_macros_for_def Let_def add_extras_set)
  have "\<forall>m \<in> set windows_macros. \<not> defines_macro ''ART_TARGET_LINUX'' m"
    by (simp add: windows_macros_def defines_macro_def)
  moreover have "\<forall>m \<in> set ?base. \<not> defines_macro ''ART_TARGET_LINUX'' m" by (simp add: defines_macro_def)
  ultimately have "\<forall>m \<in> set ?win. \<not> defines_macro ''ART_TARGET_LINUX'' m"
    using add_macros_spec(2) [of ?base windows_macros] by blast
  moreover have "\<forall>m \<in> set (c_asm_defines_macros cfg). \<not> defines_macro ''ART_TARGET_LINUX'' m \<longrightarrow> m \<in> set ?win"
    using add_macros_spec(1) [of ?base windows_macros] by (auto simp: defines_macro_def)
  moreover have "\<forall>x \<in> set windows_macros. \<exists>m \<in> set ?win. defines_macro x m" using add_macros_spec(3) by blast
  ultimately show ?thesis unfolding s by blast
qed

theorem asm_macros_windows_witness:
  "\<exists>m \<in> set (asm_defines_macros_for ((new_codegen_config ''n'' ''g'')\<lparr>c_asm_target_os := ''Windows''\<rparr>)).
     defines_macro ''ART_TARGET_WINDOWS'' m"
proof -
  have "windows_os ((new_codegen_config ''n'' ''g'')\<lparr>c_asm_target_os := ''Windows''\<rparr>)"
    by (simp add: windows_os_def new_codegen_config_def) code_simp
  from asm_macros_windows [OF this] show ?thesis by (simp add: windows_macros_def)
qed

text \<open>A captured tool run is all or nothing for its output: when the tool fails the earlier output
  is untouched, when it succeeds the output holds what the tool printed, with its old time stamp if
  that is what it held before; either way no temporary file stays.\<close>

theorem captured_run_output:
  assumes "ce_exec env cmd cwd (write_file (tmp_path output) [] fs) = ((code, out, err), fs1)"
    and "fs_files fs1 output = fs_files fs output"
  shows "case run_capture env cmd cwd output fs of (r, fs') \<Rightarrow>
      fs_files fs' (tmp_path output) = None
      \<and> (\<forall>q. q \<noteq> output \<and> q \<noteq> tmp_path output \<longrightarrow> fs_files fs' q = fs_files fs1 q)
      \<and> (if code \<noteq> 0 then r = Inl (command_failed code cmd err) \<and> fs_files fs' output = fs_files fs output
         else r = Inr () \<and> file_content fs' output = Some out
           \<and> (file_content fs output = Some out \<longrightarrow> fs_files fs' output = fs_files fs output))"
  using assms
  by (auto simp: run_capture_def Let_def remove_file_def write_file_def step_put_def replace_if_changed_def
      files_equal_def read_file_def os_replace_def file_content_def split: option.splits)

theorem captured_run_output_witness:
  "fs_files (snd (run_capture \<lparr>ce_exec = (\<lambda>_ _ fs. ((1, ''partial'', ''boom''), fs)), ce_python = ''py'', ce_is_dir = (\<lambda>_. True),
       ce_listdir = (\<lambda>_. []), ce_cwd = ''/'', ce_file = ''/c.py''\<rparr> [''tool''] None ''o''
     \<lparr>fs_files = (\<lambda>_. None)(''o'' := Some \<lparr>f_data = ''old'', f_stamp = 7\<rparr>), fs_links = (\<lambda>_. False), fs_clock = 9\<rparr>)) ''o''
   = Some \<lparr>f_data = ''old'', f_stamp = 7\<rparr>"
proof -
  let ?env = "\<lparr>ce_exec = (\<lambda>_ _ fs. ((1, ''partial'', ''boom''), fs)), ce_python = ''py'', ce_is_dir = (\<lambda>_. True),
       ce_listdir = (\<lambda>_. []), ce_cwd = ''/'', ce_file = ''/c.py''\<rparr> :: codegen_env"
  let ?fs = "\<lparr>fs_files = (\<lambda>_. None)(''o'' := Some \<lparr>f_data = ''old'', f_stamp = 7\<rparr>), fs_links = (\<lambda>_. False), fs_clock = 9\<rparr>"
  have 1: "ce_exec ?env [''tool''] None (write_file (tmp_path ''o'') [] ?fs)
      = ((1, ''partial'', ''boom''), write_file (tmp_path ''o'') [] ?fs)" by simp
  have 2: "fs_files (write_file (tmp_path ''o'') [] ?fs) ''o'' = fs_files ?fs ''o''"
    by (simp add: write_file_def tmp_path_def)
  from captured_run_output [OF 1 2] show ?thesis by (auto split: prod.splits)
qed

end
