(* ===== verification/PyBytes.thy ===== *)
theory PyBytes
  imports PyString "HOL-Library.Word"
begin

section \<open>Bytes and structs\<close>

text \<open>
  Python's \<open>bytes\<close> as lists of \<open>8 word\<close>, with the operations the binary validators use: slices,
  indexing, \<open>find\<close>, \<open>decode("ascii")\<close>, the little-endian fields of the \<open>struct\<close> module and
  \<open>zlib.adler32\<close>. The fields read are Python integers, so they are \<open>int\<close> here and do not wrap. A
  read out of range raises, as it does in Python: \<open>struct.error\<close> and \<open>IndexError\<close> are results.
\<close>

unbundle bit_operations_syntax

type_synonym bytes = "8 word list"

subsection \<open>Slices and searches\<close>

text \<open>\<open>data[a:b]\<close>: a negative index counts from the end, and both are cut to the length.\<close>

definition clip_index :: "nat \<Rightarrow> int \<Rightarrow> nat" where
  "clip_index n i = (if i < 0 then nat (i + int n) else min (nat i) n)"

definition py_slice :: "'a list \<Rightarrow> int \<Rightarrow> int \<Rightarrow> 'a list" where
  "py_slice xs a b = take (clip_index (length xs) b - clip_index (length xs) a) (drop (clip_index (length xs) a) xs)"

definition byte_at :: "bytes \<Rightarrow> nat \<Rightarrow> exn + int" where
  "byte_at xs i = (if i < length xs then Inr (uint (xs ! i)) else Inl IndexError)"

text \<open>\<open>data.find(b"\\0", start)\<close>\<close>

definition find_nul :: "bytes \<Rightarrow> nat \<Rightarrow> nat option" where
  "find_nul xs start =
     (let k = length (takeWhile (\<lambda>b. b \<noteq> 0) (drop start xs)) in
      if start + k < length xs then Some (start + k) else None)"

definition ascii_char :: "8 word \<Rightarrow> char" where
  "ascii_char b = char_of (unat b)"

definition decode_ascii :: "bytes \<Rightarrow> exn + string" where
  "decode_ascii xs =
     (if \<forall>b \<in> set xs. unat b < 128 then Inr (map ascii_char xs)
      else Inl (RaisedError ''UnicodeDecodeError'' []))"

text \<open>A bytes literal of ASCII characters.\<close>

definition b_lit :: "string \<Rightarrow> bytes" where
  "b_lit s = map (\<lambda>c. word_of_nat (code_point c)) s"

subsection \<open>The struct module\<close>

text \<open>
  Without padding (\<open><\<close>) a struct is the sequence of its fields. \<open>field\<close> is the little-endian field
  of a width at an offset; \<open>unpack_from\<close> checks the range and decodes.
\<close>

definition le_int :: "bytes \<Rightarrow> int" where
  "le_int xs = foldr (\<lambda>b acc. uint b + 256 * acc) xs 0"

definition field :: "bytes \<Rightarrow> nat \<Rightarrow> nat \<Rightarrow> int" where
  "field xs off w = le_int (take w (drop off xs))"

definition struct_error :: exn where
  "struct_error = RaisedError ''struct.error'' []"

definition unpack_from :: "nat \<Rightarrow> (bytes \<Rightarrow> 'a) \<Rightarrow> bytes \<Rightarrow> int \<Rightarrow> exn + 'a" where
  "unpack_from sz decode xs off =
     (let pos = (if off < 0 then off + int (length xs) else off) in
      if pos < 0 \<or> pos + int sz > int (length xs) then Inl struct_error
      else Inr (decode (take sz (drop (nat pos) xs))))"

text \<open>\<open>struct.pack_into("<II...", data, off, *vs)\<close>, at an offset that is not negative.\<close>

definition le_bytes :: "nat \<Rightarrow> int \<Rightarrow> bytes" where
  "le_bytes w v = map (\<lambda>i. word_of_int (v div 256 ^ i)) [0..<w]"

definition overwrite :: "'a list \<Rightarrow> nat \<Rightarrow> 'a list \<Rightarrow> 'a list" where
  "overwrite xs off ys = take off xs @ ys @ drop (off + length ys) xs"

definition pack_into :: "bytes \<Rightarrow> int \<Rightarrow> int list \<Rightarrow> exn + bytes" where
  "pack_into xs off vs =
     (if (\<exists>v \<in> set vs. v < 0 \<or> v \<ge> 2 ^ 32) \<or> off < 0 \<or> off + 4 * int (length vs) > int (length xs)
      then Inl struct_error
      else Inr (overwrite xs (nat off) (concat (map (le_bytes 4) vs))))"

text \<open>\<open>data[i] = v\<close> on a \<open>bytearray\<close>.\<close>

definition set_byte :: "bytes \<Rightarrow> int \<Rightarrow> int \<Rightarrow> exn + bytes" where
  "set_byte xs i v =
     (if i < 0 \<or> i \<ge> int (length xs) then Inl IndexError
      else if v < 0 \<or> v \<ge> 256 then Inl (ValueError ''byte must be in range(0, 256)'')
      else Inr (xs[nat i := word_of_int v]))"

subsection \<open>Adler-32\<close>

definition adler_base :: int where
  "adler_base = 65521"

fun adler_loop :: "bytes \<Rightarrow> int \<Rightarrow> int \<Rightarrow> int \<times> int" where
  "adler_loop [] a b = (a, b)"
| "adler_loop (x # xs) a b = (let a' = (a + uint x) mod adler_base in adler_loop xs a' ((b + a') mod adler_base))"

definition adler32 :: "bytes \<Rightarrow> int" where
  "adler32 xs = (case adler_loop xs 1 0 of (a, b) \<Rightarrow> b * 65536 + a)"

subsection \<open>Facts\<close>

lemma le_int_bounds: "0 \<le> le_int xs \<and> le_int xs < 256 ^ length xs"
proof (induction xs)
  case (Cons b xs)
  have "0 \<le> uint b" "uint b < 256" using unsigned_less [of b, where 'a = int] by auto
  with Cons show ?case by (auto simp: le_int_def)
qed (simp add: le_int_def)

lemma le_int_nonneg [simp]: "0 \<le> le_int xs"
  using le_int_bounds by blast

lemma field_nonneg [simp]: "0 \<le> field xs off w"
  by (simp add: field_def)

lemma unpack_from_in_range:
  "0 \<le> off \<Longrightarrow> off + int sz \<le> int (length xs) \<Longrightarrow>
   unpack_from sz decode xs off = Inr (decode (take sz (drop (nat off) xs)))"
  by (simp add: unpack_from_def)

lemma byte_at_in_range [simp]: "i < length xs \<Longrightarrow> byte_at xs i = Inr (uint (xs ! i))"
  by (simp add: byte_at_def)

lemma length_slice_le: "length (py_slice xs a b) \<le> length xs"
  by (simp add: py_slice_def)

lemma length_slice:
  assumes "0 \<le> a" "a \<le> b" "b \<le> int (length xs)"
  shows "length (py_slice xs a b) = nat (b - a)"
  using assms by (auto simp: py_slice_def clip_index_def)

lemma nth_slice:
  assumes "0 \<le> a" "a \<le> b" "b \<le> int (length xs)" "i < nat (b - a)"
  shows "py_slice xs a b ! i = xs ! (nat a + i)"
proof -
  have "clip_index (length xs) a = nat a" "clip_index (length xs) b = nat b" using assms by (auto simp: clip_index_def)
  moreover have "i < nat b - nat a" using assms by (simp add: nat_diff_distrib)
  ultimately show ?thesis using assms by (simp add: py_slice_def)
qed

lemma find_nul_Some:
  assumes "find_nul xs start = Some i"
  shows "start \<le> i \<and> i < length xs \<and> xs ! i = 0 \<and> (\<forall>j. start \<le> j \<longrightarrow> j < i \<longrightarrow> xs ! j \<noteq> 0)"
proof -
  define k where "k = length (takeWhile (\<lambda>b. b \<noteq> 0) (drop start xs))"
  have i: "i = start + k" "i < length xs" using assms by (auto simp: find_nul_def Let_def k_def split: if_splits)
  then have "k < length (drop start xs)" by simp
  then have "drop start xs ! k = 0" unfolding k_def using nth_length_takeWhile by blast
  moreover have "xs ! j \<noteq> 0" if "start \<le> j" "j < i" for j
  proof -
    have "j - start < k" using that i by simp
    then have "takeWhile (\<lambda>b. b \<noteq> 0) (drop start xs) ! (j - start) \<in> set (takeWhile (\<lambda>b. b \<noteq> 0) (drop start xs))"
      and "takeWhile (\<lambda>b. b \<noteq> 0) (drop start xs) ! (j - start) = drop start xs ! (j - start)"
      unfolding k_def by (auto intro: takeWhile_nth)
    then have "drop start xs ! (j - start) \<noteq> 0" by (metis set_takeWhileD)
    then show ?thesis using that i by simp
  qed
  ultimately show ?thesis using i by simp
qed

lemma adler_loop_bounds:
  "0 \<le> a \<Longrightarrow> a < adler_base \<Longrightarrow> 0 \<le> b \<Longrightarrow> b < adler_base \<Longrightarrow> adler_loop xs a b = (c, d) \<Longrightarrow>
     0 \<le> c \<and> c < adler_base \<and> 0 \<le> d \<and> d < adler_base"
  by (induction xs a b rule: adler_loop.induct) (auto simp: Let_def adler_base_def)

text \<open>The checksum fits 32 bits, so masking it changes nothing.\<close>

lemma adler32_range: "0 \<le> adler32 xs \<and> adler32 xs < 2 ^ 32"
proof -
  obtain a b where ab: "adler_loop xs 1 0 = (a, b)" by (cases "adler_loop xs 1 0")
  then have "0 \<le> a" "a < 65521" "0 \<le> b" "b < 65521"
    using adler_loop_bounds [of 1 0 xs a b] by (auto simp: adler_base_def)
  then show ?thesis using ab by (simp add: adler32_def)
qed

lemma adler32_masked: "adler32 xs AND 0xFFFFFFFF = adler32 xs"
proof -
  have "adler32 xs AND mask 32 = take_bit 32 (adler32 xs)" by (simp add: take_bit_eq_mask)
  also have "\<dots> = adler32 xs" using adler32_range by (simp add: take_bit_int_eq_self_iff)
  finally show ?thesis by (simp add: mask_eq_exp_minus_1)
qed

text \<open>Rounding up to a multiple of four, \<open>(x + 3) & ~3\<close>.\<close>

lemma and_plus_and_not: "(x AND y) + (x AND NOT y) = (x :: int)"
proof -
  have "(x AND y) AND (x AND NOT y) = 0" by (simp add: and.assoc and.left_commute [of y])
  then have "(x AND y) + (x AND NOT y) = (x AND y) OR (x AND NOT y)" by (simp add: disjunctive_add_eq_or)
  also have "\<dots> = x" by (simp flip: bit.conj_disj_distrib)
  finally show ?thesis .
qed

lemma and_not_3: "(x :: int) AND NOT 3 = x - x mod 4"
proof -
  have "x = (x AND 3) + (x AND NOT 3)" by (rule sym) (rule and_plus_and_not)
  moreover have "x AND 3 = x mod 4" using take_bit_eq_mask [of 2 x] by (simp add: mask_eq_exp_minus_1 take_bit_eq_mod)
  ultimately show ?thesis by linarith
qed

lemma round_up_4: "(x + 3) AND NOT 3 = (y :: int) \<Longrightarrow> x \<le> y \<and> y < x + 4"
  unfolding and_not_3 by presburger

lemma and_not_1: "(x :: int) AND NOT 1 = x - x mod 2"
  using and_plus_and_not [of x 1] by (simp add: and_one_eq algebra_simps)

lemma and_not_15: "0 \<le> (x :: int) \<Longrightarrow> x AND NOT 15 = 0 \<longleftrightarrow> x < 16"
proof -
  assume "0 \<le> x"
  have "x AND 15 = x mod 16" using take_bit_eq_mask [of 4 x] by (simp add: mask_eq_exp_minus_1 take_bit_eq_mod)
  with and_plus_and_not [of x 15] have "x AND NOT 15 = x - x mod 16" by linarith
  with \<open>0 \<le> x\<close> show ?thesis by (auto simp: zmod_trivial_iff)
qed

lemma py_slice_nat: "a \<le> b \<Longrightarrow> py_slice xs (int a) (int b) = take (b - a) (drop a xs)"
proof (cases "a < length xs")
  case True
  assume "a \<le> b"
  then have "take (min b (length xs) - a) (drop a xs) = take (b - a) (drop a xs)"
    using True by (cases "b \<le> length xs") (simp_all add: min_def)
  with True show ?thesis by (simp add: py_slice_def clip_index_def min_def)
qed (simp add: py_slice_def clip_index_def)

end
