(* ===== verification/PyRepr.thy ===== *)
theory PyRepr
  imports PyValue PyString
begin

section \<open>The printed form of values\<close>

text \<open>
  \<open>repr\<close> as the messages of the tools use it: of a list or a tuple of strings, and of a value read
  from JSON or TOML.
\<close>

definition list_repr :: "string list \<Rightarrow> string" where
  "list_repr xs = ''['' @ join_str '', '' (map py_repr xs) @ '']''"

text \<open>A tuple of one element keeps its comma.\<close>

definition tuple_repr :: "string list \<Rightarrow> string" where
  "tuple_repr xs = ''('' @ join_str '', '' (map py_repr xs) @ (if length xs = 1 then '','' else []) @ '')''"

fun value_repr :: "pyval \<Rightarrow> string" where
  "value_repr (VStr s) = py_repr s"
| "value_repr (VBool b) = (if b then ''True'' else ''False'')"
| "value_repr (VInt i) = int_str i"
| "value_repr (VList vs) = ''['' @ join_str '', '' (map value_repr vs) @ '']''"
| "value_repr (VDict d) = ''{'' @ join_str '', '' (map (\<lambda>(k, v). py_repr k @ '': '' @ value_repr v) d) @ ''}''"
| "value_repr VNone = ''None''"

text \<open>\<open>str(v)\<close>\<close>

fun text_of :: "pyval \<Rightarrow> string" where
  "text_of (VStr s) = s"
| "text_of v = value_repr v"

end
