(* ===== verification/BpLocalConfig.thy ===== *)
theory BpLocalConfig
  imports BpTarget "HOL-Library.List_Lexorder" "HOL-Library.Char_ord" "HOL-Library.Product_Lexorder"
begin

section \<open>Machine-local build configuration\<close>

text \<open>
  The model of \<open>local_config.py\<close>: the TOML files that bind tools, SDKs and output directories of the
  machine, and the check of every path they name. A \<open>pathlib.Path\<close> is a POSIX path: its root and its
  names. The file system, the environment and the TOML reader are a record of functions; \<open>os.lstat\<close>
  returns the two fields of the result that the code reads, or the exception it raises. A TOML
  value that is no string, list, table, integer or boolean is as \<open>VNone\<close> here: the code only tells
  strings and tables apart from the rest.
\<close>

subsection \<open>Paths\<close>

record pypath =
  pp_root :: string
  pp_names :: "string list"

definition path_of :: "string \<Rightarrow> pypath" where
  "path_of s = \<lparr>pp_root = initial_slashes s,
     pp_names = filter (\<lambda>c. c \<noteq> [] \<and> c \<noteq> ''.'') (split_on slash s)\<rparr>"

definition path_str :: "pypath \<Rightarrow> string" where
  "path_str p = (if pp_root p = [] \<and> pp_names p = [] then ''.'' else pp_root p @ join_str ''/'' (pp_names p))"

definition path_child :: "pypath \<Rightarrow> string \<Rightarrow> pypath" where
  "path_child p n = p\<lparr>pp_names := pp_names p @ [n]\<rparr>"

definition is_absolute :: "pypath \<Rightarrow> bool" where
  "is_absolute p = (pp_root p \<noteq> [])"

definition path_anchor :: "pypath \<Rightarrow> pypath" where
  "path_anchor p = p\<lparr>pp_names := []\<rparr>"

subsection \<open>The machine\<close>

record stat_info =
  st_mode :: int
  st_file_attributes :: "int option"

record machine =
  mc_lstat :: "pypath \<Rightarrow> exn + stat_info"
  mc_exists :: "pypath \<Rightarrow> bool"
  mc_is_symlink :: "pypath \<Rightarrow> bool"
  mc_is_file :: "pypath \<Rightarrow> bool"
  mc_toml :: "pypath \<Rightarrow> exn + pyval"
  mc_environ :: "string \<Rightarrow> string option"

definition config_error :: "string \<Rightarrow> exn" where
  "config_error msg = RaisedError ''LocalConfigError'' msg"

text \<open>\<open>stat.S_ISLNK(mode)\<close>: the file type bits \<open>0o170000\<close> are \<open>0o120000\<close>.\<close>

definition s_islnk :: "int \<Rightarrow> bool" where
  "s_islnk mode = (and mode 61440 = 40960)"

definition is_windows_reparse :: "stat_info \<Rightarrow> bool" where
  "is_windows_reparse info =
     (and (case st_file_attributes info of Some a \<Rightarrow> a | None \<Rightarrow> 0) 1024 \<noteq> 0)"

subsection \<open>The check of a path\<close>

fun validate_loop :: "machine \<Rightarrow> pypath \<Rightarrow> string list \<Rightarrow> bool \<Rightarrow> exn + unit" where
  "validate_loop mc current [] missing_seen = Inr ()"
| "validate_loop mc current (part # parts) missing_seen =
     (let current = path_child current part in
      case mc_lstat mc current of
        Inl (OSError kind msg) \<Rightarrow>
          if kind = ''FileNotFoundError'' then validate_loop mc current parts True
          else Inl (config_error (''cannot inspect managed path '' @ path_str current @ '': '' @ msg))
      | Inl e \<Rightarrow> Inl e
      | Inr info \<Rightarrow>
          if missing_seen
          then Inl (config_error (''managed path has an existing child below a missing component: '' @ path_str current))
          else if s_islnk (st_mode info) \<or> is_windows_reparse info
          then Inl (config_error (''managed path contains a link/reparse component: '' @ path_str current))
          else validate_loop mc current parts missing_seen)"

definition validate_managed_path :: "machine \<Rightarrow> pypath \<Rightarrow> bool \<Rightarrow> exn + pypath" where
  "validate_managed_path mc path allow_missing =
     (if \<not> is_absolute path then Inl (config_error (''machine-local path must be absolute: '' @ path_str path))
      else rbind (validate_loop mc (path_anchor path) (pp_names path) False) (\<lambda>_.
        if \<not> allow_missing \<and> \<not> mc_exists mc path
        then Inl (config_error (''managed path does not exist: '' @ path_str path))
        else Inr path))"

definition expansion_syntax :: "string \<Rightarrow> bool" where
  "expansion_syntax v = (starts_with ''~'' v \<or> contains [CHR 0x24, CHR 0x7B] v \<or> CHR ''%'' \<in> set v)"

definition local_path :: "machine \<Rightarrow> pyval \<Rightarrow> pypath \<Rightarrow> string \<Rightarrow> bool \<Rightarrow> exn + pypath" where
  "local_path mc v source key allow_missing =
     (case v of
        VStr s \<Rightarrow>
          if s = [] then Inl (config_error (path_str source @ '': '' @ key @ '' must be a non-empty string''))
          else if expansion_syntax s
          then Inl (config_error (path_str source @ '': '' @ key @ '' must not use path expansion syntax''))
          else validate_managed_path mc (path_of s) allow_missing
      | _ \<Rightarrow> Inl (config_error (path_str source @ '': '' @ key @ '' must be a non-empty string'')))"

subsection \<open>Tables\<close>

definition tool_keys :: "string list" where
  "tool_keys = [''cmake'', ''ninja'', ''llvm_root'', ''jdk_root'']"

definition build_keys :: "string list" where
  "build_keys = [''output_root'']"

definition target_keys :: "string list" where
  "target_keys = [''bundle_root'', ''sdk_root'', ''sysroot'', ''runtime_root'']"

definition table_of :: "dict \<Rightarrow> string \<Rightarrow> exn + dict" where
  "table_of data key =
     (case dget data key (VDict []) of
        VDict d \<Rightarrow> Inr d
      | _ \<Rightarrow> Inl (config_error (''['' @ key @ ''] must be a TOML table'')))"

definition reject_unknown :: "dict \<Rightarrow> string list \<Rightarrow> string \<Rightarrow> exn + unit" where
  "reject_unknown data allowed wh =
     (let unknown = sort (remdups (filter (\<lambda>k. k \<notin> set allowed) (map fst data))) in
      if unknown \<noteq> [] then Inl (config_error (wh @ '': unsupported keys: '' @ join_str '', '' unknown))
      else Inr ())"

text \<open>A dictionary comprehension over the items of a table.\<close>

definition map_items :: "(string \<Rightarrow> pyval \<Rightarrow> exn + 'a) \<Rightarrow> dict \<Rightarrow> exn + (string \<times> 'a) list" where
  "map_items f d = map_r (\<lambda>(k, v). rbind (f k v) (\<lambda>x. Inr (k, x))) d"

text \<open>\<open>{**a, **b}\<close>, and \<open>a.update(b)\<close>.\<close>

definition dict_union :: "(string \<times> 'a) list \<Rightarrow> (string \<times> 'a) list \<Rightarrow> (string \<times> 'a) list" where
  "dict_union a b = foldl (\<lambda>d (k, v). AList.update k v d) a b"

subsection \<open>Loading\<close>

record local_build_config =
  lc_source_file :: "pypath option"
  lc_tools :: "(string \<times> pypath) list"
  lc_output_root :: "pypath option"
  lc_targets :: "(string \<times> (string \<times> pypath) list) list"
  lc_target_runners :: "(string \<times> pypath) list"

definition empty_config :: local_build_config where
  "empty_config = \<lparr>lc_source_file = None, lc_tools = [], lc_output_root = None, lc_targets = [],
     lc_target_runners = []\<rparr>"

definition target_bindings :: "local_build_config \<Rightarrow> string \<Rightarrow> (string \<times> pypath) list" where
  "target_bindings c target_id = (case map_of (lc_targets c) target_id of Some b \<Rightarrow> b | None \<Rightarrow> [])"

text \<open>\<open>resolve_target\<close> under \<open>except ValueError\<close>: its errors are \<open>ValueError\<close>s.\<close>

definition known_target :: "pypath \<Rightarrow> string \<Rightarrow> string \<Rightarrow> exn + unit" where
  "known_target path table target_id =
     (case resolve_target target_id of
        Inr _ \<Rightarrow> Inr ()
      | Inl (TargetError _ msg) \<Rightarrow>
          Inl (config_error (path_str path @ '': '' @ table @ ''.'' @ target_id @ '': '' @ msg))
      | Inl e \<Rightarrow> Inl e)"

definition load_target :: "machine \<Rightarrow> pypath \<Rightarrow> string \<Rightarrow> pyval \<Rightarrow> exn + (string \<times> pypath) list" where
  "load_target mc path target_id raw_bindings =
     rbind (known_target path ''targets'' target_id) (\<lambda>_.
     case raw_bindings of
       VDict d \<Rightarrow>
         rbind (reject_unknown d target_keys (''[targets.'' @ py_repr target_id @ '']'')) (\<lambda>_.
           map_items (\<lambda>key v. local_path mc v path (''targets.'' @ target_id @ ''.'' @ key) False) d)
     | _ \<Rightarrow> Inl (config_error (path_str path @ '': targets.'' @ target_id @ '' must be a table'')))"

definition load_runner :: "machine \<Rightarrow> pypath \<Rightarrow> string \<Rightarrow> pyval \<Rightarrow> exn + pypath" where
  "load_runner mc path target_id raw_runner =
     rbind (known_target path ''target_runners'' target_id) (\<lambda>_.
     rbind (local_path mc raw_runner path (''target_runners.'' @ target_id) False) (\<lambda>runner.
       if \<not> mc_is_file mc runner
       then Inl (config_error (path_str path @ '': target_runners.'' @ target_id @ '' must name a regular executable''))
       else Inr runner))"

definition load_tables :: "machine \<Rightarrow> pypath \<Rightarrow> dict \<Rightarrow> exn + local_build_config" where
  "load_tables mc path data =
     rbind (reject_unknown data [''tools'', ''build'', ''targets'', ''target_runners''] ''top level'') (\<lambda>_.
     rbind (table_of data ''tools'') (\<lambda>tools_table.
     rbind (reject_unknown tools_table tool_keys ''[tools]'') (\<lambda>_.
     rbind (map_items (\<lambda>key v. local_path mc v path (''tools.'' @ key) False) tools_table) (\<lambda>tools.
     rbind (table_of data ''build'') (\<lambda>build_table.
     rbind (reject_unknown build_table build_keys ''[build]'') (\<lambda>_.
     rbind (case map_of build_table ''output_root'' of
              None \<Rightarrow> Inr None
            | Some v \<Rightarrow> rbind (local_path mc v path ''build.output_root'' True) (\<lambda>p. Inr (Some p))) (\<lambda>output_root.
     rbind (table_of data ''targets'') (\<lambda>targets_table.
     rbind (map_items (load_target mc path) targets_table) (\<lambda>targets.
     rbind (table_of data ''target_runners'') (\<lambda>runners_table.
     rbind (map_items (load_runner mc path) runners_table) (\<lambda>target_runners.
       Inr \<lparr>lc_source_file = Some path, lc_tools = tools, lc_output_root = output_root,
         lc_targets = targets, lc_target_runners = target_runners\<rparr>)))))))))))"

definition read_toml :: "machine \<Rightarrow> pypath \<Rightarrow> exn + dict" where
  "read_toml mc path =
     (let failed = (\<lambda>msg. Inl (config_error (''cannot read '' @ path_str path @ '': '' @ msg))) in
      case mc_toml mc path of
        Inr (VDict d) \<Rightarrow> Inr d
      | Inr _ \<Rightarrow> Inl (config_error (path_str path @ '': top-level TOML value must be a table''))
      | Inl (OSError _ msg) \<Rightarrow> failed msg
      | Inl (RaisedError kind msg) \<Rightarrow> if kind = ''TOMLDecodeError'' then failed msg else Inl (RaisedError kind msg)
      | Inl e \<Rightarrow> Inl e)"

definition load_config_file :: "machine \<Rightarrow> pypath \<Rightarrow> bool \<Rightarrow> exn + local_build_config" where
  "load_config_file mc path required =
     (if \<not> mc_exists mc path then
        if required then Inl (config_error (''CI configuration does not exist: '' @ path_str path))
        else Inr empty_config
      else if mc_is_symlink mc path
      then Inl (config_error (''local configuration must be a regular file: '' @ path_str path))
      else rbind (validate_managed_path mc path False) (\<lambda>_.
        if \<not> mc_is_file mc path
        then Inl (config_error (''local configuration must be a regular file: '' @ path_str path))
        else rbind (read_toml mc path) (load_tables mc path)))"

definition merge_targets ::
  "(string \<times> (string \<times> pypath) list) list \<Rightarrow> (string \<times> (string \<times> pypath) list) list
    \<Rightarrow> (string \<times> (string \<times> pypath) list) list" where
  "merge_targets local ci =
     foldl (\<lambda>targets (target_id, bindings).
        AList.update target_id (dict_union (case map_of targets target_id of Some b \<Rightarrow> b | None \<Rightarrow> []) bindings) targets)
       local ci"

definition local_config_name :: string where
  "local_config_name = ''.art-build.local.toml''"

definition ci_config_env :: string where
  "ci_config_env = ''ART_BUILD_CI_CONFIG''"

definition load_local_config :: "machine \<Rightarrow> pypath \<Rightarrow> exn + local_build_config" where
  "load_local_config mc repo_root =
     rbind (load_config_file mc (path_child repo_root local_config_name) False) (\<lambda>local.
     case mc_environ mc ci_config_env of
       None \<Rightarrow> Inr local
     | Some ci_value \<Rightarrow>
         if ci_value = [] then Inr local
         else if expansion_syntax ci_value
         then Inl (config_error (ci_config_env @ '' must not use path expansion syntax''))
         else let ci_path = path_of ci_value in
           if \<not> is_absolute ci_path then Inl (config_error (ci_config_env @ '' must name an absolute path''))
           else rbind (load_config_file mc ci_path True) (\<lambda>ci.
             Inr \<lparr>lc_source_file = lc_source_file ci,
               lc_tools = dict_union (lc_tools local) (lc_tools ci),
               lc_output_root = (case lc_output_root ci of Some r \<Rightarrow> Some r | None \<Rightarrow> lc_output_root local),
               lc_targets = merge_targets (lc_targets local) (lc_targets ci),
               lc_target_runners = dict_union (lc_target_runners local) (lc_target_runners ci)\<rparr>))"

subsection \<open>Which paths are accepted\<close>

lemma all_less_Suc_case: "(\<forall>i < Suc n. P i) \<longleftrightarrow> P 0 \<and> (\<forall>i < n. P (Suc i))"
  using less_Suc_eq_0_disj by auto

lemma ex_le_Suc_case: "(\<exists>k \<le> Suc n. P k) \<longleftrightarrow> P 0 \<or> (\<exists>k \<le> n. P (Suc k))"
  using all_less_Suc_case [of "Suc n" "\<lambda>k. \<not> P k"] by (auto simp: less_Suc_eq_le)

definition absent :: "machine \<Rightarrow> pypath \<Rightarrow> bool" where
  "absent mc p = (\<exists>msg. mc_lstat mc p = Inl (OSError ''FileNotFoundError'' msg))"

definition plain_entry :: "machine \<Rightarrow> pypath \<Rightarrow> bool" where
  "plain_entry mc p = (\<exists>info. mc_lstat mc p = Inr info \<and> \<not> s_islnk (st_mode info) \<and> \<not> is_windows_reparse info)"

definition ancestor :: "pypath \<Rightarrow> nat \<Rightarrow> pypath" where
  "ancestor p n = p\<lparr>pp_names := take n (pp_names p)\<rparr>"

definition below :: "pypath \<Rightarrow> string list \<Rightarrow> pypath" where
  "below p names = p\<lparr>pp_names := pp_names p @ names\<rparr>"

lemma below_child: "below (path_child p n) ns = below p (n # ns)"
  by (simp add: below_def path_child_def)

lemma absent_not_plain: "absent mc p \<Longrightarrow> \<not> plain_entry mc p"
  by (auto simp: absent_def plain_entry_def)

lemma validate_step:
  "validate_loop mc current (part # parts) missing = Inr u \<longleftrightarrow>
     (let p = path_child current part in
      absent mc p \<and> validate_loop mc p parts True = Inr u
      \<or> \<not> missing \<and> plain_entry mc p \<and> validate_loop mc p parts False = Inr u)"
proof (cases "mc_lstat mc (path_child current part)")
  case (Inl e)
  then show ?thesis by (cases e) (auto simp: Let_def absent_def plain_entry_def)
next
  case (Inr info)
  then show ?thesis by (auto simp: Let_def absent_def plain_entry_def)
qed

lemma validate_missing:
  "validate_loop mc current parts True = Inr u \<longleftrightarrow>
     (\<forall>i < length parts. absent mc (below current (take (Suc i) parts)))"
proof (induction parts arbitrary: current)
  case (Cons part parts)
  have "(\<forall>i < length (part # parts). absent mc (below current (take (Suc i) (part # parts))))
    \<longleftrightarrow> absent mc (path_child current part)
      \<and> (\<forall>i < length parts. absent mc (below (path_child current part) (take (Suc i) parts)))"
    by (simp add: all_less_Suc_case below_child path_child_def below_def)
  then show ?case unfolding validate_step Let_def Cons.IH by simp
qed simp

lemma validate_present:
  "validate_loop mc current parts False = Inr u \<longleftrightarrow>
     (\<exists>k \<le> length parts. (\<forall>i < k. plain_entry mc (below current (take (Suc i) parts)))
        \<and> (\<forall>i < length parts. k \<le> i \<longrightarrow> absent mc (below current (take (Suc i) parts))))"
proof (induction parts arbitrary: current)
  case (Cons part parts)
  let ?p = "path_child current part" and ?at = "\<lambda>i. below current (take (Suc i) (part # parts))"
  have at: "?at 0 = ?p" "\<And>i. ?at (Suc i) = below ?p (take (Suc i) parts)"
    by (simp_all add: path_child_def below_def)
  let ?ok = "\<lambda>k. (\<forall>i < k. plain_entry mc (?at i)) \<and> (\<forall>i < length (part # parts). k \<le> i \<longrightarrow> absent mc (?at i))"
  have "(\<exists>k \<le> length (part # parts). ?ok k) \<longleftrightarrow> ?ok 0 \<or> (\<exists>k \<le> length parts. ?ok (Suc k))"
    using ex_le_Suc_case [of "length parts" ?ok] by (simp only: length_Cons)
  moreover have "?ok 0 \<longleftrightarrow> absent mc ?p \<and> validate_loop mc ?p parts True = Inr u"
    unfolding validate_missing by (simp add: all_less_Suc_case at del: take_Suc_Cons)
  moreover have "(\<exists>k \<le> length parts. ?ok (Suc k)) \<longleftrightarrow> plain_entry mc ?p \<and> validate_loop mc ?p parts False = Inr u"
    unfolding Cons.IH by (auto simp: all_less_Suc_case at simp del: take_Suc_Cons)
  ultimately show ?case unfolding validate_step Let_def by simp
qed simp

lemma validate_managed_path_iff:
  "validate_managed_path mc p allow = Inr q \<longleftrightarrow> q = p \<and> is_absolute p
    \<and> validate_loop mc (path_anchor p) (pp_names p) False = Inr () \<and> (allow \<or> mc_exists mc p)"
  by (auto simp: validate_managed_path_def rbind_Inr_iff)

lemma anchor_below: "below (path_anchor p) (take n (pp_names p)) = ancestor p n"
  by (simp add: below_def path_anchor_def ancestor_def)

subsection \<open>What a loaded configuration holds\<close>

definition managed :: "machine \<Rightarrow> bool \<Rightarrow> pypath \<Rightarrow> bool" where
  "managed mc allow p = (validate_managed_path mc p allow = Inr p)"

definition bindings_ok :: "machine \<Rightarrow> string list \<Rightarrow> (string \<times> pypath) list \<Rightarrow> bool" where
  "bindings_ok mc keys d = (\<forall>(k, p) \<in> set d. k \<in> set keys \<and> managed mc False p)"

definition target_ok :: "machine \<Rightarrow> string \<times> (string \<times> pypath) list \<Rightarrow> bool" where
  "target_ok mc tb = ((\<exists>profile. resolve_target (fst tb) = Inr profile) \<and> bindings_ok mc target_keys (snd tb))"

definition runner_ok :: "machine \<Rightarrow> string \<times> pypath \<Rightarrow> bool" where
  "runner_ok mc tp = ((\<exists>profile. resolve_target (fst tp) = Inr profile) \<and> managed mc False (snd tp) \<and> mc_is_file mc (snd tp))"

definition config_ok :: "machine \<Rightarrow> local_build_config \<Rightarrow> bool" where
  "config_ok mc c =
     (bindings_ok mc tool_keys (lc_tools c) \<and> (\<forall>p. lc_output_root c = Some p \<longrightarrow> managed mc True p)
      \<and> (\<forall>tb \<in> set (lc_targets c). target_ok mc tb) \<and> (\<forall>tp \<in> set (lc_target_runners c). runner_ok mc tp))"

lemma set_update: "set (AList.update k v d) \<subseteq> insert (k, v) (set d)"
  by (induction d) auto

lemma set_dict_union: "set (dict_union a b) \<subseteq> set a \<union> set b"
  unfolding dict_union_def
proof (induction b arbitrary: a)
  case (Cons x b)
  have "set (AList.update (fst x) (snd x) a) \<subseteq> insert x (set a)" using set_update [of "fst x" "snd x" a] by simp
  with Cons.IH [of "AList.update (fst x) (snd x) a"] show ?case by (auto simp: case_prod_unfold)
qed simp

lemma bindings_ok_union: "bindings_ok mc ks a \<Longrightarrow> bindings_ok mc ks b \<Longrightarrow> bindings_ok mc ks (dict_union a b)"
  using set_dict_union [of a b] unfolding bindings_ok_def by blast

lemma local_path_managed: "local_path mc v source key allow = Inr p \<Longrightarrow> managed mc allow p"
  by (auto simp: local_path_def managed_def validate_managed_path_iff split: pyval.splits if_splits)

lemma map_items_Inr: "map_items f d = Inr ys \<Longrightarrow> (k, y) \<in> set ys \<Longrightarrow> \<exists>v. (k, v) \<in> set d \<and> f k v = Inr y"
  unfolding map_items_def
proof (induction d arbitrary: ys)
  case (Cons x d)
  then show ?case by (cases x) (auto simp: rbind_Inr_iff, blast+)
qed simp

lemma reject_unknown_Inr: "reject_unknown d keys wh = Inr u \<Longrightarrow> (k, v) \<in> set d \<Longrightarrow> k \<in> set keys"
proof (rule ccontr)
  assume r: "reject_unknown d keys wh = Inr u" and "(k, v) \<in> set d" "k \<notin> set keys"
  then have "k \<in> set (sort (remdups (filter (\<lambda>k. k \<notin> set keys) (map fst d))))" by force
  then have "sort (remdups (filter (\<lambda>k. k \<notin> set keys) (map fst d))) \<noteq> []" by (metis empty_iff empty_set)
  with r show False by (simp add: reject_unknown_def)
qed

lemma known_target_Inr: "known_target path table t = Inr u \<Longrightarrow> \<exists>profile. resolve_target t = Inr profile"
  by (auto simp: known_target_def split: sum.splits exn.splits)

lemma load_target_ok: "load_target mc path t v = Inr b \<Longrightarrow> target_ok mc (t, b)"
proof -
  assume l: "load_target mc path t v = Inr b"
  then obtain u d where kt: "known_target path ''targets'' t = Inr u"
    and r: "reject_unknown d target_keys (''[targets.'' @ py_repr t @ '']'') = Inr ()"
    and m: "map_items (\<lambda>key v. local_path mc v path (''targets.'' @ t @ ''.'' @ key) False) d = Inr b"
    by (cases v) (auto simp: load_target_def rbind_Inr_iff)
  have "k \<in> set target_keys \<and> managed mc False p" if "(k, p) \<in> set b" for k p
    using map_items_Inr [OF m that] reject_unknown_Inr [OF r] local_path_managed by blast
  with known_target_Inr [OF kt] show ?thesis by (auto simp: target_ok_def bindings_ok_def)
qed

lemma load_runner_ok: "load_runner mc path t v = Inr p \<Longrightarrow> runner_ok mc (t, p)"
  by (auto simp: load_runner_def rbind_Inr_iff runner_ok_def dest!: known_target_Inr local_path_managed split: if_splits)

lemma load_tables_ok: "load_tables mc path data = Inr c \<Longrightarrow> config_ok mc c"
proof -
  assume "load_tables mc path data = Inr c"
  then obtain tt tools bt out targets_table targets rt runners where
    r: "reject_unknown tt tool_keys ''[tools]'' = Inr ()"
    and t: "map_items (\<lambda>key v. local_path mc v path (''tools.'' @ key) False) tt = Inr tools"
    and o: "(case map_of bt ''output_root'' of None \<Rightarrow> Inr None
            | Some v \<Rightarrow> rbind (local_path mc v path ''build.output_root'' True) (\<lambda>p. Inr (Some p))) = Inr out"
    and g: "map_items (load_target mc path) targets_table = Inr targets"
    and n: "map_items (load_runner mc path) rt = Inr runners"
    and c: "c = \<lparr>lc_source_file = Some path, lc_tools = tools, lc_output_root = out, lc_targets = targets,
         lc_target_runners = runners\<rparr>"
    unfolding load_tables_def rbind_Inr_iff by (elim exE conjE) simp
  have "bindings_ok mc tool_keys tools"
    using map_items_Inr [OF t] reject_unknown_Inr [OF r] local_path_managed unfolding bindings_ok_def by blast
  moreover have "managed mc True p" if "out = Some p" for p
    using o that by (auto simp: rbind_Inr_iff dest: local_path_managed split: option.splits)
  moreover have "\<forall>tb \<in> set targets. target_ok mc tb" using map_items_Inr [OF g] load_target_ok by fast
  moreover have "\<forall>tp \<in> set runners. runner_ok mc tp" using map_items_Inr [OF n] load_runner_ok by fast
  ultimately show ?thesis by (simp add: config_ok_def c)
qed

lemma empty_config_ok: "config_ok mc empty_config"
  by (simp add: config_ok_def empty_config_def bindings_ok_def)

lemma load_config_file_ok: "load_config_file mc path required = Inr c \<Longrightarrow> config_ok mc c"
  by (auto simp: load_config_file_def rbind_Inr_iff empty_config_ok load_tables_ok split: if_splits)

lemma merge_targets_ok:
  "\<forall>tb \<in> set a. target_ok mc tb \<Longrightarrow> \<forall>tb \<in> set b. target_ok mc tb \<Longrightarrow> \<forall>tb \<in> set (merge_targets a b). target_ok mc tb"
  unfolding merge_targets_def
proof (induction b arbitrary: a)
  case (Cons x b)
  let ?old = "case map_of a (fst x) of Some d \<Rightarrow> d | None \<Rightarrow> []"
  let ?a = "AList.update (fst x) (dict_union ?old (snd x)) a"
  have "bindings_ok mc target_keys ?old"
  proof (cases "map_of a (fst x)")
    case (Some d)
    then have "target_ok mc (fst x, d)" using Cons.prems(1) map_of_SomeD by fastforce
    with Some show ?thesis by (simp add: target_ok_def)
  qed (simp add: bindings_ok_def)
  then have "target_ok mc (fst x, dict_union ?old (snd x))"
    using Cons.prems(2) by (auto simp: target_ok_def intro: bindings_ok_union)
  then have "\<forall>tb \<in> set ?a. target_ok mc tb"
    using Cons.prems(1) set_update [of "fst x" "dict_union ?old (snd x)" a] by blast
  from Cons.IH [OF this] Cons.prems(2) show ?case by (simp add: case_prod_unfold)
qed simp

lemma merged_ok: "config_ok mc local \<Longrightarrow> config_ok mc ci \<Longrightarrow>
  config_ok mc \<lparr>lc_source_file = s, lc_tools = dict_union (lc_tools local) (lc_tools ci),
     lc_output_root = (case lc_output_root ci of Some r \<Rightarrow> Some r | None \<Rightarrow> lc_output_root local),
     lc_targets = merge_targets (lc_targets local) (lc_targets ci),
     lc_target_runners = dict_union (lc_target_runners local) (lc_target_runners ci)\<rparr>"
  using set_dict_union [of "lc_target_runners local" "lc_target_runners ci"]
  by (auto simp: config_ok_def bindings_ok_union split: option.splits dest: merge_targets_ok)

subsection \<open>Properties\<close>

text \<open>C23. A machine-local path is accepted exactly when it is absolute and, going down from the root,
  its components are plain entries (no symbolic link, no reparse point) up to some point and
  missing from there on, and it exists unless it may be missing. No link is ever followed.\<close>

theorem managed_path_accepted:
  "validate_managed_path mc p allow_missing = Inr q \<longleftrightarrow> q = p \<and> is_absolute p
    \<and> (\<exists>k \<le> length (pp_names p). (\<forall>i < k. plain_entry mc (ancestor p (Suc i)))
         \<and> (\<forall>i < length (pp_names p). k \<le> i \<longrightarrow> absent mc (ancestor p (Suc i))))
    \<and> (allow_missing \<or> mc_exists mc p)"
  unfolding validate_managed_path_iff validate_present anchor_below by (rule refl)

definition sample_machine :: machine where
  "sample_machine = \<lparr>
     mc_lstat = (\<lambda>p. if pp_names p \<in> set [[''opt''], [''opt'', ''ninja''], [''ci.toml''], [''.art-build.local.toml'']]
        then Inr \<lparr>st_mode = 16877, st_file_attributes = None\<rparr> else Inl (OSError ''FileNotFoundError'' (path_str p))),
     mc_exists = (\<lambda>p. pp_names p \<in> set [[''opt''], [''opt'', ''ninja''], [''ci.toml'']]),
     mc_is_symlink = (\<lambda>_. False), mc_is_file = (\<lambda>_. True),
     mc_toml = (\<lambda>_. Inr (VDict [(''tools'', VDict [(''ninja'', VStr ''/opt/ninja'')])])),
     mc_environ = (\<lambda>_. Some ''/ci.toml'')\<rparr>"

theorem managed_path_accepted_witness:
  "validate_managed_path sample_machine \<lparr>pp_root = ''/'', pp_names = [''opt'', ''new'', ''out'']\<rparr> True
    = Inr \<lparr>pp_root = ''/'', pp_names = [''opt'', ''new'', ''out'']\<rparr>"
proof -
  have "\<exists>k \<le> 3. (\<forall>i < k. plain_entry sample_machine \<lparr>pp_root = ''/'', pp_names = take (Suc i) [''opt'', ''new'', ''out'']\<rparr>)
     \<and> (\<forall>i < 3. k \<le> i \<longrightarrow> absent sample_machine \<lparr>pp_root = ''/'', pp_names = take (Suc i) [''opt'', ''new'', ''out'']\<rparr>)"
    by (rule exI [of _ 1])
      (auto simp: less_Suc_eq numeral_3_eq_3 plain_entry_def absent_def sample_machine_def s_islnk_def is_windows_reparse_def)
  then show ?thesis unfolding managed_path_accepted by (simp add: is_absolute_def ancestor_def numeral_3_eq_3)
qed

text \<open>C24. Whatever \<open>load_local_config\<close> returns, from the local file, the CI file or both: its tools and
  target bindings have known keys and accepted, existing paths, its targets are registered, every
  runner is an existing regular file, and the output root is accepted.\<close>

theorem local_config_validated:
  assumes "load_local_config mc root = Inr c"
  shows "config_ok mc c"
proof -
  from assms obtain local where l: "load_config_file mc (path_child root local_config_name) False = Inr local"
    and c: "c = local \<or> (\<exists>ci ci_path s. load_config_file mc ci_path True = Inr ci \<and>
      c = \<lparr>lc_source_file = s, lc_tools = dict_union (lc_tools local) (lc_tools ci),
        lc_output_root = (case lc_output_root ci of Some r \<Rightarrow> Some r | None \<Rightarrow> lc_output_root local),
        lc_targets = merge_targets (lc_targets local) (lc_targets ci),
        lc_target_runners = dict_union (lc_target_runners local) (lc_target_runners ci)\<rparr>)"
    unfolding load_local_config_def rbind_Inr_iff
    by (elim exE conjE) (fastforce simp: Let_def rbind_Inr_iff split: option.split_asm if_split_asm)
  then show ?thesis using merged_ok load_config_file_ok by blast
qed

theorem local_config_validated_witness:
  "\<exists>c. load_local_config sample_machine (path_of ''/repo'') = Inr c \<and> lc_tools c \<noteq> [] \<and> config_ok sample_machine c"
proof -
  have p: "path_of ''/opt/ninja'' = \<lparr>pp_root = ''/'', pp_names = [''opt'', ''ninja'']\<rparr>"
    "path_of ''/ci.toml'' = \<lparr>pp_root = ''/'', pp_names = [''ci.toml'']\<rparr>"
    "path_of ''/repo'' = \<lparr>pp_root = ''/'', pp_names = [''repo'']\<rparr>" by code_simp+
  have e: "expansion_syntax ''/opt/ninja'' = False" "expansion_syntax ''/ci.toml'' = False" by code_simp+
  have r: "reject_unknown [(''tools'', v)] [''tools'', ''build'', ''targets'', ''target_runners''] ''top level'' = Inr ()"
    "reject_unknown [(''ninja'', v)] tool_keys ''[tools]'' = Inr ()" "reject_unknown [] build_keys ''[build]'' = Inr ()" for v
    by (simp_all add: reject_unknown_def tool_keys_def)
  let ?c = "\<lparr>lc_source_file = Some (path_of ''/ci.toml''), lc_tools = [(''ninja'', path_of ''/opt/ninja'')],
     lc_output_root = None, lc_targets = [], lc_target_runners = []\<rparr>"
  have l: "load_local_config sample_machine (path_of ''/repo'') = Inr ?c"
    by (simp add: load_local_config_def load_config_file_def read_toml_def load_tables_def table_of_def dget_def
        map_items_def local_path_def validate_managed_path_def is_absolute_def path_anchor_def path_child_def
        local_config_name_def sample_machine_def p e r s_islnk_def is_windows_reparse_def empty_config_def
        dict_union_def merge_targets_def)
  from local_config_validated [OF l] l show ?thesis by (intro exI [of _ ?c]) simp
qed

end
