(* ===== verification/OatElf.thy ===== *)
theory OatElf
  imports PyBytes PyRepr BpLocalConfig
begin

section \<open>The ELF envelope of OAT files\<close>

text \<open>
  The binary validators of \<open>run_dex2oat_no_image.py\<close> that the OAT and VDEX outputs of the Windows
  compiler have to pass: the ELF header, program headers, section headers and section names, the
  dynamic symbols and the VDEX container. A validator raises \<open>Dex2OatProbeError\<close> for every violation;
  \<open>reject_if\<close> is one such check. Reading a file goes through the link-free path check.
\<close>

subsection \<open>Errors\<close>

definition oat_error :: "string \<Rightarrow> exn" where
  "oat_error msg = RaisedError ''Dex2OatProbeError'' msg"

definition reject_if :: "bool \<Rightarrow> string \<Rightarrow> exn + unit" where
  "reject_if b msg = (if b then Inl (oat_error msg) else Inr ())"

definition py_mod :: "int \<Rightarrow> int \<Rightarrow> exn + int" where
  "py_mod a b = (if b = 0 then Inl (RaisedError ''ZeroDivisionError'' []) else Inr (a mod b))"

definition repr_byte :: "8 word \<Rightarrow> string" where
  "repr_byte b =
     (let n = unat b in
      if b = 0x5C \<or> b = 0x27 then [CHR 0x5C, ascii_char b]
      else if b = 9 then [CHR 0x5C, CHR ''t''] else if b = 10 then [CHR 0x5C, CHR ''n'']
      else if b = 13 then [CHR 0x5C, CHR ''r'']
      else if 32 \<le> n \<and> n < 127 then [ascii_char b]
      else [CHR 0x5C, CHR ''x'', hex_digit (n div 16), hex_digit n])"

definition bytes_repr :: "bytes \<Rightarrow> string" where
  "bytes_repr bs = ''b'' @ [CHR 0x27] @ concat (map repr_byte bs) @ [CHR 0x27]"

subsection \<open>Files\<close>

record oat_machine = machine +
  oc_cwd :: string
  oc_is_dir :: "pypath \<Rightarrow> bool"
  oc_bytes :: "pypath \<Rightarrow> exn + bytes"

text \<open>\<open>_managed_path\<close>: like the check of the local configuration, but on the absolute path, and every
  other \<open>OSError\<close> of \<open>lstat\<close> propagates.\<close>

fun managed_loop :: "oat_machine \<Rightarrow> pypath \<Rightarrow> string list \<Rightarrow> bool \<Rightarrow> exn + unit" where
  "managed_loop mc current [] missing_seen = Inr ()"
| "managed_loop mc current (part # parts) missing_seen =
     (let current = path_child current part in
      case mc_lstat mc current of
        Inl (OSError kind msg) \<Rightarrow>
          if kind = ''FileNotFoundError'' then managed_loop mc current parts True else Inl (OSError kind msg)
      | Inl e \<Rightarrow> Inl e
      | Inr info \<Rightarrow>
          rbind (reject_if missing_seen (''existing path below a missing component: '' @ path_str current)) (\<lambda>_.
          rbind (reject_if (s_islnk (st_mode info) \<or> is_windows_reparse info)
              (''link/reparse path is forbidden: '' @ path_str current)) (\<lambda>_.
            managed_loop mc current parts missing_seen)))"

definition managed_path :: "oat_machine \<Rightarrow> pypath \<Rightarrow> bool \<Rightarrow> exn + pypath" where
  "managed_path mc path allow_missing =
     (let path = path_of (abspath (oc_cwd mc) (path_str path)) in
      rbind (managed_loop mc (path_anchor path) (pp_names path) False) (\<lambda>_.
      rbind (reject_if (\<not> allow_missing \<and> \<not> mc_exists mc path) (''path does not exist: '' @ path_str path)) (\<lambda>_.
        Inr path)))"

definition regular_file :: "oat_machine \<Rightarrow> pypath \<Rightarrow> exn + pypath" where
  "regular_file mc path =
     rbind (managed_path mc path False) (\<lambda>path.
     rbind (reject_if (\<not> mc_is_file mc path) (''required regular file is missing: '' @ path_str path)) (\<lambda>_.
       Inr path))"

definition directory :: "oat_machine \<Rightarrow> pypath \<Rightarrow> exn + pypath" where
  "directory mc path =
     rbind (managed_path mc path False) (\<lambda>path.
     rbind (reject_if (\<not> oc_is_dir mc path) (''required directory is missing: '' @ path_str path)) (\<lambda>_.
       Inr path))"

definition read_regular :: "oat_machine \<Rightarrow> pypath \<Rightarrow> exn + bytes" where
  "read_regular mc path = rbind (regular_file mc path) (oc_bytes mc)"

subsection \<open>Headers\<close>

text \<open>The layouts \<open><16sHHIQQQIHHHHHH\<close>, \<open><IIQQQQQQ\<close>, \<open><IIQQQQIIQQ\<close> and \<open><IBBHQQ\<close>.\<close>

record elf_header =
  eh_ident :: bytes
  eh_type :: int
  eh_machine :: int
  eh_version :: int
  eh_entry :: int
  eh_phoff :: int
  eh_shoff :: int
  eh_flags :: int
  eh_ehsize :: int
  eh_phentsize :: int
  eh_phnum :: int
  eh_shentsize :: int
  eh_shnum :: int
  eh_shstrndx :: int

definition elf_header_of :: "bytes \<Rightarrow> elf_header" where
  "elf_header_of b = \<lparr>eh_ident = take 16 b, eh_type = field b 16 2, eh_machine = field b 18 2,
     eh_version = field b 20 4, eh_entry = field b 24 8, eh_phoff = field b 32 8, eh_shoff = field b 40 8,
     eh_flags = field b 48 4, eh_ehsize = field b 52 2, eh_phentsize = field b 54 2, eh_phnum = field b 56 2,
     eh_shentsize = field b 58 2, eh_shnum = field b 60 2, eh_shstrndx = field b 62 2\<rparr>"

record program_header =
  ph_type :: int
  ph_flags :: int
  ph_offset :: int
  ph_vaddr :: int
  ph_filesz :: int
  ph_memsz :: int
  ph_align :: int

definition program_header_of :: "bytes \<Rightarrow> program_header" where
  "program_header_of b = \<lparr>ph_type = field b 0 4, ph_flags = field b 4 4, ph_offset = field b 8 8,
     ph_vaddr = field b 16 8, ph_filesz = field b 32 8, ph_memsz = field b 40 8, ph_align = field b 48 8\<rparr>"

record section_header =
  sh_name :: int
  sh_type :: int
  sh_flags :: int
  sh_addr :: int
  sh_offset :: int
  sh_size :: int
  sh_link :: int
  sh_align :: int
  sh_entsize :: int

definition section_header_of :: "bytes \<Rightarrow> section_header" where
  "section_header_of b = \<lparr>sh_name = field b 0 4, sh_type = field b 4 4, sh_flags = field b 8 8,
     sh_addr = field b 16 8, sh_offset = field b 24 8, sh_size = field b 32 8, sh_link = field b 40 4,
     sh_align = field b 48 8, sh_entsize = field b 56 8\<rparr>"

record elf_symbol =
  st_name :: int
  st_shndx :: int
  st_value :: int
  st_size :: int

definition elf_symbol_of :: "bytes \<Rightarrow> elf_symbol" where
  "elf_symbol_of b = \<lparr>st_name = field b 0 4, st_shndx = field b 6 2, st_value = field b 8 8, st_size = field b 16 8\<rparr>"

definition windows_x64_elf_alignment :: int where
  "windows_x64_elf_alignment = 64 * 1024"

definition oat_version_bytes :: bytes where
  "oat_version_bytes = [0x32, 0x36, 0x35, 0]"

definition elf_magic :: bytes where
  "elf_magic = [0x7F, 0x45, 0x4C, 0x46]"

text \<open>\<open>[unpack_from(fmt, data, offset + i * size) for i in range(count)]\<close>\<close>

definition unpack_table :: "nat \<Rightarrow> (bytes \<Rightarrow> 'a) \<Rightarrow> bytes \<Rightarrow> int \<Rightarrow> int \<Rightarrow> exn + 'a list" where
  "unpack_table sz decode data off count =
     map_r (\<lambda>i. unpack_from sz decode data (off + int i * int sz)) [0..<nat count]"

subsection \<open>Section names\<close>

text \<open>The text at an offset of a string table; \<open>bad\<close> and \<open>open\<close> are the messages of its two errors.\<close>

definition table_string :: "bytes \<Rightarrow> int \<Rightarrow> string \<Rightarrow> string \<Rightarrow> exn + string" where
  "table_string strings off bad unterminated =
     rbind (reject_if (off \<ge> int (length strings)) bad) (\<lambda>_.
     case find_nul strings (nat off) of
       None \<Rightarrow> Inl (oat_error unterminated)
     | Some end_pos \<Rightarrow> decode_ascii (py_slice strings off (int end_pos)))"

text \<open>\<open>_read_elf_sections\<close>. The range check of a section comes with the check of its name.\<close>

fun elf_sections_loop ::
  "bytes \<Rightarrow> bytes \<Rightarrow> nat \<Rightarrow> section_header list \<Rightarrow> (string \<times> int \<times> int) list \<Rightarrow> exn + (string \<times> int \<times> int) list" where
  "elf_sections_loop data names index [] result = Inr result"
| "elf_sections_loop data names index (s # ss) result =
     (let bad = ''probe.oat has an invalid section header '' @ nat_str index in
      rbind (reject_if (sh_name s \<ge> int (length names)
          \<or> sh_type s \<noteq> 8 \<and> sh_offset s + sh_size s > int (length data)) bad) (\<lambda>_.
      rbind (table_string names (sh_name s) bad (''probe.oat has an unterminated section name '' @ nat_str index)) (\<lambda>name.
      rbind (reject_if (map_of result name \<noteq> None) (''probe.oat repeats section '' @ py_repr name)) (\<lambda>_.
        elf_sections_loop data names (Suc index) ss (result @ [(name, sh_offset s, sh_size s)])))))"

definition read_elf_sections :: "bytes \<Rightarrow> elf_header \<Rightarrow> exn + (string \<times> int \<times> int) list" where
  "read_elf_sections data h =
     rbind (reject_if (eh_shentsize h \<noteq> 64 \<or> \<not> (1 \<le> eh_shnum h \<and> eh_shnum h \<le> 256))
         ''probe.oat has invalid section-header dimensions'') (\<lambda>_.
     rbind (reject_if (eh_shstrndx h \<ge> eh_shnum h) ''probe.oat has an invalid section-name table index'') (\<lambda>_.
     rbind (reject_if (eh_shoff h + eh_shnum h * eh_shentsize h > int (length data))
         ''probe.oat has truncated section headers'') (\<lambda>_.
     rbind (unpack_table 64 section_header_of data (eh_shoff h) (eh_shnum h)) (\<lambda>raw_sections.
     let names_header = raw_sections ! nat (eh_shstrndx h) in
     rbind (reject_if (sh_offset names_header + sh_size names_header > int (length data))
         ''probe.oat has an out-of-range section-name table'') (\<lambda>_.
     let names = py_slice data (sh_offset names_header) (sh_offset names_header + sh_size names_header) in
       elf_sections_loop data names 0 raw_sections [])))))"

subsection \<open>The probe's OAT file\<close>

text \<open>One iteration over the program headers; the state counts \<open>PT_LOAD\<close> and \<open>PT_DYNAMIC\<close>.\<close>

definition oat_segment :: "bytes \<Rightarrow> elf_header \<Rightarrow> int \<Rightarrow> nat \<Rightarrow> nat \<times> nat \<Rightarrow> exn + nat \<times> nat" where
  "oat_segment data h expected_alignment index = (\<lambda>(load_count, dynamic_count).
     rbind (unpack_from 56 program_header_of data (eh_phoff h + int index * eh_phentsize h)) (\<lambda>p.
     rbind (reject_if (ph_filesz p > ph_memsz p \<or> ph_offset p + ph_filesz p > int (length data))
         (''probe.oat has invalid program header '' @ nat_str index)) (\<lambda>_.
     if ph_type p = 1 then
       rbind (reject_if (ph_align p \<noteq> expected_alignment)
           (''PT_LOAD '' @ nat_str index @ '' alignment is '' @ int_str (ph_align p) @ '', expected ''
             @ int_str expected_alignment)) (\<lambda>_.
       rbind (py_mod (ph_offset p) (ph_align p)) (\<lambda>a.
       rbind (py_mod (ph_vaddr p) (ph_align p)) (\<lambda>b.
       rbind (reject_if (a \<noteq> b) (''PT_LOAD '' @ nat_str index @ '' violates ELF congruence'')) (\<lambda>_.
       rbind (reject_if (ph_flags p AND 2 \<noteq> 0 \<and> ph_flags p AND 1 \<noteq> 0)
           (''PT_LOAD '' @ nat_str index @ '' is writable and executable'')) (\<lambda>_.
         Inr (Suc load_count, dynamic_count))))))
     else if ph_type p = 2 then Inr (load_count, Suc dynamic_count)
     else Inr (load_count, dynamic_count))))"

definition check_oat_elf :: "bytes \<Rightarrow> int \<Rightarrow> exn + dict" where
  "check_oat_elf data expected_alignment =
     rbind (reject_if (length data < 64) ''probe.oat has a truncated ELF header'') (\<lambda>_.
     rbind (unpack_from 64 elf_header_of data 0) (\<lambda>h.
     rbind (reject_if (py_slice (eh_ident h) 0 4 \<noteq> elf_magic \<or> py_slice (eh_ident h) 4 7 \<noteq> [2, 1, 1])
         ''probe.oat is not ELF64 little-endian version 1'') (\<lambda>_.
     rbind (byte_at (eh_ident h) 7) (\<lambda>osabi.
     rbind (byte_at (eh_ident h) 8) (\<lambda>abi.
     rbind (reject_if (osabi \<noteq> 3 \<or> abi \<noteq> 0)
         (''probe.oat changed Linux ELF identity: EI_OSABI='' @ int_str osabi @ '', ABI='' @ int_str abi)) (\<lambda>_.
     rbind (reject_if ((eh_type h, eh_machine h, eh_version h, eh_entry h, eh_flags h) \<noteq> (3, 62, 1, 0, 0))
         (''probe.oat has an unexpected ET_DYN/x86-64 header: type='' @ int_str (eh_type h)
           @ '', machine='' @ int_str (eh_machine h) @ '', version='' @ int_str (eh_version h)
           @ '', entry='' @ int_str (eh_entry h) @ '', flags='' @ int_str (eh_flags h))) (\<lambda>_.
     rbind (reject_if (eh_ehsize h \<noteq> 64 \<or> eh_phentsize h \<noteq> 56)
         ''probe.oat has unexpected ELF/program header sizes'') (\<lambda>_.
     rbind (reject_if (\<not> (1 \<le> eh_phnum h \<and> eh_phnum h \<le> 64))
         (''probe.oat has invalid program-header count '' @ int_str (eh_phnum h))) (\<lambda>_.
     rbind (reject_if (eh_phoff h + eh_phnum h * eh_phentsize h > int (length data))
         ''probe.oat has truncated program headers'') (\<lambda>_.
     rbind (fold_r (oat_segment data h expected_alignment) [0..<nat (eh_phnum h)] (0, 0)) (\<lambda>counts.
     rbind (reject_if (fst counts = 0 \<or> snd counts \<noteq> 1)
         (''probe.oat requires PT_LOAD and one PT_DYNAMIC, got '' @ nat_str (fst counts) @ ''/'' @ nat_str (snd counts))) (\<lambda>_.
     rbind (read_elf_sections data h) (\<lambda>sections.
     let missing_sections = sort (filter (\<lambda>n. map_of sections n = None)
           [''.rodata'', ''.text'', ''.dynamic'', ''.dynsym'', ''.dynstr'']) in
     rbind (reject_if (missing_sections \<noteq> []) (''probe.oat is missing sections: '' @ list_repr missing_sections)) (\<lambda>_.
     case map_of sections ''.rodata'' of
       None \<Rightarrow> Inl (KeyError ''.rodata'')
     | Some (rodata_offset, rodata_size) \<Rightarrow>
       rbind (reject_if (rodata_size < 8 \<or> py_slice data rodata_offset (rodata_offset + 4) \<noteq> b_lit ''oat'' @ [10])
           ''probe.oat .rodata does not start with an OAT header'') (\<lambda>_.
       let oat_version = py_slice data (rodata_offset + 4) (rodata_offset + 8) in
       rbind (reject_if (oat_version \<noteq> oat_version_bytes)
           (''probe.oat logical version is '' @ bytes_repr oat_version @ '', expected '' @ bytes_repr oat_version_bytes)) (\<lambda>_.
       rbind (decode_ascii (rev (dropWhile (\<lambda>b. b = 0) (rev oat_version)))) (\<lambda>version.
         Inr [(''class'', VStr ''ELF64''), (''endianness'', VStr ''little''), (''ei_osabi'', VInt osabi),
           (''ei_abi_version'', VInt abi), (''type'', VInt (eh_type h)), (''machine'', VInt (eh_machine h)),
           (''flags'', VInt (eh_flags h)), (''load_segment_count'', VInt (int (fst counts))),
           (''segment_alignment'', VInt expected_alignment), (''oat_version'', VStr version)])))))))))))))))))"

definition validate_oat_elf :: "oat_machine \<Rightarrow> pypath \<Rightarrow> int \<Rightarrow> exn + dict" where
  "validate_oat_elf mc path expected_alignment =
     rbind (read_regular mc path) (\<lambda>data. check_oat_elf data expected_alignment)"

subsection \<open>The layout of the boot OAT file\<close>

text \<open>\<open>_read_windows_boot_oat_layout\<close>: the data, the \<open>PT_LOAD\<close> segments, all section headers, and the index
  and header of each section by name.\<close>

record oat_layout =
  ol_data :: bytes
  ol_loads :: "program_header list"
  ol_raw_sections :: "section_header list"
  ol_sections :: "(string \<times> nat \<times> section_header) list"

definition boot_segment :: "bytes \<Rightarrow> elf_header \<Rightarrow> nat \<Rightarrow> program_header list \<Rightarrow> exn + program_header list" where
  "boot_segment data h index load_segments =
     rbind (unpack_from 56 program_header_of data (eh_phoff h + int index * eh_phentsize h)) (\<lambda>p.
     rbind (reject_if (ph_filesz p > ph_memsz p \<or> ph_offset p + ph_filesz p > int (length data))
         (''boot.oat has invalid program header '' @ nat_str index)) (\<lambda>_.
     if ph_type p = 1 then
       rbind (reject_if (ph_align p \<noteq> windows_x64_elf_alignment)
           (''boot.oat PT_LOAD '' @ nat_str index @ '' has invalid Windows alignment'')) (\<lambda>_.
       rbind (reject_if (ph_offset p mod ph_align p \<noteq> ph_vaddr p mod ph_align p)
           (''boot.oat PT_LOAD '' @ nat_str index @ '' violates ELF congruence'')) (\<lambda>_.
       rbind (reject_if (ph_flags p AND 3 = 3)
           (''boot.oat PT_LOAD '' @ nat_str index @ '' is writable/executable'')) (\<lambda>_.
         Inr (load_segments @ [p]))))
     else Inr load_segments))"

fun boot_sections_loop ::
  "bytes \<Rightarrow> nat \<Rightarrow> section_header list \<Rightarrow> (string \<times> nat \<times> section_header) list \<Rightarrow>
    exn + (string \<times> nat \<times> section_header) list" where
  "boot_sections_loop names index [] sections = Inr sections"
| "boot_sections_loop names index (s # ss) sections =
     rbind (table_string names (sh_name s) (''boot.oat has an invalid section name '' @ nat_str index)
         (''boot.oat has an unterminated section name '' @ nat_str index)) (\<lambda>name.
     rbind (reject_if (map_of sections name \<noteq> None) (''boot.oat repeats section '' @ py_repr name)) (\<lambda>_.
       boot_sections_loop names (Suc index) ss (sections @ [(name, index, s)])))"

definition boot_oat_layout :: "bytes \<Rightarrow> exn + oat_layout" where
  "boot_oat_layout data =
     rbind (reject_if (length data < 64) ''boot.oat has a truncated ELF header'') (\<lambda>_.
     rbind (unpack_from 64 elf_header_of data 0) (\<lambda>h.
     rbind (reject_if (py_slice (eh_ident h) 0 4 \<noteq> elf_magic \<or> py_slice (eh_ident h) 4 7 \<noteq> [2, 1, 1])
         ''boot.oat is not ELF64 little-endian version 1'') (\<lambda>_.
     rbind (reject_if (py_slice (eh_ident h) 7 9 \<noteq> [3, 0]) ''boot.oat changed the Linux ELF identity'') (\<lambda>_.
     rbind (reject_if ((eh_type h, eh_machine h, eh_version h, eh_entry h) \<noteq> (3, 62, 1, 0) \<or> eh_flags h \<noteq> 0)
         ''boot.oat has an unexpected ELF header'') (\<lambda>_.
     rbind (reject_if (eh_phentsize h \<noteq> 56 \<or> \<not> (1 \<le> eh_phnum h \<and> eh_phnum h \<le> 64)
           \<or> eh_phoff h + eh_phnum h * eh_phentsize h > int (length data))
         ''boot.oat has invalid program-header dimensions'') (\<lambda>_.
     rbind (fold_r (boot_segment data h) [0..<nat (eh_phnum h)] []) (\<lambda>load_segments.
     rbind (reject_if (load_segments = []) ''boot.oat has no loadable segments'') (\<lambda>_.
     rbind (reject_if (eh_shentsize h \<noteq> 64 \<or> \<not> (1 \<le> eh_shnum h \<and> eh_shnum h \<le> 256)
           \<or> eh_shstrndx h \<ge> eh_shnum h \<or> eh_shoff h + eh_shnum h * eh_shentsize h > int (length data))
         ''boot.oat has invalid section-header dimensions'') (\<lambda>_.
     rbind (unpack_table 64 section_header_of data (eh_shoff h) (eh_shnum h)) (\<lambda>raw_sections.
     let names_header = raw_sections ! nat (eh_shstrndx h) in
     rbind (reject_if (sh_offset names_header + sh_size names_header > int (length data))
         ''boot.oat has an invalid section-name table'') (\<lambda>_.
     let names = py_slice data (sh_offset names_header) (sh_offset names_header + sh_size names_header) in
     rbind (boot_sections_loop names 0 raw_sections []) (\<lambda>sections.
       Inr \<lparr>ol_data = data, ol_loads = load_segments, ol_raw_sections = raw_sections, ol_sections = sections\<rparr>))))))))))))"

definition read_windows_boot_oat_layout :: "oat_machine \<Rightarrow> pypath \<Rightarrow> exn + oat_layout" where
  "read_windows_boot_oat_layout mc path = rbind (read_regular mc path) boot_oat_layout"

text \<open>\<open>any(...)\<close> of the metadata validators: a section is contained by one read-only \<open>PT_LOAD\<close>.\<close>

definition in_read_only_load :: "oat_layout \<Rightarrow> section_header \<Rightarrow> bool" where
  "in_read_only_load l s = list_ex (\<lambda>p. ph_flags p = 4
     \<and> ph_offset p \<le> sh_offset s \<and> sh_offset s + sh_size s \<le> ph_offset p + ph_filesz p
     \<and> ph_vaddr p \<le> sh_addr s \<and> sh_addr s + sh_size s \<le> ph_vaddr p + ph_memsz p) (ol_loads l)"

text \<open>\<open>sections[name]\<close>\<close>

definition section_of :: "oat_layout \<Rightarrow> string \<Rightarrow> exn + nat \<times> section_header" where
  "section_of l name = (case map_of (ol_sections l) name of Some s \<Rightarrow> Inr s | None \<Rightarrow> Inl (KeyError name))"

definition missing_required :: "oat_layout \<Rightarrow> string list \<Rightarrow> string list" where
  "missing_required l required = filter (\<lambda>n. map_of (ol_sections l) n = None) required"

subsection \<open>Dynamic symbols\<close>

text \<open>The loop of \<open>_validate_dynamic_symbol\<close> over the symbol offsets.\<close>

fun symbol_loop ::
  "bytes \<Rightarrow> bytes \<Rightarrow> string \<Rightarrow> int \<times> int \<times> int \<Rightarrow> int list \<Rightarrow> exn + unit" where
  "symbol_loop data strings name expected [] = Inl (oat_error (''boot.oat is missing dynamic anchor '' @ name))"
| "symbol_loop data strings name expected (off # offs) =
     rbind (unpack_from 24 elf_symbol_of data off) (\<lambda>sym.
     rbind (table_string strings (st_name sym) ''boot.oat has an invalid dynamic-symbol name''
         ''boot.oat has an unterminated dynamic-symbol name'') (\<lambda>label.
     if label = name then
       reject_if ((st_shndx sym, st_value sym, st_size sym) \<noteq> expected) (''boot.oat has an invalid '' @ name @ '' anchor'')
     else symbol_loop data strings name expected offs))"

definition validate_dynamic_symbol ::
  "oat_layout \<Rightarrow> string \<Rightarrow> nat \<Rightarrow> int \<Rightarrow> int \<Rightarrow> exn + unit" where
  "validate_dynamic_symbol l name expected_section_index expected_value expected_size =
     (let data = ol_data l in
     rbind (section_of l ''.dynsym'') (\<lambda>(i, dynsym).
     rbind (reject_if (sh_link dynsym \<ge> int (length (ol_raw_sections l)) \<or> sh_entsize dynsym \<noteq> 24)
         ''boot.oat has invalid dynamic-symbol metadata'') (\<lambda>_.
     let dynstr = ol_raw_sections l ! nat (sh_link dynsym) in
     rbind (reject_if (sh_offset dynsym + sh_size dynsym > int (length data)
           \<or> sh_offset dynstr + sh_size dynstr > int (length data))
         ''boot.oat has out-of-range dynamic-symbol metadata'') (\<lambda>_.
     rbind (reject_if (sh_size dynsym mod sh_entsize dynsym \<noteq> 0) ''boot.oat has a partial dynamic-symbol entry'') (\<lambda>_.
       symbol_loop data (py_slice data (sh_offset dynstr) (sh_offset dynstr + sh_size dynstr)) name
         (int expected_section_index, expected_value, expected_size)
         (map (\<lambda>i. sh_offset dynsym + int i * 24) [0..<nat (sh_size dynsym div 24)]))))))"

subsection \<open>The VDEX container\<close>

definition vdex_version_bytes :: bytes where
  "vdex_version_bytes = [0x30, 0x32, 0x37, 0]"

definition vdex_section_of :: "bytes \<Rightarrow> int \<times> int \<times> int" where
  "vdex_section_of b = (field b 0 4, field b 4 4, field b 8 4)"

definition vdex_section :: "bytes \<Rightarrow> int \<Rightarrow> nat \<Rightarrow> (int \<times> int) list \<Rightarrow> exn + (int \<times> int) list" where
  "vdex_section data payload_start index sections =
     rbind (unpack_from 12 vdex_section_of data (12 + int index * 12)) (\<lambda>(kind, offset, sz).
     rbind (reject_if (kind \<noteq> int index)
         (''probe.vdex section '' @ nat_str index @ '' has unexpected kind '' @ int_str kind)) (\<lambda>_.
     rbind (reject_if (offset < payload_start \<or> offset + sz > int (length data))
         (''probe.vdex section '' @ nat_str index @ '' has an invalid file range'')) (\<lambda>_.
       Inr (sections @ [(offset, sz)]))))"

definition check_vdex :: "bytes \<Rightarrow> exn + dict" where
  "check_vdex data =
     rbind (reject_if (length data < 12) ''probe.vdex has a truncated file header'') (\<lambda>_.
     rbind (unpack_from 12 (\<lambda>b. (take 4 b, take 4 (drop 4 b), field b 8 4)) data 0) (\<lambda>(magic, version, section_count).
     rbind (reject_if (magic \<noteq> b_lit ''vdex'') ''probe.vdex does not start with the VDEX magic'') (\<lambda>_.
     rbind (reject_if (version \<noteq> vdex_version_bytes)
         (''probe.vdex version is '' @ bytes_repr version @ '', expected '' @ bytes_repr vdex_version_bytes)) (\<lambda>_.
     rbind (reject_if (section_count \<noteq> 4) (''probe.vdex has '' @ int_str section_count @ '' sections, expected 4'')) (\<lambda>_.
     let payload_start = 12 + section_count * 12 in
     rbind (reject_if (payload_start > int (length data)) ''probe.vdex has truncated section headers'') (\<lambda>_.
     rbind (fold_r (vdex_section data payload_start) [0..<nat section_count] []) (\<lambda>sections.
     let computed_size = Max (set (payload_start # map (\<lambda>(offset, sz). offset + sz) sections)) in
     rbind (reject_if (computed_size \<noteq> int (length data))
         (''probe.vdex size is '' @ nat_str (length data) @ '', section layout describes '' @ int_str computed_size)) (\<lambda>_.
     let (checksum_offset, checksum_size) = sections ! 0; (dex_offset, dex_size) = sections ! 1 in
     rbind (reject_if (checksum_offset \<noteq> payload_start \<or> checksum_size \<noteq> 4)
         ''probe.vdex does not describe exactly one input DEX checksum'') (\<lambda>_.
     rbind (reject_if (dex_size < 8 \<or> py_slice data dex_offset (dex_offset + 4) \<noteq> b_lit ''dex'' @ [10])
         ''probe.vdex does not contain the expected DEX section'') (\<lambda>_.
     rbind (decode_ascii (rev (dropWhile (\<lambda>b. b = 0) (rev version)))) (\<lambda>label.
       Inr [(''version'', VStr label), (''section_count'', VInt section_count),
         (''dex_file_count'', VInt (checksum_size div 4))])))))))))))"

definition validate_vdex :: "oat_machine \<Rightarrow> pypath \<Rightarrow> exn + dict" where
  "validate_vdex mc path = rbind (read_regular mc path) check_vdex"

end
