(* ===== verification/OatTables.thy ===== *)
theory OatTables
  imports OatElf
begin

section \<open>The Windows metadata of boot OAT files\<close>

text \<open>
  \<open>validate_windows_oat_unwind\<close> and \<open>validate_windows_oat_cfg\<close>: the serialized unwind table with its AMD64
  \<open>UNWIND_INFO\<close> descriptors, and the table of control-flow-guard targets. Both sit in a section of
  their own behind a 48-byte header with an Adler-32 checksum.
\<close>

subsection \<open>UNWIND_INFO\<close>

definition nonvolatile_gprs :: "int list" where
  "nonvolatile_gprs = [3, 5, 6, 7, 12, 13, 14, 15]"

definition nonvolatile_xmms :: "int list" where
  "nonvolatile_xmms = [6, 7, 8, 9, 10, 11, 12, 13, 14, 15]"

text \<open>One operation: the slots it uses and how many frame pointers it sets.\<close>

definition unwind_operation :: "int \<Rightarrow> int \<Rightarrow> exn + nat \<times> nat" where
  "unwind_operation operation info =
     (if operation = 0 then
        rbind (reject_if (info \<notin> set nonvolatile_gprs) ''boot.oat x64 unwind pushes a volatile register'') (\<lambda>_. Inr (1, 0))
      else if operation = 1 then
        rbind (reject_if (info > 1) ''boot.oat has an invalid x64 UWOP_ALLOC_LARGE'') (\<lambda>_. Inr (if info = 0 then 2 else 3, 0))
      else if operation = 2 then Inr (1, 0)
      else if operation = 3 then
        rbind (reject_if (info \<noteq> 0) ''boot.oat has an invalid x64 UWOP_SET_FPREG'') (\<lambda>_. Inr (1, 1))
      else if operation = 4 \<or> operation = 5 then
        rbind (reject_if (info \<notin> set nonvolatile_gprs) ''boot.oat x64 unwind saves a volatile register'')
          (\<lambda>_. Inr (if operation = 4 then 2 else 3, 0))
      else if operation = 8 \<or> operation = 9 then
        rbind (reject_if (info \<notin> set nonvolatile_xmms) ''boot.oat x64 unwind saves a volatile XMM register'')
          (\<lambda>_. Inr (if operation = 8 then 2 else 3, 0))
      else if operation = 10 then
        rbind (reject_if (info > 1) ''boot.oat has an invalid x64 UWOP_PUSH_MACHFRAME'') (\<lambda>_. Inr (1, 0))
      else Inl (oat_error ''boot.oat has an unsupported x64 unwind operation''))"

lemma reject_if_Inr [simp]: "reject_if b m = Inr u \<longleftrightarrow> \<not> b"
  by (simp add: reject_if_def)

lemma unwind_operation_slots: "unwind_operation opn info = Inr (u, f) \<Longrightarrow> 0 < u"
  by (auto simp: unwind_operation_def rbind_Inr_iff split: if_splits)

text \<open>The loop over the slots; it returns the number of frame pointers set.\<close>

function unwind_loop :: "bytes \<Rightarrow> nat \<Rightarrow> int \<Rightarrow> nat \<Rightarrow> int \<Rightarrow> nat \<Rightarrow> exn + nat" where
  "unwind_loop data slot_count prologue_size slot previous_code_offset fp_count =
     (if \<not> slot < slot_count then Inr fp_count
      else rbind (byte_at data (4 + slot * 2)) (\<lambda>code_offset.
        rbind (byte_at data (5 + slot * 2)) (\<lambda>operation_and_info.
        rbind (reject_if (code_offset = 0 \<or> code_offset > prologue_size \<or> code_offset \<ge> previous_code_offset)
            ''boot.oat has unordered x64 unwind prologue offsets'') (\<lambda>_.
        rbind (unwind_operation (operation_and_info AND 15) (drop_bit 4 operation_and_info)) (\<lambda>(used_slots, fps).
        rbind (reject_if (used_slots > slot_count - slot)
            ''boot.oat has a truncated x64 multi-slot unwind operation'') (\<lambda>_.
          unwind_loop data slot_count prologue_size (slot + used_slots) code_offset (fp_count + fps)))))))"
  by pat_completeness auto
termination unwind_loop
  by (relation "measure (\<lambda>(data, n, ps, slot, prev, fp). n - slot)") (auto dest: unwind_operation_slots)

declare unwind_loop.simps [simp del]

definition check_unwind_info :: "bytes \<Rightarrow> exn + unit" where
  "check_unwind_info data =
     rbind (reject_if (length data < 4 \<or> uint (data ! 0) \<noteq> 1)
         ''boot.oat has unsupported x64 UNWIND_INFO flags/version'') (\<lambda>_.
     rbind (byte_at data 1) (\<lambda>prologue_size.
     rbind (byte_at data 2) (\<lambda>slot_count.
     rbind (byte_at data 3) (\<lambda>frame.
     let frame_register = frame AND 15; frame_offset = drop_bit 4 frame;
         padded_slot_count = (slot_count + 1) AND NOT 1; descriptor_size = 4 + padded_slot_count * 2 in
     rbind (reject_if (descriptor_size > int (length data)) ''boot.oat has truncated x64 unwind slots'') (\<lambda>_.
     rbind (unwind_loop data (nat slot_count) prologue_size 0 256 0) (\<lambda>fp_count.
     rbind (reject_if (slot_count AND 1 \<noteq> 0 \<and> py_slice data (4 + slot_count * 2) (6 + slot_count * 2) \<noteq> [0, 0])
         ''boot.oat has nonzero x64 unwind slot padding'') (\<lambda>_.
     rbind (if frame_register = 0 then
           reject_if (frame_offset \<noteq> 0 \<or> fp_count \<noteq> 0) ''boot.oat has an inconsistent x64 unwind frame register''
         else reject_if (frame_register \<notin> set nonvolatile_gprs \<or> fp_count \<noteq> 1)
           ''boot.oat has an invalid x64 unwind frame register'') (\<lambda>_.
       reject_if (list_ex (\<lambda>b. b \<noteq> 0) (py_slice data descriptor_size (int (length data))))
         ''boot.oat has nonzero x64 unwind trailing bytes''))))))))"

subsection \<open>The unwind table\<close>

record unwind_header =
  uh_magic :: bytes
  uh_version :: int
  uh_header_size :: int
  uh_machine :: int
  uh_entry_size :: int
  uh_entry_count :: int
  uh_entries_offset :: int
  uh_unwind_offset :: int
  uh_unwind_size :: int
  uh_code_begin :: int
  uh_code_end :: int
  uh_checksum :: int

definition unwind_header_of :: "bytes \<Rightarrow> unwind_header" where
  "unwind_header_of b = \<lparr>uh_magic = take 4 b, uh_version = field b 4 4, uh_header_size = field b 8 4,
     uh_machine = field b 12 4, uh_entry_size = field b 16 4, uh_entry_count = field b 20 4,
     uh_entries_offset = field b 24 4, uh_unwind_offset = field b 28 4, uh_unwind_size = field b 32 4,
     uh_code_begin = field b 36 4, uh_code_end = field b 40 4, uh_checksum = field b 44 4\<rparr>"

definition hex8 :: "int \<Rightarrow> string" where
  "hex8 v = map (\<lambda>i. hex_digit (nat (v div 16 ^ i))) (rev [0..<8])"

definition hex_str :: "int \<Rightarrow> string" where
  "hex_str v = ''0x'' @ (let ds = dropWhile (\<lambda>c. c = CHR ''0'') (hex8 v) in if ds = [] then ''0'' else ds)"

text \<open>\<open>&data[off:off+n] = zeros\<close>, and the checksum of the payload without its own field.\<close>

definition payload_checksum :: "bytes \<Rightarrow> nat \<Rightarrow> int" where
  "payload_checksum payload pos = adler32 (overwrite payload pos [0, 0, 0, 0]) AND 0xFFFFFFFF"

text \<open>The checks of where the section lies: its header, its neighbours and its segment.\<close>

definition unwind_section_placed :: "oat_layout \<Rightarrow> nat \<Rightarrow> section_header \<Rightarrow> exn + unit" where
  "unwind_section_placed l idx s =
     rbind (reject_if (sh_type s \<noteq> 1 \<or> sh_flags s \<noteq> 2 \<or> sh_align s \<noteq> windows_x64_elf_alignment \<or> sh_size s < 48
           \<or> sh_offset s + sh_size s > int (length (ol_data l)))
         ''boot.oat has an invalid .oat_unwind.windows section'') (\<lambda>_.
     rbind (reject_if (case map_of (ol_sections l) ''.bss'' of Some (i, _) \<Rightarrow> idx \<ge> i | None \<Rightarrow> False)
         ''.oat_unwind.windows does not precede .bss'') (\<lambda>_.
     rbind (reject_if (case map_of (ol_sections l) ''.data.img.rel.ro'' of Some (i, _) \<Rightarrow> i \<ge> idx | None \<Rightarrow> False)
         ''.oat_unwind.windows does not follow .data.img.rel.ro'') (\<lambda>_.
       reject_if (\<not> in_read_only_load l s) ''.oat_unwind.windows is not contained by one read-only PT_LOAD'')))"

definition unwind_header_bad :: "bytes \<Rightarrow> unwind_header \<Rightarrow> bool" where
  "unwind_header_bad payload h =
     (uh_magic h \<noteq> b_lit ''ouw'' @ [10] \<or> uh_version h \<noteq> 1 \<or> uh_header_size h \<noteq> 48 \<or> uh_machine h \<noteq> 0x8664
      \<or> uh_entry_size h \<noteq> 12 \<or> uh_entry_count h < 7 \<or> uh_entries_offset h \<noteq> 48
      \<or> (uh_entries_offset h + uh_entry_count h * uh_entry_size h + 3) AND NOT 3 \<noteq> uh_unwind_offset h
      \<or> uh_unwind_offset h mod 4 \<noteq> 0 \<or> uh_unwind_offset h + uh_unwind_size h \<noteq> int (length payload))"

definition entry_of :: "bytes \<Rightarrow> int \<times> int \<times> int" where
  "entry_of b = (field b 0 4, field b 4 4, field b 8 4)"

definition unwind_entry_bad :: "bytes \<Rightarrow> unwind_header \<Rightarrow> int \<Rightarrow> int \<Rightarrow> int \<times> int \<times> int \<Rightarrow> bool" where
  "unwind_entry_bad payload h section_oat_offset previous_end entry = (case entry of (begin_offset, end_offset, info) \<Rightarrow>
     begin_offset < uh_code_begin h \<or> begin_offset < previous_end \<or> end_offset \<le> begin_offset
     \<or> end_offset > uh_code_end h \<or> info mod 4 \<noteq> 0 \<or> info < section_oat_offset + uh_unwind_offset h
     \<or> info \<ge> section_oat_offset + int (length payload))"

text \<open>One iteration over the entries; the state is the end of the last entry and the entries so far.\<close>

definition unwind_entry ::
  "bytes \<Rightarrow> unwind_header \<Rightarrow> int \<Rightarrow> nat \<Rightarrow> int \<times> (int \<times> int \<times> int) list \<Rightarrow> exn + int \<times> (int \<times> int \<times> int) list" where
  "unwind_entry payload h section_oat_offset index = (\<lambda>(previous_end, entries).
     rbind (unpack_from 12 entry_of payload (uh_entries_offset h + int index * uh_entry_size h)) (\<lambda>entry.
     rbind (reject_if (unwind_entry_bad payload h section_oat_offset previous_end entry)
         (''boot.oat has an invalid Windows unwind entry '' @ nat_str index)) (\<lambda>_.
       Inr (fst (snd entry), entries @ [entry]))))"

text \<open>The descriptors, each from its offset to the next one.\<close>

definition check_descriptors :: "bytes \<Rightarrow> int \<Rightarrow> int list \<Rightarrow> exn + unit" where
  "check_descriptors payload section_oat_offset offsets =
     fold_r (\<lambda>i _. check_unwind_info (py_slice payload (offsets ! i - section_oat_offset)
         (if i + 1 < length offsets then offsets ! (i + 1) - section_oat_offset else int (length payload))))
       [0..<length offsets] ()"

text \<open>The part of the validator that reads the payload: the entries it accepts.\<close>

definition check_unwind_payload ::
  "bytes \<Rightarrow> int \<Rightarrow> int \<Rightarrow> int \<Rightarrow> int \<Rightarrow> exn + unwind_header \<times> (int \<times> int \<times> int) list" where
  "check_unwind_payload payload rodata_address text_address text_size unwind_address =
     rbind (unpack_from 48 unwind_header_of payload 0) (\<lambda>h.
     rbind (reject_if (unwind_header_bad payload h) ''boot.oat has an invalid Windows unwind header'') (\<lambda>_.
     let computed = payload_checksum payload 44 in
     rbind (reject_if (uh_checksum h \<noteq> computed)
         (''boot.oat Windows unwind checksum mismatch: stored='' @ hex_str (uh_checksum h) @ '', computed='' @ hex_str computed)) (\<lambda>_.
     let expected_code_begin = text_address - rodata_address; expected_code_end = expected_code_begin + text_size in
     rbind (reject_if ((uh_code_begin h, uh_code_end h) \<noteq> (expected_code_begin, expected_code_end))
         ''boot.oat Windows unwind code bounds do not match .text'') (\<lambda>_.
     let section_oat_offset = unwind_address - rodata_address in
     rbind (fold_r (unwind_entry payload h section_oat_offset) [0..<nat (uh_entry_count h)] (uh_code_begin h, [])) (\<lambda>st.
     rbind (check_descriptors payload section_oat_offset (sort (remdups (map (snd \<circ> snd) (snd st))))) (\<lambda>_.
       Inr (h, snd st)))))))"

definition check_windows_oat_unwind :: "oat_layout \<Rightarrow> exn + dict" where
  "check_windows_oat_unwind l =
     (let missing = missing_required l [''.rodata'', ''.text'', ''.oat_unwind.windows'', ''.dynsym'', ''.dynstr''] in
     rbind (reject_if (missing \<noteq> []) (''boot.oat is missing Windows unwind sections: '' @ list_repr missing)) (\<lambda>_.
     rbind (section_of l ''.oat_unwind.windows'') (\<lambda>(unwind_index, s).
     rbind (section_of l ''.rodata'') (\<lambda>(_, rodata).
     rbind (section_of l ''.text'') (\<lambda>(_, txt_section).
     rbind (unwind_section_placed l unwind_index s) (\<lambda>_.
     let payload = py_slice (ol_data l) (sh_offset s) (sh_offset s + sh_size s) in
     rbind (check_unwind_payload payload (sh_addr rodata) (sh_addr txt_section) (sh_size txt_section) (sh_addr s)) (\<lambda>(h, entries).
     rbind (validate_dynamic_symbol l ''oatunwindwindows'' unwind_index (sh_addr s) (sh_size s)) (\<lambda>_.
     rbind (validate_dynamic_symbol l ''oatunwindwindowslastword'' unwind_index (sh_addr s + sh_size s - 4) 4) (\<lambda>_.
       Inr [(''section'', VStr ''.oat_unwind.windows''), (''format_version'', VInt (uh_version h)),
         (''target_machine'', VInt (uh_machine h)), (''entry_count'', VInt (uh_entry_count h)),
         (''unique_unwind_info_count'', VInt (int (length (remdups (map (snd \<circ> snd) entries))))),
         (''checksum'', VStr (hex8 (uh_checksum h))), (''code_begin'', VInt (uh_code_begin h)),
         (''code_end'', VInt (uh_code_end h)), (''size'', VInt (sh_size s))])))))))))"

definition validate_windows_oat_unwind :: "oat_machine \<Rightarrow> pypath \<Rightarrow> exn + dict" where
  "validate_windows_oat_unwind mc path = rbind (read_windows_boot_oat_layout mc path) check_windows_oat_unwind"

subsection \<open>The control-flow-guard table\<close>

record cfg_header =
  ch_magic :: bytes
  ch_version :: int
  ch_header_size :: int
  ch_machine :: int
  ch_flags :: int
  ch_target_size :: int
  ch_target_count :: int
  ch_targets_offset :: int
  ch_code_begin :: int
  ch_code_end :: int
  ch_checksum :: int
  ch_reserved :: int

definition cfg_header_of :: "bytes \<Rightarrow> cfg_header" where
  "cfg_header_of b = \<lparr>ch_magic = take 4 b, ch_version = field b 4 4, ch_header_size = field b 8 4,
     ch_machine = field b 12 4, ch_flags = field b 16 4, ch_target_size = field b 20 4,
     ch_target_count = field b 24 4, ch_targets_offset = field b 28 4, ch_code_begin = field b 32 4,
     ch_code_end = field b 36 4, ch_checksum = field b 40 4, ch_reserved = field b 44 4\<rparr>"

definition cfg_section_placed :: "oat_layout \<Rightarrow> nat \<Rightarrow> section_header \<Rightarrow> exn + unit" where
  "cfg_section_placed l idx s =
     rbind (reject_if (sh_type s \<noteq> 1 \<or> sh_flags s \<noteq> 2 \<or> sh_align s \<noteq> 4 \<or> sh_size s < 48
           \<or> sh_offset s + sh_size s > int (length (ol_data l)))
         ''boot.oat has an invalid .oat_cfg.windows section'') (\<lambda>_.
     rbind (reject_if (case map_of (ol_sections l) ''.bss'' of Some (i, _) \<Rightarrow> idx \<ge> i | None \<Rightarrow> False)
         ''.oat_cfg.windows does not precede .bss'') (\<lambda>_.
     rbind (reject_if (case map_of (ol_sections l) ''.data.img.rel.ro'' of Some (i, _) \<Rightarrow> i \<ge> idx | None \<Rightarrow> False)
         ''.oat_cfg.windows does not follow .data.img.rel.ro'') (\<lambda>_.
     rbind (reject_if (case map_of (ol_sections l) ''.oat_unwind.windows'' of Some (i, _) \<Rightarrow> i \<ge> idx | None \<Rightarrow> False)
         ''.oat_cfg.windows does not follow .oat_unwind.windows'') (\<lambda>_.
       reject_if (\<not> in_read_only_load l s) ''.oat_cfg.windows is not contained by one read-only PT_LOAD''))))"

definition cfg_header_bad :: "bytes \<Rightarrow> cfg_header \<Rightarrow> bool" where
  "cfg_header_bad payload h =
     (ch_magic h \<noteq> b_lit ''ocfg'' \<or> ch_version h \<noteq> 1 \<or> ch_header_size h \<noteq> 48 \<or> ch_machine h \<noteq> 0x8664 \<or> ch_flags h \<noteq> 1
      \<or> ch_target_size h \<noteq> 8 \<or> ch_target_count h = 0 \<or> ch_targets_offset h \<noteq> 48
      \<or> ch_targets_offset h + ch_target_count h * ch_target_size h \<noteq> int (length payload) \<or> ch_reserved h \<noteq> 0)"

definition target_of :: "bytes \<Rightarrow> int \<times> int" where
  "target_of b = (field b 0 4, field b 4 4)"

definition cfg_target_bad :: "cfg_header \<Rightarrow> int \<Rightarrow> int option \<Rightarrow> int \<times> int \<Rightarrow> bool" where
  "cfg_target_bad h rodata_address previous_offset t = (case t of (code_offset, kind_flags) \<Rightarrow>
     code_offset < ch_code_begin h \<or> code_offset \<ge> ch_code_end h \<or> (rodata_address + code_offset) mod 16 \<noteq> 0
     \<or> (case previous_offset of Some prev \<Rightarrow> code_offset \<le> prev | None \<Rightarrow> False)
     \<or> kind_flags = 0 \<or> kind_flags AND NOT 15 \<noteq> 0)"

text \<open>One iteration over the targets; the state is the last offset and the targets so far.\<close>

definition cfg_target ::
  "bytes \<Rightarrow> cfg_header \<Rightarrow> int \<Rightarrow> nat \<Rightarrow> int option \<times> (int \<times> int) list \<Rightarrow> exn + int option \<times> (int \<times> int) list" where
  "cfg_target payload h rodata_address index = (\<lambda>(previous_offset, targets).
     rbind (unpack_from 8 target_of payload (ch_targets_offset h + int index * ch_target_size h)) (\<lambda>t.
     rbind (reject_if (cfg_target_bad h rodata_address previous_offset t)
         (''boot.oat has an invalid Windows CFG target '' @ nat_str index)) (\<lambda>_.
       Inr (Some (fst t), targets @ [t]))))"

definition role_count :: "(int \<times> int) list \<Rightarrow> int \<Rightarrow> int" where
  "role_count targets bit_mask = int (length (filter (\<lambda>t. snd t AND bit_mask \<noteq> 0) targets))"

definition check_cfg_payload ::
  "bytes \<Rightarrow> int \<Rightarrow> int \<Rightarrow> int \<Rightarrow> exn + cfg_header \<times> (int \<times> int) list" where
  "check_cfg_payload payload rodata_address text_address text_size =
     rbind (unpack_from 48 cfg_header_of payload 0) (\<lambda>h.
     rbind (reject_if (cfg_header_bad payload h) ''boot.oat has an invalid Windows CFG header'') (\<lambda>_.
     let computed = payload_checksum payload 40 in
     rbind (reject_if (ch_checksum h \<noteq> computed)
         (''boot.oat Windows CFG checksum mismatch: stored='' @ hex_str (ch_checksum h) @ '', computed='' @ hex_str computed)) (\<lambda>_.
     let expected_code_begin = text_address - rodata_address; expected_code_end = expected_code_begin + text_size in
     rbind (reject_if ((ch_code_begin h, ch_code_end h) \<noteq> (expected_code_begin, expected_code_end))
         ''boot.oat Windows CFG code bounds do not match .text'') (\<lambda>_.
     rbind (fold_r (cfg_target payload h rodata_address) [0..<nat (ch_target_count h)] (None, [])) (\<lambda>st.
     rbind (reject_if (role_count (snd st) 4 \<noteq> 7)
         ''boot.oat Windows CFG table does not contain exactly seven trampolines'') (\<lambda>_.
       Inr (h, snd st)))))))"

definition check_windows_oat_cfg :: "oat_layout \<Rightarrow> exn + dict" where
  "check_windows_oat_cfg l =
     (let missing = missing_required l [''.rodata'', ''.text'', ''.oat_cfg.windows'', ''.dynsym'', ''.dynstr''] in
     rbind (reject_if (missing \<noteq> []) (''boot.oat is missing Windows CFG sections: '' @ list_repr missing)) (\<lambda>_.
     rbind (section_of l ''.oat_cfg.windows'') (\<lambda>(cfg_index, s).
     rbind (section_of l ''.rodata'') (\<lambda>(_, rodata).
     rbind (section_of l ''.text'') (\<lambda>(_, txt_section).
     rbind (cfg_section_placed l cfg_index s) (\<lambda>_.
     let payload = py_slice (ol_data l) (sh_offset s) (sh_offset s + sh_size s) in
     rbind (check_cfg_payload payload (sh_addr rodata) (sh_addr txt_section) (sh_size txt_section)) (\<lambda>(h, targets).
     rbind (validate_dynamic_symbol l ''oatcfgwindows'' cfg_index (sh_addr s) (sh_size s)) (\<lambda>_.
     rbind (validate_dynamic_symbol l ''oatcfgwindowslastword'' cfg_index (sh_addr s + sh_size s - 4) 4) (\<lambda>_.
       Inr [(''section'', VStr ''.oat_cfg.windows''), (''format_version'', VInt (ch_version h)),
         (''target_machine'', VInt (ch_machine h)), (''target_count'', VInt (ch_target_count h)),
         (''quick_candidate_count'', VInt (role_count targets 1)), (''jni_candidate_count'', VInt (role_count targets 2)),
         (''trampoline_candidate_count'', VInt (role_count targets 4)), (''thunk_candidate_count'', VInt (role_count targets 8)),
         (''checksum'', VStr (hex8 (ch_checksum h))), (''code_begin'', VInt (ch_code_begin h)),
         (''code_end'', VInt (ch_code_end h)), (''size'', VInt (sh_size s))])))))))))"

definition validate_windows_oat_cfg :: "oat_machine \<Rightarrow> pypath \<Rightarrow> exn + dict" where
  "validate_windows_oat_cfg mc path = rbind (read_windows_boot_oat_layout mc path) check_windows_oat_cfg"

end
