(* ===== verification/OatCorpus.thy ===== *)
theory OatCorpus
  imports OatTables
begin

section \<open>The corpora of corrupted OAT files\<close>

text \<open>
  \<open>build_windows_oat_cfg_corruption_corpus\<close> and \<open>build_windows_oat_unwind_corruption_corpus\<close>: from an
  accepted boot OAT file they derive files with one semantic fault each, with the checksum of the
  table made right again, so that the fault itself has to be found. The result of the model is the
  list of files of the corpus; a link to the VDEX file or its copy is one entry. Removing an older
  corpus and the files written before a fault are not modelled.
\<close>

datatype corpus_file = OatCopy string bytes | VdexLink string pypath | TextLines string "string list"

text \<open>\<open>rewrite_checksum\<close>: the field is zero while the checksum is taken.\<close>

definition rewrite_checksum :: "bytes \<Rightarrow> int \<Rightarrow> int \<Rightarrow> int \<Rightarrow> exn + bytes" where
  "rewrite_checksum data base sz pos =
     rbind (pack_into data (base + pos) [0]) (\<lambda>data.
     pack_into data (base + pos) [adler32 (py_slice data base (base + sz)) AND 0xFFFFFFFF])"

definition flip_byte :: "bytes \<Rightarrow> int \<Rightarrow> exn + bytes" where
  "flip_byte data off = rbind (byte_at data (nat off)) (\<lambda>b. set_byte data off (b XOR 1))"

text \<open>A case: the changed values at an offset, then the checksum unless the case is about it.\<close>

definition packed_case :: "bytes \<Rightarrow> int \<Rightarrow> int \<Rightarrow> int \<Rightarrow> string \<times> int \<times> int list \<times> bool \<Rightarrow> exn + string \<times> bytes" where
  "packed_case original base sz pos = (\<lambda>(name, off, vs, update_checksum).
     rbind (pack_into original off vs) (\<lambda>data.
     rbind (if update_checksum then rewrite_checksum data base sz pos else Inr data) (\<lambda>data.
     Inr (name, data))))"

subsection \<open>Control-flow-guard tables\<close>

definition cfg_header_mutations :: "cfg_header \<Rightarrow> int \<Rightarrow> (string \<times> int \<times> int list \<times> bool) list" where
  "cfg_header_mutations h base =
     [(''version'', base + 4, [2], True), (''header-size'', base + 8, [52], True),
      (''target-machine'', base + 12, [0xAA64], True), (''table-flags'', base + 16, [3], True),
      (''target-size'', base + 20, [12], True), (''target-count'', base + 24, [0], True),
      (''targets-offset'', base + 28, [52], True), (''code-begin'', base + 32, [ch_code_begin h + 1], True),
      (''code-end'', base + 36, [ch_code_end h - 1], True),
      (''checksum'', base + 40, [ch_checksum h XOR 1], False), (''reserved'', base + 44, [1], True)]"

definition cfg_entry_mutations :: "cfg_header \<Rightarrow> int \<Rightarrow> int \<times> int \<Rightarrow> (string \<times> int \<times> int list \<times> bool) list" where
  "cfg_entry_mutations h base first_target =
     (let first_entry = base + ch_targets_offset h; second_entry = first_entry + 8;
          last_entry = first_entry + (ch_target_count h - 1) * 8;
          first_code_offset = fst first_target; first_kind = snd first_target in
      [(''entry-before-code'', first_entry, [ch_code_begin h - 1, first_kind], True),
       (''entry-at-code-end'', last_entry, [ch_code_end h, 4], True),
       (''entry-misaligned'', first_entry, [first_code_offset + 1, first_kind], True),
       (''entry-duplicate'', second_entry, [first_code_offset, 1], True),
       (''entry-zero-kind'', first_entry, [first_code_offset, 0], True),
       (''entry-unknown-kind'', first_entry, [first_code_offset, 0x10], True)])"

definition cfg_corpus_cases :: "bytes \<Rightarrow> int \<Rightarrow> int \<Rightarrow> exn + (string \<times> bytes) list" where
  "cfg_corpus_cases original base sz =
     rbind (reject_if (sz < 64 \<or> base + sz > int (length original))
         ''boot.oat has an unusable CFG mutation section'') (\<lambda>_.
     rbind (unpack_from 48 cfg_header_of original base) (\<lambda>h.
     rbind (reject_if (ch_target_count h < 2 \<or> ch_targets_offset h + ch_target_count h * 8 \<noteq> sz)
         ''boot.oat CFG target array cannot support mutation'') (\<lambda>_.
     rbind (rbind (flip_byte original base) (\<lambda>data.
         rbind (rewrite_checksum data base sz 40) (\<lambda>data. Inr (''magic'', data)))) (\<lambda>magic_case.
     rbind (map_r (packed_case original base sz 40) (cfg_header_mutations h base)) (\<lambda>header_cases.
     rbind (unpack_from 8 target_of original (base + ch_targets_offset h)) (\<lambda>first_target.
     rbind (map_r (packed_case original base sz 40) (cfg_entry_mutations h base first_target)) (\<lambda>entry_cases.
     Inr (magic_case # header_cases @ entry_cases))))))))"

text \<open>The directory that the corpus replaces.\<close>

definition corpus_root :: "oat_machine \<Rightarrow> string \<Rightarrow> pypath \<Rightarrow> exn + pypath" where
  "corpus_root mc what output_root =
     (let root = path_of (abspath (oc_cwd mc) (path_str output_root)) in
      rbind (reject_if (mc_is_symlink mc root)
          (''refusing symbolic-link '' @ what @ '' corruption root: '' @ path_str root)) (\<lambda>_.
      rbind (reject_if (mc_exists mc root \<and> \<not> oc_is_dir mc root)
          (what @ '' corruption root is not a directory: '' @ path_str root)) (\<lambda>_.
      Inr root)))"

definition corpus_files ::
  "bytes \<Rightarrow> pypath \<Rightarrow> (string \<times> bytes) list \<Rightarrow> corpus_file list" where
  "corpus_files original vdex cases =
     concat (map (\<lambda>(name, data). [OatCopy (name @ ''.oat'') data, VdexLink (name @ ''.vdex'') vdex])
       ((''canonical'', original) # cases))
     @ [TextLines ''cases.txt'' (map fst cases)]"

definition build_cfg_corpus :: "oat_machine \<Rightarrow> pypath \<Rightarrow> pypath \<Rightarrow> pypath \<Rightarrow> exn + corpus_file list \<times> dict" where
  "build_cfg_corpus mc oat_path vdex_path output_root =
     rbind (regular_file mc oat_path) (\<lambda>oat.
     rbind (regular_file mc vdex_path) (\<lambda>vdex.
     rbind (corpus_root mc ''CFG'' output_root) (\<lambda>root.
     rbind (oc_bytes mc oat) (\<lambda>original.
     rbind (read_windows_boot_oat_layout mc oat) (\<lambda>l.
     case map_of (ol_sections l) ''.oat_cfg.windows'' of
       None \<Rightarrow> Inl (oat_error ''boot.oat is missing .oat_cfg.windows'')
     | Some (_, s) \<Rightarrow>
         rbind (cfg_corpus_cases original (sh_offset s) (sh_size s)) (\<lambda>cases.
         let n = int (length cases) in
         Inr (corpus_files original vdex cases,
           [(''case_count'', VInt n), (''cases'', VList (map (VStr \<circ> fst) cases)), (''canonical_open_count'', VInt 2),
            (''rejection_open_count'', VInt (n * 2)), (''total_open_count'', VInt ((n + 1) * 2))])))))))"

subsection \<open>Unwind tables\<close>

definition unwind_header_mutations :: "unwind_header \<Rightarrow> int \<Rightarrow> (string \<times> int \<times> int list \<times> bool) list" where
  "unwind_header_mutations h base =
     [(''version'', base + 4, [2], True), (''header-size'', base + 8, [52], True),
      (''target-machine'', base + 12, [0xAA64], True), (''entry-size'', base + 16, [16], True),
      (''entry-count'', base + 20, [0], True), (''entries-offset'', base + 24, [52], True),
      (''unwind-offset'', base + 28, [uh_unwind_offset h + 4], True),
      (''unwind-size'', base + 32, [uh_unwind_size h - 4], True),
      (''code-begin'', base + 36, [uh_code_begin h + 1], True),
      (''code-end'', base + 40, [uh_code_end h - 1], True)]"

definition unwind_entry_mutations ::
  "unwind_header \<Rightarrow> int \<Rightarrow> int \<Rightarrow> int \<Rightarrow> (int \<times> int \<times> int) \<Rightarrow> (int \<times> int \<times> int) \<Rightarrow> (int \<times> int \<times> int) \<Rightarrow>
    (string \<times> int \<times> int list \<times> bool) list" where
  "unwind_entry_mutations h base sz section_oat_offset e1 e2 en =
     (case e1 of (first_begin, first_end, first_info) \<Rightarrow>
      case e2 of (second_begin, second_end, second_info) \<Rightarrow>
      case en of (last_begin, last_end, last_info) \<Rightarrow>
      let first_entry = base + uh_entries_offset h; second_entry = first_entry + 12;
          last_entry = first_entry + (uh_entry_count h - 1) * 12 in
      [(''entry-before-code'', first_entry, [uh_code_begin h - 1, first_end, first_info], True),
       (''entry-overlap'', second_entry, [first_end - 1, second_end, second_info], True),
       (''entry-empty'', first_entry, [first_begin, first_begin, first_info], True),
       (''entry-after-code'', last_entry, [last_begin, uh_code_end h + 1, last_info], True),
       (''entry-unaligned-info'', first_entry, [first_begin, first_end, first_info + 1], True),
       (''entry-info-before-blob'', first_entry,
         [first_begin, first_end, section_oat_offset + uh_unwind_offset h - 4], True),
       (''entry-info-at-end'', last_entry, [last_begin, uh_code_end h, section_oat_offset + sz], True)])"

text \<open>The descriptors the last cases change: the first with a slot and the first with an odd number.\<close>

definition descriptor_step ::
  "bytes \<Rightarrow> int \<Rightarrow> int \<Rightarrow> int \<Rightarrow> int option \<times> int option \<Rightarrow> exn + int option \<times> int option" where
  "descriptor_step original base sz local_offset = (\<lambda>(operation_descriptor, odd_slot_descriptor).
     rbind (byte_at original (nat (base + local_offset + 2))) (\<lambda>slot_count.
     rbind (reject_if (local_offset + (4 + ((slot_count + 1) AND NOT 1) * 2) > sz)
         ''boot.oat has a truncated unwind descriptor'') (\<lambda>_.
     Inr (if slot_count > 0 \<and> operation_descriptor = None then Some local_offset else operation_descriptor,
          if slot_count AND 1 \<noteq> 0 \<and> odd_slot_descriptor = None then Some local_offset else odd_slot_descriptor))))"

definition byte_case :: "bytes \<Rightarrow> int \<Rightarrow> int \<Rightarrow> string \<times> int \<times> int \<Rightarrow> exn + string \<times> bytes" where
  "byte_case original base sz = (\<lambda>(name, local_offset, v).
     rbind (set_byte original (base + local_offset) v) (\<lambda>data.
     rbind (rewrite_checksum data base sz 44) (\<lambda>data. Inr (name, data))))"

definition unwind_byte_mutations :: "int \<Rightarrow> int \<Rightarrow> int \<Rightarrow> int \<Rightarrow> (string \<times> int \<times> int) list" where
  "unwind_byte_mutations first_descriptor operation_descriptor odd_slot_descriptor slot_count =
     [(''info-version'', first_descriptor, 2),
      (''info-volatile-register'', operation_descriptor + 5, 0x10),
      (''info-unsupported-operation'', operation_descriptor + 5, 0x06),
      (''info-nonzero-padding'', odd_slot_descriptor + 4 + slot_count * 2, 1)]"

definition unwind_corpus_cases :: "bytes \<Rightarrow> int \<Rightarrow> int \<Rightarrow> int \<Rightarrow> exn + (string \<times> bytes) list \<times> int" where
  "unwind_corpus_cases original base sz section_oat_offset =
     rbind (reject_if (sz < 64 \<or> base + sz > int (length original))
         ''boot.oat has an unusable unwind mutation section'') (\<lambda>_.
     rbind (unpack_from 48 unwind_header_of original base) (\<lambda>h.
     rbind (reject_if (uh_entry_count h < 2 \<or> uh_entries_offset h \<noteq> 48
           \<or> uh_entries_offset h + uh_entry_count h * 12 \<noteq> uh_unwind_offset h \<or> uh_unwind_offset h \<ge> sz)
         ''boot.oat unwind entries cannot support mutation'') (\<lambda>_.
     rbind (rbind (flip_byte original base) (\<lambda>data.
         rbind (rewrite_checksum data base sz 44) (\<lambda>data. Inr (''magic'', data)))) (\<lambda>magic_case.
     rbind (map_r (packed_case original base sz 44) (unwind_header_mutations h base)) (\<lambda>header_cases.
     rbind (rbind (flip_byte original (base + 44)) (\<lambda>data. Inr (''checksum'', data))) (\<lambda>checksum_case.
     let first_entry = base + uh_entries_offset h in
     rbind (unpack_from 12 entry_of original first_entry) (\<lambda>e1.
     rbind (unpack_from 12 entry_of original (first_entry + 12)) (\<lambda>e2.
     rbind (unpack_from 12 entry_of original (first_entry + (uh_entry_count h - 1) * 12)) (\<lambda>en.
     rbind (map_r (packed_case original base sz 44)
         (unwind_entry_mutations h base sz section_oat_offset e1 e2 en)) (\<lambda>entry_cases.
     rbind (map_r (\<lambda>index. unpack_from 4 le_int original (first_entry + int index * 12 + 8))
         [0..<nat (uh_entry_count h)]) (\<lambda>infos.
     let local_info_offsets = map (\<lambda>offset. offset - section_oat_offset) (sort (remdups infos)) in
     rbind (reject_if (local_info_offsets = []
           \<or> (\<exists>offset \<in> set local_info_offsets. offset < uh_unwind_offset h \<or> offset + 4 > sz))
         ''boot.oat has unusable unwind descriptors'') (\<lambda>_.
     rbind (fold_r (descriptor_step original base sz) local_info_offsets (None, None)) (\<lambda>found.
     case found of
       (Some operation_descriptor, Some odd_slot_descriptor) \<Rightarrow>
         rbind (byte_at original (nat (base + odd_slot_descriptor + 2))) (\<lambda>slot_count.
         rbind (map_r (byte_case original base sz)
             (unwind_byte_mutations (hd local_info_offsets) operation_descriptor odd_slot_descriptor slot_count)) (\<lambda>byte_cases.
         Inr (magic_case # header_cases @ [checksum_case] @ entry_cases @ byte_cases, fst e1)))
     | _ \<Rightarrow> Inl (oat_error ''boot.oat needs nonempty and odd-slot unwind descriptors for mutation''))))))))))))))"

definition build_unwind_corpus :: "oat_machine \<Rightarrow> pypath \<Rightarrow> pypath \<Rightarrow> pypath \<Rightarrow> exn + corpus_file list \<times> dict" where
  "build_unwind_corpus mc oat_path vdex_path output_root =
     rbind (regular_file mc oat_path) (\<lambda>oat.
     rbind (regular_file mc vdex_path) (\<lambda>vdex.
     rbind (corpus_root mc ''unwind'' output_root) (\<lambda>root.
     rbind (oc_bytes mc oat) (\<lambda>original.
     rbind (read_windows_boot_oat_layout mc oat) (\<lambda>l.
     case (map_of (ol_sections l) ''.oat_unwind.windows'', map_of (ol_sections l) ''.rodata'') of
       (Some (_, s), Some (_, rodata)) \<Rightarrow>
         rbind (unwind_corpus_cases original (sh_offset s) (sh_size s) (sh_addr s - sh_addr rodata)) (\<lambda>(cases, first_begin).
         let n = int (length cases) in
         Inr (corpus_files original vdex cases @ [TextLines ''first-entry.txt'' [int_str first_begin]],
           [(''case_count'', VInt n), (''cases'', VList (map (VStr \<circ> fst) cases)), (''canonical_open_count'', VInt 4),
            (''rejection_open_count'', VInt (n * 2)), (''total_open_count'', VInt (n * 2 + 4)),
            (''fallback_count'', VInt n), (''first_entry_offset'', VInt first_begin)]))
     | _ \<Rightarrow> Inl (oat_error ''boot.oat is missing .oat_unwind.windows''))))))"

end
