(* ===== verification/OatProps.thy ===== *)
theory OatProps
  imports OatTables
begin

section \<open>Properties of the OAT validators\<close>

text \<open>
  The validators never read outside the file: whatever bytes they are given, they return or raise
  \<open>Dex2OatProbeError\<close> (or \<open>UnicodeDecodeError\<close>, from a name that is not ASCII). What they accept is a
  well-formed table.
\<close>

named_theorems oat_safe

definition is_oat_error :: "exn \<Rightarrow> bool" where
  "is_oat_error e = (case e of RaisedError kind _ \<Rightarrow> kind = ''Dex2OatProbeError'' \<or> kind = ''UnicodeDecodeError'' | _ \<Rightarrow> False)"

definition oat_result :: "exn + 'a \<Rightarrow> bool" where
  "oat_result r = (case r of Inl e \<Rightarrow> is_oat_error e | Inr _ \<Rightarrow> True)"

lemma oat_result_Inr [oat_safe]: "oat_result (Inr x)"
  by (simp add: oat_result_def)

lemma oat_result_error [oat_safe]: "oat_result (Inl (oat_error m))"
  by (simp add: oat_result_def is_oat_error_def oat_error_def)

lemma oat_result_reject [oat_safe]: "oat_result (reject_if b m)"
  unfolding reject_if_def by (cases b) (auto intro: oat_safe)

lemma oat_result_decode [oat_safe]: "oat_result (decode_ascii xs)"
  by (simp add: decode_ascii_def oat_result_def is_oat_error_def)

lemma oat_result_rbind:
  "oat_result m \<Longrightarrow> (\<And>x. m = Inr x \<Longrightarrow> oat_result (f x)) \<Longrightarrow> oat_result (rbind m f)"
  by (cases m) (auto simp: oat_result_def)

lemma oat_result_unpack:
  "0 \<le> off \<Longrightarrow> off + int sz \<le> int (length xs) \<Longrightarrow> oat_result (unpack_from sz decode xs off)"
  by (simp add: unpack_from_in_range oat_result_Inr)

lemma oat_result_byte: "i < length xs \<Longrightarrow> oat_result (byte_at xs i)"
  by (simp add: oat_result_Inr)

lemma oat_result_fold:
  "(\<And>x s. x \<in> set xs \<Longrightarrow> oat_result (f x s)) \<Longrightarrow> oat_result (fold_r f xs s)"
  by (induction xs arbitrary: s) (auto intro!: oat_result_rbind oat_safe)

lemma oat_result_map:
  "(\<And>x. x \<in> set xs \<Longrightarrow> oat_result (f x)) \<Longrightarrow> oat_result (map_r f xs)"
  by (induction xs) (auto intro!: oat_result_rbind oat_safe)

lemma unpack_from_Inr: "unpack_from sz decode xs off = Inr x \<Longrightarrow> \<exists>b. x = decode b"
  by (auto simp: unpack_from_def Let_def split: if_splits)

lemma row_in_range:
  assumes "0 \<le> off" "off + count * int sz \<le> n" "i < nat count"
  shows "0 \<le> off + int i * int sz \<and> off + int i * int sz + int sz \<le> (n :: int)"
proof -
  have "int i + 1 \<le> count" using assms(3) by linarith
  then have "(int i + 1) * int sz \<le> count * int sz" by (rule mult_right_mono) simp
  then show ?thesis using assms(1,2) by (simp add: distrib_right)
qed

lemma oat_result_table:
  "0 \<le> off \<Longrightarrow> off + count * int sz \<le> int (length xs) \<Longrightarrow> oat_result (unpack_table sz decode xs off count)"
  unfolding unpack_table_def
  by (rule oat_result_map) (use row_in_range [of off count sz "int (length xs)"] in \<open>auto intro!: oat_result_unpack\<close>)

lemma unpack_table_Inr:
  assumes "unpack_table sz decode xs off count = Inr ys"
  shows "length ys = nat count \<and> (\<forall>y \<in> set ys. \<exists>b. y = decode b)"
proof -
  have "list_all2 (\<lambda>i y. unpack_from sz decode xs (off + int i * int sz) = Inr y) [0..<nat count] ys"
    using assms by (simp add: unpack_table_def map_r_Inr_iff)
  then show ?thesis
    by (auto simp: list_all2_conv_all_nth in_set_conv_nth dest!: unpack_from_Inr)
qed

lemma oat_result_table_string [oat_safe]: "oat_result (table_string strings off bad un)"
  unfolding table_string_def by (auto intro!: oat_result_rbind oat_safe split: option.split)

lemmas oat_intros = oat_result_rbind oat_safe oat_result_fold

subsection \<open>The probe's files\<close>

lemma elf_header_nonneg [simp]:
  "0 \<le> eh_phoff (elf_header_of b)" "0 \<le> eh_shoff (elf_header_of b)" "0 \<le> eh_shstrndx (elf_header_of b)"
  by (simp_all add: elf_header_of_def)

definition plain_section :: "section_header \<Rightarrow> bool" where
  "plain_section s = (0 \<le> sh_offset s \<and> 0 \<le> sh_size s \<and> 0 \<le> sh_link s \<and> 0 \<le> sh_addr s)"

lemma plain_section_of [simp]: "plain_section (section_header_of b)"
  by (simp add: plain_section_def section_header_of_def)

lemma elf_sections_loop_safe: "oat_result (elf_sections_loop data names index ss result)"
  by (induction ss arbitrary: index result) (auto simp: Let_def intro!: oat_intros)

lemma read_elf_sections_safe:
  assumes "h = elf_header_of b"
  shows "oat_result (read_elf_sections data h)"
  unfolding read_elf_sections_def Let_def using assms
  by (intro oat_result_rbind oat_safe elf_sections_loop_safe oat_result_table) auto

lemma header_row:
  assumes "h = elf_header_of b" "eh_phentsize h = 56" "eh_phoff h + eh_phnum h * eh_phentsize h \<le> n" "i < nat (eh_phnum h)"
  shows "0 \<le> eh_phoff h + int i * eh_phentsize h" "eh_phoff h + int i * eh_phentsize h + 56 \<le> n"
  using row_in_range [of "eh_phoff h" "eh_phnum h" 56 n i] assms by auto

lemma oat_segment_safe:
  assumes "h = elf_header_of b" "eh_phentsize h = 56" "eh_phoff h + eh_phnum h * eh_phentsize h \<le> int (length data)"
    "index < nat (eh_phnum h)" "al \<noteq> 0"
  shows "oat_result (oat_segment data h al index st)"
proof -
  have "oat_result (unpack_from 56 program_header_of data (eh_phoff h + int index * eh_phentsize h))"
    using header_row [OF assms(1-4)] by (intro oat_result_unpack) auto
  then show ?thesis using assms(5) unfolding oat_segment_def
    by (cases st) (auto simp: py_mod_def intro!: oat_intros)
qed

lemma unpack_header:
  assumes "unpack_from 64 elf_header_of data 0 = Inr h" "\<not> length data < 64"
  shows "\<exists>b. h = elf_header_of b" "length (eh_ident h) = 16"
proof -
  have "h = elf_header_of (take 64 data)" using assms by (auto simp: unpack_from_def split: if_splits)
  then show "\<exists>b. h = elf_header_of b" "length (eh_ident h) = 16"
    using assms(2) by (blast, simp add: elf_header_of_def)
qed

lemma present_case:
  assumes "reject_if (sort (filter (\<lambda>n. map_of d n = None) names) \<noteq> []) msg = Inr u" and "n \<in> set names"
    and "\<And>a b. oat_result (f a b)"
  shows "oat_result (case map_of d n of None \<Rightarrow> Inl (KeyError k) | Some (a, b) \<Rightarrow> f a b)"
proof -
  have "filter (\<lambda>n. map_of d n = None) names = []" using assms(1) by (simp flip: set_empty) 
  then obtain v where "map_of d n = Some v" using assms(2) by (auto simp: filter_empty_conv)
  then show ?thesis using assms(3) by (cases v) simp
qed

lemma check_oat_elf_safe:
  assumes "al \<noteq> 0"
  shows "oat_result (check_oat_elf data al)"
  unfolding check_oat_elf_def
proof (intro oat_result_rbind oat_safe, goal_cases)
  case 1
  then show ?case by (intro oat_result_unpack) auto
next
  case 2
  then show ?case using unpack_header(2) by (intro oat_result_byte) simp
next
  case 3
  then show ?case using unpack_header(2) by (intro oat_result_byte) simp
next
  case (4 u h)
  then obtain b where b: "h = elf_header_of b" using unpack_header(1) by auto
  from 4 show ?case using assms by (intro oat_result_fold) (simp add: oat_segment_safe [OF b])
next
  case (5 u h)
  then obtain b where b: "h = elf_header_of b" using unpack_header(1) by auto
  from read_elf_sections_safe [OF this] show ?case .
next
  case 6
  show ?case unfolding Let_def
  proof (intro oat_result_rbind oat_safe, goal_cases)
    case 1
    then show ?case by - (erule present_case, simp, intro oat_intros)
  qed
qed

lemma vdex_section_safe:
  assumes "ps = 12 + n * 12" "ps \<le> int (length data)" "index < nat n"
  shows "oat_result (vdex_section data ps index st)"
proof -
  have "oat_result (unpack_from 12 vdex_section_of data (12 + int index * 12))"
    using row_in_range [of 12 n 12 "int (length data)" index] assms by (intro oat_result_unpack) auto
  then show ?thesis unfolding vdex_section_def by (auto intro!: oat_intros)
qed

lemma check_vdex_safe: "oat_result (check_vdex data)"
  unfolding check_vdex_def Let_def
  by (auto intro!: oat_result_rbind oat_safe oat_result_unpack oat_result_fold vdex_section_safe split: prod.split)

subsection \<open>The boot layout\<close>

lemma boot_segment_safe:
  assumes "h = elf_header_of b" "eh_phentsize h = 56" "eh_phoff h + eh_phnum h * eh_phentsize h \<le> int (length data)"
    "index < nat (eh_phnum h)"
  shows "oat_result (boot_segment data h index st)"
proof -
  have "oat_result (unpack_from 56 program_header_of data (eh_phoff h + int index * eh_phentsize h))"
    using header_row [OF assms] by (intro oat_result_unpack) auto
  then show ?thesis unfolding boot_segment_def by (auto intro!: oat_intros)
qed

lemma boot_sections_loop_safe: "oat_result (boot_sections_loop names index ss result)"
  by (induction ss arbitrary: index result) (auto intro!: oat_intros)

lemma boot_oat_layout_safe: "oat_result (boot_oat_layout data)"
  unfolding boot_oat_layout_def Let_def
proof (intro oat_result_rbind oat_safe boot_sections_loop_safe, goal_cases)
  case 1
  then show ?case by (intro oat_result_unpack) auto
next
  case (2 u h)
  then obtain b where b: "h = elf_header_of b" using unpack_header(1) by auto
  from 2 show ?case by (intro oat_result_fold) (simp add: boot_segment_safe [OF b])
next
  case (3 u h)
  then obtain b where "h = elf_header_of b" using unpack_header(1) by auto
  with 3 show ?case by (intro oat_result_table) auto
qed

lemma boot_sections_loop_Inr:
  "boot_sections_loop names index ss result = Inr d \<Longrightarrow> (n, i, s) \<in> set d \<Longrightarrow> (n, i, s) \<in> set result \<or> s \<in> set ss"
  by (induction ss arbitrary: index result) (fastforce simp: rbind_Inr_iff)+

definition plain_layout :: "oat_layout \<Rightarrow> bool" where
  "plain_layout l = ((\<forall>s \<in> set (ol_raw_sections l). plain_section s) \<and> (\<forall>(n, i, s) \<in> set (ol_sections l). plain_section s))"

lemma boot_oat_layout_Inr:
  assumes "boot_oat_layout data = Inr l"
  shows "ol_data l = data \<and> plain_layout l"
proof -
  from assms obtain off n raw names sections where
    raw: "unpack_table 64 section_header_of data off n = Inr raw"
    and sec: "boot_sections_loop names 0 raw [] = Inr sections"
    and l: "ol_data l = data" "ol_raw_sections l = raw" "ol_sections l = sections"
    unfolding boot_oat_layout_def Let_def rbind_Inr_iff by (elim exE conjE) (force simp: Inr_inject)
  from unpack_table_Inr [OF raw] have p: "\<forall>s \<in> set raw. plain_section s" by auto
  moreover have "plain_section s" if "(m, i, s) \<in> set sections" for m i s
    using boot_sections_loop_Inr [OF sec that] p by auto
  ultimately show ?thesis unfolding plain_layout_def l by auto
qed

lemma plain_section_get: "plain_layout l \<Longrightarrow> section_of l n = Inr (i, s) \<Longrightarrow> plain_section s"
  unfolding plain_layout_def section_of_def by (auto split: option.splits dest!: map_of_SomeD)

lemma section_of_safe:
  assumes "reject_if (missing_required l names \<noteq> []) msg = Inr u" "n \<in> set names"
  shows "oat_result (section_of l n)"
proof -
  obtain v where "map_of (ol_sections l) n = Some v"
    using assms by (auto simp: missing_required_def filter_empty_conv)
  then show ?thesis by (simp add: section_of_def oat_safe)
qed

lemma symbol_loop_safe:
  "\<forall>off \<in> set offs. 0 \<le> off \<and> off + 24 \<le> int (length data) \<Longrightarrow> oat_result (symbol_loop data strings name expected offs)"
  by (induction offs) (auto intro!: oat_intros oat_result_unpack)

lemma validate_dynamic_symbol_safe:
  assumes "plain_layout l" "oat_result (section_of l ''.dynsym'')"
  shows "oat_result (validate_dynamic_symbol l name i v sz)"
  unfolding validate_dynamic_symbol_def Let_def
proof (intro oat_result_rbind assms(2), clarsimp, intro oat_result_rbind oat_safe symbol_loop_safe, clarsimp)
  fix i s k assume s: "section_of l ''.dynsym'' = Inr (i, s)" and k: "k < nat (sh_size s div 24)"
    and r: "\<not> int (length (ol_data l)) < sh_offset s + sh_size s"
  have "0 \<le> sh_offset s" "0 \<le> sh_size s" using plain_section_get [OF assms(1) s] by (auto simp: plain_section_def)
  moreover have "int k < sh_size s div 24" using k by (simp add: zless_nat_eq_int_zless)
  then have "(int k + 1) * 24 \<le> sh_size s" by presburger
  ultimately show "0 \<le> sh_offset s + int k * 24 \<and> sh_offset s + int k * 24 + 24 \<le> int (length (ol_data l))"
    using r by auto
qed

subsection \<open>The metadata tables\<close>

lemma unwind_operation_safe: "oat_result (unwind_operation opn info)"
  unfolding unwind_operation_def by (auto intro!: oat_intros)

lemma unwind_loop_safe:
  "4 + 2 * n \<le> length data \<Longrightarrow> oat_result (unwind_loop data n ps slot prev fp)"
proof (induction data n ps slot prev fp rule: unwind_loop.induct)
  case (1 data n ps slot prev fp)
  show ?case
  proof (cases "slot < n")
    case True
    have b: "oat_result (byte_at data (4 + slot * 2))" "oat_result (byte_at data (5 + slot * 2))"
      using True 1(2) by (intro oat_result_byte; simp)+
    from True show ?thesis
      by (subst unwind_loop.simps) (auto intro!: oat_result_rbind oat_safe b unwind_operation_safe 1)
  next
    case False
    then show ?thesis by (subst unwind_loop.simps) (simp add: oat_safe)
  qed
qed

lemma check_unwind_info_safe: "oat_result (check_unwind_info data)"
  unfolding check_unwind_info_def Let_def
proof (intro oat_result_rbind oat_safe unwind_loop_safe oat_result_byte, goal_cases)
  case (4 u ps n f v)
  have "0 \<le> n" using 4(3) by (auto simp: byte_at_def split: if_splits)
  moreover have "4 + ((n + 1) AND NOT 1) * 2 \<le> int (length data)" using 4 by simp
  then have "4 + n * 2 \<le> int (length data)" unfolding and_not_1 by presburger
  ultimately show ?case by linarith
qed (auto intro: oat_safe)

lemma section_payload:
  assumes "plain_section s" "sh_offset s + sh_size s \<le> int (length data)"
  shows "int (length (py_slice data (sh_offset s) (sh_offset s + sh_size s))) = sh_size s"
  using assms length_slice [of "sh_offset s" "sh_offset s + sh_size s" data] by (simp add: plain_section_def)

lemma unwind_header_entries:
  assumes "h = unwind_header_of b" "\<not> unwind_header_bad payload h"
  shows "uh_entries_offset h = 48 \<and> uh_entry_size h = 12 \<and> 48 + uh_entry_count h * 12 \<le> int (length payload)"
proof -
  have "(48 + uh_entry_count h * 12 + 3) AND NOT 3 = uh_unwind_offset h" "0 \<le> uh_unwind_size h"
    "uh_entries_offset h = 48" "uh_entry_size h = 12" "uh_unwind_offset h + uh_unwind_size h = int (length payload)"
    using assms by (auto simp: unwind_header_bad_def unwind_header_of_def)
  with round_up_4 [of "48 + uh_entry_count h * 12"] show ?thesis by simp
qed

lemma unwind_entry_safe:
  assumes "h = unwind_header_of b" "\<not> unwind_header_bad payload h" "i < nat (uh_entry_count h)"
  shows "oat_result (unwind_entry payload h so i st)"
proof -
  have "oat_result (unpack_from 12 entry_of payload (uh_entries_offset h + int i * uh_entry_size h))"
    using row_in_range [of 48 "uh_entry_count h" 12 "int (length payload)" i] unwind_header_entries [OF assms(1,2)] assms(3)
    by (intro oat_result_unpack) auto
  then show ?thesis unfolding unwind_entry_def by (cases st) (auto intro!: oat_intros)
qed

lemma check_descriptors_safe: "oat_result (check_descriptors payload so offs)"
  unfolding check_descriptors_def by (intro oat_result_fold check_unwind_info_safe)

lemma check_unwind_payload_safe:
  assumes "48 \<le> length payload"
  shows "oat_result (check_unwind_payload payload ra ta ts ua)"
  unfolding check_unwind_payload_def Let_def
proof (intro oat_result_rbind oat_safe check_descriptors_safe, goal_cases)
  case 1
  then show ?case using assms by (intro oat_result_unpack) auto
next
  case (2 h)
  then obtain b where b: "h = unwind_header_of b" using unpack_from_Inr [OF 2(1)] by auto
  from 2 show ?case by (intro oat_result_fold) (simp add: unwind_entry_safe [OF b])
qed

lemma cfg_target_safe:
  assumes "\<not> cfg_header_bad payload h" "i < nat (ch_target_count h)"
  shows "oat_result (cfg_target payload h ra i st)"
proof -
  have "oat_result (unpack_from 8 target_of payload (ch_targets_offset h + int i * ch_target_size h))"
    using row_in_range [of 48 "ch_target_count h" 8 "int (length payload)" i] assms
    by (intro oat_result_unpack) (auto simp: cfg_header_bad_def)
  then show ?thesis unfolding cfg_target_def by (cases st) (auto intro!: oat_intros)
qed

lemma check_cfg_payload_safe:
  assumes "48 \<le> length payload"
  shows "oat_result (check_cfg_payload payload ra ta ts)"
  unfolding check_cfg_payload_def Let_def
proof (intro oat_result_rbind oat_safe, goal_cases)
  case 1
  then show ?case using assms by (intro oat_result_unpack) auto
next
  case (2 h)
  then show ?case by (intro oat_result_fold) (simp add: cfg_target_safe)
qed

lemma unwind_section_placed_Inr: "unwind_section_placed l i s = Inr u \<Longrightarrow> 48 \<le> sh_size s \<and> sh_offset s + sh_size s \<le> int (length (ol_data l))"
  by (auto simp: unwind_section_placed_def rbind_Inr_iff)

lemma cfg_section_placed_Inr: "cfg_section_placed l i s = Inr u \<Longrightarrow> 48 \<le> sh_size s \<and> sh_offset s + sh_size s \<le> int (length (ol_data l))"
  by (auto simp: cfg_section_placed_def rbind_Inr_iff)

lemma check_windows_oat_unwind_safe:
  assumes "plain_layout l"
  shows "oat_result (check_windows_oat_unwind l)"
  unfolding check_windows_oat_unwind_def Let_def
proof (rule oat_result_rbind, goal_cases)
  case 1
  show ?case by (rule oat_safe)
next
  case (2 u)
  note present = section_of_safe [OF 2]
  have place: "oat_result (unwind_section_placed l i s)" for i s
    unfolding unwind_section_placed_def by (auto intro!: oat_intros)
  have body: "oat_result (check_unwind_payload (py_slice (ol_data l) (sh_offset s) (sh_offset s + sh_size s)) ra ta ts ua)"
    if "section_of l n = Inr (i, s)" "unwind_section_placed l i s = Inr u" for n i s u ra ta ts ua
    using unwind_section_placed_Inr [OF that(2)] section_payload [OF plain_section_get [OF assms that(1)], of "ol_data l"]
    by (intro check_unwind_payload_safe) linarith
  have sym: "oat_result (validate_dynamic_symbol l name i v sz)" for name i v sz
    by (intro validate_dynamic_symbol_safe assms present) simp
  show ?case
    by (auto intro!: oat_result_rbind oat_safe present place body sym)
qed

lemma check_windows_oat_cfg_safe:
  assumes "plain_layout l"
  shows "oat_result (check_windows_oat_cfg l)"
  unfolding check_windows_oat_cfg_def Let_def
proof (rule oat_result_rbind, goal_cases)
  case 1
  show ?case by (rule oat_safe)
next
  case (2 u)
  note present = section_of_safe [OF 2]
  have place: "oat_result (cfg_section_placed l i s)" for i s
    unfolding cfg_section_placed_def by (auto intro!: oat_intros)
  have body: "oat_result (check_cfg_payload (py_slice (ol_data l) (sh_offset s) (sh_offset s + sh_size s)) ra ta ts)"
    if "section_of l n = Inr (i, s)" "cfg_section_placed l i s = Inr u" for n i s u ra ta ts
    using cfg_section_placed_Inr [OF that(2)] section_payload [OF plain_section_get [OF assms that(1)], of "ol_data l"]
    by (intro check_cfg_payload_safe) linarith
  have sym: "oat_result (validate_dynamic_symbol l name i v sz)" for name i v sz
    by (intro validate_dynamic_symbol_safe assms present) simp
  show ?case
    by (auto intro!: oat_result_rbind oat_safe present place body sym)
qed

text \<open>C25. No validator reads outside the bytes it is given, whatever they are: it returns, or raises
  \<open>Dex2OatProbeError\<close> or, for a name that is not ASCII, \<open>UnicodeDecodeError\<close>; never \<open>struct.error\<close>,
  \<open>IndexError\<close> or \<open>KeyError\<close>.\<close>

theorem validators_read_in_bounds:
  "oat_result (check_oat_elf data windows_x64_elf_alignment)
    \<and> oat_result (check_vdex data)
    \<and> oat_result (rbind (boot_oat_layout data) check_windows_oat_unwind)
    \<and> oat_result (rbind (boot_oat_layout data) check_windows_oat_cfg)"
  by (auto intro!: check_oat_elf_safe check_vdex_safe oat_result_rbind boot_oat_layout_safe
      check_windows_oat_unwind_safe check_windows_oat_cfg_safe
      simp: windows_x64_elf_alignment_def dest: boot_oat_layout_Inr)

end
