(* ===== verification/OatAccept.thy ===== *)
theory OatAccept
  imports OatTables
begin

section \<open>What the OAT validators accept\<close>

text \<open>
  The tables that pass are read back row by row; the two row loops are instances of one scan. The
  check of an \<open>UNWIND_INFO\<close> descriptor is equivalent to a grammar of AMD64 unwind codes.
\<close>

subsection \<open>Scanning a table\<close>

locale checked_scan =
  fixes read_row :: "nat \<Rightarrow> exn + 'a"
    and bad_row :: "'k \<Rightarrow> 'a \<Rightarrow> bool"
    and row_key :: "'a \<Rightarrow> 'k"
    and row_msg :: "nat \<Rightarrow> string"
    and step :: "nat \<Rightarrow> 'k \<times> 'a list \<Rightarrow> exn + 'k \<times> 'a list"
  assumes step_def: "step i st = rbind (read_row i) (\<lambda>r. rbind (reject_if (bad_row (fst st) r) (row_msg i))
      (\<lambda>_. Inr (row_key r, snd st @ [r])))"
begin

lemma scan_rows:
  assumes "fold_r step [0..<n] (k0, []) = Inr st"
  shows "length (snd st) = n \<and> fst st = (if n = 0 then k0 else row_key (snd st ! (n - 1)))
    \<and> (\<forall>i < n. read_row i = Inr (snd st ! i) \<and> \<not> bad_row (if i = 0 then k0 else row_key (snd st ! (i - 1))) (snd st ! i))"
  using assms
proof (induction n arbitrary: st)
  case (Suc n)
  from Suc.prems obtain st' r where st': "fold_r step [0..<n] (k0, []) = Inr st'" and r: "read_row n = Inr r" "\<not> bad_row (fst st') r"
    and st: "st = (row_key r, snd st' @ [r])"
    by (auto simp: fold_r_append rbind_Inr_iff step_def [of n])
  note IH = Suc.IH [OF st']
  let ?key = "\<lambda>rows i. if i = 0 then k0 else row_key (rows ! (i - 1))"
  have "read_row i = Inr (snd st ! i) \<and> \<not> bad_row (?key (snd st) i) (snd st ! i)" if "i < Suc n" for i
  proof (cases "i = n")
    case True
    have "?key (snd st) n = fst st'" using IH by (simp add: st nth_append)
    with True IH r show ?thesis by (cases "n = 0") (simp_all add: st nth_append)
  next
    case False
    then have i: "i < n" "i - 1 < n" using that by auto
    then have "snd st ! i = snd st' ! i" "?key (snd st) i = ?key (snd st') i"
      using IH by (simp_all add: st nth_append)
    with i(1) IH show ?thesis by simp
  qed
  moreover have "length (snd st) = Suc n" "fst st = row_key (snd st ! n)" using IH by (simp_all add: st nth_append)
  ultimately show ?case by simp
qed simp

text \<open>If neighbours are in a transitive relation whenever the second is not bad after the first, so are
  all rows.\<close>

lemma scan_sorted:
  assumes "fold_r step [0..<n] (k0, []) = Inr st" and "transp R" and "\<And>a b. \<not> bad_row (row_key a) b \<Longrightarrow> R a b"
  shows "sorted_wrt R (snd st)"
  unfolding sorted_wrt_iff_nth_Suc_transp [OF assms(2)]
proof (intro allI impI)
  fix i assume "Suc i < length (snd st)"
  with scan_rows [OF assms(1)] have "\<not> bad_row (row_key (snd st ! i)) (snd st ! Suc i)"
    by (metis Suc_neq_Zero diff_Suc_1)
  then show "R (snd st ! i) (snd st ! Suc i)" by (rule assms(3))
qed

lemma scan_row:
  assumes "fold_r step [0..<n] (k0, []) = Inr st" and "r \<in> set (snd st)"
  shows "\<exists>k. \<not> bad_row k r"
  using scan_rows [OF assms(1)] assms(2) by (metis in_set_conv_nth)

end

interpretation unwind_scan: checked_scan
  "\<lambda>i. unpack_from 12 entry_of payload (uh_entries_offset h + int i * uh_entry_size h)"
  "unwind_entry_bad payload h section_oat_offset" "fst \<circ> snd"
  "\<lambda>i. ''boot.oat has an invalid Windows unwind entry '' @ nat_str i"
  "unwind_entry payload h section_oat_offset" for payload h section_oat_offset
  by unfold_locales (simp add: unwind_entry_def case_prod_unfold)

interpretation cfg_scan: checked_scan
  "\<lambda>i. unpack_from 8 target_of payload (ch_targets_offset h + int i * ch_target_size h)"
  "cfg_target_bad h rodata_address" "Some \<circ> fst"
  "\<lambda>i. ''boot.oat has an invalid Windows CFG target '' @ nat_str i"
  "cfg_target payload h rodata_address" for payload h rodata_address
  by unfold_locales (simp add: cfg_target_def case_prod_unfold)

lemma unpack_from_Inr_at:
  "0 \<le> off \<Longrightarrow> unpack_from sz decode xs off = Inr x \<Longrightarrow> x = decode (take sz (drop (nat off) xs))"
  by (auto simp: unpack_from_def Let_def split: if_splits)

lemma rows_of:
  assumes "length rows = n" "\<And>i. i < n \<Longrightarrow> unpack_from sz decode payload (48 + int i * int sz) = Inr (rows ! i)"
  shows "rows = map (\<lambda>i. decode (take sz (drop (48 + sz * i) payload))) [0..<n]"
proof (rule nth_equalityI)
  fix i assume "i < length rows"
  then have "unpack_from sz decode payload (48 + int i * int sz) = Inr (rows ! i)" using assms by simp
  moreover have "nat (48 + int i * int sz) = 48 + sz * i" by (simp add: nat_add_distrib nat_mult_distrib mult.commute)
  ultimately show "rows ! i = map (\<lambda>i. decode (take sz (drop (48 + sz * i) payload))) [0..<n] ! i"
    using unpack_from_Inr_at [of "48 + int i * int sz" sz decode payload] \<open>i < length rows\<close> assms(1) by simp
qed (simp add: assms(1))

subsection \<open>The tables\<close>

lemma check_descriptors_Inr:
  "check_descriptors payload so offs = Inr u \<longleftrightarrow>
     (\<forall>i < length offs. check_unwind_info (py_slice payload (offs ! i - so)
         (if i + 1 < length offs then offs ! (i + 1) - so else int (length payload))) = Inr ())"
proof -
  have "fold_r (\<lambda>i _. f i) is () = Inr u \<longleftrightarrow> (\<forall>i \<in> set is. f i = Inr ())" for f :: "nat \<Rightarrow> exn + unit" and "is"
    by (induction "is") (auto simp: rbind_Inr_iff)
  then show ?thesis unfolding check_descriptors_def by auto
qed

lemma check_unwind_payload_Inr:
  assumes "check_unwind_payload payload ra ta ts ua = Inr (h, entries)"
  shows "unpack_from 48 unwind_header_of payload 0 = Inr h" "\<not> unwind_header_bad payload h"
    "uh_checksum h = payload_checksum payload 44" "uh_code_begin h = ta - ra" "uh_code_end h = ta - ra + ts"
    "\<exists>pe. fold_r (unwind_entry payload h (ua - ra)) [0..<nat (uh_entry_count h)] (uh_code_begin h, []) = Inr (pe, entries)"
    "check_descriptors payload (ua - ra) (sort (remdups (map (snd \<circ> snd) entries))) = Inr ()"
  using assms by (auto simp: check_unwind_payload_def Let_def rbind_Inr_iff)

text \<open>C27. An accepted unwind table: the entries are the rows of the payload, at least seven of them, each
  covers a non-empty range of the code of \<open>.text\<close> and refers to an aligned descriptor in the blob;
  they are in order and do not overlap, so a code address has at most one entry; every descriptor
  is a valid \<open>UNWIND_INFO\<close> and the checksum is that of the payload.\<close>

theorem unwind_table_accepted:
  assumes "check_unwind_payload payload ra ta ts ua = Inr (h, entries)"
  shows "entries = map (\<lambda>i. entry_of (take 12 (drop (48 + 12 * i) payload))) [0..<length entries] \<and> 7 \<le> length entries
    \<and> sorted_wrt (\<lambda>a b. fst (snd a) \<le> fst b) entries
    \<and> (\<forall>(b, e, info) \<in> set entries. ta - ra \<le> b \<and> b < e \<and> e \<le> ta - ra + ts \<and> 4 dvd info
        \<and> ua - ra + uh_unwind_offset h \<le> info \<and> info < ua - ra + int (length payload))
    \<and> check_descriptors payload (ua - ra) (sort (remdups (map (snd \<circ> snd) entries))) = Inr ()
    \<and> uh_checksum h = payload_checksum payload 44"
proof -
  note p = check_unwind_payload_Inr [OF assms]
  obtain pe where f: "fold_r (unwind_entry payload h (ua - ra)) [0..<nat (uh_entry_count h)] (uh_code_begin h, []) = Inr (pe, entries)"
    using p(6) by blast
  have h: "uh_entries_offset h = 48" "uh_entry_size h = 12" "7 \<le> uh_entry_count h" using p(2) by (auto simp: unwind_header_bad_def)
  note rows = unwind_scan.scan_rows [OF f]
  have n: "length entries = nat (uh_entry_count h)" using rows by simp
  have "entries = map (\<lambda>i. entry_of (take 12 (drop (48 + 12 * i) payload))) [0..<length entries]"
    by (rule rows_of) (use rows h in auto)
  moreover have "7 \<le> length entries" using n h by simp
  moreover have "sorted_wrt (\<lambda>a b. fst (snd a) \<le> fst b \<and> fst b < fst (snd b)) entries"
    using unwind_scan.scan_sorted [OF f, of "\<lambda>a b. fst (snd a) \<le> fst b \<and> fst b < fst (snd b)"]
    by (auto simp: unwind_entry_bad_def transp_def split: prod.splits)
  then have "sorted_wrt (\<lambda>a b. fst (snd a) \<le> fst b) entries" by (rule sorted_wrt_mono_rel [rotated]) simp
  moreover have "\<forall>(b, e, info) \<in> set entries. ta - ra \<le> b \<and> b < e \<and> e \<le> ta - ra + ts \<and> 4 dvd info
        \<and> ua - ra + uh_unwind_offset h \<le> info \<and> info < ua - ra + int (length payload)"
  proof (clarify, goal_cases)
    case (1 b e info)
    then obtain k where "\<not> unwind_entry_bad payload h (ua - ra) k (b, e, info)" using unwind_scan.scan_row [OF f] by force
    then show ?case using p(4,5) by (auto simp: unwind_entry_bad_def)
  qed
  ultimately show ?thesis using p(3,7) by blast
qed

lemma check_cfg_payload_Inr:
  assumes "check_cfg_payload payload ra ta ts = Inr (h, targets)"
  shows "unpack_from 48 cfg_header_of payload 0 = Inr h" "\<not> cfg_header_bad payload h"
    "ch_checksum h = payload_checksum payload 40" "ch_code_begin h = ta - ra" "ch_code_end h = ta - ra + ts"
    "\<exists>k. fold_r (cfg_target payload h ra) [0..<nat (ch_target_count h)] (None, []) = Inr (k, targets)"
    "role_count targets 4 = 7"
  using assms by (auto simp: check_cfg_payload_def Let_def rbind_Inr_iff)

text \<open>An accepted control-flow-guard table: the targets are the rows of the payload, strictly
  increasing offsets into the code of \<open>.text\<close>, each at a 16-byte boundary and with a non-empty set of
  known roles; exactly seven are trampolines, and the checksum is that of the payload.\<close>

theorem cfg_table_accepted:
  assumes "check_cfg_payload payload ra ta ts = Inr (h, targets)"
  shows "targets = map (\<lambda>i. target_of (take 8 (drop (48 + 8 * i) payload))) [0..<length targets]
    \<and> sorted_wrt (<) (map fst targets)
    \<and> (\<forall>(offset, roles) \<in> set targets. ta - ra \<le> offset \<and> offset < ta - ra + ts \<and> 16 dvd ra + offset
        \<and> 0 < roles \<and> roles < 16)
    \<and> length (filter (\<lambda>t. snd t AND 4 \<noteq> 0) targets) = 7 \<and> ch_checksum h = payload_checksum payload 40"
proof -
  note p = check_cfg_payload_Inr [OF assms]
  obtain k where f: "fold_r (cfg_target payload h ra) [0..<nat (ch_target_count h)] (None, []) = Inr (k, targets)"
    using p(6) by blast
  have h: "ch_targets_offset h = 48" "ch_target_size h = 8" using p(2) by (auto simp: cfg_header_bad_def)
  note rows = cfg_scan.scan_rows [OF f]
  have rows': "targets = map (\<lambda>i. target_of (take 8 (drop (48 + 8 * i) payload))) [0..<length targets]"
    by (rule rows_of) (use rows h in auto)
  moreover have "sorted_wrt (\<lambda>a b. fst a < fst b) targets"
    using cfg_scan.scan_sorted [OF f, of "\<lambda>a b. fst a < fst b"]
    by (auto simp: cfg_target_bad_def transp_def split: prod.splits)
  then have "sorted_wrt (<) (map fst targets)" by (simp add: sorted_wrt_map)
  moreover have "ta - ra \<le> a \<and> a < ta - ra + ts \<and> 16 dvd ra + a \<and> 0 < r \<and> r < 16" if ar: "(a, r) \<in> set targets" for a r
  proof -
    have "0 \<le> r" using ar by (subst (asm) rows') (auto simp: target_of_def)
    moreover obtain k where "\<not> cfg_target_bad h ra k (a, r)" using cfg_scan.scan_row [OF f, of "(a, r)"] ar by auto
    ultimately show ?thesis using p(4,5) and_not_15 [of r] by (auto simp: cfg_target_bad_def)
  qed
  ultimately show ?thesis using p(3,7) by (auto simp: role_count_def)
qed

subsection \<open>The grammar of unwind codes\<close>

text \<open>The operations of version 1: code, operand, slots and frame pointers set.\<close>

inductive unwind_op :: "int \<Rightarrow> int \<Rightarrow> nat \<Rightarrow> nat \<Rightarrow> bool" where
  push: "r \<in> set nonvolatile_gprs \<Longrightarrow> unwind_op 0 r 1 0"
| alloc_large_16: "unwind_op 1 0 2 0"
| alloc_large_32: "unwind_op 1 1 3 0"
| alloc_small: "unwind_op 2 n 1 0"
| set_fpreg: "unwind_op 3 0 1 1"
| save: "r \<in> set nonvolatile_gprs \<Longrightarrow> unwind_op 4 r 2 0"
| save_far: "r \<in> set nonvolatile_gprs \<Longrightarrow> unwind_op 5 r 3 0"
| save_xmm: "r \<in> set nonvolatile_xmms \<Longrightarrow> unwind_op 8 r 2 0"
| save_xmm_far: "r \<in> set nonvolatile_xmms \<Longrightarrow> unwind_op 9 r 3 0"
| machframe: "e \<in> {0, 1} \<Longrightarrow> unwind_op 10 e 1 0"

text \<open>A sequence of codes with strictly decreasing prologue offsets: offset and operation bytes, then the
  operand slots; with the number of frame pointers set.\<close>

inductive unwind_codes :: "int \<Rightarrow> int \<Rightarrow> bytes \<Rightarrow> nat \<Rightarrow> bool" where
  no_codes: "unwind_codes prologue prev [] 0"
| one_code: "0 < uint c \<Longrightarrow> uint c \<le> prologue \<Longrightarrow> uint c < prev \<Longrightarrow>
     unwind_op (uint x AND 15) (drop_bit 4 (uint x)) (Suc k) f \<Longrightarrow> length operands = 2 * k \<Longrightarrow>
     unwind_codes prologue (uint c) rest n \<Longrightarrow> unwind_codes prologue prev (c # x # operands @ rest) (f + n)"

inductive_cases unwind_op_cases: "unwind_op opn info u f"
inductive_simps unwind_codes_Nil: "unwind_codes prologue prev [] n"

lemma unwind_operation_iff:
  assumes "0 \<le> info"
  shows "unwind_operation opn info = Inr (u, f) \<longleftrightarrow> unwind_op opn info u f"
proof
  assume a: "unwind_operation opn info = Inr (u, f)"
  have "\<not> 1 < info \<Longrightarrow> info = 0 \<or> info = 1" using assms by arith
  with a show "unwind_op opn info u f"
    by (auto simp: unwind_operation_def rbind_Inr_iff split: if_splits intro: unwind_op.intros [simplified])
next
  assume "unwind_op opn info u f"
  then show "unwind_operation opn info = Inr (u, f)"
    by cases (auto simp: unwind_operation_def reject_if_def)
qed

lemma unwind_codes_step:
  "unwind_codes ps prev (c # x # tail) n \<longleftrightarrow> 0 < uint c \<and> uint c \<le> ps \<and> uint c < prev \<and>
     (\<exists>k f m. unwind_op (uint x AND 15) (drop_bit 4 (uint x)) (Suc k) f \<and> 2 * k \<le> length tail
        \<and> unwind_codes ps (uint c) (drop (2 * k) tail) m \<and> n = f + m)" (is "?l \<longleftrightarrow> ?r")
proof
  assume ?l
  then show ?r by cases force
next
  assume ?r
  then obtain k f m where r: "0 < uint c" "uint c \<le> ps" "uint c < prev"
    "unwind_op (uint x AND 15) (drop_bit 4 (uint x)) (Suc k) f" "2 * k \<le> length tail"
    "unwind_codes ps (uint c) (drop (2 * k) tail) m" "n = f + m" by blast
  from unwind_codes.one_code [OF r(1-4) _ r(6), of "take (2 * k) tail"] r(5,7) show ?l by simp
qed

definition code_bytes :: "bytes \<Rightarrow> nat \<Rightarrow> nat \<Rightarrow> bytes" where
  "code_bytes data n slot = take (2 * (n - slot)) (drop (4 + 2 * slot) data)"

lemma code_bytes_Cons:
  assumes "slot < n" "4 + 2 * n \<le> length data"
  shows "code_bytes data n slot = data ! (4 + slot * 2) # data ! (5 + slot * 2) # code_bytes data n (Suc slot)"
proof -
  have "drop (4 + 2 * slot) data = data ! (4 + 2 * slot) # data ! (5 + 2 * slot) # drop (6 + 2 * slot) data"
    using assms Cons_nth_drop_Suc [of "4 + 2 * slot" data] Cons_nth_drop_Suc [of "5 + 2 * slot" data] by simp
  moreover have "2 * (n - slot) = Suc (Suc (2 * (n - Suc slot)))" using assms(1) by simp
  ultimately show ?thesis by (simp add: code_bytes_def mult.commute)
qed

lemma code_bytes_drop: "slot + k \<le> n \<Longrightarrow> drop (2 * k) (code_bytes data n slot) = code_bytes data n (slot + k)"
proof -
  assume "slot + k \<le> n"
  then have "2 * (n - slot) - 2 * k = 2 * (n - (slot + k))" by simp
  then show ?thesis by (simp add: code_bytes_def drop_take algebra_simps)
qed

lemma length_code_bytes: "4 + 2 * n \<le> length data \<Longrightarrow> slot \<le> n \<Longrightarrow> length (code_bytes data n slot) = 2 * (n - slot)"
  by (simp add: code_bytes_def)

lemma unwind_loop_iff:
  assumes "4 + 2 * n \<le> length data" "slot \<le> n"
  shows "unwind_loop data n ps slot prev fp = Inr r \<longleftrightarrow> (\<exists>k. unwind_codes ps prev (code_bytes data n slot) k \<and> r = fp + k)"
  using assms
proof (induction data n ps slot prev fp rule: unwind_loop.induct)
  case (1 data n ps slot prev fp)
  show ?case
  proof (cases "slot < n")
    case False
    then show ?thesis using 1(3) by (subst unwind_loop.simps) (auto simp: code_bytes_def unwind_codes_Nil)
  next
    case True
    let ?c = "data ! (4 + slot * 2)" and ?x = "data ! (5 + slot * 2)"
    have b: "byte_at data (4 + slot * 2) = Inr (uint ?c)" "byte_at data (5 + slot * 2) = Inr (uint ?x)"
      using True 1(2) by (simp_all add: byte_at_def)
    let ?op = "unwind_operation (uint ?x AND 15) (drop_bit 4 (uint ?x))"
    have "unwind_loop data n ps slot prev fp = Inr r \<longleftrightarrow>
        0 < uint ?c \<and> uint ?c \<le> ps \<and> uint ?c < prev \<and>
        (\<exists>u f. ?op = Inr (u, f) \<and> u \<le> n - slot \<and> unwind_loop data n ps (slot + u) (uint ?c) (fp + f) = Inr r)"
      using True by (subst unwind_loop.simps) (auto simp: b rbind_Inr_iff order_less_le not_le not_less)
    also have "\<dots> \<longleftrightarrow> 0 < uint ?c \<and> uint ?c \<le> ps \<and> uint ?c < prev \<and>
        (\<exists>u f. ?op = Inr (u, f) \<and> u \<le> n - slot \<and> (\<exists>k. unwind_codes ps (uint ?c) (code_bytes data n (slot + u)) k \<and> r = fp + f + k))"
    proof (intro conj_cong refl ex_cong1)
      fix u f assume "0 < uint ?c" "uint ?c \<le> ps" "uint ?c < prev" "?op = Inr (u, f)" "u \<le> n - slot"
      then show "unwind_loop data n ps (slot + u) (uint ?c) (fp + f) = Inr r
        \<longleftrightarrow> (\<exists>k. unwind_codes ps (uint ?c) (code_bytes data n (slot + u)) k \<and> r = fp + f + k)"
        using True 1(2) by (intro 1(1)) (auto simp: b)
    qed
    also have "\<dots> \<longleftrightarrow> (\<exists>k. unwind_codes ps prev (code_bytes data n slot) k \<and> r = fp + k)"
    proof -
      let ?tail = "code_bytes data n (Suc slot)"
      have len: "length ?tail = 2 * (n - Suc slot)" using True 1(2) by (simp add: length_code_bytes)
      have step: "(?op = Inr (u, f) \<and> u \<le> n - slot \<and> P (code_bytes data n (slot + u)))
        \<longleftrightarrow> (\<exists>k. u = Suc k \<and> unwind_op (uint ?x AND 15) (drop_bit 4 (uint ?x)) (Suc k) f \<and> 2 * k \<le> length ?tail
              \<and> P (drop (2 * k) ?tail))" for u f P
      proof (cases u)
        case (Suc k)
        have "drop (2 * k) ?tail = code_bytes data n (slot + u)" if "u \<le> n - slot"
          using code_bytes_drop [of "Suc slot" k n data] that True Suc by simp
        moreover have "2 * k \<le> length ?tail \<longleftrightarrow> u \<le> n - slot" using len Suc True by auto
        ultimately show ?thesis using Suc by (auto simp: unwind_operation_iff)
      qed (auto dest: unwind_operation_slots)
      show ?thesis
        unfolding code_bytes_Cons [OF True 1(2)] unwind_codes_step
          step [of _ _ "\<lambda>bs. \<exists>k. unwind_codes ps (uint ?c) bs k \<and> r = fp + _ + k"]
        by (simp only: add.assoc) blast
    qed
    finally show ?thesis .
  qed
qed

lemma uint_byte_bounds: "0 \<le> uint (b :: 8 word)" "uint (b :: 8 word) < 256"
  using unsigned_less [of b, where 'a = int] by auto

text \<open>The pieces of a descriptor of \<open>m\<close> slots that are long enough: four bytes, the codes, the padding slot
  of an odd count, and the rest.\<close>

lemma four_elements: "length xs = 4 \<Longrightarrow> \<exists>a b c d. xs = [a, b, c, d]"
  by (auto simp: numeral_eq_Suc length_Suc_conv)

lemma split_descriptor:
  assumes "4 + 2 * (m + m mod 2) \<le> length data"
  shows "\<exists>a b c d pad. data = a # b # c # d # code_bytes data m 0 @ pad @ drop (4 + 2 * (m + m mod 2)) data
    \<and> pad = take (2 * (m mod 2)) (drop (4 + 2 * m) data) \<and> length pad = 2 * (m mod 2)"
proof -
  have l: "length data \<ge> 4" using assms by simp
  have "drop 4 data = code_bytes data m 0 @ drop (4 + 2 * m) data"
    using append_take_drop_id [of "2 * m" "drop 4 data"] by (simp add: code_bytes_def add.commute)
  moreover have "drop (4 + 2 * m) data = take (2 * (m mod 2)) (drop (4 + 2 * m) data) @ drop (4 + 2 * (m + m mod 2)) data"
    using append_take_drop_id [of "2 * (m mod 2)" "drop (4 + 2 * m) data"] by (simp add: ac_simps distrib_left)
  ultimately have "data = take 4 data @ code_bytes data m 0 @ take (2 * (m mod 2)) (drop (4 + 2 * m) data) @ drop (4 + 2 * (m + m mod 2)) data"
    using append_take_drop_id [of 4 data] by metis
  moreover obtain a b c d where "take 4 data = [a, b, c, d]"
    using four_elements [of "take 4 data"] l by auto
  moreover have "length (take (2 * (m mod 2)) (drop (4 + 2 * m) data)) = 2 * (m mod 2)" using assms by simp
  ultimately show ?thesis by (metis append_Cons append_Nil)
qed

definition frame_ok :: "8 word \<Rightarrow> nat \<Rightarrow> bool" where
  "frame_ok frame n = (if uint frame AND 15 = 0 then drop_bit 4 (uint frame) = 0 \<and> n = 0
     else uint frame AND 15 \<in> set nonvolatile_gprs \<and> n = 1)"

lemma check_unwind_info_Inr:
  "check_unwind_info data = Inr () \<longleftrightarrow>
    (4 \<le> length data \<and> data ! 0 = 1 \<and>
      (let m = unat (data ! 2); used = 4 + 2 * (m + m mod 2) in
       used \<le> length data \<and> (\<exists>n. unwind_codes (uint (data ! 1)) 256 (code_bytes data m 0) n \<and> frame_ok (data ! 3) n)
       \<and> (odd m \<longrightarrow> take 2 (drop (4 + 2 * m) data) = [0, 0]) \<and> set (drop used data) \<subseteq> {0}))"
proof (cases "4 \<le> length data")
  case True
  define m where "m = unat (data ! 2)"
  have b: "byte_at data 1 = Inr (uint (data ! 1))" "byte_at data 2 = Inr (int m)" "byte_at data 3 = Inr (uint (data ! 3))"
    using True by (simp_all add: byte_at_def m_def)
  have pad: "4 + ((int m + 1) AND NOT 1) * 2 = int (4 + 2 * (m + m mod 2))"
    unfolding and_not_1 by presburger
  have odd: "int k AND 1 \<noteq> 0 \<longleftrightarrow> odd k" for k unfolding and_one_eq by presburger
  have one: "uint (data ! 0) \<noteq> 1 \<longleftrightarrow> data ! 0 \<noteq> 1" by (metis unsigned_1 unsigned_word_eqI)
  have sl: "py_slice data (4 + int m * 2) (6 + int m * 2) = take 2 (drop (4 + 2 * m) data)"
    using py_slice_nat [of "4 + 2 * m" "6 + 2 * m" data] by (simp add: mult.commute)
  note [simp del] = of_nat_add of_nat_mult and_one_eq
  show ?thesis
  proof (cases "4 + 2 * (m + m mod 2) \<le> length data")
    case True
    then have tl: "py_slice data (int (4 + 2 * (m + m mod 2))) (int (length data)) = drop (4 + 2 * (m + m mod 2)) data"
      by (rule py_slice_nat [of _ "length data" data, THEN trans]) simp
    have "4 + 2 * m \<le> length data" using True by simp
    note loop = unwind_loop_iff [OF this le0]
    show ?thesis
      using True \<open>4 \<le> length data\<close>
      unfolding check_unwind_info_def Let_def b rbind.simps pad nat_int sl tl one odd m_def [symmetric]
      by (simp add: rbind_Inr_iff loop frame_ok_def) (auto simp: list_ex_iff)
  next
    case False
    then show ?thesis
      using \<open>4 \<le> length data\<close> unfolding check_unwind_info_def Let_def b rbind.simps pad m_def [symmetric]
      by (simp add: rbind_Inr_iff)
  qed
qed (simp add: check_unwind_info_def reject_if_def)

text \<open>C26. The check of an AMD64 \<open>UNWIND_INFO\<close> descriptor accepts exactly version 1 without flags, a sequence
  of unwind codes in the grammar that fills the slot count, a zero padding slot if the count is odd,
  a consistent frame register, and nothing but zeros after that.\<close>

theorem unwind_info_grammar:
  "check_unwind_info data = Inr () \<longleftrightarrow>
    (\<exists>prologue m frame codes pad zeros n. data = 1 # prologue # m # frame # codes @ pad @ zeros
      \<and> length codes = 2 * unat m \<and> pad = (if odd (unat m) then [0, 0] else []) \<and> set zeros \<subseteq> {0}
      \<and> unwind_codes (uint prologue) 256 codes n \<and> frame_ok frame n)" (is "_ \<longleftrightarrow> ?r")
proof
  assume c: "check_unwind_info data = Inr ()"
  define m where "m = unat (data ! 2)"
  from c have i: "data ! 0 = 1" "4 + 2 * (m + m mod 2) \<le> length data" "set (drop (4 + 2 * (m + m mod 2)) data) \<subseteq> {0}"
    "odd m \<longrightarrow> take 2 (drop (4 + 2 * m) data) = [0, 0]"
    and "\<exists>n. unwind_codes (uint (data ! 1)) 256 (code_bytes data m 0) n \<and> frame_ok (data ! 3) n"
    unfolding check_unwind_info_Inr Let_def m_def by blast+
  then obtain n where n: "unwind_codes (uint (data ! 1)) 256 (code_bytes data m 0) n" "frame_ok (data ! 3) n" by blast
  from split_descriptor [OF i(2)] obtain a b c d pad where
    d: "data = a # b # c # d # code_bytes data m 0 @ pad @ drop (4 + 2 * (m + m mod 2)) data"
    and pad: "pad = take (2 * (m mod 2)) (drop (4 + 2 * m) data)" by blast
  have "data ! 0 = a" "data ! 1 = b" "data ! 2 = c" "data ! 3 = d"
    by (subst d, simp add: eval_nat_numeral)+
  with i(1) n d have e: "data = 1 # b # c # d # code_bytes data m 0 @ pad @ drop (4 + 2 * (m + m mod 2)) data"
    "unwind_codes (uint b) 256 (code_bytes data m 0) n" "frame_ok d n" "m = unat c" by (simp_all add: m_def)
  moreover have "pad = (if odd (unat c) then [0, 0] else [])"
    using i(4) unfolding pad e(4) [symmetric] by (auto simp: odd_iff_mod_2_eq_one)
  moreover have "length (code_bytes data m 0) = 2 * unat c" using i(2) by (simp add: length_code_bytes flip: e(4))
  ultimately show ?r using i(3) by blast
next
  assume ?r
  then obtain p m frame codes pad zeros n where d: "data = 1 # p # m # frame # codes @ pad @ zeros"
    and l: "length codes = 2 * unat m" and pad: "pad = (if odd (unat m) then [0, 0] else [])"
    and z: "set zeros \<subseteq> {0}" and n: "unwind_codes (uint p) 256 codes n" "frame_ok frame n" by blast
  have lp: "length pad = 2 * (unat m mod 2)" using pad by (auto simp: odd_iff_mod_2_eq_one)
  have "drop (4 + k) data = drop k (codes @ pad @ zeros)" for k using d by (simp add: eval_nat_numeral)
  note front = this
  from front [of "length codes + length pad"] have "drop (4 + (length codes + length pad)) data = zeros" by simp
  then have "drop (4 + 2 * (unat m + unat m mod 2)) data = zeros" using l lp by (simp add: distrib_left)
  moreover have "take 2 (drop (4 + 2 * unat m) data) = [0, 0]" if "odd (unat m)" using front [of "2 * unat m"] l pad that by simp
  moreover have "code_bytes data (unat m) 0 = codes" using d l by (simp add: code_bytes_def)
  moreover have "data ! 0 = 1" "data ! 1 = p" "data ! 2 = m" "data ! 3 = frame" using d by (simp_all add: eval_nat_numeral)
  moreover have "4 + 2 * (unat m + unat m mod 2) \<le> length data" using d l lp by simp
  ultimately show "check_unwind_info data = Inr ()"
    unfolding check_unwind_info_Inr Let_def using n z d by auto
qed

subsection \<open>Witnesses\<close>

text \<open>A payload of seven one-byte functions that share one descriptor, which saves a register in its one
  slot, and one of seven trampolines. The code begins 16 bytes into the image.\<close>

definition sample_unwind_payload :: bytes where
  "sample_unwind_payload =
    [111, 117, 119, 10, 1, 0, 0, 0, 48, 0, 0, 0, 100, 134, 0, 0, 12, 0, 0, 0, 7, 0, 0, 0, 48, 0, 0, 0,
      132, 0, 0, 0, 8, 0, 0, 0, 16, 0, 0, 0, 23, 0, 0, 0, 24, 10, 108, 244, 16, 0, 0, 0, 17, 0, 0, 0,
      196, 0, 0, 0, 17, 0, 0, 0, 18, 0, 0, 0, 196, 0, 0, 0, 18, 0, 0, 0, 19, 0, 0, 0, 196, 0, 0, 0, 19,
      0, 0, 0, 20, 0, 0, 0, 196, 0, 0, 0, 20, 0, 0, 0, 21, 0, 0, 0, 196, 0, 0, 0, 21, 0, 0, 0, 22, 0,
      0, 0, 196, 0, 0, 0, 22, 0, 0, 0, 23, 0, 0, 0, 196, 0, 0, 0, 1, 1, 1, 0, 1, 48, 0, 0]"

definition sample_cfg_payload :: bytes where
  "sample_cfg_payload =
    [111, 99, 102, 103, 1, 0, 0, 0, 48, 0, 0, 0, 100, 134, 0, 0, 1, 0, 0, 0, 8, 0, 0, 0, 7, 0, 0, 0,
      48, 0, 0, 0, 16, 0, 0, 0, 128, 0, 0, 0, 103, 5, 153, 115, 0, 0, 0, 0, 16, 0, 0, 0, 4, 0, 0, 0,
      32, 0, 0, 0, 4, 0, 0, 0, 48, 0, 0, 0, 4, 0, 0, 0, 64, 0, 0, 0, 4, 0, 0, 0, 80, 0, 0, 0, 4, 0, 0,
      0, 96, 0, 0, 0, 4, 0, 0, 0, 112, 0, 0, 0, 4, 0, 0, 0]"

lemma sample_unwind_checksum: "payload_checksum sample_unwind_payload 44 = 4100721176"
  unfolding payload_checksum_def adler32_masked by code_simp

lemma sample_unwind_header: "unwind_header_of (take 48 sample_unwind_payload) =
     \<lparr>uh_magic = b_lit ''ouw'' @ [10], uh_version = 1, uh_header_size = 48, uh_machine = 0x8664, uh_entry_size = 12,
      uh_entry_count = 7, uh_entries_offset = 48, uh_unwind_offset = 132, uh_unwind_size = 8, uh_code_begin = 16,
      uh_code_end = 23, uh_checksum = 4100721176\<rparr>"
  by (simp add: sample_unwind_payload_def unwind_header_of_def field_def le_int_def b_lit_def code_point_def)

lemma sample_unwind_length: "length sample_unwind_payload = 140"
  by (simp add: sample_unwind_payload_def)

lemma sample_unwind_rows: "\<forall>i \<in> set [0..<7]. entry_of (take 12 (drop (48 + 12 * i) sample_unwind_payload)) = (int i + 16, int i + 17, 196)"
  by (simp add: upt_rec sample_unwind_payload_def entry_of_def field_def le_int_def)

lemma sample_unwind_entry:
  assumes "i < 7" "prev \<le> int i + 16"
  shows "unwind_entry sample_unwind_payload (unwind_header_of (take 48 sample_unwind_payload)) 64 i (prev, es)
    = Inr (int i + 17, es @ [(int i + 16, int i + 17, 196)])"
proof -
  have "nat (48 + int i * 12) = 48 + 12 * i" by (simp add: nat_add_distrib nat_mult_distrib)
  then have "unpack_from 12 entry_of sample_unwind_payload (48 + int i * 12) = Inr (int i + 16, int i + 17, 196)"
    using assms sample_unwind_rows by (subst unpack_from_in_range) (auto simp: sample_unwind_length)
  then show ?thesis using assms
    by (simp add: unwind_entry_def sample_unwind_header unwind_entry_bad_def reject_if_def sample_unwind_length)
qed

lemma sample_unwind_accepted:
  "check_unwind_payload sample_unwind_payload 0 16 7 64 = Inr (unwind_header_of (take 48 sample_unwind_payload),
     map (\<lambda>i. (int i + 16, int i + 17, 196)) [0..<7])"
proof -
  let ?h = "unwind_header_of (take 48 sample_unwind_payload)"
  have d: "check_descriptors sample_unwind_payload 64 [196] = Inr ()" by code_simp
  have "n \<le> 7 \<Longrightarrow> fold_r (unwind_entry sample_unwind_payload ?h 64) [0..<n] (16, [])
      = Inr (int n + 16, map (\<lambda>i. (int i + 16, int i + 17, 196)) [0..<n])" for n
    by (induction n) (simp_all add: fold_r_append sample_unwind_entry add.commute)
  from this [of 7] have f: "fold_r (unwind_entry sample_unwind_payload ?h 64) [0..<7] (16, [])
      = Inr (23, map (\<lambda>i. (int i + 16, int i + 17, 196)) [0..<7])" by simp
  have u: "unpack_from 48 unwind_header_of sample_unwind_payload 0 = Inr ?h" by (simp add: unpack_from_def sample_unwind_length)
  have "sort (remdups (map (snd \<circ> snd) (map (\<lambda>i. (int i + 16, int i + 17, 196 :: int)) [0..<7]))) = [196]"
    by (simp add: upt_rec)
  with f u d show ?thesis
    unfolding check_unwind_payload_def Let_def
    by (simp add: sample_unwind_checksum sample_unwind_header unwind_header_bad_def reject_if_def sample_unwind_length)
qed

lemma sample_cfg_checksum: "payload_checksum sample_cfg_payload 40 = 1939408231"
  unfolding payload_checksum_def adler32_masked by code_simp

lemma sample_cfg_header: "cfg_header_of (take 48 sample_cfg_payload) =
     \<lparr>ch_magic = b_lit ''ocfg'', ch_version = 1, ch_header_size = 48, ch_machine = 0x8664, ch_flags = 1,
      ch_target_size = 8, ch_target_count = 7, ch_targets_offset = 48, ch_code_begin = 16, ch_code_end = 128,
      ch_checksum = 1939408231, ch_reserved = 0\<rparr>"
  by (simp add: sample_cfg_payload_def cfg_header_of_def field_def le_int_def b_lit_def code_point_def)

lemma sample_cfg_length: "length sample_cfg_payload = 104"
  by (simp add: sample_cfg_payload_def)

lemma sample_cfg_rows: "\<forall>i \<in> set [0..<7]. target_of (take 8 (drop (48 + 8 * i) sample_cfg_payload)) = (16 * int i + 16, 4)"
  by (simp add: upt_rec sample_cfg_payload_def target_of_def field_def le_int_def)

lemma sample_cfg_target:
  assumes "i < 7" "\<forall>p. prev = Some p \<longrightarrow> p < 16 * int i + 16"
  shows "cfg_target sample_cfg_payload (cfg_header_of (take 48 sample_cfg_payload)) 0 i (prev, ts)
    = Inr (Some (16 * int i + 16), ts @ [(16 * int i + 16, 4)])"
proof -
  have "nat (48 + int i * 8) = 48 + 8 * i" by (simp add: nat_add_distrib nat_mult_distrib)
  then have "unpack_from 8 target_of sample_cfg_payload (48 + int i * 8) = Inr (16 * int i + 16, 4)"
    using assms sample_cfg_rows by (subst unpack_from_in_range) (auto simp: sample_cfg_length)
  then show ?thesis using assms
    by (auto simp: cfg_target_def sample_cfg_header cfg_target_bad_def reject_if_def and_not_15 split: option.splits)
qed

lemma sample_cfg_accepted:
  "check_cfg_payload sample_cfg_payload 0 16 112 = Inr (cfg_header_of (take 48 sample_cfg_payload),
     map (\<lambda>i. (16 * int i + 16, 4)) [0..<7])"
proof -
  let ?h = "cfg_header_of (take 48 sample_cfg_payload)"
  have "n \<le> 7 \<Longrightarrow> \<exists>k. fold_r (cfg_target sample_cfg_payload ?h 0) [0..<n] (None, [])
      = Inr (k, map (\<lambda>i. (16 * int i + 16, 4)) [0..<n]) \<and> (\<forall>p. k = Some p \<longrightarrow> p < 16 * int n + 16)" for n
    by (induction n) (auto simp: fold_r_append sample_cfg_target)
  from this [of 7] obtain k where f: "fold_r (cfg_target sample_cfg_payload ?h 0) [0..<7] (None, [])
      = Inr (k, map (\<lambda>i. (16 * int i + 16, 4)) [0..<7])" by auto
  have u: "unpack_from 48 cfg_header_of sample_cfg_payload 0 = Inr ?h" by (simp add: unpack_from_def sample_cfg_length)
  have r: "role_count (map (\<lambda>i. (16 * int i + 16, 4)) [0..<7]) 4 = 7" by (simp add: role_count_def upt_rec)
  with f u show ?thesis
    unfolding check_cfg_payload_def Let_def
    by (simp add: sample_cfg_checksum sample_cfg_header cfg_header_bad_def reject_if_def sample_cfg_length)
qed

theorem unwind_table_accepted_witness:
  "sorted_wrt (\<lambda>a b. fst (snd a) \<le> fst b) (map (\<lambda>i. (int i + 16, int i + 17, 196 :: int)) [0..<7])
    \<and> uh_checksum (unwind_header_of (take 48 sample_unwind_payload)) = payload_checksum sample_unwind_payload 44"
  using unwind_table_accepted [OF sample_unwind_accepted] by (intro conjI) blast+

theorem cfg_table_accepted_witness:
  "sorted_wrt (<) (map fst (map (\<lambda>i. (16 * int i + 16, 4 :: int)) [0..<7]))
    \<and> ch_checksum (cfg_header_of (take 48 sample_cfg_payload)) = payload_checksum sample_cfg_payload 40"
  using cfg_table_accepted [OF sample_cfg_accepted] by (intro conjI) blast+

end
