(* ===== verification/OatRejects.thy ===== *)
theory OatRejects
  imports OatCorpus OatProps OatAccept
begin

section \<open>Every corrupted OAT file is refused\<close>

text \<open>
  The fields of a table after one of its places is patched and its checksum rewritten, and with them
  the proofs that no case of the corpora is accepted by the validators.
\<close>

subsection \<open>Patched bytes\<close>

lemma length_le_bytes [simp]: "length (le_bytes w v) = w"
  by (simp add: le_bytes_def)

lemma le_int_le_bytes: "0 \<le> v \<Longrightarrow> v < 2 ^ 32 \<Longrightarrow> le_int (le_bytes 4 v) = v"
proof -
  assume v: "0 \<le> v" "v < 2 ^ 32"
  have b: "uint (word_of_int x :: 8 word) = x mod 256" for x
    by (simp add: uint_word_of_int)
  define x where "x = v div 256"
  define y where "y = x div 256"
  define z where "z = y div 256"
  have d: "v div 65536 = y" "v div 16777216 = z"
    using zdiv_zmult2_eq [of 256 v 256] zdiv_zmult2_eq [of 256 v "256 * 256"] zdiv_zmult2_eq [of 256 x 256]
    by (simp_all add: x_def y_def z_def)
  have "le_int (le_bytes 4 v) = v mod 256 + 256 * (x mod 256 + 256 * (y mod 256 + 256 * (z mod 256)))"
    by (simp add: le_int_def le_bytes_def b upt_rec numeral_eq_Suc flip: x_def d)
  moreover have "v = 256 * x + v mod 256" "x = 256 * y + x mod 256" "y = 256 * z + y mod 256"
    by (simp_all add: x_def y_def z_def)
  moreover have "0 \<le> z" "z < 256" using v by (auto simp flip: d(2))
  ultimately show ?thesis by (simp add: mod_pos_pos_trivial)
qed

lemma length_words: "length (concat (map (le_bytes 4) vs)) = 4 * length vs"
  by (induction vs) auto

lemma nth_words: "i < length vs \<Longrightarrow> take 4 (drop (4 * i) (concat (map (le_bytes 4) vs))) = le_bytes 4 (vs ! i)"
proof (induction vs arbitrary: i)
  case (Cons v vs)
  then show ?case by (cases i) auto
qed simp

lemma length_overwrite [simp]: "k + length bs \<le> length p \<Longrightarrow> length (overwrite p k bs) = length p"
  by (simp add: overwrite_def)

lemma nth_overwrite:
  "k + length bs \<le> length p \<Longrightarrow> i < length p \<Longrightarrow>
     overwrite p k bs ! i = (if k \<le> i \<and> i < k + length bs then bs ! (i - k) else p ! i)"
  by (auto simp: overwrite_def nth_append)

text \<open>\<open>q\<close> is \<open>p\<close> with \<open>bs\<close> written at \<open>k\<close>, and with any four bytes at \<open>pos\<close>.\<close>

definition patched :: "bytes \<Rightarrow> nat \<Rightarrow> bytes \<Rightarrow> nat \<Rightarrow> bytes \<Rightarrow> bool" where
  "patched p k bs pos q =
     (length q = length p \<and> k + length bs \<le> length p
      \<and> (\<forall>i < length p. \<not> (pos \<le> i \<and> i < pos + 4) \<longrightarrow>
           q ! i = (if k \<le> i \<and> i < k + length bs then bs ! (i - k) else p ! i)))"

lemma patched_other:
  assumes "patched p k bs pos q" and "j + w \<le> length p" and "j + w \<le> k \<or> k + length bs \<le> j" and "j + w \<le> pos \<or> pos + 4 \<le> j"
  shows "take w (drop j q) = take w (drop j p)"
  by (rule nth_equalityI) (use assms in \<open>auto simp: patched_def\<close>)

lemma patched_at:
  assumes "patched p k bs pos q" and "j + w \<le> length bs" and "k + j + w \<le> pos \<or> pos + 4 \<le> k + j"
  shows "take w (drop (k + j) q) = take w (drop j bs)"
  by (rule nth_equalityI) (use assms in \<open>auto simp: patched_def\<close>)

lemma patched_field:
  assumes "patched p k bs pos q" and "j + w \<le> length p" and "j + w \<le> k \<or> k + length bs \<le> j" and "j + w \<le> pos \<or> pos + 4 \<le> j"
  shows "field q j w = field p j w"
  using patched_other [OF assms] by (simp add: field_def)

lemma patched_word:
  assumes "patched p k (concat (map (le_bytes 4) vs)) pos q" and "i < length vs" and "0 \<le> vs ! i" and "vs ! i < 2 ^ 32"
    and "k + 4 * i + 4 \<le> pos \<or> pos + 4 \<le> k + 4 * i"
  shows "field q (k + 4 * i) 4 = vs ! i"
  using patched_at [OF assms(1), of "4 * i" 4] assms(2-5)
  by (simp add: field_def nth_words length_words le_int_le_bytes)

lemma field_take: "j + w \<le> n \<Longrightarrow> field (take n p) j w = field p j w"
  by (simp add: field_def drop_take)

lemma field_drop: "field (drop n p) j w = field p (n + j) w"
  by (simp add: field_def add.commute)

subsection \<open>The cases as patches of the section\<close>

definition section_bytes :: "bytes \<Rightarrow> int \<Rightarrow> int \<Rightarrow> bytes" where
  "section_bytes data base sz = py_slice data base (base + sz)"

lemma section_bytes_nth:
  assumes "0 \<le> base" "0 \<le> sz" "base + sz \<le> int (length data)"
  shows "length (section_bytes data base sz) = nat sz
    \<and> (\<forall>i < nat sz. section_bytes data base sz ! i = data ! (nat base + i))"
  using assms length_slice [of base "base + sz" data] nth_slice [of base "base + sz" data]
  by (auto simp: section_bytes_def)

lemma pack_into_Inr:
  "pack_into xs off vs = Inr ys \<longleftrightarrow> list_all (\<lambda>v. 0 \<le> v \<and> v < 2 ^ 32) vs \<and> 0 \<le> off
     \<and> off + 4 * int (length vs) \<le> int (length xs) \<and> ys = overwrite xs (nat off) (concat (map (le_bytes 4) vs))"
  by (auto simp: pack_into_def list_all_iff not_le not_less)

lemma rewrite_checksum_Inr:
  assumes "0 \<le> base" "0 \<le> pos" "pos + 4 \<le> sz" "base + sz \<le> int (length data)"
  shows "\<exists>q. rewrite_checksum data base sz pos = Inr q"
    and "rewrite_checksum data base sz pos = Inr q \<Longrightarrow> length q = length data
      \<and> (\<forall>i < length data. \<not> (nat base + nat pos \<le> i \<and> i < nat base + nat pos + 4) \<longrightarrow> q ! i = data ! i)"
proof -
  let ?d = "overwrite data (nat (base + pos)) (le_bytes 4 0)"
  have len: "length ?d = length data" using assms by simp
  have 1: "pack_into data (base + pos) [0] = Inr ?d" using assms by (simp add: pack_into_Inr)
  show "\<exists>q. rewrite_checksum data base sz pos = Inr q"
    using assms len adler32_range [of "py_slice ?d base (base + sz)"]
    by (simp add: rewrite_checksum_def adler32_masked 1 pack_into_Inr [of ?d] del: length_overwrite)
  assume "rewrite_checksum data base sz pos = Inr q"
  then obtain v where "q = overwrite ?d (nat (base + pos)) (le_bytes 4 v)"
    by (auto simp: rewrite_checksum_def 1 pack_into_Inr [of ?d])
  with assms len show "length q = length data
      \<and> (\<forall>i < length data. \<not> (nat base + nat pos \<le> i \<and> i < nat base + nat pos + 4) \<longrightarrow> q ! i = data ! i)"
    by (auto simp: nth_overwrite nat_add_distrib)
qed

lemma patched_case:
  assumes "packed_case original base sz pos (name, base + k, vs, True) = Inr (n, q)"
    and "0 \<le> base" "0 \<le> pos" "pos + 4 \<le> sz" "base + sz \<le> int (length original)" "0 \<le> k" "k + 4 * int (length vs) \<le> sz"
  shows "patched (section_bytes original base sz) (nat k) (concat (map (le_bytes 4) vs)) (nat pos) (section_bytes q base sz)
    \<and> list_all (\<lambda>v. 0 \<le> v \<and> v < 2 ^ 32) vs"
proof -
  obtain d where d: "pack_into original (base + k) vs = Inr d" "rewrite_checksum d base sz pos = Inr q"
    using assms(1) by (auto simp: packed_case_def rbind_Inr_iff)
  let ?bs = "concat (map (le_bytes 4) vs)"
  have d': "d = overwrite original (nat (base + k)) ?bs" "list_all (\<lambda>v. 0 \<le> v \<and> v < 2 ^ 32) vs"
    using d(1) by (auto simp: pack_into_Inr)
  have fits: "nat (base + k) + length ?bs \<le> length original" using assms(2,5-7) by (simp add: length_words)
  then have len: "length d = length original" using d'(1) by simp
  have q: "length q = length original" "\<forall>i < length original. \<not> (nat base + nat pos \<le> i \<and> i < nat base + nat pos + 4) \<longrightarrow> q ! i = d ! i"
    using rewrite_checksum_Inr(2) [OF assms(2-4) _ d(2)] assms(5) len by auto
  note sec = section_bytes_nth [of base sz original] section_bytes_nth [of base sz q]
  have s: "0 \<le> sz" "base + sz \<le> int (length q)" using assms(3,4,5) q(1) by auto
  have "section_bytes q base sz ! i = (if nat k \<le> i \<and> i < nat k + length ?bs then ?bs ! (i - nat k)
      else section_bytes original base sz ! i)" if i: "i < nat sz" "\<not> (nat pos \<le> i \<and> i < nat pos + 4)" for i
  proof -
    have j: "nat base + i < length original" using i(1) assms(2,5) by linarith
    then have "section_bytes q base sz ! i = d ! (nat base + i)"
      using sec(2) s assms(2) i q(2) by auto
    also have "\<dots> = (if nat k \<le> i \<and> i < nat k + length ?bs then ?bs ! (i - nat k) else original ! (nat base + i))"
      unfolding d'(1) nth_overwrite [OF fits j] using assms(2,6) by (auto simp: nat_add_distrib)
    finally show ?thesis using sec(1) s assms(2,5) i(1) by auto
  qed
  moreover have "nat k + length ?bs \<le> nat sz" using assms(6,7) by (simp add: length_words)
  ultimately show ?thesis using sec s assms(2,5) d'(2) unfolding patched_def by auto
qed

text \<open>A case over the whole file is refused: the check of the section returns a reported error.\<close>

definition refused :: "exn + 'a \<Rightarrow> bool" where
  "refused r = (case r of Inl e \<Rightarrow> is_oat_error e | Inr x \<Rightarrow> False)"

lemma refusedI: "oat_result r \<Longrightarrow> (\<And>x. r = Inr x \<Longrightarrow> False) \<Longrightarrow> refused r"
  by (cases r) (auto simp: refused_def oat_result_def)

subsection \<open>What an accepted guard table contains\<close>

text \<open>The header words and the rows of a table that passes, read at their offsets.\<close>

lemma cfg_words:
  assumes "check_cfg_payload p ra ta ts = Inr (h, targets)"
  shows "take 4 p = b_lit ''ocfg''" "field p 4 4 = 1" "field p 8 4 = 48" "field p 12 4 = 0x8664" "field p 16 4 = 1"
    "field p 20 4 = 8" "field p 24 4 \<noteq> 0" "field p 28 4 = 48" "field p 32 4 = ta - ra" "field p 36 4 = ta - ra + ts"
    "field p 40 4 = payload_checksum p 40" "field p 44 4 = 0" "48 + field p 24 4 * 8 = int (length p)"
proof -
  note f = check_cfg_payload_Inr [OF assms]
  have h: "h = cfg_header_of (take 48 p)" using f(1) by (auto simp: unpack_from_def Let_def split: if_splits)
  from f(2-5) show "take 4 p = b_lit ''ocfg''" "field p 4 4 = 1" "field p 8 4 = 48" "field p 12 4 = 0x8664" "field p 16 4 = 1"
    "field p 20 4 = 8" "field p 24 4 \<noteq> 0" "field p 28 4 = 48" "field p 32 4 = ta - ra" "field p 36 4 = ta - ra + ts"
    "field p 40 4 = payload_checksum p 40" "field p 44 4 = 0" "48 + field p 24 4 * 8 = int (length p)"
    unfolding h cfg_header_bad_def cfg_header_of_def by (auto simp: field_take)
qed

lemma cfg_row:
  assumes "check_cfg_payload p ra ta ts = Inr (h, targets)" and "int i < field p 24 4"
  shows "ta - ra \<le> field p (48 + 8 * i) 4" "field p (48 + 8 * i) 4 < ta - ra + ts"
    "(ra + field p (48 + 8 * i) 4) mod 16 = 0" "field p (52 + 8 * i) 4 \<noteq> 0" "field p (52 + 8 * i) 4 AND NOT 15 = 0"
    "0 < i \<Longrightarrow> field p (48 + 8 * (i - 1)) 4 < field p (48 + 8 * i) 4"
proof -
  note f = check_cfg_payload_Inr [OF assms(1)] and w = cfg_words [OF assms(1)]
  obtain k where k: "fold_r (cfg_target p h ra) [0..<nat (ch_target_count h)] (None, []) = Inr (k, targets)"
    using f(6) by blast
  have h: "h = cfg_header_of (take 48 p)" using f(1) by (auto simp: unpack_from_def Let_def split: if_splits)
  have hs: "ch_targets_offset h = 48" "ch_target_size h = 8" "ch_target_count h = field p 24 4"
    "ch_code_begin h = ta - ra" "ch_code_end h = ta - ra + ts"
    using f(2,4,5) by (auto simp: cfg_header_bad_def) (simp add: h cfg_header_of_def field_take)
  have row: "targets ! j = (field p (48 + 8 * j) 4, field p (52 + 8 * j) 4)
      \<and> \<not> cfg_target_bad h ra (if j = 0 then None else Some (fst (targets ! (j - 1)))) (targets ! j)"
    if j: "int j < field p 24 4" for j
  proof -
    have "j < nat (ch_target_count h)" using j hs by simp
    with cfg_scan.scan_rows [OF k] have r: "unpack_from 8 target_of p (48 + int j * 8) = Inr (targets ! j)"
      "\<not> cfg_target_bad h ra (if j = 0 then None else Some (fst (targets ! (j - 1)))) (targets ! j)"
      by (auto simp: hs)
    have "nat (48 + int j * 8) = 48 + 8 * j" by simp
    with r(1) have "targets ! j = target_of (take 8 (drop (48 + 8 * j) p))"
      by (auto dest!: unpack_from_Inr_at [rotated])
    with r(2) show ?thesis by (simp add: target_of_def field_take field_drop)
  qed
  from row [OF assms(2)] show "ta - ra \<le> field p (48 + 8 * i) 4" "field p (48 + 8 * i) 4 < ta - ra + ts"
    "(ra + field p (48 + 8 * i) 4) mod 16 = 0" "field p (52 + 8 * i) 4 \<noteq> 0" "field p (52 + 8 * i) 4 AND NOT 15 = 0"
    by (auto simp: cfg_target_bad_def hs)
  assume "0 < i"
  then have "int (i - 1) < field p 24 4" using assms(2) by simp
  from row [OF this] row [OF assms(2)] \<open>0 < i\<close>
  show "field p (48 + 8 * (i - 1)) 4 < field p (48 + 8 * i) 4"
    by (auto simp: cfg_target_bad_def)
qed

subsection \<open>Cases that the builders produce\<close>

text \<open>What holds of each case produced: it is built, and the section it yields is refused.\<close>

definition case_refused :: "(bytes \<Rightarrow> exn + 'a) \<Rightarrow> exn + string \<times> bytes \<Rightarrow> string \<Rightarrow> bool" where
  "case_refused check result name = (\<exists>data. result = Inr (name, data) \<and> refused (check data))"

lemma packed_case_refused:
  assumes place: "off = base + k" "0 \<le> base" "base + sz \<le> int (length original)" "0 \<le> k" "k + 4 * int (length vs) \<le> sz"
    "0 \<le> pos" "pos + 4 \<le> sz" "list_all (\<lambda>v. 0 \<le> v \<and> v < 2 ^ 32) vs"
    and safe: "\<And>q. length q = nat sz \<Longrightarrow> oat_result (check q)"
    and bad: "\<And>q x. patched (section_bytes original base sz) (nat k) (concat (map (le_bytes 4) vs)) (nat pos) q \<Longrightarrow>
      check q = Inr x \<Longrightarrow> False"
  shows "case_refused (\<lambda>data. check (section_bytes data base sz)) (packed_case original base sz pos (name, off, vs, True)) name"
proof -
  obtain d where d: "pack_into original (base + k) vs = Inr d"
    using place by (auto simp: pack_into_Inr)
  then have "length d = length original" using place by (auto simp: pack_into_Inr length_words)
  then obtain q where "rewrite_checksum d base sz pos = Inr q"
    using rewrite_checksum_Inr(1) [of base pos sz d] place by auto
  with d have q: "packed_case original base sz pos (name, base + k, vs, True) = Inr (name, q)"
    by (simp add: packed_case_def)
  from patched_case [OF this place(2,6,7,3,4,5)]
  have p: "patched (section_bytes original base sz) (nat k) (concat (map (le_bytes 4) vs)) (nat pos) (section_bytes q base sz)"
    by simp
  have "length (section_bytes q base sz) = nat sz"
    using p section_bytes_nth [of base sz original] place by (auto simp: patched_def)
  then have "refused (check (section_bytes q base sz))" by (intro refusedI safe) (auto dest: bad [OF p])
  with q place(1) show ?thesis by (simp add: case_refused_def)
qed

lemma map_r_refused:
  assumes "list_all (\<lambda>m. case_refused check (f m) (fst m)) ms"
  shows "\<exists>cases. map_r f ms = Inr cases \<and> map fst cases = map fst ms \<and> list_all (refused \<circ> check \<circ> snd) cases"
  using assms by (induction ms) (auto simp: case_refused_def)

lemma xor_1_bounds:
  fixes x :: int
  assumes "0 \<le> x" "x < 2 ^ n" "0 < n"
  shows "0 \<le> x XOR 1 \<and> x XOR 1 < 2 ^ n \<and> x XOR 1 \<noteq> x"
proof -
  have "even (2 ^ n :: int)" using assms(3) by simp
  then have "x + 1 < 2 ^ n" if "even x" using assms(2) that by (metis add.commute even_plus_one_iff order_less_le zless_imp_add1_zle)
  then show ?thesis using assms(1,2) by (cases "even x") (auto simp: xor_one_eq elim: oddE)
qed

lemma flip_byte_Inr:
  assumes "0 \<le> off" "off < int (length data)"
  shows "\<exists>v. flip_byte data off = Inr (data[nat off := v]) \<and> v \<noteq> data ! nat off"
proof -
  let ?b = "data ! nat off"
  have b: "0 \<le> uint ?b" "uint ?b < 2 ^ 8" using unsigned_less [of ?b, where 'a = int] by auto
  note x = xor_1_bounds [OF this, simplified]
  then have "uint (word_of_int (uint ?b XOR 1) :: 8 word) = uint ?b XOR 1"
    by (simp add: uint_word_of_int)
  with x have "word_of_int (uint ?b XOR 1) \<noteq> ?b" by metis
  with x b assms show ?thesis
    by (auto simp: flip_byte_def set_byte_def)
qed

lemma byte_write_refused:
  assumes place: "0 \<le> base" "base + sz \<le> int (length original)" "0 \<le> k" "k < sz" "0 \<le> pos" "pos + 4 \<le> sz"
    and safe: "\<And>q. length q = nat sz \<Longrightarrow> oat_result (check q)"
    and bad: "\<And>q x. patched (section_bytes original base sz) (nat k) [v] (nat pos) q \<Longrightarrow> check q = Inr x \<Longrightarrow> False"
    and v: "w = Inr (original[nat (base + k) := v])"
  shows "case_refused (\<lambda>data. check (section_bytes data base sz))
    (rbind w (\<lambda>data. rbind (rewrite_checksum data base sz pos) (\<lambda>data. Inr (name, data)))) name"
proof -
  let ?d = "original[nat (base + k) := v]"
  obtain q where q: "rewrite_checksum ?d base sz pos = Inr q"
    using rewrite_checksum_Inr(1) [of base pos sz ?d] place by auto
  then have q': "length q = length original"
    "\<forall>i < length original. \<not> (nat base + nat pos \<le> i \<and> i < nat base + nat pos + 4) \<longrightarrow> q ! i = ?d ! i"
    using rewrite_checksum_Inr(2) [of base pos sz ?d] place by auto
  note sec = section_bytes_nth [of base sz original] section_bytes_nth [of base sz q]
  have s: "0 \<le> sz" "base + sz \<le> int (length q)" using place q'(1) by auto
  have "section_bytes q base sz ! i = (if i = nat k then v else section_bytes original base sz ! i)"
    if i: "i < nat sz" "\<not> (nat pos \<le> i \<and> i < nat pos + 4)" for i
  proof -
    have "nat base + i < length original" using i(1) place by linarith
    then have "section_bytes q base sz ! i = ?d ! (nat base + i)" using sec(2) s place(1) i q'(2) by auto
    also have "\<dots> = (if i = nat k then v else original ! (nat base + i))"
      using place \<open>nat base + i < length original\<close> by (auto simp: nth_list_update nat_add_distrib)
    finally show ?thesis using sec(1) s place i(1) by auto
  qed
  then have "patched (section_bytes original base sz) (nat k) [v] (nat pos) (section_bytes q base sz)"
    using sec s place unfolding patched_def by (auto simp: less_Suc_eq)
  from bad [OF this] have "refused (check (section_bytes q base sz))"
    using sec(2) s place by (intro refusedI safe) auto
  with v q show ?thesis by (simp add: case_refused_def)
qed

lemma flip_case_refused:
  assumes place: "0 \<le> base" "base + sz \<le> int (length original)" "0 \<le> k" "k < sz" "0 \<le> pos" "pos + 4 \<le> sz"
    and safe: "\<And>q. length q = nat sz \<Longrightarrow> oat_result (check q)"
    and bad: "\<And>q x v. v \<noteq> section_bytes original base sz ! nat k \<Longrightarrow>
      patched (section_bytes original base sz) (nat k) [v] (nat pos) q \<Longrightarrow> check q = Inr x \<Longrightarrow> False"
  shows "case_refused (\<lambda>data. check (section_bytes data base sz))
    (rbind (flip_byte original (base + k)) (\<lambda>data. rbind (rewrite_checksum data base sz pos) (\<lambda>data. Inr (name, data)))) name"
proof -
  have "base + k < int (length original)" using place by linarith
  then obtain v where v: "flip_byte original (base + k) = Inr (original[nat (base + k) := v])" "v \<noteq> original ! nat (base + k)"
    using flip_byte_Inr [of "base + k" original] place by auto
  have "v \<noteq> section_bytes original base sz ! nat k"
    using v(2) section_bytes_nth [of base sz original] place by (simp add: nat_add_distrib)
  from byte_write_refused [OF place safe bad [OF this] v(1)] show ?thesis .
qed

text \<open>The checksum does not depend on its own field.\<close>

lemma payload_checksum_cong:
  assumes "length q = length p" "pos + 4 \<le> length p" "\<And>i. i < length p \<Longrightarrow> \<not> (pos \<le> i \<and> i < pos + 4) \<Longrightarrow> q ! i = p ! i"
  shows "payload_checksum q pos = payload_checksum p pos"
proof -
  have "overwrite q pos [0, 0, 0, 0] = overwrite p pos [0, 0, 0, 0]"
    by (rule nth_equalityI) (use assms in \<open>auto simp: nth_overwrite\<close>)
  then show ?thesis by (simp add: payload_checksum_def)
qed

lemma section_overwrite:
  assumes "0 \<le> base" "base + sz \<le> int (length original)" "0 \<le> k" "k + int (length bs) \<le> sz"
  shows "section_bytes (overwrite original (nat (base + k)) bs) base sz = overwrite (section_bytes original base sz) (nat k) bs"
proof -
  have fits: "nat (base + k) + length bs \<le> length original" and sz: "0 \<le> sz" "nat k + length bs \<le> nat sz" using assms by linarith+
  note sec = section_bytes_nth [OF assms(1) sz(1) assms(2)]
    section_bytes_nth [OF assms(1) sz(1), of "overwrite original (nat (base + k)) bs"]
  show ?thesis
  proof (rule nth_equalityI)
    fix i assume "i < length (section_bytes (overwrite original (nat (base + k)) bs) base sz)"
    with sec fits assms(2) have i: "i < nat sz" by simp
    then have j: "nat base + i < length original" using assms(1,2) by linarith
    have "overwrite original (nat (base + k)) bs ! (nat base + i)
        = (if nat k \<le> i \<and> i < nat k + length bs then bs ! (i - nat k) else original ! (nat base + i))"
      unfolding nth_overwrite [OF fits j] using assms(1,3) by (auto simp: nat_add_distrib)
    then show "section_bytes (overwrite original (nat (base + k)) bs) base sz ! i
        = overwrite (section_bytes original base sz) (nat k) bs ! i"
      using sec fits sz i assms(2) by (simp add: nth_overwrite)
  qed (use sec fits sz assms(2) in simp)
qed

subsection \<open>Guard tables\<close>

lemma check_cfg_safe: "length q = nat sz \<Longrightarrow> 64 \<le> sz \<Longrightarrow> oat_result (check_cfg_payload q ra ta ts)"
  by (rule check_cfg_payload_safe) simp

lemma cfg_header_words:
  assumes "check_cfg_payload p ra ta ts = Inr (h, targets)"
  shows "ch_code_begin h = field p 32 4" "ch_code_end h = field p 36 4" "ch_checksum h = field p 40 4"
    "ch_target_count h = field p 24 4" "ch_targets_offset h = 48" "7 \<le> field p 24 4" "48 \<le> length p"
proof -
  note f = check_cfg_payload_Inr [OF assms]
  have h: "h = cfg_header_of (take 48 p)" and len: "48 \<le> length p"
    using f(1) by (auto simp: unpack_from_def Let_def split: if_splits)
  then show "ch_code_begin h = field p 32 4" "ch_code_end h = field p 36 4" "ch_checksum h = field p 40 4"
    and c: "ch_target_count h = field p 24 4" and "ch_targets_offset h = 48" "48 \<le> length p"
    using cfg_words [OF assms] by (simp_all add: cfg_header_of_def field_take)
  obtain k where "fold_r (cfg_target p h ra) [0..<nat (ch_target_count h)] (None, []) = Inr (k, targets)" using f(6) by blast
  then have "length targets = nat (field p 24 4)" using cfg_scan.scan_rows [of p h ra "nat (ch_target_count h)" None] c by auto
  moreover have "7 \<le> length targets" using f(7) length_filter_le [of "\<lambda>t. snd t AND 4 \<noteq> 0" targets] by (simp add: role_count_def)
  ultimately show "7 \<le> field p 24 4" by simp
qed

lemma field_bound: "field p j 4 < 2 ^ 32"
proof -
  have "le_int (take 4 (drop j p)) < 256 ^ length (take 4 (drop j p))" using le_int_bounds by blast
  also have "\<dots> \<le> 256 ^ 4" by (rule power_increasing) simp_all
  finally show ?thesis by (simp add: field_def)
qed

text \<open>Header words that may not change: a table with another value of one of them is not accepted.\<close>

lemma cfg_header_case_refused:
  assumes acc: "check_cfg_payload (section_bytes original base sz) ra ta ts = Inr (h, targets)"
    and place: "0 \<le> base" "base + sz \<le> int (length original)" "64 \<le> sz"
    and k: "k \<in> {4, 8, 12, 16, 20, 24, 28, 32, 36, 44}" "off = base + k"
    and v: "v \<noteq> field (section_bytes original base sz) (nat k) 4" "0 \<le> v" "v < 2 ^ 32"
  shows "case_refused (\<lambda>data. check_cfg_payload (section_bytes data base sz) ra ta ts)
    (packed_case original base sz 40 (name, off, [v], True)) name"
proof (rule packed_case_refused [OF k(2)])
  fix q x
  let ?p = "section_bytes original base sz"
  assume p: "patched ?p (nat k) (concat (map (le_bytes 4) [v])) (nat 40) q" and "check_cfg_payload q ra ta ts = Inr x"
  then obtain h' t' where acc': "check_cfg_payload q ra ta ts = Inr (h', t')" by (cases x) auto
  have "field q (nat k + 4 * 0) 4 = [v] ! 0"
    by (rule patched_word [OF p]) (use k v in auto)
  then have at: "field q (nat k) 4 = v" by simp
  have len: "length q = length ?p" using p by (simp add: patched_def)
  have count: "48 + field q 24 4 * 8 = int (length q)" "48 + field ?p 24 4 * 8 = int (length ?p)"
    using cfg_words(13) [OF acc'] cfg_words(13) [OF acc] by auto
  then have "field q 24 4 = field ?p 24 4" using len by simp
  then show False
    using k at v(1) cfg_words(2-10,12) [OF acc] cfg_words(2-10,12) [OF acc'] by auto
qed (use place k v in \<open>auto intro: check_cfg_safe\<close>)

lemma cfg_entry_case_refused:
  assumes acc: "check_cfg_payload (section_bytes original base sz) ra ta ts = Inr (h, targets)"
    and place: "0 \<le> base" "base + sz \<le> int (length original)" "64 \<le> sz"
    and i: "int i < field (section_bytes original base sz) 24 4" "off = base + (48 + 8 * int i)"
    and v: "0 \<le> a" "a < 2 ^ 32" "0 \<le> b" "b < 2 ^ 32"
    and bad: "a < ta - ra \<or> ta - ra + ts \<le> a \<or> (ra + a) mod 16 \<noteq> 0 \<or> b = 0 \<or> b AND NOT 15 \<noteq> 0
      \<or> 0 < i \<and> a \<le> field (section_bytes original base sz) (48 + 8 * (i - 1)) 4"
  shows "case_refused (\<lambda>data. check_cfg_payload (section_bytes data base sz) ra ta ts)
    (packed_case original base sz 40 (name, off, [a, b], True)) name"
proof (rule packed_case_refused [OF i(2)])
  let ?p = "section_bytes original base sz"
  have len: "length ?p = nat sz" using section_bytes_nth [of base sz original] place by auto
  have fits: "48 + 8 * int i + 8 \<le> sz" using cfg_words(13) [OF acc] i(1) len place(3) by auto
  then show "48 + 8 * int i + 4 * int (length [a, b]) \<le> sz" by simp
  fix q x
  assume p: "patched ?p (nat (48 + 8 * int i)) (concat (map (le_bytes 4) [a, b])) (nat 40) q"
    and "check_cfg_payload q ra ta ts = Inr x"
  then obtain h' t' where acc': "check_cfg_payload q ra ta ts = Inr (h', t')" by (cases x) auto
  have n: "nat (48 + 8 * int i) = 48 + 8 * i" by simp
  note p = p [unfolded n]
  have "field q (48 + 8 * i + 4 * 0) 4 = [a, b] ! 0" "field q (48 + 8 * i + 4 * 1) 4 = [a, b] ! 1"
    by (rule patched_word [OF p]; use v in auto)+
  then have at: "field q (48 + 8 * i) 4 = a" "field q (52 + 8 * i) 4 = b" by (simp_all add: add.commute)
  have count: "field q 24 4 = field ?p 24 4"
    using cfg_words(13) [OF acc'] cfg_words(13) [OF acc] p by (simp add: patched_def)
  have prev: "field q (48 + 8 * (i - 1)) 4 = field ?p (48 + 8 * (i - 1)) 4" if "0 < i"
    by (rule patched_field [OF p]) (use that fits len in \<open>auto simp: length_words\<close>)
  from i(1) count have "int i < field q 24 4" by simp
  note row = cfg_row [OF acc' this]
  from bad at prev row show False by auto
qed (use place v in \<open>auto intro: check_cfg_safe\<close>)

lemma unpack_section:
  assumes "0 \<le> base" "base + sz \<le> int (length original)" "0 \<le> k" "k + int n \<le> sz" "off = base + k"
  shows "unpack_from n decode original off = Inr (decode (take n (drop (nat k) (section_bytes original base sz))))"
proof -
  have "int (nat base) = base" "int (nat base + nat sz) = base + sz" using assms(1,3,4) by auto
  then have "section_bytes original base sz = take (nat sz) (drop (nat base) original)"
    using py_slice_nat [of "nat base" "nat base + nat sz" original] by (simp add: section_bytes_def)
  moreover have "n \<le> nat sz - nat k" using assms(3,4) by linarith
  ultimately have "take n (drop (nat k) (section_bytes original base sz)) = take n (drop (nat (base + k)) original)"
    using assms by (simp add: drop_take nat_add_distrib add.commute min_def)
  with assms show ?thesis by (simp add: unpack_from_in_range)
qed

text \<open>The facts about an accepted table that the cases rest on: its size, its header words, its first row.\<close>

lemma cfg_facts:
  assumes acc: "check_cfg_payload (section_bytes original base sz) ra ta ts = Inr (h, targets)"
    and place: "0 \<le> base" "base + sz \<le> int (length original)" "0 \<le> sz" "ra < ta"
  defines "p \<equiv> section_bytes original base sz"
  shows "length p = nat sz" "104 \<le> sz" "48 + field p 24 4 * 8 = sz"
    "7 \<le> field p 24 4" "field p 32 4 = ta - ra" "field p 36 4 = ta - ra + ts"
    "0 < ta - ra" "ta - ra < 2 ^ 32" "ta - ra + ts < 2 ^ 32"
    "ta - ra \<le> field p 48 4" "field p 48 4 < ta - ra + ts" "(ra + field p 48 4) mod 16 = 0"
proof -
  note w = cfg_words [OF acc] and hw = cfg_header_words [OF acc]
  show len: "length p = nat sz" using section_bytes_nth [of base sz original] place by (simp add: p_def)
  then show count: "48 + field p 24 4 * 8 = sz" using w(13) place(3) by (simp add: p_def)
  show n: "7 \<le> field p 24 4" using hw(6) by (simp add: p_def)
  then show "104 \<le> sz" using count by simp
  show "field p 32 4 = ta - ra" "field p 36 4 = ta - ra + ts" using w(9,10) by (simp_all add: p_def)
  then show "0 < ta - ra" "ta - ra < 2 ^ 32" "ta - ra + ts < 2 ^ 32"
    using place(4) field_bound [of p 32] field_bound [of p 36] by simp_all
  show "ta - ra \<le> field p 48 4" "field p 48 4 < ta - ra + ts" "(ra + field p 48 4) mod 16 = 0"
    using cfg_row [OF acc, of 0] n by (simp_all add: p_def)
qed

lemma cfg_magic_refused:
  assumes acc: "check_cfg_payload (section_bytes original base sz) ra ta ts = Inr (h, targets)"
    and place: "0 \<le> base" "base + sz \<le> int (length original)" "0 \<le> sz" "ra < ta"
  shows "case_refused (\<lambda>data. check_cfg_payload (section_bytes data base sz) ra ta ts)
    (rbind (flip_byte original base) (\<lambda>data. rbind (rewrite_checksum data base sz 40) (\<lambda>data. Inr (''magic'', data)))) ''magic''"
proof -
  let ?p = "section_bytes original base sz"
  note sz = cfg_facts(1,2) [OF acc place]
  have "case_refused (\<lambda>data. check_cfg_payload (section_bytes data base sz) ra ta ts)
    (rbind (flip_byte original (base + 0)) (\<lambda>data. rbind (rewrite_checksum data base sz 40) (\<lambda>data. Inr (''magic'', data)))) ''magic''"
  proof (rule flip_case_refused)
    fix q x v assume v: "v \<noteq> ?p ! nat 0" and p: "patched ?p (nat 0) [v] (nat 40) q" and "check_cfg_payload q ra ta ts = Inr x"
    then obtain h' t' where "check_cfg_payload q ra ta ts = Inr (h', t')" by (cases x) auto
    then have "take 4 q = take 4 ?p" using cfg_words(1) [OF acc] cfg_words(1) by simp
    then have "q ! 0 = ?p ! 0" by (metis nth_take zero_less_numeral)
    moreover have "q ! 0 = v" using p sz by (simp add: patched_def)
    ultimately show False using v by simp
  qed (use place sz in \<open>auto intro: check_cfg_safe\<close>)
  then show ?thesis by simp
qed

lemma cfg_checksum_refused:
  assumes acc: "check_cfg_payload (section_bytes original base sz) ra ta ts = Inr (h, targets)"
    and place: "0 \<le> base" "base + sz \<le> int (length original)" "0 \<le> sz" "ra < ta"
  shows "case_refused (\<lambda>data. check_cfg_payload (section_bytes data base sz) ra ta ts)
    (packed_case original base sz 40 (''checksum'', base + 40, [ch_checksum h XOR 1], False)) ''checksum''"
proof -
  let ?p = "section_bytes original base sz" and ?v = "ch_checksum h XOR 1"
  let ?d = "overwrite original (nat (base + 40)) (le_bytes 4 ?v)"
  note sz = cfg_facts(1,2) [OF acc place]
  have v: "0 \<le> ?v" "?v < 2 ^ 32" "?v \<noteq> field ?p 40 4"
    using xor_1_bounds [of "field ?p 40 4" 32] field_bound by (simp_all add: cfg_header_words(3) [OF acc])
  have sec: "section_bytes ?d base sz = overwrite ?p 40 (le_bytes 4 ?v)"
    using section_overwrite [OF place(1,2), of 40 "le_bytes 4 ?v"] sz by simp
  have p: "patched ?p 40 (concat (map (le_bytes 4) [?v])) 44 (section_bytes ?d base sz)"
    using sz by (auto simp: sec patched_def nth_overwrite)
  have "field (section_bytes ?d base sz) (40 + 4 * 0) 4 = [?v] ! 0"
    by (rule patched_word [OF p]) (use v in auto)
  moreover have "payload_checksum (section_bytes ?d base sz) 40 = payload_checksum ?p 40"
    by (rule payload_checksum_cong) (use sz in \<open>auto simp: sec nth_overwrite\<close>)
  moreover have "oat_result (check_cfg_payload (section_bytes ?d base sz) ra ta ts)"
    by (rule check_cfg_safe) (use sz in \<open>auto simp: sec\<close>)
  ultimately have "refused (check_cfg_payload (section_bytes ?d base sz) ra ta ts)"
    using v(3) cfg_words(11) [OF acc] cfg_words(11) [of "section_bytes ?d base sz" ra ta ts] by (intro refusedI) auto
  moreover have "pack_into original (base + 40) [?v] = Inr ?d" using v place sz by (simp add: pack_into_Inr)
  ultimately show ?thesis by (simp add: case_refused_def packed_case_def)
qed

text \<open>A group of cases of one corpus: all are built, in order, and all are refused.\<close>

definition cases_refused :: "(bytes \<Rightarrow> exn + 'a) \<Rightarrow> exn + (string \<times> bytes) list \<Rightarrow> string list \<Rightarrow> bool" where
  "cases_refused check result names =
     (\<exists>cases. result = Inr cases \<and> map fst cases = names \<and> list_all (\<lambda>c. refused (check (snd c))) cases)"

lemma cases_refusedI:
  "list_all (\<lambda>m. case_refused check (f m) (fst m)) ms \<Longrightarrow> cases_refused check (map_r f ms) (map fst ms)"
  using map_r_refused [of check f ms] by (auto simp: cases_refused_def o_def)

lemma cfg_header_cases_refused:
  assumes acc: "check_cfg_payload (section_bytes original base sz) ra ta ts = Inr (h, targets)"
    and place: "0 \<le> base" "base + sz \<le> int (length original)" "0 \<le> sz" "ra < ta"
  shows "cases_refused (\<lambda>data. check_cfg_payload (section_bytes data base sz) ra ta ts)
    (map_r (packed_case original base sz 40) (cfg_header_mutations h base)) (map fst (cfg_header_mutations h base))"
proof (rule cases_refusedI)
  note f = cfg_facts [OF acc place] and w = cfg_words [OF acc] and hw = cfg_header_words [OF acc]
  have sz: "64 \<le> sz" "field (section_bytes original base sz) 24 4 \<noteq> 0" using f(2,4) by simp_all
  show "list_all (\<lambda>m. case_refused (\<lambda>data. check_cfg_payload (section_bytes data base sz) ra ta ts)
      (packed_case original base sz 40 m) (fst m)) (cfg_header_mutations h base)"
    unfolding cfg_header_mutations_def list.pred_inject fst_conv
    using cfg_checksum_refused [OF acc place]
    by (intro conjI cfg_header_case_refused [OF acc place(1,2)] TrueI) (use f(4-11) sz w(2-6,8,12) place in \<open>auto simp: hw\<close>)
qed

lemma cfg_entry_cases_refused:
  assumes acc: "check_cfg_payload (section_bytes original base sz) ra ta ts = Inr (h, targets)"
    and place: "0 \<le> base" "base + sz \<le> int (length original)" "0 \<le> sz" "ra < ta"
    and first: "first = (field (section_bytes original base sz) 48 4, field (section_bytes original base sz) 52 4)"
  shows "cases_refused (\<lambda>data. check_cfg_payload (section_bytes data base sz) ra ta ts)
    (map_r (packed_case original base sz 40) (cfg_entry_mutations h base first)) (map fst (cfg_entry_mutations h base first))"
proof (rule cases_refusedI)
  let ?p = "section_bytes original base sz"
  let ?n = "nat (field ?p 24 4) - 1"
  note f = cfg_facts [OF acc place] and hw = cfg_header_words [OF acc] and ec = cfg_entry_case_refused [OF acc place(1,2)]
  have last: "base + 48 + (field ?p 24 4 - 1) * 8 = base + (48 + 8 * int ?n)" using hw(6) by simp
  have facts: "64 \<le> sz" "0 \<le> field ?p 48 4" "field ?p 52 4 < 2 ^ 32" using f(2) field_bound by simp_all
  show "list_all (\<lambda>m. case_refused (\<lambda>data. check_cfg_payload (section_bytes data base sz) ra ta ts)
      (packed_case original base sz 40 m) (fst m)) (cfg_entry_mutations h base first)"
    unfolding first cfg_entry_mutations_def list.pred_inject fst_conv snd_conv Let_def hw(1,2,4,5) last
  proof (intro conjI TrueI, goal_cases)
    case 2 show ?case by (rule ec [of ?n]) (use facts f in simp_all)
  next
    case 3
    have "(ra + (field ?p 48 4 + 1)) mod 16 \<noteq> 0" using f(12) by presburger
    then show ?case by - (rule ec [of 0], use facts f in simp_all)
  next
    case 4 show ?case by (rule ec [of 1]) (use facts f in simp_all)
  next
    case 7 show ?case by simp
  qed (rule ec [of 0]; use facts f in simp_all)+
qed


end
