(* ===== verification/OatUnwindCases.thy ===== *)
theory OatUnwindCases
  imports OatRejects
begin

section \<open>Every corrupted unwind table is refused\<close>

text \<open>The corpus of unwind tables: header words, entries, and the bytes of descriptors.\<close>

subsection \<open>What an accepted unwind table contains\<close>

lemma check_unwind_safe: "length q = nat sz \<Longrightarrow> 64 \<le> sz \<Longrightarrow> oat_result (check_unwind_payload q ra ta ts ua)"
  by (rule check_unwind_payload_safe) simp

lemma unwind_header_read:
  assumes "check_unwind_payload p ra ta ts ua = Inr (h, entries)"
  shows "h = unwind_header_of (take 48 p)" "48 \<le> length p"
  using check_unwind_payload_Inr(1) [OF assms] by (auto simp: unpack_from_def Let_def split: if_splits)

lemma unwind_words:
  assumes "check_unwind_payload p ra ta ts ua = Inr (h, entries)"
  shows "take 4 p = b_lit ''ouw'' @ [10]" "field p 4 4 = 1" "field p 8 4 = 48" "field p 12 4 = 0x8664" "field p 16 4 = 12"
    "7 \<le> field p 20 4" "field p 24 4 = 48" "field p 28 4 = 48 + 12 * field p 20 4" "field p 28 4 + field p 32 4 = int (length p)"
    "field p 36 4 = ta - ra" "field p 40 4 = ta - ra + ts" "field p 44 4 = payload_checksum p 44"
proof -
  note f = check_unwind_payload_Inr [OF assms] and h = unwind_header_read(1) [OF assms]
  from f(2-5) show "take 4 p = b_lit ''ouw'' @ [10]" "field p 4 4 = 1" "field p 8 4 = 48" "field p 12 4 = 0x8664" "field p 16 4 = 12"
    and c: "7 \<le> field p 20 4" "field p 24 4 = 48" and "field p 28 4 + field p 32 4 = int (length p)"
    "field p 36 4 = ta - ra" "field p 40 4 = ta - ra + ts" "field p 44 4 = payload_checksum p 44"
    unfolding h unwind_header_bad_def unwind_header_of_def by (auto simp: field_take)
  have "(48 + field p 20 4 * 12 + 3) AND NOT 3 = field p 28 4"
    using f(2) unfolding h unwind_header_bad_def unwind_header_of_def by (auto simp: field_take)
  moreover have "(48 + field p 20 4 * 12 + 3) AND NOT 3 = 48 + 12 * field p 20 4"
    unfolding and_not_3 by presburger
  ultimately show "field p 28 4 = 48 + 12 * field p 20 4" by simp
qed

lemma unwind_header_words:
  assumes "check_unwind_payload p ra ta ts ua = Inr (h, entries)"
  shows "uh_entry_count h = field p 20 4" "uh_entries_offset h = 48" "uh_unwind_offset h = field p 28 4"
    "uh_unwind_size h = field p 32 4" "uh_code_begin h = field p 36 4" "uh_code_end h = field p 40 4" "uh_entry_size h = 12"
  using unwind_words [OF assms] unfolding unwind_header_read(1) [OF assms]
  by (simp_all add: unwind_header_of_def field_take)

text \<open>The words of a row, and the rows of the table.\<close>

definition row_words :: "bytes \<Rightarrow> nat \<Rightarrow> int \<times> int \<times> int" where
  "row_words p i = (field p (48 + 12 * i) 4, field p (52 + 12 * i) 4, field p (56 + 12 * i) 4)"

lemma entry_of_row: "entry_of (take 12 (drop (48 + 12 * i) p)) = row_words p i"
  by (simp add: entry_of_def row_words_def field_take field_drop)

lemma unwind_rows:
  assumes "check_unwind_payload p ra ta ts ua = Inr (h, entries)"
  shows "entries = map (row_words p) [0..<nat (field p 20 4)]"
proof -
  note f = check_unwind_payload_Inr [OF assms] and hw = unwind_header_words [OF assms]
  obtain pe where k: "fold_r (unwind_entry p h (ua - ra)) [0..<nat (uh_entry_count h)] (uh_code_begin h, []) = Inr (pe, entries)"
    using f(6) by blast
  from unwind_scan.scan_rows [OF k]
  have n: "length entries = nat (field p 20 4)"
    and r: "\<And>i. i < nat (field p 20 4) \<Longrightarrow> unpack_from 12 entry_of p (48 + int i * int 12) = Inr (entries ! i)"
    by (auto simp: hw)
  from rows_of [OF n r] show ?thesis by (simp add: entry_of_row cong: map_cong)
qed

lemma unwind_row:
  assumes "check_unwind_payload p ra ta ts ua = Inr (h, entries)" and "int i < field p 20 4"
  shows "ta - ra \<le> field p (48 + 12 * i) 4" "field p (48 + 12 * i) 4 < field p (52 + 12 * i) 4"
    "field p (52 + 12 * i) 4 \<le> ta - ra + ts" "field p (56 + 12 * i) 4 mod 4 = 0"
    "ua - ra + field p 28 4 \<le> field p (56 + 12 * i) 4" "field p (56 + 12 * i) 4 < ua - ra + int (length p)"
    "0 < i \<Longrightarrow> field p (52 + 12 * (i - 1)) 4 \<le> field p (48 + 12 * i) 4"
proof -
  note f = check_unwind_payload_Inr [OF assms(1)] and hw = unwind_header_words [OF assms(1)] and rows = unwind_rows [OF assms(1)]
  obtain pe where k: "fold_r (unwind_entry p h (ua - ra)) [0..<nat (uh_entry_count h)] (uh_code_begin h, []) = Inr (pe, entries)"
    using f(6) by blast
  have i: "i < nat (field p 20 4)" using assms(2) by simp
  with unwind_scan.scan_rows [OF k] rows
  have bad: "\<not> unwind_entry_bad p h (ua - ra) (if i = 0 then uh_code_begin h else fst (snd (entries ! (i - 1)))) (row_words p i)"
    by (auto simp: hw)
  then show "ta - ra \<le> field p (48 + 12 * i) 4" "field p (48 + 12 * i) 4 < field p (52 + 12 * i) 4"
    "field p (52 + 12 * i) 4 \<le> ta - ra + ts" "field p (56 + 12 * i) 4 mod 4 = 0"
    "ua - ra + field p 28 4 \<le> field p (56 + 12 * i) 4" "field p (56 + 12 * i) 4 < ua - ra + int (length p)"
    using unwind_words(10,11) [OF assms(1)] by (auto simp: unwind_entry_bad_def row_words_def hw)
  assume "0 < i"
  then have "i - 1 < nat (field p 20 4)" using i by simp
  then have "entries ! (i - 1) = row_words p (i - 1)" using rows by simp
  with bad \<open>0 < i\<close> show "field p (52 + 12 * (i - 1)) 4 \<le> field p (48 + 12 * i) 4"
    by (auto simp: unwind_entry_bad_def row_words_def)
qed

subsection \<open>The header and the entries\<close>

lemma unwind_header_case_refused:
  assumes acc: "check_unwind_payload (section_bytes original base sz) ra ta ts ua = Inr (h, entries)"
    and place: "0 \<le> base" "base + sz \<le> int (length original)" "64 \<le> sz"
    and k: "k \<in> {4, 8, 12, 16, 20, 24, 28, 32, 36, 40}" "off = base + k"
    and v: "v \<noteq> field (section_bytes original base sz) (nat k) 4" "0 \<le> v" "v < 2 ^ 32"
  shows "case_refused (\<lambda>data. check_unwind_payload (section_bytes data base sz) ra ta ts ua)
    (packed_case original base sz 44 (name, off, [v], True)) name"
proof (rule packed_case_refused [OF k(2)])
  fix q x
  let ?p = "section_bytes original base sz"
  assume p: "patched ?p (nat k) (concat (map (le_bytes 4) [v])) (nat 44) q" and "check_unwind_payload q ra ta ts ua = Inr x"
  then obtain h' t' where acc': "check_unwind_payload q ra ta ts ua = Inr (h', t')" by (cases x) auto
  have "field q (nat k + 4 * 0) 4 = [v] ! 0"
    by (rule patched_word [OF p]) (use k v in auto)
  then have at: "field q (nat k) 4 = v" by simp
  have len: "length q = length ?p" "48 \<le> length ?p" using p unwind_header_read(2) [OF acc] by (auto simp: patched_def)
  have same: "field q j 4 = field ?p j 4" if "j \<noteq> nat k" "j \<in> {20, 28, 32}" for j
    by (rule patched_field [OF p]) (use k that len in \<open>auto simp: length_words\<close>)
  show False
    using k at v(1) same [of 20] same [of 28] same [of 32] len(1) unwind_words(2-11) [OF acc] unwind_words(2-11) [OF acc'] by auto
qed (use place k v in \<open>auto intro: check_unwind_safe\<close>)

lemma unwind_entry_case_refused:
  assumes acc: "check_unwind_payload (section_bytes original base sz) ra ta ts ua = Inr (h, entries)"
    and place: "0 \<le> base" "base + sz \<le> int (length original)" "64 \<le> sz"
    and i: "int i < field (section_bytes original base sz) 20 4" "off = base + (48 + 12 * int i)"
    and v: "list_all (\<lambda>v. 0 \<le> v \<and> v < 2 ^ 32) [a, b, c]"
    and bad: "a < ta - ra \<or> b \<le> a \<or> ta - ra + ts < b \<or> c mod 4 \<noteq> 0 \<or> c < ua - ra + field (section_bytes original base sz) 28 4
      \<or> ua - ra + sz \<le> c \<or> 0 < i \<and> a < field (section_bytes original base sz) (52 + 12 * (i - 1)) 4"
  shows "case_refused (\<lambda>data. check_unwind_payload (section_bytes data base sz) ra ta ts ua)
    (packed_case original base sz 44 (name, off, [a, b, c], True)) name"
proof (rule packed_case_refused [OF i(2)])
  let ?p = "section_bytes original base sz"
  have len: "length ?p = nat sz" using section_bytes_nth [of base sz original] place by auto
  note w = unwind_words [OF acc]
  have fits: "48 + 12 * int i + 12 \<le> field ?p 28 4" "field ?p 28 4 \<le> sz"
    using w(8,9) i(1) len place(3) field_nonneg [of ?p 32 4] by (simp_all del: field_nonneg)
  then show "48 + 12 * int i + 4 * int (length [a, b, c]) \<le> sz" by simp
  fix q x
  assume p: "patched ?p (nat (48 + 12 * int i)) (concat (map (le_bytes 4) [a, b, c])) (nat 44) q"
    and "check_unwind_payload q ra ta ts ua = Inr x"
  then obtain h' t' where acc': "check_unwind_payload q ra ta ts ua = Inr (h', t')" by (cases x) auto
  have n: "nat (48 + 12 * int i) = 48 + 12 * i" by simp
  note p = p [unfolded n]
  have "field q (48 + 12 * i + 4 * 0) 4 = [a, b, c] ! 0" "field q (48 + 12 * i + 4 * 1) 4 = [a, b, c] ! 1"
    "field q (48 + 12 * i + 4 * 2) 4 = [a, b, c] ! 2"
    by (rule patched_word [OF p]; use v in auto)+
  then have at: "field q (48 + 12 * i) 4 = a" "field q (52 + 12 * i) 4 = b" "field q (56 + 12 * i) 4 = c" by (simp_all add: add.commute)
  have same: "field q j 4 = field ?p j 4" if "j \<in> {20, 28}" for j
    by (rule patched_field [OF p]) (use that len place(3) in \<open>auto simp: length_words\<close>)
  have prev: "field q (52 + 12 * (i - 1)) 4 = field ?p (52 + 12 * (i - 1)) 4" if "0 < i"
    by (rule patched_field [OF p]) (use that fits len in \<open>auto simp: length_words\<close>)
  from i(1) same have "int i < field q 20 4" by simp
  note row = unwind_row [OF acc' this]
  have "length q = nat sz" using p len by (simp add: patched_def)
  with bad at prev row same place(3) show False by auto
qed (use place v in \<open>auto intro: check_unwind_safe\<close>)

subsection \<open>The descriptors\<close>

text \<open>The descriptors of a table: the distinct offsets of its entries, from the start of the section.\<close>

definition local_infos :: "bytes \<Rightarrow> int \<Rightarrow> int list" where
  "local_infos p so = map (\<lambda>offset. offset - so)
     (sort (remdups (map (\<lambda>i. field p (56 + 12 * i) 4) [0..<nat (field p 20 4)])))"

lemma local_infos_mem: "i < nat (field p 20 4) \<Longrightarrow> field p (56 + 12 * i) 4 - so \<in> set (local_infos p so)"
  by (simp add: local_infos_def)

text \<open>Of an accepted descriptor: its version, its length, its first operation and its padding.\<close>

lemma check_unwind_info_bytes:
  assumes "check_unwind_info d = Inr u"
  shows "4 \<le> length d" "d ! 0 = 1" "4 + ((uint (d ! 2) + 1) AND NOT 1) * 2 \<le> int (length d)"
    "0 < uint (d ! 2) \<Longrightarrow> \<exists>x. unwind_operation (uint (d ! 5) AND 15) (drop_bit 4 (uint (d ! 5))) = Inr x"
    "uint (d ! 2) AND 1 \<noteq> 0 \<Longrightarrow> py_slice d (4 + uint (d ! 2) * 2) (6 + uint (d ! 2) * 2) = [0, 0]"
proof -
  have u: "4 \<le> length d \<and> uint (d ! 0) = 1" using assms by (auto simp: check_unwind_info_def rbind_Inr_iff)
  then show "4 \<le> length d" "d ! 0 = 1" by (simp_all add: word_uint_eq_iff)
  obtain f where loop: "unwind_loop d (nat (uint (d ! 2))) (uint (d ! 1)) 0 256 0 = Inr f"
    and rest: "4 + ((uint (d ! 2) + 1) AND NOT 1) * 2 \<le> int (length d)"
    "uint (d ! 2) AND 1 \<noteq> 0 \<Longrightarrow> py_slice d (4 + uint (d ! 2) * 2) (6 + uint (d ! 2) * 2) = [0, 0]"
    using assms u by (auto simp: check_unwind_info_def rbind_Inr_iff Let_def byte_at_def)
  from rest show "4 + ((uint (d ! 2) + 1) AND NOT 1) * 2 \<le> int (length d)"
    "uint (d ! 2) AND 1 \<noteq> 0 \<Longrightarrow> py_slice d (4 + uint (d ! 2) * 2) (6 + uint (d ! 2) * 2) = [0, 0]" by auto
  assume n: "0 < uint (d ! 2)"
  then have "6 \<le> length d" using rest(1) unfolding and_not_1 by presburger
  moreover have "0 < nat (uint (d ! 2))" using n by (simp only: zero_less_nat_eq)
  ultimately show "\<exists>x. unwind_operation (uint (d ! 5) AND 15) (drop_bit 4 (uint (d ! 5))) = Inr x"
    using loop by (subst (asm) unwind_loop.simps) (auto simp: rbind_Inr_iff byte_at_def simp del: nat_uint_eq)
qed

lemma descriptor_bytes:
  assumes acc: "check_unwind_payload p ra ta ts ua = Inr (h, entries)" and o: "loc \<in> set (local_infos p (ua - ra))"
    and n: "n = uint (p ! (nat loc + 2))"
  shows "field p 28 4 \<le> loc" "loc + (4 + ((n + 1) AND NOT 1) * 2) \<le> int (length p)" "p ! nat loc = 1"
    "0 < n \<Longrightarrow> \<exists>x. unwind_operation (uint (p ! (nat loc + 5)) AND 15) (drop_bit 4 (uint (p ! (nat loc + 5)))) = Inr x"
    "n AND 1 \<noteq> 0 \<Longrightarrow> p ! (nat loc + 4 + 2 * nat n) = 0"
proof -
  define offs where "offs = sort (remdups (map (snd \<circ> snd) entries))"
  have "map (snd \<circ> snd) entries = map (\<lambda>i. field p (56 + 12 * i) 4) [0..<nat (field p 20 4)]"
    unfolding unwind_rows [OF acc] by (simp add: row_words_def)
  then have locs: "local_infos p (ua - ra) = map (\<lambda>offset. offset - (ua - ra)) offs" by (simp only: local_infos_def offs_def)
  have range: "ua - ra + field p 28 4 \<le> x \<and> x < ua - ra + int (length p)" if "x \<in> set offs" for x
    using that unwind_rows [OF acc] unwind_row(5,6) [OF acc] by (auto simp: row_words_def offs_def)
  from o obtain x where "x \<in> set offs" "loc = x - (ua - ra)" unfolding locs by (simp only: set_map) blast
  then obtain j where j: "j < length offs" "loc = offs ! j - (ua - ra)"
    unfolding in_set_conv_nth by blast
  define hi where "hi = (if j + 1 < length offs then offs ! (j + 1) - (ua - ra) else int (length p))"
  have lo: "field p 28 4 \<le> loc" "loc < int (length p)" using range [OF nth_mem [OF j(1)]] j(2) by auto
  then show "field p 28 4 \<le> loc" by simp
  have "0 \<le> loc" using lo(1) field_nonneg [of p 28 4] by linarith
  have "sorted offs" by (simp add: offs_def)
  then have hi: "loc \<le> hi" "hi \<le> int (length p)"
    using j range [OF nth_mem, of "j + 1"] lo sorted_nth_mono [of offs j "j + 1"] by (auto simp: hi_def)
  let ?d = "py_slice p loc hi"
  have chk: "check_unwind_info ?d = Inr ()"
    using check_unwind_payload_Inr(7) [OF acc] j unfolding check_descriptors_Inr hi_def offs_def by simp
  note b = check_unwind_info_bytes [OF chk]
  have len: "length ?d = nat (hi - loc)" using length_slice [of loc hi p] hi \<open>0 \<le> loc\<close> by simp
  have at: "?d ! i = p ! (nat loc + i)" if "i < length ?d" for i
    using nth_slice [of loc hi p i] hi \<open>0 \<le> loc\<close> that len by simp
  have n': "uint (?d ! 2) = n" using at [of 2] b(1) n by simp
  have sz: "loc + (4 + ((n + 1) AND NOT 1) * 2) \<le> hi" using b(3) len hi unfolding n' by linarith
  then show "loc + (4 + ((n + 1) AND NOT 1) * 2) \<le> int (length p)" using hi by simp
  have "0 < length ?d" using b(1) by linarith
  with at [of 0] b(2) show "p ! nat loc = 1" by simp
  have "0 \<le> n" by (simp add: n)
  have m: "n \<le> (n + 1) AND NOT 1" unfolding and_not_1 by presburger
  show "\<exists>x. unwind_operation (uint (p ! (nat loc + 5)) AND 15) (drop_bit 4 (uint (p ! (nat loc + 5)))) = Inr x" if "0 < n"
  proof -
    have "2 \<le> (n + 1) AND NOT 1" using that unfolding and_not_1 by presburger
    then have "5 < length ?d" using len sz by linarith
    with b(4) at [of 5] that n' show ?thesis by simp
  qed
  show "p ! (nat loc + 4 + 2 * nat n) = 0" if odd: "n AND 1 \<noteq> 0"
  proof -
    have "n mod 2 = 1" using odd by (simp add: and_one_eq)
    then have "(n + 1) AND NOT 1 = n + 1" unfolding and_not_1 by presburger
    then have l: "4 + 2 * nat n + 2 \<le> length ?d" using len sz \<open>0 \<le> n\<close> by auto
    have "py_slice ?d (4 + n * 2) (6 + n * 2) = [0, 0]" using b(5) odd n' by simp
    then have "py_slice ?d (4 + n * 2) (6 + n * 2) ! 0 = 0" by simp
    then have "?d ! (4 + 2 * nat n) = 0"
      using nth_slice [of "4 + n * 2" "6 + n * 2" ?d 0] l \<open>0 \<le> n\<close> by (simp add: nat_add_distrib nat_mult_distrib mult.commute)
    with at [of "4 + 2 * nat n"] l show ?thesis by (simp add: add.assoc)
  qed
qed

lemma unwind_byte_case_refused:
  assumes acc: "check_unwind_payload (section_bytes original base sz) ra ta ts ua = Inr (h, entries)"
    and place: "0 \<le> base" "base + sz \<le> int (length original)" "64 \<le> sz"
    and loc: "loc \<in> set (local_infos (section_bytes original base sz) (ua - ra))"
    and n: "n = uint (section_bytes original base sz ! (nat loc + 2))"
    and v: "0 \<le> v" "v < 256"
    and bad: "k = loc \<and> v \<noteq> 1
      \<or> k = loc + 5 \<and> 0 < n \<and> (\<forall>x. unwind_operation (v AND 15) (drop_bit 4 v) \<noteq> Inr x)
      \<or> k = loc + 4 + n * 2 \<and> n AND 1 \<noteq> 0 \<and> v \<noteq> 0"
  shows "case_refused (\<lambda>data. check_unwind_payload (section_bytes data base sz) ra ta ts ua)
    (byte_case original base sz (name, k, v)) name"
proof -
  let ?p = "section_bytes original base sz"
  have len: "length ?p = nat sz" using section_bytes_nth [of base sz original] place by auto
  note w = unwind_words [OF acc] and d = descriptor_bytes [OF acc loc n]
  have f28: "132 \<le> field ?p 28 4" using w(6,8) by simp
  have "0 \<le> n" by (simp add: n)
  have m: "n \<le> (n + 1) AND NOT 1" "n AND 1 \<noteq> 0 \<Longrightarrow> n + 1 \<le> (n + 1) AND NOT 1"
    unfolding and_not_1 and_one_eq by presburger+
  have m1: "0 < n \<Longrightarrow> 2 \<le> (n + 1) AND NOT 1" unfolding and_not_1 by presburger
  have k: "field ?p 28 4 \<le> k" "k < sz" "k \<noteq> loc + 2"
    using bad d(1,2) m m1 \<open>0 \<le> n\<close> len place(3) by auto
  have byte: "uint (word_of_int v :: 8 word) = v" using v by (simp add: uint_word_of_int)
  have "base + k < int (length original)" "0 \<le> base + k" using k(1,2) f28 place(1,2) by auto
  then have "set_byte original (base + k) v = Inr (original[nat (base + k) := word_of_int v])"
    using v by (simp add: set_byte_def)
  then have "case_refused (\<lambda>data. check_unwind_payload (section_bytes data base sz) ra ta ts ua)
    (rbind (set_byte original (base + k) v) (\<lambda>data. rbind (rewrite_checksum data base sz 44) (\<lambda>data. Inr (name, data)))) name"
  proof (rule byte_write_refused [rotated -1])
    fix q x
    assume p: "patched ?p (nat k) [word_of_int v] (nat 44) q" and "check_unwind_payload q ra ta ts ua = Inr x"
    then obtain h' t' where acc': "check_unwind_payload q ra ta ts ua = Inr (h', t')" by (cases x) auto
    have below: "field q j 4 = field ?p j 4" if "int j + 4 \<le> field ?p 28 4" "48 \<le> j \<or> j = 20" for j
      by (rule patched_field [OF p]) (use that k f28 len place(3) in auto)
    have count: "field q 20 4 = field ?p 20 4" by (rule below) (use f28 in auto)
    have "field q (56 + 12 * i) 4 = field ?p (56 + 12 * i) 4" if "i < nat (field ?p 20 4)" for i
      by (rule below) (use that w(8) in auto)
    then have "map (\<lambda>i. field q (56 + 12 * i) 4) [0..<nat (field ?p 20 4)] = map (\<lambda>i. field ?p (56 + 12 * i) 4) [0..<nat (field ?p 20 4)]"
      by (intro map_cong) auto
    then have "local_infos q (ua - ra) = local_infos ?p (ua - ra)" by (simp only: local_infos_def count)
    with loc have loc': "loc \<in> set (local_infos q (ua - ra))" by simp
    have "nat k < length ?p" "48 \<le> nat k" using k(1,2) f28 len by auto
    then have at: "q ! nat k = word_of_int v" using p unfolding patched_def by (auto dest!: spec [of _ "nat k"])
    have other: "q ! i = ?p ! i" if "48 \<le> i" "i \<noteq> nat k" "i < nat sz" for i
      using p that len by (auto simp: patched_def)
    have l: "132 \<le> loc" "loc + 4 \<le> sz" using d(1,2) f28 m(1) \<open>0 \<le> n\<close> len place(3) by auto
    have "q ! (nat loc + 2) = ?p ! (nat loc + 2)"
      by (rule other) (use l k in auto)
    then have n': "n = uint (q ! (nat loc + 2))" using n by simp
    note d' = descriptor_bytes [OF acc' loc' n']
    have "nat (loc + 5) = nat loc + 5" "nat (loc + 4 + n * 2) = nat loc + 4 + 2 * nat n"
      using l(1) \<open>0 \<le> n\<close> by auto
    then show False using bad at byte d'(3-5) by auto
  qed (use place k f28 in \<open>auto intro: check_unwind_safe\<close>)
  then show ?thesis by (simp add: byte_case_def)
qed

subsection \<open>The corpus\<close>

text \<open>The search for descriptors finds ones that have a slot, and an odd number of slots.\<close>

lemma descriptor_fold:
  assumes "\<And>x. x \<in> set locs \<Longrightarrow> byte_at original (nat (base + x + 2)) = Inr (n x) \<and> x + (4 + ((n x + 1) AND NOT 1) * 2) \<le> sz \<and> x \<in> S"
    and "\<forall>x. fst st = Some x \<longrightarrow> x \<in> S \<and> 0 < n x" and "\<forall>x. snd st = Some x \<longrightarrow> x \<in> S \<and> n x AND 1 \<noteq> 0"
  shows "\<exists>st'. fold_r (descriptor_step original base sz) locs st = Inr st'
    \<and> (\<forall>x. fst st' = Some x \<longrightarrow> x \<in> S \<and> 0 < n x) \<and> (\<forall>x. snd st' = Some x \<longrightarrow> x \<in> S \<and> n x AND 1 \<noteq> 0)"
  using assms
proof (induction locs arbitrary: st)
  case (Cons x locs)
  obtain a b where st: "st = (a, b)" by (cases st)
  let ?st = "(if n x > 0 \<and> a = None then Some x else a, if n x AND 1 \<noteq> 0 \<and> b = None then Some x else b)"
  have "descriptor_step original base sz x st = Inr ?st"
    using Cons.prems(1) [of x] by (simp add: descriptor_step_def st reject_if_def)
  moreover have "\<exists>st'. fold_r (descriptor_step original base sz) locs ?st = Inr st'
    \<and> (\<forall>x. fst st' = Some x \<longrightarrow> x \<in> S \<and> 0 < n x) \<and> (\<forall>x. snd st' = Some x \<longrightarrow> x \<in> S \<and> n x AND 1 \<noteq> 0)"
    by (rule Cons.IH) (use Cons.prems st in auto)
  ultimately show ?case by simp
qed auto

lemma field_Suc: "i < length x \<Longrightarrow> field x i (Suc w) = uint (x ! i) + 256 * field x (Suc i) w"
  by (simp add: field_def le_int_def flip: Cons_nth_drop_Suc)

lemma unwind_checksum_refused:
  assumes acc: "check_unwind_payload (section_bytes original base sz) ra ta ts ua = Inr (h, entries)"
    and place: "0 \<le> base" "base + sz \<le> int (length original)" "64 \<le> sz"
  shows "case_refused (\<lambda>data. check_unwind_payload (section_bytes data base sz) ra ta ts ua)
    (rbind (flip_byte original (base + 44)) (\<lambda>data. Inr (''checksum'', data))) ''checksum''"
proof -
  let ?p = "section_bytes original base sz"
  have len: "length ?p = nat sz" using section_bytes_nth [of base sz original] place by auto
  obtain v where v: "flip_byte original (base + 44) = Inr (original[nat (base + 44) := v])" "v \<noteq> original ! nat (base + 44)"
    using flip_byte_Inr [of "base + 44" original] place by auto
  let ?d = "original[nat (base + 44) := v]"
  have "?d = overwrite original (nat (base + 44)) [v]"
    by (rule nth_equalityI) (use place in \<open>auto simp: nth_overwrite nth_list_update\<close>)
  then have sec: "section_bytes ?d base sz = overwrite ?p 44 [v]"
    using section_overwrite [OF place(1,2), of 44 "[v]"] place(3) by simp
  have word: "field x 44 4 = uint (x ! 44) + 256 * le_int (take 3 (drop 45 x))" if "44 < length x" for x
    using field_Suc [OF that, of 3] by (simp add: field_def)
  have "?p ! 44 \<noteq> v" using v(2) section_bytes_nth [of base sz original] place by (simp add: nat_add_distrib)
  moreover have "take 3 (drop 45 (overwrite ?p 44 [v])) = take 3 (drop 45 ?p)"
    using len place(3) by (simp add: overwrite_def)
  moreover have "overwrite ?p 44 [v] ! 44 = v" using len place(3) by (simp add: nth_overwrite)
  ultimately have "field (overwrite ?p 44 [v]) 44 4 \<noteq> field ?p 44 4"
    using len place(3) by (simp add: word word_uint_eq_iff)
  moreover have "payload_checksum (overwrite ?p 44 [v]) 44 = payload_checksum ?p 44"
    by (rule payload_checksum_cong) (use len place(3) in \<open>auto simp: nth_overwrite\<close>)
  moreover have "oat_result (check_unwind_payload (overwrite ?p 44 [v]) ra ta ts ua)"
    by (rule check_unwind_safe) (use len place(3) in auto)
  ultimately have "refused (check_unwind_payload (section_bytes ?d base sz) ra ta ts ua)"
    using unwind_words(12) [OF acc] unwind_words(12) [of "overwrite ?p 44 [v]" ra ta ts ua] unfolding sec
    by (intro refusedI) auto
  with v(1) show ?thesis by (simp add: case_refused_def)
qed

text \<open>The places that an accepted table provides for the cases.\<close>

lemma unwind_sizes:
  assumes acc: "check_unwind_payload (section_bytes original base sz) ra ta ts ua = Inr (h, entries)"
    and place: "0 \<le> base" "base + sz \<le> int (length original)" "0 \<le> sz"
  defines "p \<equiv> section_bytes original base sz"
  shows "length p = nat sz" "hd (local_infos p (ua - ra)) \<in> set (local_infos p (ua - ra))"
    "x \<in> set (local_infos p (ua - ra)) \<Longrightarrow> field p 28 4 \<le> x"
    "x \<in> set (local_infos p (ua - ra)) \<Longrightarrow> x + (4 + ((uint (p ! (nat x + 2)) + 1) AND NOT 1) * 2) \<le> sz"
    "x \<in> set (local_infos p (ua - ra)) \<Longrightarrow> x + 4 \<le> sz"
    "field p 28 4 + 4 \<le> sz" "132 \<le> field p 28 4" "64 \<le> sz" "field p 32 4 = sz - field p 28 4"
proof -
  note w = unwind_words [OF acc]
  show len: "length p = nat sz" using section_bytes_nth [of base sz original] place by (simp add: p_def)
  have d: "field p 28 4 \<le> x" "x + (4 + ((uint (p ! (nat x + 2)) + 1) AND NOT 1) * 2) \<le> sz" "x + 4 \<le> sz"
    if "x \<in> set (local_infos p (ua - ra))" for x
  proof -
    have x: "x \<in> set (local_infos (section_bytes original base sz) (ua - ra))" using that by (simp add: p_def)
    have "0 \<le> (uint (p ! (nat x + 2)) + 1) AND NOT 1" by simp
    with descriptor_bytes(1,2) [OF acc x refl, folded p_def] len place(3)
    show "field p 28 4 \<le> x" "x + (4 + ((uint (p ! (nat x + 2)) + 1) AND NOT 1) * 2) \<le> sz" "x + 4 \<le> sz" by linarith+
  qed
  then show "x \<in> set (local_infos p (ua - ra)) \<Longrightarrow> field p 28 4 \<le> x"
    "x \<in> set (local_infos p (ua - ra)) \<Longrightarrow> x + (4 + ((uint (p ! (nat x + 2)) + 1) AND NOT 1) * 2) \<le> sz"
    "x \<in> set (local_infos p (ua - ra)) \<Longrightarrow> x + 4 \<le> sz" by auto
  have first: "field p 56 4 - (ua - ra) \<in> set (local_infos p (ua - ra))"
    using local_infos_mem [of 0 p "ua - ra"] w(6) by (simp add: p_def)
  then have "local_infos p (ua - ra) \<noteq> []" by auto
  then show "hd (local_infos p (ua - ra)) \<in> set (local_infos p (ua - ra))" by (rule hd_in_set)
  show 1: "field p 28 4 + 4 \<le> sz" using d(1,3) [OF first] by linarith
  show 2: "132 \<le> field p 28 4" using w(6,8) by (simp add: p_def)
  from 1 2 show "64 \<le> sz" by simp
  show "field p 32 4 = sz - field p 28 4" using w(9) len place(3) by (simp add: p_def)
qed

lemma unwind_magic_refused:
  assumes acc: "check_unwind_payload (section_bytes original base sz) ra ta ts ua = Inr (h, entries)"
    and place: "0 \<le> base" "base + sz \<le> int (length original)" "0 \<le> sz"
  shows "case_refused (\<lambda>data. check_unwind_payload (section_bytes data base sz) ra ta ts ua)
    (rbind (flip_byte original base) (\<lambda>data. rbind (rewrite_checksum data base sz 44) (\<lambda>data. Inr (''magic'', data)))) ''magic''"
proof -
  let ?p = "section_bytes original base sz"
  note sz = unwind_sizes(1,8) [OF acc place]
  have "case_refused (\<lambda>data. check_unwind_payload (section_bytes data base sz) ra ta ts ua)
    (rbind (flip_byte original (base + 0)) (\<lambda>data. rbind (rewrite_checksum data base sz 44) (\<lambda>data. Inr (''magic'', data)))) ''magic''"
  proof (rule flip_case_refused)
    fix q x v assume v: "v \<noteq> ?p ! nat 0" and p: "patched ?p (nat 0) [v] (nat 44) q" and "check_unwind_payload q ra ta ts ua = Inr x"
    then obtain h' t' where "check_unwind_payload q ra ta ts ua = Inr (h', t')" by (cases x) auto
    then have "take 4 q = take 4 ?p" using unwind_words(1) unwind_words(1) [OF acc] by simp
    then have "q ! 0 = ?p ! 0" by (metis nth_take zero_less_numeral)
    moreover have "q ! 0 = v" using p sz by (simp add: patched_def)
    ultimately show False using v by simp
  qed (use place sz in \<open>auto intro: check_unwind_safe\<close>)
  then show ?thesis by simp
qed

lemma unwind_header_cases_refused:
  assumes acc: "check_unwind_payload (section_bytes original base sz) ra ta ts ua = Inr (h, entries)"
    and place: "0 \<le> base" "base + sz \<le> int (length original)" "0 \<le> sz"
    and addresses: "ra < ta" "ta - ra + ts + 1 < 2 ^ 32" "ra \<le> ua" "ua - ra + sz < 2 ^ 32"
  shows "cases_refused (\<lambda>data. check_unwind_payload (section_bytes data base sz) ra ta ts ua)
    (map_r (packed_case original base sz 44) (unwind_header_mutations h base)) (map fst (unwind_header_mutations h base))"
proof (rule cases_refusedI)
  let ?p = "section_bytes original base sz"
  note w = unwind_words [OF acc] and s = unwind_sizes [OF acc place] and hw = unwind_header_words [OF acc]
  have "ta - ra \<le> field ?p 48 4" "field ?p 48 4 < field ?p 52 4" "field ?p 52 4 \<le> ta - ra + ts"
    using unwind_row [OF acc, of 0] w(6) by simp_all
  then have facts: "64 \<le> sz" "field ?p 4 4 = 1" "field ?p 8 4 = 48" "field ?p 12 4 = 0x8664" "field ?p 16 4 = 12"
    "7 \<le> field ?p 20 4" "field ?p 24 4 = 48" "field ?p 36 4 = ta - ra" "field ?p 40 4 = ta - ra + ts"
    "0 \<le> field ?p 28 4" "field ?p 28 4 + 4 < 2 ^ 32" "4 \<le> field ?p 32 4" "field ?p 32 4 < 2 ^ 32"
    "0 < ta - ra" "ta - ra + 1 < 2 ^ 32" "0 < ta - ra + ts" "ta - ra + ts + 1 < 2 ^ 32"
    using w(2-7,10,11) s(6-9) addresses field_bound [of ?p 32] by simp_all
  show "list_all (\<lambda>m. case_refused (\<lambda>data. check_unwind_payload (section_bytes data base sz) ra ta ts ua)
      (packed_case original base sz 44 m) (fst m)) (unwind_header_mutations h base)"
    unfolding unwind_header_mutations_def list.pred_inject fst_conv hw(3-6)
    by (intro conjI unwind_header_case_refused [OF acc place(1,2) facts(1)] TrueI) (use facts place(1) in auto)
qed

text \<open>The rows that the cases of entries change: the first two and the last.\<close>

lemma unwind_entry_cases_refused:
  assumes acc: "check_unwind_payload (section_bytes original base sz) ra ta ts ua = Inr (h, entries)"
    and place: "0 \<le> base" "base + sz \<le> int (length original)" "0 \<le> sz"
    and addresses: "ra < ta" "ta - ra + ts + 1 < 2 ^ 32" "ra \<le> ua" "ua - ra + sz < 2 ^ 32"
    and rows: "e1 = row_words (section_bytes original base sz) 0" "e2 = row_words (section_bytes original base sz) 1"
      "en = row_words (section_bytes original base sz) (nat (field (section_bytes original base sz) 20 4) - 1)"
  defines "ms \<equiv> unwind_entry_mutations h base sz (ua - ra) e1 e2 en"
  shows "cases_refused (\<lambda>data. check_unwind_payload (section_bytes data base sz) ra ta ts ua)
    (map_r (packed_case original base sz 44) ms) (map fst ms)"
proof (rule cases_refusedI)
  let ?p = "section_bytes original base sz" and ?so = "ua - ra"
  let ?m = "nat (field ?p 20 4) - 1"
  note w = unwind_words [OF acc] and s = unwind_sizes [OF acc place] and hw = unwind_header_words [OF acc]
  note ec = unwind_entry_case_refused [OF acc place(1,2) s(8)]
  have row: "int i < field ?p 20 4 \<Longrightarrow> row_words ?p i = (a, b, c) \<Longrightarrow>
      ta - ra \<le> a \<and> a < b \<and> b \<le> ta - ra + ts \<and> c mod 4 = 0 \<and> ?so + field ?p 28 4 \<le> c \<and> c < ?so + sz \<and> c < 2 ^ 32" for i a b c
    using unwind_row [OF acc, of i] s(1) place(3) addresses(4) by (auto simp: row_words_def)
  have m: "int ?m < field ?p 20 4" "base + 48 + (field ?p 20 4 - 1) * 12 = base + (48 + 12 * int ?m)" using w(6) by simp_all
  obtain b1 x1 i1 b2 x2 i2 bn xn ln where e: "e1 = (b1, x1, i1)" "e2 = (b2, x2, i2)" "en = (bn, xn, ln)" by (metis prod_cases3)
  have prev: "0 < ?m \<Longrightarrow> field ?p (52 + 12 * (?m - 1)) 4 \<le> bn"
    using unwind_row(7) [OF acc m(1)] rows(3) e(3) by (simp add: row_words_def)
  have facts: "7 \<le> field ?p 20 4" "ta - ra \<le> b1" "b1 < x1" "x1 \<le> ta - ra + ts" "i1 mod 4 = 0" "?so + field ?p 28 4 \<le> i1" "i1 < ?so + sz"
    "ta - ra \<le> b2" "b2 < x2" "x2 \<le> ta - ra + ts" "0 \<le> i2" "i2 < 2 ^ 32"
    "ta - ra \<le> bn" "bn < xn" "xn \<le> ta - ra + ts" "0 \<le> ln" "ln < 2 ^ 32" "x1 = field ?p 52 4"
    "0 \<le> ?so" "?so + sz < 2 ^ 32" "132 \<le> field ?p 28 4" "field ?p 28 4 + 4 \<le> sz" "0 < ta - ra" "ta - ra + ts + 1 < 2 ^ 32"
    "field ?p 36 4 = ta - ra" "field ?p 40 4 = ta - ra + ts"
    using w(10,11) row [of 0 b1 x1 i1] row [of 1 b2 x2 i2] row [OF m(1), of bn xn ln] rows e w(6) addresses s(6,7) by (auto simp: row_words_def)
  show "list_all (\<lambda>m. case_refused (\<lambda>data. check_unwind_payload (section_bytes data base sz) ra ta ts ua)
      (packed_case original base sz 44 m) (fst m)) ms"
    unfolding ms_def unwind_entry_mutations_def list.pred_inject fst_conv snd_conv prod.case Let_def hw(1-3,5,6) m(2) e
  proof (intro conjI TrueI, goal_cases)
    case 2 show ?case by (rule ec [of 1]) (use facts in simp_all)
  next
    case 4 show ?case by (rule ec [of ?m]) (use facts in simp_all)
  next
    case 5
    have "(i1 + 1) mod 4 \<noteq> 0" using facts(5) by presburger
    then show ?case by - (rule ec [of 0], use facts in simp_all)
  next
    case 7 show ?case by (rule ec [of ?m]) (use facts in simp_all)
  next
    case 8 show ?case by simp
  qed (rule ec [of 0]; use facts in simp_all)+
qed

text \<open>The builder reads the offsets of the descriptors that the validator has checked.\<close>

lemma unwind_reads:
  assumes acc: "check_unwind_payload (section_bytes original base sz) ra ta ts ua = Inr (h, entries)"
    and place: "0 \<le> base" "base + sz \<le> int (length original)" "0 \<le> sz"
  defines "p \<equiv> section_bytes original base sz"
  shows "unpack_from 48 unwind_header_of original base = Inr h"
    "int i < field p 20 4 \<Longrightarrow> off = base + (48 + 12 * int i) \<Longrightarrow> unpack_from 12 entry_of original off = Inr (row_words p i)"
    "map_r (\<lambda>index. unpack_from 4 le_int original (base + 48 + int index * 12 + 8)) [0..<nat (field p 20 4)]
      = Inr (map (\<lambda>i. field p (56 + 12 * i) 4) [0..<nat (field p 20 4)])"
    "x \<in> set (local_infos p (ua - ra)) \<Longrightarrow> byte_at original (nat (base + x + 2)) = Inr (uint (p ! (nat x + 2)))"
proof -
  note w = unwind_words [OF acc, folded p_def] and s = unwind_sizes [OF acc place, folded p_def]
  show "unpack_from 48 unwind_header_of original base = Inr h"
    using unpack_section [OF place(1,2), of 0 48 base unwind_header_of] s(8) unwind_header_read(1) [OF acc] by simp
  have n: "nat (48 + 12 * int i) = 48 + 12 * i" "nat (56 + 12 * int i) = 56 + 12 * i" for i by simp_all
  show "int i < field p 20 4 \<Longrightarrow> off = base + (48 + 12 * int i) \<Longrightarrow> unpack_from 12 entry_of original off = Inr (row_words p i)"
    using unpack_section [OF place(1,2), of "48 + 12 * int i" 12 off entry_of] w(8) s(6) by (simp add: n entry_of_row p_def)
  show "map_r (\<lambda>index. unpack_from 4 le_int original (base + 48 + int index * 12 + 8)) [0..<nat (field p 20 4)]
      = Inr (map (\<lambda>i. field p (56 + 12 * i) 4) [0..<nat (field p 20 4)])"
  proof (rule map_r_total)
    fix i assume "i \<in> set [0..<nat (field p 20 4)]"
    then have "56 + 12 * int i + int 4 \<le> sz" using w(8) s(6) by auto
    then show "unpack_from 4 le_int original (base + 48 + int i * 12 + 8) = Inr (field p (56 + 12 * i) 4)"
      using unpack_section [OF place(1,2), of "56 + 12 * int i" 4 "base + 48 + int i * 12 + 8" le_int] by (simp add: n field_def p_def)
  qed
  assume x: "x \<in> set (local_infos p (ua - ra))"
  then have "0 \<le> x" "nat x + 2 < nat sz" using s(3,5) [of x] s(7) by linarith+
  moreover from this have "nat (base + x + 2) = nat base + (nat x + 2)" using place(1) by linarith
  ultimately show "byte_at original (nat (base + x + 2)) = Inr (uint (p ! (nat x + 2)))"
    using section_bytes_nth [of base sz original] place by (simp add: byte_at_def p_def)
qed

lemma unwind_byte_cases_refused:
  assumes acc: "check_unwind_payload (section_bytes original base sz) ra ta ts ua = Inr (h, entries)"
    and place: "0 \<le> base" "base + sz \<le> int (length original)" "0 \<le> sz"
  defines "p \<equiv> section_bytes original base sz"
  assumes found: "o1 \<in> set (local_infos p (ua - ra))" "0 < uint (p ! (nat o1 + 2))"
    "o2 \<in> set (local_infos p (ua - ra))" "uint (p ! (nat o2 + 2)) AND 1 \<noteq> 0"
  defines "ms \<equiv> unwind_byte_mutations (hd (local_infos p (ua - ra))) o1 o2 (uint (p ! (nat o2 + 2)))"
  shows "cases_refused (\<lambda>data. check_unwind_payload (section_bytes data base sz) ra ta ts ua)
    (map_r (byte_case original base sz) ms) (map fst ms)"
proof (rule cases_refusedI)
  note s = unwind_sizes [OF acc place, folded p_def]
  note bc = unwind_byte_case_refused [OF acc place(1,2) s(8), folded p_def]
  have ops: "\<forall>x. unwind_operation (16 AND 15) (drop_bit 4 16) \<noteq> Inr x" "\<forall>x. unwind_operation (6 AND 15) (drop_bit 4 6) \<noteq> Inr x"
    by (simp_all add: unwind_operation_def nonvolatile_gprs_def drop_bit_eq_div reject_if_def)
  show "list_all (\<lambda>m. case_refused (\<lambda>data. check_unwind_payload (section_bytes data base sz) ra ta ts ua)
      (byte_case original base sz m) (fst m)) ms"
    unfolding ms_def unwind_byte_mutations_def list.pred_inject fst_conv
    using bc [OF s(2) refl] bc [OF found(1) refl] bc [OF found(3) refl] found(2,4) ops by auto
qed

text \<open>On an accepted table the builder passes its own checks, so it returns what its cases give.\<close>

lemma unwind_corpus_run:
  assumes acc: "check_unwind_payload (section_bytes original base sz) ra ta ts ua = Inr (h, entries)"
    and place: "0 \<le> base" "base + sz \<le> int (length original)" "0 \<le> sz"
  defines "p \<equiv> section_bytes original base sz"
  assumes "rbind (flip_byte original base) (\<lambda>data. rbind (rewrite_checksum data base sz 44) (\<lambda>data. Inr (''magic'', data))) = Inr magic"
    and "rbind (flip_byte original (base + 44)) (\<lambda>data. Inr (''checksum'', data)) = Inr checksum"
    and "map_r (packed_case original base sz 44) (unwind_header_mutations h base) = Inr hs"
    and "map_r (packed_case original base sz 44) (unwind_entry_mutations h base sz (ua - ra)
      (row_words p 0) (row_words p 1) (row_words p (nat (field p 20 4) - 1))) = Inr es"
    and "fold_r (descriptor_step original base sz) (local_infos p (ua - ra)) (None, None) = Inr found"
  shows "unwind_corpus_cases original base sz (ua - ra) =
      (case found of
         (Some o1, Some o2) \<Rightarrow>
           rbind (byte_at original (nat (base + o2 + 2))) (\<lambda>slot_count.
           rbind (map_r (byte_case original base sz) (unwind_byte_mutations (hd (local_infos p (ua - ra))) o1 o2 slot_count)) (\<lambda>byte_cases.
           Inr (magic # hs @ [checksum] @ es @ byte_cases, fst (row_words p 0))))
       | _ \<Rightarrow> Inl (oat_error ''boot.oat needs nonempty and odd-slot unwind descriptors for mutation''))"
proof -
  let ?locs = "local_infos p (ua - ra)"
  note w = unwind_words [OF acc, folded p_def] and hw = unwind_header_words [OF acc, folded p_def]
    and s = unwind_sizes [OF acc place, folded p_def] and reads = unwind_reads [OF acc place, folded p_def]
  have locs: "map (\<lambda>offset. offset - (ua - ra)) (sort (remdups (map (\<lambda>i. field p (56 + 12 * i) 4) [0..<nat (field p 20 4)]))) = ?locs"
    by (simp only: local_infos_def)
  have "?locs \<noteq> []" "\<not> (\<exists>x \<in> set ?locs. x < field p 28 4 \<or> x + 4 > sz)" using s(2,3,5) by force+
  then have passed: "reject_if (sz < 64 \<or> base + sz > int (length original)) msg = Inr ()"
    "reject_if (field p 20 4 < 2 \<or> 48 \<noteq> (48 :: int) \<or> 48 + field p 20 4 * 12 \<noteq> field p 28 4 \<or> field p 28 4 \<ge> sz) msg = Inr ()"
    "reject_if (?locs = [] \<or> (\<exists>offset \<in> set ?locs. offset < field p 28 4 \<or> offset + 4 > sz)) msg = Inr ()" for msg
    using s(6,8) place(2) w(6,8) by (auto simp: reject_if_def)
  have rows: "unpack_from 12 entry_of original (base + 48) = Inr (row_words p 0)"
    "unpack_from 12 entry_of original (base + 48 + 12) = Inr (row_words p 1)"
    "unpack_from 12 entry_of original (base + 48 + (field p 20 4 - 1) * 12) = Inr (row_words p (nat (field p 20 4) - 1))"
    by (rule reads(2); use w(6) in simp)+
  show ?thesis
    unfolding unwind_corpus_cases_def passed rbind.simps reads(1) hw rows Let_def reads(3) locs fst_conv assms(6-)
    by (rule refl)
qed


lemma sample_unwind_cases:
  "(case unwind_corpus_cases sample_unwind_payload 0 140 64 of Inr (cases, first_begin) \<Rightarrow> first_begin = 16 | Inl e \<Rightarrow> False)"
  by code_simp

text \<open>The sample tables of the validators, as files that consist of the section alone.\<close>

lemma section_bytes_whole: "sz = int (length p) \<Longrightarrow> section_bytes p 0 sz = p"
  by (simp add: section_bytes_def py_slice_def clip_index_def)



end
