(* ===== verification/ArtPolicy.thy ===== *)
theory ArtPolicy
  imports BpOverlay BpTarget
begin

section \<open>The policy of the generated ART product\<close>

text \<open>
  \<open>overlay/art_port_policy.py\<close>: the policy data of the two products that are generated and its
  composition for a target profile. A table entry is the dictionary of the keyword arguments that
  the file writes as \<open>dict(...)\<close>; it becomes a \<open>module_policy\<close> when the constructor is called on
  it. The constructor of the dataclass does not look at the types of its arguments; the model
  yields \<open>IllTyped\<close> where a field does not have its annotated type, which
  \<open>module_policies_load\<close> shows never to happen.
\<close>

abbreviation (input) str_list :: "string list \<Rightarrow> pyval" where
  "str_list xs \<equiv> VList (map VStr xs)"

subsection \<open>The constructor \<open>ModulePolicy(**kwargs)\<close>\<close>

fun as_str :: "pyval \<Rightarrow> string option" where
  "as_str (VStr s) = Some s"
| "as_str v = None"

definition str_field :: "(string option \<Rightarrow> 'a) \<Rightarrow> pyval \<Rightarrow> exn + 'a" where
  "str_field set_field v =
     (case v of VStr s \<Rightarrow> Inr (set_field (Some s)) | VNone \<Rightarrow> Inr (set_field None)
      | _ \<Rightarrow> Inl (IllTyped ''ModulePolicy''))"

definition bool_field :: "(bool \<Rightarrow> 'a) \<Rightarrow> pyval \<Rightarrow> exn + 'a" where
  "bool_field set_field v = (case v of VBool b \<Rightarrow> Inr (set_field b) | _ \<Rightarrow> Inl (IllTyped ''ModulePolicy''))"

definition list_field :: "(string list \<Rightarrow> 'a) \<Rightarrow> pyval \<Rightarrow> exn + 'a" where
  "list_field set_field v =
     (case v of
        VList vs \<Rightarrow> if \<forall>x \<in> set vs. as_str x \<noteq> None then Inr (set_field (map (the \<circ> as_str) vs))
          else Inl (IllTyped ''ModulePolicy'')
      | _ \<Rightarrow> Inl (IllTyped ''ModulePolicy''))"

definition set_policy_field :: "string \<Rightarrow> pyval \<Rightarrow> module_policy \<Rightarrow> exn + module_policy" where
  "set_policy_field k v p =
     (if k = ''kind'' then str_field (\<lambda>x. p\<lparr>p_kind := x\<rparr>) v
      else if k = ''absorb_whole_static'' then bool_field (\<lambda>x. p\<lparr>p_absorb_whole_static := x\<rparr>) v
      else if k = ''add_srcs'' then list_field (\<lambda>x. p\<lparr>p_add_srcs := x\<rparr>) v
      else if k = ''remove_srcs'' then list_field (\<lambda>x. p\<lparr>p_remove_srcs := x\<rparr>) v
      else if k = ''add_shared_libs'' then list_field (\<lambda>x. p\<lparr>p_add_shared_libs := x\<rparr>) v
      else if k = ''remove_shared_libs'' then list_field (\<lambda>x. p\<lparr>p_remove_shared_libs := x\<rparr>) v
      else if k = ''add_static_libs'' then list_field (\<lambda>x. p\<lparr>p_add_static_libs := x\<rparr>) v
      else if k = ''remove_static_libs'' then list_field (\<lambda>x. p\<lparr>p_remove_static_libs := x\<rparr>) v
      else if k = ''add_cflags'' then list_field (\<lambda>x. p\<lparr>p_add_cflags := x\<rparr>) v
      else if k = ''add_cppflags'' then list_field (\<lambda>x. p\<lparr>p_add_cppflags := x\<rparr>) v
      else if k = ''add_conlyflags'' then list_field (\<lambda>x. p\<lparr>p_add_conlyflags := x\<rparr>) v
      else if k = ''add_ldflags'' then list_field (\<lambda>x. p\<lparr>p_add_ldflags := x\<rparr>) v
      else if k = ''add_defines'' then list_field (\<lambda>x. p\<lparr>p_add_defines := x\<rparr>) v
      else if k = ''add_public_defines'' then list_field (\<lambda>x. p\<lparr>p_add_public_defines := x\<rparr>) v
      else if k = ''remove_cflags'' then list_field (\<lambda>x. p\<lparr>p_remove_cflags := x\<rparr>) v
      else if k = ''set_c_std'' then str_field (\<lambda>x. p\<lparr>p_set_c_std := x\<rparr>) v
      else if k = ''set_cpp_std'' then str_field (\<lambda>x. p\<lparr>p_set_cpp_std := x\<rparr>) v
      else if k = ''add_include_dirs'' then list_field (\<lambda>x. p\<lparr>p_add_include_dirs := x\<rparr>) v
      else if k = ''add_compat_include_dirs'' then list_field (\<lambda>x. p\<lparr>p_add_compat_include_dirs := x\<rparr>) v
      else if k = ''add_gensrc_sources'' then list_field (\<lambda>x. p\<lparr>p_add_gensrc_sources := x\<rparr>) v
      else if k = ''add_gensrc_includes'' then list_field (\<lambda>x. p\<lparr>p_add_gensrc_includes := x\<rparr>) v
      else if k = ''skip'' then bool_field (\<lambda>x. p\<lparr>p_skip := x\<rparr>) v
      else if k = ''force_enabled'' then bool_field (\<lambda>x. p\<lparr>p_force_enabled := x\<rparr>) v
      else Inl (TypeError (''ModulePolicy.__init__() got an unexpected keyword argument '' @ py_repr k)))"

definition module_policy_of :: "dict \<Rightarrow> exn + module_policy" where
  "module_policy_of kwargs = fold_r (\<lambda>(k, v) p. set_policy_field k v p) kwargs new_module_policy"

subsection \<open>Shared lists\<close>

definition art_gaps :: "string list" where
  "art_gaps =
    [''ART_STACK_OVERFLOW_GAP_arm=8192'', ''ART_STACK_OVERFLOW_GAP_arm64=8192'',
      ''ART_STACK_OVERFLOW_GAP_riscv64=8192'', ''ART_STACK_OVERFLOW_GAP_x86=8192'',
      ''ART_STACK_OVERFLOW_GAP_x86_64=8192'', ''ART_FRAME_SIZE_LIMIT=1744'']"

definition art_base_addresses :: "string list" where
  "art_base_addresses =
    [''ART_BASE_ADDRESS=0x60000000'', ''ART_BASE_ADDRESS_MIN_DELTA=(-0x1000000)'',
      ''ART_BASE_ADDRESS_MAX_DELTA=0x1000000'']"

definition windows_art_target :: "string list" where
  "windows_art_target =
    [''ART_TARGET'', ''ART_TARGET_WINDOWS'', ''ART_DEFAULT_GC_TYPE_IS_CMS'', ''USE_D8_DESUGAR=1'']"

definition windows_cflags :: "string list" where
  "windows_cflags =
    [''-Wno-thread-safety'', ''-Wno-unused-command-line-argument'', ''-Wno-microsoft-cast'']"

definition common_name_map :: "(string \<times> string) list" where
  "common_name_map =
    [(''libbase'', ''base''), (''liblog'', ''log''), (''libz'', ''z''), (''liblz4'', ''lz4''), (''liblzma'',
      ''lzma''), (''libnativehelper'', ''nativehelper''), (''libexpat'', ''expat'')]"

definition product_root_modules :: "string list" where
  "product_root_modules =
    [''dalvikvm'', ''dex2oat'', ''oatdump'', ''libart-compiler'', ''libjavacrypto'', ''libjavacore'',
      ''libopenjdk'', ''libicu_jni'', ''libopenjdkjvmti'']"

subsection \<open>The module tables\<close>

definition common_modules :: "(string \<times> dict) list" where
  "common_modules =
    [(''dalvikvm'', [(''kind'', VStr ''executable''), (''absorb_whole_static'', VBool False)]),
     (''dex2oat'', [(''kind'', VStr ''executable''), (''absorb_whole_static'', VBool False),
       (''add_shared_libs'', str_list ([''libart-dex2oat'', ''libart-compiler'', ''libart'', ''libartbase'',
       ''libdexfile'', ''libprofile'', ''libartpalette'', ''libelffile''])), (''remove_static_libs'',
       str_list ([''libdex2oat_static'']))]),
     (''oatdump'', [(''kind'', VStr ''executable''), (''absorb_whole_static'', VBool False),
       (''add_shared_libs'', str_list ([''libart'', ''libart-disassembler'', ''libartbase'', ''libbase'',
       ''libdexfile'', ''libprofile'', ''libelffile''])), (''remove_static_libs'',
       str_list ([''liboatdump_static'']))]),
     (''libart'', [(''kind'', VStr ''shared''), (''add_include_dirs'',
       str_list ([''external/cpu_features/include'']))]),
     (''libart-compiler'', [(''kind'', VStr ''shared''), (''add_shared_libs'', str_list ([''libart'',
       ''libart-disassembler'']))]),
     (''libart-dex2oat'', [(''kind'', VStr ''shared''), (''add_shared_libs'',
       str_list ([''libart-compiler'']))]),
     (''libart-disassembler'', [(''kind'', VStr ''shared'')]),
     (''libartbase'', [(''add_public_defines'', str_list (art_gaps))]),
     (''libartpalette'', [(''kind'', VStr ''shared''), (''add_shared_libs'', str_list ([''libbase'',
       ''liblog'']))]),
     (''libbase'', [(''kind'', VStr ''shared''), (''add_cppflags'',
       str_list ([''-Wno-deprecated-declarations'']))]),
     (''libcpu_features'', [(''kind'', VStr ''static''), (''add_defines'',
       str_list ([''HAVE_STRONG_GETAUXVAL'', ''HAVE_DLFCN_H'']))]),
     (''libdexfile'', [(''add_srcs'', str_list ([''external/dex_file_supp.cc'']))]),
     (''libicu'', [(''kind'', VStr ''shared''), (''add_defines'', str_list ([''U_SHOW_CPLUSPLUS_API=0'',
       ''__INTRODUCED_IN(x)='']))]),
     (''libicu_jni'', [(''kind'', VStr ''shared''), (''add_defines'', str_list ([''U_USING_ICU_NAMESPACE=0'',
       ''ANDROID_LINK_SHARED_ICU4C'', ''__INTRODUCED_IN(x)='']))]),
     (''libcrypto'', [(''kind'', VStr ''shared'')]),
     (''libssl'', [(''kind'', VStr ''shared'')]),
     (''libjavacrypto'', [(''kind'', VStr ''shared''), (''remove_static_libs'', str_list ([''libcrypto'',
       ''libssl''])), (''add_shared_libs'', str_list ([''libcrypto'', ''libssl'']))]),
     (''libjavacore'', [(''kind'', VStr ''shared''), (''remove_static_libs'',
       str_list ([''libnativehelper_compat_libc++'']))]),
     (''liblog'', [(''kind'', VStr ''shared'')]),
     (''liblzma'', [(''kind'', VStr ''shared'')]),
     (''libnativebridge'', [(''kind'', VStr ''shared'')]),
     (''libnativehelper'', [(''kind'', VStr ''shared'')]),
     (''libnativeloader'', [(''kind'', VStr ''shared'')]),
     (''libopenjdk'', [(''kind'', VStr ''shared''), (''remove_static_libs'',
       str_list ([''libnativehelper_compat_libc++'']))]),
     (''libopenjdkjvm'', [(''kind'', VStr ''shared'')]),
     (''libopenjdkjvmti'', [(''kind'', VStr ''shared'')]),
     (''libprocinfo'', [(''kind'', VStr ''shared'')]),
     (''libsigchain'', [(''kind'', VStr ''shared'')]),
     (''libtinyxml2'', [(''kind'', VStr ''shared''), (''remove_shared_libs'', str_list ([''liblog'']))]),
     (''libvixl'', [(''kind'', VStr ''static'')]),
     (''libunwindstack'', [(''add_shared_libs'', str_list ([''libdexfile''])), (''remove_static_libs'',
       str_list ([''libdexfile_support'', ''librustc_demangle_static''])), (''set_cpp_std'', VStr ''gnu++20'')]),
     (''libziparchive'', [(''kind'', VStr ''shared''), (''add_compat_include_dirs'', str_list ([''.'']))])]"

definition linux_module_delta :: "(string \<times> dict) list" where
  "linux_module_delta =
    [(''dalvikvm'', [(''add_shared_libs'', str_list ([''libart'', ''libsigchain''])), (''add_cflags'',
       str_list ([''-fPIC''])), (''add_ldflags'', str_list ([''-pie'']))]),
     (''dex2oat'', [(''add_cflags'', str_list ([''-fPIC''])), (''add_ldflags'', str_list ([''-pie'']))]),
     (''oatdump'', [(''add_cflags'', str_list ([''-fPIC''])), (''add_ldflags'', str_list ([''-pie'']))]),
     (''libandroidicuinit'', [(''kind'', VStr ''static''), (''add_cflags'', str_list ([''-fPIC'']))]),
     (''libandroidio'', [(''kind'', VStr ''shared'')]),
     (''libart'', [(''add_defines'', str_list (art_base_addresses @ art_gaps)), (''add_public_defines'',
       str_list ([''ART_DEFAULT_GC_TYPE_IS_CMS'', ''USE_D8_DESUGAR=1'', ''ART_TARGET'',
       ''ART_TARGET_LINUX''])), (''add_gensrc_includes'', str_list ([''art/asm/include'']))]),
     (''libartbase'', [(''kind'', VStr ''shared''), (''remove_static_libs'',
       str_list ([''art-aconfig-flags-lib'', ''art-aconfig-rw-flags-lib'', ''libaconfig_storage_read_api_cc'',
       ''libcore-aconfig-flags-native-lib'']))]),
     (''libbase'', [(''add_defines'', str_list ([''_FILE_OFFSET_BITS=64'']))]),
     (''libcrypto'', [(''kind'', VStr ''shared''), (''add_cflags'', str_list ([''-fPIC'',
       ''-fvisibility=hidden'', ''-Wno-unused-parameter'', ''-Wno-deprecated-declarations''])),
       (''add_defines'', str_list ([''BORINGSSL_SHARED_LIBRARY'', ''BORINGSSL_ANDROID_SYSTEM'',
       ''OPENSSL_SMALL''])), (''add_public_defines'', str_list ([''BORINGSSL_IMPLEMENTATION'']))]),
     (''libcrypto_static'', [(''kind'', VStr ''static''), (''add_cflags'', str_list ([''-fPIC'',
       ''-fvisibility=hidden'', ''-Wno-unused-parameter'', ''-Wno-deprecated-declarations''])),
       (''add_defines'', str_list ([''BORINGSSL_ANDROID_SYSTEM'', ''OPENSSL_SMALL''])),
       (''add_public_defines'', str_list ([''BORINGSSL_IMPLEMENTATION'']))]),
     (''libdexfile'', [(''kind'', VStr ''shared'')]),
     (''libelffile'', [(''add_cflags'', str_list ([''-fPIC'']))]),
     (''libfdlibm'', [(''add_cflags'', str_list ([''-fPIC''])), (''add_defines'', str_list ([''_IEEE_LIBM'',
       ''__LITTLE_ENDIAN'']))]),
     (''libicu'', [(''add_cflags'', str_list ([''-fvisibility=protected'']))]),
     (''libicu_jni'', [(''add_cflags'', str_list ([''-fvisibility=protected'', ''-Wno-unused-parameter'']))]),
     (''libjavacrypto'', [(''add_defines'', str_list ([''ANDROID'']))]),
     (''libicui18n'', [(''kind'', VStr ''shared''), (''add_cflags'', str_list ([''-fPIC'',
       ''-fvisibility=hidden'', ''-frtti'', ''-Wno-unused-parameter'', ''-Wno-deprecated-declarations''])),
       (''add_defines'', str_list ([''U_I18N_IMPLEMENTATION'', ''PIC'', ''_REENTRANT'']))]),
     (''libicuuc'', [(''kind'', VStr ''shared''), (''add_cflags'', str_list ([''-fPIC'',
       ''-fvisibility=hidden'', ''-frtti'', ''-Wno-unused-parameter'', ''-Wno-deprecated-declarations''])),
       (''add_defines'', str_list ([''U_COMMON_IMPLEMENTATION'', ''PIC'', ''_REENTRANT'']))]),
     (''libicuuc_stubdata'', [(''kind'', VStr ''static''), (''add_cflags'', str_list ([''-fPIC'']))]),
     (''libjavacore'', [(''add_cflags'', str_list ([''-fvisibility=protected'', ''-Wno-unused-parameter'',
       ''-Wno-unused-variable'', ''-Wno-parentheses-equality'', ''-Wno-constant-logical-operand'',
       ''-Wno-sometimes-uninitialized''])), (''add_defines'', str_list ([''U_USING_ICU_NAMESPACE=0'',
       ''__GLIBC__'', ''_LARGEFILE64_SOURCE'', ''_GNU_SOURCE'', ''LINUX'', ''__INTRODUCED_IN(x)='',
       ''LIBICU_U_SHOW_CPLUSPLUS_API=1''])), (''add_include_dirs'',
       str_list ([''external/boringssl/src/include'']))]),
     (''liblog'', [(''remove_srcs'', str_list ([''logprint.cpp'', ''event_tag_map.cpp'']))]),
     (''libnativehelper'', [(''set_c_std'', VStr ''gnu11'')]),
     (''libodrstatslog'', [(''add_cflags'', str_list ([''-fPIC'']))]),
     (''libopenjdk'', [(''add_cflags'', str_list ([''-fvisibility=protected'', ''-Wno-unused-parameter''])),
       (''add_defines'', str_list ([''U_USING_ICU_NAMESPACE=0'', ''__GLIBC__'', ''_LARGEFILE64_SOURCE'',
       ''_GNU_SOURCE'', ''LINUX'', ''__INTRODUCED_IN(x)=''])), (''add_include_dirs'',
       str_list ([''external/boringssl/src/include'']))]),
     (''libprofile'', [(''kind'', VStr ''shared'')]),
     (''libsigchain'', [(''add_defines'', str_list ([''CHAR_BIT=8'']))]),
     (''libunwindstack'', [(''kind'', VStr ''shared'')]),
     (''libvixl'', [(''add_cflags'', str_list ([''-fPIC'']))])]"

definition windows_module_delta_1 :: "(string \<times> dict) list" where
  "windows_module_delta_1 =
    [(''dalvikvm'', [(''add_shared_libs'', str_list ([''libart'', ''libsigchain'', ''liblog'',
       ''libnativehelper''])), (''add_cflags'', str_list (windows_cflags)), (''add_defines'',
       str_list ([''_CRT_SECURE_NO_WARNINGS''])), (''force_enabled'', VBool True)]),
     (''dex2oat'', [(''add_cflags'', str_list (windows_cflags)), (''add_defines'',
       str_list ([''_CRT_SECURE_NO_WARNINGS'', ''ART_CONSUMING_LIBART'', ''MDVM_WINDOWS_DEX2OAT_COMPAT''])),
       (''force_enabled'', VBool True)]),
     (''oatdump'', [(''add_cflags'', str_list (windows_cflags)), (''add_defines'',
       str_list ([''_CRT_SECURE_NO_WARNINGS'', ''ART_CONSUMING_LIBART''])), (''force_enabled'', VBool True)]),
     (''libart'', [(''remove_srcs'', str_list ([''monitor_linux.cc'', ''runtime_linux.cc'',
       ''thread_linux.cc''])), (''add_cflags'', str_list (windows_cflags)), (''add_defines'',
       str_list (art_base_addresses @ [''BUILDING_LIBART'', ''_CRT_SECURE_NO_WARNINGS''] @ art_gaps)),
       (''add_public_defines'', str_list (windows_art_target @ art_gaps)), (''add_gensrc_includes'',
       str_list ([''art/asm/include'', ''art/aconfig/include''])), (''force_enabled'', VBool True)]),
     (''libart-compiler'', [(''add_cflags'', str_list (windows_cflags)), (''add_defines'',
       str_list ([''_CRT_SECURE_NO_WARNINGS''])), (''force_enabled'', VBool True)]),
     (''libart-dex2oat'', [(''add_cflags'', str_list (windows_cflags)), (''add_defines'',
       str_list ([''_CRT_SECURE_NO_WARNINGS'', ''ART_CONSUMING_LIBART'', ''MDVM_WINDOWS_DEX2OAT_COMPAT''])),
       (''force_enabled'', VBool True)]),
     (''libart-disassembler'', [(''add_cflags'', str_list (windows_cflags)), (''force_enabled'', VBool True)]),
     (''libart-runtime'', [(''kind'', VStr ''static''), (''remove_srcs'', str_list ([''monitor_linux.cc'',
       ''runtime_linux.cc'', ''thread_linux.cc''])), (''add_cflags'', str_list (windows_cflags @
       [''-fno-delete-null-pointer-checks''])), (''add_defines'', str_list ([''_CRT_SECURE_NO_WARNINGS'',
       ''BUILDING_LIBART''])), (''add_public_defines'', str_list (windows_art_target @ art_gaps)),
       (''add_include_dirs'', str_list ([''external/cpu_features/include''])), (''add_gensrc_includes'',
       str_list ([''art/asm/include'', ''art/aconfig/include''])), (''force_enabled'', VBool True)]),
     (''libartbase'', [(''kind'', VStr ''shared''), (''add_shared_libs'', str_list ([''libziparchive'',
       ''libz'', ''liblog'', ''libartpalette'', ''libbase''])), (''remove_static_libs'',
       str_list ([''art-aconfig-flags-lib'', ''art-aconfig-rw-flags-lib'', ''libaconfig_storage_read_api_cc'',
       ''libcore-aconfig-flags-native-lib'', ''libcap'', ''libziparchive'', ''libz'', ''liblog'',
       ''libartpalette'', ''libbase''])), (''add_cflags'', str_list (windows_cflags)), (''add_defines'',
       str_list ([''_CRT_SECURE_NO_WARNINGS'', ''BUILDING_LIBARTBASE''])), (''add_gensrc_includes'',
       str_list ([''art/aconfig/include''])), (''force_enabled'', VBool True)]),
     (''libartpalette'', [(''remove_static_libs'', str_list ([''libbase'', ''liblog''])), (''force_enabled'',
       VBool True)]),
     (''libbase'', [(''add_cflags'', str_list (windows_cflags)), (''add_defines'',
       str_list ([''_CRT_SECURE_NO_WARNINGS''])), (''force_enabled'', VBool True)]),
     (''libcpu_features'', [(''remove_srcs'', str_list ([''src/impl_x86_linux_or_android.c''])), (''add_srcs'',
       str_list ([''src/impl_x86_windows.c''])), (''force_enabled'', VBool True)]),
     (''libdexfile'', [(''kind'', VStr ''static''), (''add_cflags'', str_list (windows_cflags)),
       (''add_public_defines'', str_list (art_gaps)), (''force_enabled'', VBool True)]),
     (''libelffile'', [(''kind'', VStr ''static''), (''add_cflags'', str_list (windows_cflags)),
       (''force_enabled'', VBool True)]),
     (''libicu'', [(''force_enabled'', VBool True)]),
     (''libicu_jni'', [(''add_cflags'', str_list (windows_cflags)), (''force_enabled'', VBool True)]),
     (''libcrypto'', [(''add_cflags'', str_list (windows_cflags @ [''-fvisibility=hidden'',
       ''-Wno-unused-parameter'', ''-Wno-deprecated-declarations'', ''-Wno-bitwise-op-parentheses'',
       ''-Wno-unknown-pragmas''])), (''add_defines'', str_list ([''BORINGSSL_SHARED_LIBRARY'',
       ''BORINGSSL_ANDROID_SYSTEM'', ''BORINGSSL_IMPLEMENTATION'', ''OPENSSL_NO_ASM'', ''OPENSSL_SMALL''])),
       (''add_shared_libs'', str_list ([''bcrypt'', ''advapi32''])), (''force_enabled'', VBool True)]),
     (''libssl'', [(''add_cflags'', str_list (windows_cflags @ [''-Wno-unused-parameter''])), (''add_defines'',
       str_list ([''OPENSSL_NO_ASM''])), (''force_enabled'', VBool True)])]"

definition windows_module_delta_2 :: "(string \<times> dict) list" where
  "windows_module_delta_2 =
    [(''libjavacrypto'', [(''add_cflags'', str_list (windows_cflags @ [''-Wno-unused-parameter'',
       ''-Wno-sign-compare''])), (''add_defines'', str_list ([''CONSCRYPT_OPENJDK'', ''OPENSSL_NO_ASM'',
       ''CONST=const'', ''MDVM_WINDOWS_KEEP_CONST_MACRO=1''])), (''force_enabled'', VBool True)]),
     (''libjavacore'', [(''remove_srcs'', str_list ([''libcore_io_Linux.cpp'', ''cbigint.cpp'',
       ''android_system_OsConstantsHolder.cpp''])), (''add_shared_libs'', str_list ([''libicuuc'',
       ''libicui18n'', ''libopenjdkjvm''])), (''add_cflags'', str_list (windows_cflags)), (''add_defines'',
       str_list ([''U_USING_ICU_NAMESPACE=0'', ''ANDROID_LINK_SHARED_ICU4C'',
       ''LIBICU_U_SHOW_CPLUSPLUS_API=1'', ''MDVM_WINDOWS_KEEP_CONST_MACRO'', ''__INTRODUCED_IN(x)=''])),
       (''force_enabled'', VBool True)]),
     (''liblog'', [(''remove_srcs'', str_list ([''logprint.cpp'', ''event_tag_map.cpp'',
       ''logger_name.cpp''])), (''add_defines'', str_list ([''_CRT_SECURE_NO_WARNINGS''])), (''force_enabled'',
       VBool True)]),
     (''liblzma'', [(''remove_srcs'', str_list ([''AesOpt.c''])), (''force_enabled'', VBool True)]),
     (''libnativebridge'', [(''add_cflags'', str_list (windows_cflags)), (''force_enabled'', VBool True)]),
     (''libnativehelper'', [(''add_defines'', str_list ([''_CRT_SECURE_NO_WARNINGS''])), (''set_c_std'',
       VStr ''c11''), (''force_enabled'', VBool True)]),
     (''libnativeloader'', [(''add_cflags'', str_list (windows_cflags)), (''force_enabled'', VBool True)]),
     (''libodrstatslog'', [(''kind'', VStr ''static''), (''add_cflags'', str_list (windows_cflags)),
       (''force_enabled'', VBool True)]),
     (''libopenjdk'', [(''remove_srcs'', str_list ([''linux_close.cpp'', ''NativeThread.c'', ''OnLoad.cpp'',
       ''LinuxNativeDispatcher.c'', ''LinuxWatchService.c'', ''UnixCopyFile.c'', ''UnixNativeDispatcher.c'',
       ''UNIXProcess_md.c'', ''EPollPort.c'', ''UnixAsynchronousServerSocketChannelImpl.c'',
       ''UnixAsynchronousSocketChannelImpl.c'', ''FileSystemPreferences.c'', ''UnixDomainSockets.c'',
       ''UnixFileSystem_md.c'', ''System.c'', ''Runtime.c''])), (''add_shared_libs'', str_list ([''libicuuc'',
       ''libopenjdkjvm''])), (''add_cflags'', str_list (windows_cflags)), (''add_defines'',
       str_list ([''U_USING_ICU_NAMESPACE=0'', ''_LP64=1'', ''__INTRODUCED_IN(x)=''])), (''force_enabled'',
       VBool True)]),
     (''libopenjdkjvm'', [(''add_cflags'', str_list (windows_cflags)), (''add_defines'',
       str_list ([''ART_CONSUMING_LIBART'', ''MDVM_SOCKET_FD_REGISTRY_EXPORTS=1''])), (''force_enabled'',
       VBool True)]),
     (''libopenjdkjvmti'', [(''add_cflags'', str_list (windows_cflags)), (''add_defines'',
       str_list ([''ART_CONSUMING_LIBART'', ''_CRT_SECURE_NO_WARNINGS''])), (''force_enabled'', VBool True)]),
     (''libprocinfo'', [(''remove_srcs'', str_list ([''process.cpp''])), (''force_enabled'', VBool True)]),
     (''libprofile'', [(''kind'', VStr ''static''), (''add_cflags'', str_list (windows_cflags)),
       (''force_enabled'', VBool True)]),
     (''libsigchain'', [(''remove_srcs'', str_list ([''sigchain.cc'', ''sigchain_fake.cc''])), (''add_cflags'',
       str_list (windows_cflags)), (''add_defines'', str_list ([''CHAR_BIT=8'', ''_CRT_SECURE_NO_WARNINGS''])),
       (''force_enabled'', VBool True)]),
     (''libtinyxml2'', [(''force_enabled'', VBool True)]),
     (''libunwindstack'', [(''kind'', VStr ''static''), (''remove_srcs'', str_list ([''AsmGetRegsX86_64.S'',
       ''AsmGetRegsX86.S'', ''AsmGetRegsArm.S'', ''AsmGetRegsArm64.S''])), (''add_cflags'',
       str_list (windows_cflags)), (''force_enabled'', VBool True)]),
     (''libziparchive'', [(''add_defines'', str_list ([''_CRT_SECURE_NO_WARNINGS''])), (''force_enabled'',
       VBool True)])]"

definition windows_module_delta :: "(string \<times> dict) list" where
  "windows_module_delta = windows_module_delta_1 @ windows_module_delta_2"

subsection \<open>Composition for a profile\<close>

definition product_blueprint_scan :: scan_policy where
  "product_blueprint_scan =
     \<lparr>excluded_path_components = [''test'', ''tests'', ''fuzz'', ''benchmark'', ''sample''],
      excluded_top_levels = [(''MDVM_NATIVE_SRC_ROOT_DIR'', [''art''])]\<rparr>"

definition lp64_arches :: "string list" where
  "lp64_arches = [''x86_64'', ''aarch64'', ''arm64ec'']"

definition global_policy_for :: "target_profile \<Rightarrow> exn + global_policy" where
  "global_policy_for profile =
     (let common = new_global_policy
            \<lparr>g_name_map := common_name_map,
             g_host_libs := [''libz'', ''liblz4'', ''libcap'', ''libexpat''],
             g_drop_cflags := [''-Werror'', ''-Wthread-safety'', ''-Wmissing-noreturn'',
               ''-fvisibility=protected''],
             g_art_defines := art_gaps @ [''ART_PAGE_SIZE_AGNOSTIC=1'', ''ART_DEFAULT_GC_TYPE_IS_CMS''],
             g_drop_ldflags := [''-Wl,--exclude-libs=libziparchive.a''],
             g_drop_ldflags_containing := [''art_common/out'', ''--enable-new-dtags'']\<rparr>
      in if tp_platform profile = ''linux'' then Inr common
      else if tp_platform profile = ''windows'' then
        Inr (common
          \<lparr>g_name_map := AList.update ''libcap'' ''cap'' common_name_map,
           g_art_defines := (if tp_arch profile \<in> set lp64_arches
             then g_art_defines common @ [''__LP64__=1''] else g_art_defines common),
           g_drop_cflags := [''-Werror'', ''-Wthread-safety'', ''-Wmissing-noreturn'',
             ''-fvisibility=protected'', ''-Wl,--exclude-libs=libziparchive.a''],
           g_drop_ldflags := [''-z max-page-size=0x200000'', ''-Wl,--exclude-libs=libziparchive.a'',
             ''-Wl,--export-dynamic'', ''-pie'', ''-static-libgcc'', ''-static-libstdc++'', ''-Wl,-z,global''],
           g_drop_ldflags_containing := [''art_common/out'', ''--enable-new-dtags'', ''Wl,-z,'', ''-z '',
             ''max-page-size'', ''z,max-page-size''],
           g_add_ldflags := [''LINKER:/CETCOMPAT:NO'', ''LINKER:/DYNAMICBASE'', ''LINKER:/NXCOMPAT'']
             @ (if tp_arch profile \<in> set lp64_arches then [''LINKER:/HIGHENTROPYVA''] else [])\<rparr>)
      else Inl (ValueError (''no ART overlay policy for target '' @ py_repr (tp_id profile))))"

text \<open>\<open>{**common.get(name, {}), **delta.get(name, {})}\<close>: a field of the delta replaces the whole
  field of the common entry.\<close>

definition table_entry :: "(string \<times> dict) list \<Rightarrow> string \<Rightarrow> dict" where
  "table_entry table name = (case map_of table name of Some d \<Rightarrow> d | None \<Rightarrow> [])"

definition policy_kwargs :: "(string \<times> dict) list \<Rightarrow> string \<Rightarrow> dict" where
  "policy_kwargs delta name = dict_of (table_entry common_modules name @ table_entry delta name)"

definition policy_names :: "(string \<times> dict) list \<Rightarrow> string list" where
  "policy_names delta = map fst common_modules
     @ filter (\<lambda>name. name \<notin> fst ` set common_modules) (map fst delta)"

text \<open>The generated interpreter of the profile is the generated source of the two runtime modules.\<close>

definition runtime_modules :: "string list" where
  "runtime_modules = [''libart'', ''libart-runtime'']"

definition with_mterp :: "target_profile \<Rightarrow> string \<times> module_policy \<Rightarrow> string \<times> module_policy" where
  "with_mterp profile entry =
     (if fst entry \<in> set runtime_modules
      then (fst entry, (snd entry)\<lparr>p_add_gensrc_sources := [''art/asm/mterp/'' @ tp_mterp_output profile]\<rparr>)
      else entry)"

definition module_policies ::
  "target_profile \<Rightarrow> (string \<times> dict) list \<Rightarrow> exn + (string \<times> module_policy) list" where
  "module_policies profile delta =
     rbind (map_r (\<lambda>name. rbind (module_policy_of (policy_kwargs delta name)) (\<lambda>p. Inr (name, p)))
       (policy_names delta))
     (\<lambda>policies. Inr (map (with_mterp profile) policies))"

definition art_make_overlay :: "target_profile \<Rightarrow> exn + overlay" where
  "art_make_overlay profile =
     (let with_delta = (\<lambda>delta.
        rbind (global_policy_for profile) (\<lambda>glob.
        rbind (module_policies profile delta) (\<lambda>mods.
        make_overlay glob mods product_blueprint_scan product_root_modules)))
      in if tp_platform profile = ''linux'' then with_delta linux_module_delta
      else if tp_id profile = ''windows-x86_64-msvc'' then with_delta windows_module_delta
      else Inl (ValueError (''no reviewed ART overlay policy for target '' @ py_repr (tp_id profile))))"

subsection \<open>The tables load\<close>

text \<open>Every entry of the composed tables is accepted by the constructor.\<close>

definition policy_loads :: "dict \<Rightarrow> bool" where
  "policy_loads kwargs = (case module_policy_of kwargs of Inr p \<Rightarrow> True | Inl e \<Rightarrow> False)"

lemma linux_policies_load: "list_all (\<lambda>name. policy_loads (policy_kwargs linux_module_delta name)) (policy_names linux_module_delta)"
  by code_simp

lemma windows_policies_load: "list_all (\<lambda>name. policy_loads (policy_kwargs windows_module_delta name)) (policy_names windows_module_delta)"
  by code_simp

lemma product_roots_ok: "distinct product_root_modules \<and> [] \<notin> set product_root_modules"
  by code_simp

lemma map_r_named_total:
  assumes "list_all (\<lambda>name. policy_loads (f name)) names"
  shows "\<exists>ps. map_r (\<lambda>name. rbind (module_policy_of (f name)) (\<lambda>p. Inr (name, p))) names = Inr ps"
  using assms
proof (induction names)
  case (Cons name names)
  then obtain p ps where "module_policy_of (f name) = Inr p"
    and "map_r (\<lambda>name. rbind (module_policy_of (f name)) (\<lambda>p. Inr (name, p))) names = Inr ps"
    by (auto simp: policy_loads_def split: sum.splits)
  then show ?case by simp
qed simp

lemma module_policies_load:
  "\<exists>ps. module_policies profile linux_module_delta = Inr ps"
  "\<exists>ps. module_policies profile windows_module_delta = Inr ps"
  using map_r_named_total [OF linux_policies_load] map_r_named_total [OF windows_policies_load]
  by (auto simp: module_policies_def)

lemma make_overlay_product:
  "make_overlay glob mods product_blueprint_scan product_root_modules =
     Inr \<lparr>ov_global = glob, ov_modules = mods, ov_scan = product_blueprint_scan, ov_roots = product_root_modules\<rparr>"
  using product_roots_ok by (auto simp: make_overlay_def)

lemma art_make_overlay_iff:
  "(\<exists>ov. art_make_overlay p = Inr ov) \<longleftrightarrow>
     tp_platform p = ''linux'' \<or> tp_platform p = ''windows'' \<and> tp_id p = ''windows-x86_64-msvc''"
  using module_policies_load [of p]
  by (auto simp: art_make_overlay_def global_policy_for_def Let_def make_overlay_product split: if_splits)

text \<open>A delta replaces no field of the common table: both products keep its value.\<close>

lemma common_entries_kept:
  "list_all (\<lambda>(name, d). list_all (\<lambda>(k, v).
     map_of (policy_kwargs linux_module_delta name) k = Some v
     \<and> map_of (policy_kwargs windows_module_delta name) k = Some v) d) common_modules"
  by code_simp

subsection \<open>Properties\<close>

lemma registry_generatable:
  "list_all (\<lambda>(n, p). target_buildable p \<longrightarrow>
     tp_platform p = ''linux'' \<or> tp_platform p = ''windows'' \<and> tp_id p = ''windows-x86_64-msvc'') target_profiles"
  by code_simp

lemma resolve_target_in_registry: "resolve_target t = Inr p \<Longrightarrow> (t, p) \<in> set target_profiles"
  by (auto simp: resolve_target_def Let_def split: option.splits list.splits dest: map_of_SomeD)

lemma map_r_named:
  assumes "map_r (\<lambda>name. rbind (f name) (\<lambda>p. Inr (name, p))) names = Inr ps"
  shows "map fst ps = names"
  using assms
proof (induction names arbitrary: ps)
  case (Cons name names)
  then show ?case by (auto simp: rbind_Inr_iff)
qed simp

lemma module_policies_mterp:
  assumes "module_policies profile delta = Inr ps" and "map_of ps name = Some pol" and "name \<in> set runtime_modules"
  shows "p_add_gensrc_sources pol = [''art/asm/mterp/'' @ tp_mterp_output profile]"
proof -
  obtain qs where ps: "ps = map (with_mterp profile) qs"
    using assms(1) by (auto simp: module_policies_def rbind_Inr_iff)
  with assms(2) have "(name, pol) \<in> set (map (with_mterp profile) qs)" by (auto dest: map_of_SomeD)
  with assms(3) show ?thesis by (auto simp: with_mterp_def split: if_splits)
qed

lemma fst_with_mterp [simp]: "fst (with_mterp profile entry) = fst entry"
  by (simp add: with_mterp_def)

lemma module_policies_domain:
  "module_policies profile delta = Inr ps \<Longrightarrow> map fst ps = policy_names delta"
  by (auto simp: module_policies_def rbind_Inr_iff o_def dest!: map_r_named)

lemma art_make_overlay_parts:
  assumes "art_make_overlay p = Inr ov"
  obtains glob mods delta where "global_policy_for p = Inr glob" and "module_policies p delta = Inr mods"
    and "delta = (if tp_platform p = ''linux'' then linux_module_delta else windows_module_delta)"
    and "ov = \<lparr>ov_global = glob, ov_modules = mods, ov_scan = product_blueprint_scan, ov_roots = product_root_modules\<rparr>"
  using assms by (auto simp: art_make_overlay_def Let_def make_overlay_product rbind_Inr_iff split: if_splits)

text \<open>A target that may be generated has a reviewed policy: the product's overlay is built, its
  roots are the nine product modules, and the runtime library is compiled with the interpreter
  that was generated for the profile's own instruction set and with no other.\<close>

theorem generatable_target_has_policy:
  assumes "resolve_target t = Inr p" and "require_generation p = Inr ()"
  shows "\<exists>ov pol. art_make_overlay p = Inr ov \<and> ov_roots ov = product_root_modules
    \<and> map_of (ov_modules ov) ''libart'' = Some pol
    \<and> p_add_gensrc_sources pol = [''art/asm/mterp/'' @ tp_mterp_output p]"
proof -
  have "target_buildable p" using assms(2) by (auto simp: require_generation_def Let_def split: if_splits)
  with resolve_target_in_registry [OF assms(1)] registry_generatable
  have "tp_platform p = ''linux'' \<or> tp_platform p = ''windows'' \<and> tp_id p = ''windows-x86_64-msvc''"
    by (auto simp: list_all_iff)
  then obtain ov where ov: "art_make_overlay p = Inr ov" using art_make_overlay_iff by blast
  then obtain glob mods delta where mods: "module_policies p delta = Inr mods"
    and parts: "ov = \<lparr>ov_global = glob, ov_modules = mods, ov_scan = product_blueprint_scan, ov_roots = product_root_modules\<rparr>"
    by (rule art_make_overlay_parts)
  have "''libart'' \<in> set (policy_names delta)"
    by (simp add: policy_names_def) (simp add: common_modules_def)
  then have "''libart'' \<in> fst ` set mods" using module_policies_domain [OF mods] by (metis list.set_map)
  then obtain pol where pol: "map_of mods ''libart'' = Some pol" by (metis map_of_eq_None_iff not_None_eq)
  then have "p_add_gensrc_sources pol = [''art/asm/mterp/'' @ tp_mterp_output p]"
    by (rule module_policies_mterp [OF mods]) (simp add: runtime_modules_def)
  with ov parts pol show ?thesis by auto
qed

theorem generatable_target_has_policy_witness:
  "resolve_target ''windows-x86_64-msvc'' = Inr (the (map_of target_profiles ''windows-x86_64-msvc''))
   \<and> (\<exists>ov. art_make_overlay (the (map_of target_profiles ''windows-x86_64-msvc'')) = Inr ov)"
proof -
  have "resolve_target ''windows-x86_64-msvc'' = Inr (the (map_of target_profiles ''windows-x86_64-msvc''))
      \<and> require_generation (the (map_of target_profiles ''windows-x86_64-msvc'')) = Inr ()"
    by code_simp
  then show ?thesis using generatable_target_has_policy by blast
qed

definition pe_process_contract :: "string list" where
  "pe_process_contract = [''LINKER:/CETCOMPAT:NO'', ''LINKER:/DYNAMICBASE'', ''LINKER:/NXCOMPAT'', ''LINKER:/HIGHENTROPYVA'']"

lemma pe_process_contract_kept:
  "list_all (\<lambda>f. f \<notin> set [''-z max-page-size=0x200000'', ''-Wl,--exclude-libs=libziparchive.a'',
       ''-Wl,--export-dynamic'', ''-pie'', ''-static-libgcc'', ''-static-libstdc++'', ''-Wl,-z,global'']
     \<and> list_all (\<lambda>sub. \<not> contains sub f) [''art_common/out'', ''--enable-new-dtags'', ''Wl,-z,'', ''-z '',
       ''max-page-size'', ''z,max-page-size'']) pe_process_contract"
  by code_simp

lemma windows_global_policy:
  assumes "global_policy_for p = Inr glob" and "tp_platform p = ''windows''" and "tp_arch p = ''x86_64''"
  shows "g_add_ldflags glob = pe_process_contract
    \<and> list_all (\<lambda>f. f \<notin> set (g_drop_ldflags glob)
        \<and> list_all (\<lambda>sub. \<not> contains sub f) (g_drop_ldflags_containing glob)) pe_process_contract
    \<and> ''-pie'' \<in> set (g_drop_ldflags glob)
    \<and> ''Wl,-z,'' \<in> set (g_drop_ldflags_containing glob)"
proof -
  have "g_add_ldflags glob = pe_process_contract
    \<and> g_drop_ldflags glob = [''-z max-page-size=0x200000'', ''-Wl,--exclude-libs=libziparchive.a'',
       ''-Wl,--export-dynamic'', ''-pie'', ''-static-libgcc'', ''-static-libstdc++'', ''-Wl,-z,global'']
    \<and> g_drop_ldflags_containing glob = [''art_common/out'', ''--enable-new-dtags'', ''Wl,-z,'', ''-z '',
       ''max-page-size'', ''z,max-page-size'']"
    using assms by (auto simp: global_policy_for_def lp64_arches_def pe_process_contract_def Let_def)
  then show ?thesis using pe_process_contract_kept
    by (elim conjE) (simp only: list.set insert_iff refl simp_thms)
qed



end
