(* ===== verification/PyPath.thy ===== *)
theory PyPath
  imports BpLocalConfig
begin

section \<open>Parts and suffixes of paths\<close>

text \<open>What the tools use of \<open>pathlib.PurePosixPath\<close> beside the root and the names.\<close>

text \<open>\<open>PurePosixPath.suffix\<close> of a file name: from the last dot, which is neither first nor last.\<close>

fun last_dot :: "string \<Rightarrow> nat option" where
  "last_dot [] = None"
| "last_dot (c # cs) =
     (case last_dot cs of Some i \<Rightarrow> Some (Suc i) | None \<Rightarrow> if c = CHR ''.'' then Some 0 else None)"

definition name_suffix :: "string \<Rightarrow> string" where
  "name_suffix name =
     (case last_dot name of
        Some i \<Rightarrow> if 0 < i \<and> Suc i < length name then drop i name else []
      | None \<Rightarrow> [])"

definition path_suffix :: "pypath \<Rightarrow> string" where
  "path_suffix p = (if pp_names p = [] then [] else name_suffix (last (pp_names p)))"

text \<open>\<open>s.isascii()\<close> and \<open>path.parts\<close>: the root of an absolute path is its first part.\<close>

definition is_ascii :: "string \<Rightarrow> bool" where
  "is_ascii s = list_all (\<lambda>c. code_point c < 128) s"

definition path_parts :: "pypath \<Rightarrow> string list" where
  "path_parts p = (if pp_root p = [] then pp_names p else pp_root p # pp_names p)"

subsection \<open>The suffix of a name\<close>

lemma last_dot_free: "CHR ''.'' \<notin> set s \<Longrightarrow> last_dot s = None"
  by (induction s) auto

lemma last_dot_append: "CHR ''.'' \<notin> set e \<Longrightarrow> last_dot (stem @ CHR ''.'' # e) = Some (length stem)"
  by (induction stem) (simp_all add: last_dot_free)

lemma name_suffix_append:
  "stem \<noteq> [] \<Longrightarrow> e \<noteq> [] \<Longrightarrow> CHR ''.'' \<notin> set e \<Longrightarrow> name_suffix (stem @ CHR ''.'' # e) = CHR ''.'' # e"
  by (simp add: name_suffix_def last_dot_append)

lemma split_on_last:
  "c \<notin> set w \<Longrightarrow> dir = [] \<or> last dir = c \<Longrightarrow> \<exists>ws. split_on c (dir @ w) = ws @ [w]"
proof (induction dir)
  case Nil
  then show ?case by (simp add: split_on_no)
next
  case (Cons x dir)
  then obtain ws where ws: "split_on c (dir @ w) = ws @ [w]" by (auto split: if_splits)
  show ?case
  proof (cases "x = c")
    case True
    with ws show ?thesis by auto
  next
    case False
    with Cons.prems obtain y ys where "dir = y # ys" by (cases dir) auto
    with Cons.prems(2) have "c \<in> set (dir @ w)" by (metis append_is_Nil_conv Un_iff last_in_set last_ConsR list.distinct(1) set_append)
    with ws False show ?thesis by (cases ws) (auto dest: arg_cong [of _ _ "join_str [c]"] simp: Cons.prems(1))
  qed
qed

lemma path_suffix_name:
  assumes "slash \<notin> set name" and "name \<noteq> []" and "name \<noteq> ''.''" and "dir = [] \<or> last dir = slash"
  shows "path_suffix (path_of (dir @ name)) = name_suffix name"
proof -
  obtain ws where "split_on slash (dir @ name) = ws @ [name]"
    using split_on_last [OF assms(1,4)] by blast
  with assms(2,3) show ?thesis by (simp add: path_suffix_def path_of_def)
qed

end
