(* ===== verification/ArtIdentity.thy ===== *)
theory ArtIdentity
  imports PyRepr BpJson PyPath BpFiles
begin

section \<open>The identity contract of the Windows boot image\<close>

text \<open>
  \<open>tools/windows_aot_identity.py\<close>: the strings that the generation of a Windows boot image records
  and the launcher passes, the comparison of both sides, the decoding of the contract from a
  manifest, and the gate that runs the comparison on the canonical pair and on a matrix of
  mismatches. The exception carries the field that differs beside its message. The directory of
  the result file is taken to exist; the printed summary and the argument parser are left out.
\<close>

datatype identity_exn = IdentityError (error_field: string) (error_message: string)

definition contract_version :: int where
  "contract_version = 1"

definition identity_target_id :: string where
  "identity_target_id = ''windows-x86_64-msvc''"

definition instruction_set :: string where
  "instruction_set = ''x86_64''"

definition boot_components :: "string list" where
  "boot_components = [''boot'']"

definition logical_boot_jar :: string where
  "logical_boot_jar = ''/system/framework/boot.jar''"

definition package_boot_jar :: string where
  "package_boot_jar = ''runtime/boot.jar''"

definition startup_image_location :: string where
  "startup_image_location = ''runtime/boot-image/boot.art''"

definition package_image_files :: "string list" where
  "package_image_files =
     map (\<lambda>extension. ''runtime/boot-image/'' @ instruction_set @ ''/boot.'' @ extension)
       [''art'', ''oat'', ''vdex'']"

record identity_use =
  boot_class_path_locations :: "string list"
  image_location :: string
  components :: "string list"

definition canonical_identity :: identity_use where
  "canonical_identity = \<lparr>boot_class_path_locations = [logical_boot_jar],
     image_location = startup_image_location, components = boot_components\<rparr>"

definition boot_class_path_text :: "identity_use \<Rightarrow> string" where
  "boot_class_path_text identity = join_str '':'' (boot_class_path_locations identity)"

definition contract_record :: dict where
  "contract_record =
     [(''version'', VInt contract_version),
      (''target_id'', VStr identity_target_id),
      (''instruction_set'', VStr instruction_set),
      (''component_topology'', VStr ''single''),
      (''components'', VList (map VStr boot_components)),
      (''boot_class_path_locations'', VList (map VStr (boot_class_path_locations canonical_identity))),
      (''boot_class_path_text'', VStr (boot_class_path_text canonical_identity)),
      (''package_boot_jar'', VStr package_boot_jar),
      (''startup_image_location'', VStr startup_image_location),
      (''package_image_files'', VList (map VStr package_image_files))]"

definition generation_options :: "string list" where
  "generation_options =
     [''--dex-location='' @ logical_boot_jar,
      ''-Xbootclasspath-locations:'' @ boot_class_path_text canonical_identity]"

definition startup_options :: "string list" where
  "startup_options =
     [''-Xbootclasspath-locations:'' @ boot_class_path_text canonical_identity,
      ''-Ximage:'' @ startup_image_location]"

subsection \<open>Decoding the contract of a manifest\<close>

text \<open>\<open>record.get(key) != expected.get(key)\<close>: a key that is absent is as \<open>None\<close>.\<close>

definition differing_keys :: "dict \<Rightarrow> dict \<Rightarrow> string list" where
  "differing_keys record expected =
     filter (\<lambda>key. \<not> py_eq (dget record key VNone) (dget expected key VNone))
       (sort (remdups (map fst record @ map fst expected)))"

definition identity_from_contract_record :: "pyval \<Rightarrow> identity_exn + identity_use" where
  "identity_from_contract_record v =
     (let expected = contract_record in
      case v of
        VDict record \<Rightarrow>
          if \<not> py_eq v (VDict expected) then
            let field_name = (case differing_keys record expected of key # keys \<Rightarrow> key
                  | [] \<Rightarrow> ''manifest-contract'') in
            Inl (IdentityError field_name
              (''Windows AOT manifest contract mismatch for '' @ field_name @ '': generated=''
               @ value_repr (dget record field_name VNone) @ '', expected=''
               @ value_repr (dget expected field_name VNone)))
          else Inr \<lparr>boot_class_path_locations = [logical_boot_jar],
            image_location = startup_image_location, components = boot_components\<rparr>
      | _ \<Rightarrow> Inl (IdentityError ''manifest-contract'' ''Windows AOT manifest contract is not an object''))"

subsection \<open>Comparing generation and startup\<close>

text \<open>\<open>repr\<close> of the dataclass.\<close>

definition identity_repr :: "identity_use \<Rightarrow> string" where
  "identity_repr u = ''IdentityUse(boot_class_path_locations='' @ tuple_repr (boot_class_path_locations u)
     @ '', image_location='' @ py_repr (image_location u)
     @ '', components='' @ tuple_repr (components u) @ '')''"

definition validate_generation_startup :: "identity_use \<Rightarrow> identity_use \<Rightarrow> identity_exn + unit" where
  "validate_generation_startup generation startup =
     rbind (fold_r (\<lambda>(field_name, differs, generated, loaded) u.
         if differs then Inl (IdentityError field_name
           (field_name @ '' mismatch: generation='' @ generated @ '', startup='' @ loaded))
         else Inr ())
       [(''boot-class-path'', boot_class_path_locations generation \<noteq> boot_class_path_locations startup,
         tuple_repr (boot_class_path_locations generation), tuple_repr (boot_class_path_locations startup)),
        (''image-location'', image_location generation \<noteq> image_location startup,
         py_repr (image_location generation), py_repr (image_location startup)),
        (''component-topology'', components generation \<noteq> components startup,
         tuple_repr (components generation), tuple_repr (components startup))] ())
     (\<lambda>_. if generation \<noteq> canonical_identity then Inl (IdentityError ''canonical-contract''
         (''matching generation/startup identity is not canonical: '' @ identity_repr generation))
       else Inr ())"

definition intentional_startup_mismatches :: "(string \<times> identity_use \<times> string) list" where
  "intentional_startup_mismatches =
     [(''boot-location-case'',
       canonical_identity\<lparr>boot_class_path_locations := [''/System/framework/boot.jar'']\<rparr>, ''boot-class-path''),
      (''boot-location-separator'',
       canonical_identity\<lparr>boot_class_path_locations :=
         [CHR 0x5C # ''system'' @ CHR 0x5C # ''framework'' @ CHR 0x5C # ''boot.jar'']\<rparr>, ''boot-class-path''),
      (''boot-location-physical'',
       canonical_identity\<lparr>boot_class_path_locations := [''C:/package/runtime/boot.jar'']\<rparr>, ''boot-class-path''),
      (''image-location-case'',
       canonical_identity\<lparr>image_location := ''Runtime/boot-image/boot.art''\<rparr>, ''image-location''),
      (''image-location-separator'',
       canonical_identity\<lparr>image_location :=
         ''runtime'' @ CHR 0x5C # ''boot-image'' @ CHR 0x5C # ''boot.art''\<rparr>, ''image-location''),
      (''image-location-physical'',
       canonical_identity\<lparr>image_location := ''C:/package/runtime/boot-image/boot.art''\<rparr>, ''image-location''),
      (''extra-component'',
       canonical_identity\<lparr>components := [''boot'', ''boot-framework'']\<rparr>, ''component-topology'')]"

subsection \<open>The gate\<close>

definition gate_bug :: "string \<Rightarrow> identity_exn + 'a" where
  "gate_bug message = Inl (IdentityError ''gate-contract'' message)"

definition check_mismatch :: "string \<times> identity_use \<times> string \<Rightarrow> identity_exn + pyval" where
  "check_mismatch c =
     (case c of (name, startup, expected_field) \<Rightarrow>
        case validate_generation_startup canonical_identity startup of
          Inl e \<Rightarrow>
            if error_field e \<noteq> expected_field then
              gate_bug (name @ '' reported '' @ py_repr (error_field e) @ '', expected '' @ py_repr expected_field)
            else Inr (VDict [(''case'', VStr name), (''field'', VStr (error_field e)),
              (''diagnostic'', VStr (error_message e))])
        | Inr u \<Rightarrow> gate_bug (''intentional mismatch was accepted: '' @ name))"

definition run_gate :: "string \<Rightarrow> string \<Rightarrow> fsys \<Rightarrow> identity_exn + (string \<times> fsys)" where
  "run_gate target_id result_path fs =
     (if target_id \<noteq> identity_target_id then
        Inl (IdentityError ''target-id'' (''identity contract accepts only '' @ identity_target_id
          @ '', got '' @ py_repr target_id))
      else
        rbind (validate_generation_startup canonical_identity canonical_identity) (\<lambda>_.
        rbind (map_r check_mismatch intentional_startup_mismatches) (\<lambda>rejected.
        Inr (result_path, write_file result_path
          (json_dumps (VDict
            [(''schema_version'', VInt 1),
             (''target_id'', VStr target_id),
             (''contract'', VDict contract_record),
             (''generation_options'', VList (map VStr generation_options)),
             (''startup_options'', VList (map VStr startup_options)),
             (''byte_exact_match'', VBool True),
             (''rejected_mismatches'', VList rejected)]) @ [newline]) fs))))"

definition validate_static_contract :: "identity_exn + unit" where
  "validate_static_contract =
     (if boot_components \<noteq> [''boot''] then
        gate_bug ''the initial Windows AOT topology must have one boot component''
      else rbind (fold_r (\<lambda>location u.
          if \<not> is_ascii location \<or> \<not> is_absolute (path_of location) \<or> CHR 0x5C \<in> set location
             \<or> CHR '':'' \<in> set location
          then gate_bug (''invalid logical boot-class-path location: '' @ py_repr location) else Inr ())
        (boot_class_path_locations canonical_identity) ()) (\<lambda>_.
      let image = path_of startup_image_location in
      if \<not> is_ascii startup_image_location \<or> is_absolute image \<or> CHR 0x5C \<in> set startup_image_location
         \<or> CHR '':'' \<in> set startup_image_location
         \<or> (\<exists>part \<in> set (path_parts image). part \<in> {[], ''.'', ''..''})
         \<or> path_suffix image \<noteq> ''.art''
      then gate_bug (''invalid package-relative image location: '' @ py_repr startup_image_location)
      else if package_image_files \<noteq> [''runtime/boot-image/x86_64/boot.art'',
        ''runtime/boot-image/x86_64/boot.oat'', ''runtime/boot-image/x86_64/boot.vdex'']
      then gate_bug ''package image files do not match the single-component x86-64 topology''
      else Inr ()))"

subsection \<open>What is accepted\<close>

lemma validate_generation_startup_eq:
  "validate_generation_startup g s =
     (if boot_class_path_locations g \<noteq> boot_class_path_locations s then
        Inl (IdentityError ''boot-class-path'' (''boot-class-path'' @ '' mismatch: generation=''
          @ tuple_repr (boot_class_path_locations g) @ '', startup='' @ tuple_repr (boot_class_path_locations s)))
      else if image_location g \<noteq> image_location s then
        Inl (IdentityError ''image-location'' (''image-location'' @ '' mismatch: generation=''
          @ py_repr (image_location g) @ '', startup='' @ py_repr (image_location s)))
      else if components g \<noteq> components s then
        Inl (IdentityError ''component-topology'' (''component-topology'' @ '' mismatch: generation=''
          @ tuple_repr (components g) @ '', startup='' @ tuple_repr (components s)))
      else if g \<noteq> canonical_identity then
        Inl (IdentityError ''canonical-contract'' (''matching generation/startup identity is not canonical: '' @ identity_repr g))
      else Inr ())"
  by (simp add: validate_generation_startup_def)

text \<open>The launcher's identity is compared to the byte: the check passes exactly when both sides
  are the canonical identity, and otherwise the error names the first of the location list, the
  image location and the components that differs, or the contract when both sides agree on
  something else.\<close>

theorem startup_identity_exact:
  "case validate_generation_startup g s of
     Inr u \<Rightarrow> g = canonical_identity \<and> s = canonical_identity
   | Inl e \<Rightarrow> \<not> (g = canonical_identity \<and> s = canonical_identity)
       \<and> error_field e =
          (if boot_class_path_locations g \<noteq> boot_class_path_locations s then ''boot-class-path''
           else if image_location g \<noteq> image_location s then ''image-location''
           else if components g \<noteq> components s then ''component-topology''
           else ''canonical-contract'')"
  unfolding validate_generation_startup_eq by auto

lemma mismatches_rejected:
  "map_r check_mismatch intentional_startup_mismatches = Inr (map (\<lambda>(name, startup, expected_field).
     VDict [(''case'', VStr name), (''field'', VStr expected_field),
       (''diagnostic'', VStr (case validate_generation_startup canonical_identity startup of
          Inl e \<Rightarrow> error_message e | Inr u \<Rightarrow> []))]) intentional_startup_mismatches)"
  by (simp add: intentional_startup_mismatches_def check_mismatch_def validate_generation_startup_eq
      canonical_identity_def logical_boot_jar_def startup_image_location_def boot_components_def)

lemma static_contract_holds: "validate_static_contract = Inr ()"
  by code_simp

text \<open>The gate never fails on its own matrix: the report of the seven rejected mismatches is written
  for the Windows target, and nothing is written for any other.\<close>

definition gate_rejections :: "pyval list" where
  "gate_rejections = map (\<lambda>(name, startup, expected_field).
     VDict [(''case'', VStr name), (''field'', VStr expected_field),
       (''diagnostic'', VStr (case validate_generation_startup canonical_identity startup of
          Inl e \<Rightarrow> error_message e | Inr u \<Rightarrow> []))]) intentional_startup_mismatches"

lemma run_gate_result:
  "run_gate target_id p fs =
     (if target_id = identity_target_id then Inr (p, write_file p
        (json_dumps (VDict
            [(''schema_version'', VInt 1), (''target_id'', VStr target_id),
             (''contract'', VDict contract_record),
             (''generation_options'', VList (map VStr generation_options)),
             (''startup_options'', VList (map VStr startup_options)),
             (''byte_exact_match'', VBool True),
             (''rejected_mismatches'', VList gate_rejections)]) @ [newline]) fs)
      else Inl (IdentityError ''target-id'' (''identity contract accepts only '' @ identity_target_id
          @ '', got '' @ py_repr target_id)))"
  by (simp add: run_gate_def mismatches_rejected gate_rejections_def validate_generation_startup_eq)

text \<open>A manifest's contract is decoded exactly when it equals the expected record, in whatever
  order its keys stand, and what is decoded passes the comparison with the canonical startup
  identity; an error names the least key on which both records differ.\<close>

theorem contract_record_decoded:
  "(identity_from_contract_record (VDict r) = Inr u \<longleftrightarrow>
     py_eq (VDict r) (VDict contract_record) \<and> validate_generation_startup u canonical_identity = Inr ())
   \<and> (case identity_from_contract_record (VDict r) of
        Inl e \<Rightarrow> (if differing_keys r contract_record = [] then error_field e = ''manifest-contract''
                 else error_field e = Min (set (differing_keys r contract_record)))
      | Inr x \<Rightarrow> True)"
proof -
  have sorted: "sorted (differing_keys r contract_record)"
    by (simp add: differing_keys_def sorted_filter [of "\<lambda>x. x", simplified])
  then have "hd (differing_keys r contract_record) = Min (set (differing_keys r contract_record))"
    if "differing_keys r contract_record \<noteq> []"
    using that by (cases "differing_keys r contract_record") (auto simp: insert_absorb intro!: Min_eqI [symmetric])
  moreover have "validate_generation_startup u canonical_identity = Inr () \<longleftrightarrow> u = canonical_identity"
    by (auto simp: validate_generation_startup_eq)
  ultimately show ?thesis
    by (auto simp: identity_from_contract_record_def Let_def canonical_identity_def simp del: py_eq.simps
        split: list.splits)
qed

end
