(* ===== verification/ArtVcs.thy ===== *)
theory ArtVcs
  imports PyPath
begin

section \<open>The audit of tracked files\<close>

text \<open>
  \<open>tools/check_vcs_files.py\<close>: no generated binary or archive may be tracked. The decoded output of
  \<open>git ls-files -z\<close> is the argument of the model. The program's result is its exit code with the
  lines it prints.
\<close>

definition forbidden_suffixes :: "string list" where
  "forbidden_suffixes =
     [''.7z'', ''.a'', ''.class'', ''.dex'', ''.dll'', ''.dmp'', ''.exe'', ''.exp'', ''.gz'', ''.ilk'', ''.jar'',
      ''.lib'', ''.o'', ''.obj'', ''.pdb'', ''.so'', ''.tar'', ''.tgz'', ''.txz'', ''.wasm'', ''.xz'', ''.zip'']"

definition tracked_binary_exceptions :: "string list" where
  "tracked_binary_exceptions = [''vendor/r8/r8.jar'']"

definition tracked_paths :: "string \<Rightarrow> string list" where
  "tracked_paths git_output = filter (\<lambda>item. item \<noteq> []) (split_on (CHR 0x00) git_output)"

definition forbidden_path :: "string \<Rightarrow> bool" where
  "forbidden_path path =
     (path \<notin> set tracked_binary_exceptions
      \<and> map lower_char (path_suffix (path_of path)) \<in> set forbidden_suffixes)"

definition forbidden_tracked_paths :: "string list \<Rightarrow> string list" where
  "forbidden_tracked_paths paths =
     sort (filter forbidden_path (map (replace_char (CHR 0x5C) slash) paths))"

definition audit_main :: "string \<Rightarrow> int \<times> string list" where
  "audit_main git_output =
     (let rejected = forbidden_tracked_paths (tracked_paths git_output) in
      if rejected = [] then (0, [''VCS binary/archive audit passed''])
      else (1, ''generated binary/archive files must not be tracked:'' # map (\<lambda>path. ''  '' @ path) rejected))"

subsection \<open>Nothing forbidden passes\<close>

lemma forbidden_suffix_shape:
  "list_all (\<lambda>s. case s of c # e \<Rightarrow> c = CHR ''.'' \<and> e \<noteq> [] \<and> CHR ''.'' \<notin> set e | [] \<Rightarrow> False) forbidden_suffixes"
  by code_simp

lemma code_point_of_char: "n < 256 \<Longrightarrow> code_point (char_of n) = n"
  by (simp add: code_point_def)

lemma lower_char_dot: "lower_char c = CHR ''.'' \<longleftrightarrow> c = CHR ''.''"
proof
  assume l: "lower_char c = CHR ''.''"
  show "c = CHR ''.''"
  proof (rule ccontr)
    assume "c \<noteq> CHR ''.''"
    with l have "65 \<le> code_point c \<and> code_point c \<le> 90" "char_of (code_point c + 32) = CHR ''.''"
      by (auto simp: lower_char_def split: if_splits)
    then show False
      using code_point_of_char [of "code_point c + 32"] by (simp add: code_point_def)
  qed
qed (simp add: lower_char_def code_point_def)

lemma lowered_suffix:
  assumes "map lower_char ext \<in> set forbidden_suffixes"
  obtains e where "ext = CHR ''.'' # e" and "e \<noteq> []" and "CHR ''.'' \<notin> set e"
proof -
  have "case map lower_char ext of c # e \<Rightarrow> c = CHR ''.'' \<and> e \<noteq> [] \<and> CHR ''.'' \<notin> set e | [] \<Rightarrow> False"
    using forbidden_suffix_shape assms unfolding list_all_iff by (rule bspec)
  then obtain c e where ext: "map lower_char ext = c # e" "c = CHR ''.''" "e \<noteq> []" "CHR ''.'' \<notin> set e"
    by (cases "map lower_char ext") simp_all
  from ext(1,2) obtain x xs where xs: "ext = x # xs" "lower_char x = CHR ''.''" "e = map lower_char xs"
    by (cases ext) simp_all
  with ext(4) have dots: "CHR ''.'' \<notin> lower_char ` set xs" by simp
  have "CHR ''.'' \<notin> set xs"
  proof
    assume "CHR ''.'' \<in> set xs"
    then have "lower_char (CHR ''.'') \<in> lower_char ` set xs" by (rule imageI)
    with dots lower_char_dot [of "CHR ''.''"] show False by simp
  qed
  with xs ext(3) show thesis by (intro that [of xs]) (simp_all add: lower_char_dot)
qed

lemma replace_char_id: "c \<notin> set s \<Longrightarrow> replace_char c d s = s"
  by (induction s) (auto simp: replace_char_def)

text \<open>A tracked file whose name is a nonempty stem followed by a forbidden extension, in upper or
  lower case and in whatever directory, is reported, and the audit fails; the one exception is the
  pinned archive. What is reported is in order.\<close>

theorem forbidden_file_reported:
  assumes "map lower_char ext \<in> set forbidden_suffixes" and "stem \<noteq> []" and "slash \<notin> set (stem @ ext)"
    and "dir = [] \<or> last dir = slash" and "CHR 0x5C \<notin> set (dir @ stem @ ext)"
    and "dir @ stem @ ext \<notin> set tracked_binary_exceptions"
    and "dir @ stem @ ext \<in> set (tracked_paths git_output)"
  shows "dir @ stem @ ext \<in> set (forbidden_tracked_paths (tracked_paths git_output))
    \<and> fst (audit_main git_output) = 1
    \<and> sorted (forbidden_tracked_paths (tracked_paths git_output))"
proof -
  obtain e where e: "ext = CHR ''.'' # e" "e \<noteq> []" "CHR ''.'' \<notin> set e" using assms(1) by (rule lowered_suffix)
  have "path_suffix (path_of (dir @ stem @ ext)) = ext"
  proof -
    have "stem @ ext \<noteq> ''.''" using assms(2) e(1) by (cases stem) auto
    then have "path_suffix (path_of (dir @ stem @ ext)) = name_suffix (stem @ ext)"
      using assms(2-4) by (intro path_suffix_name) auto
    then show ?thesis using assms(2) e by (simp add: name_suffix_append)
  qed
  with assms(1,6) have "forbidden_path (dir @ stem @ ext)" by (simp add: forbidden_path_def)
  with assms(5,7) have "dir @ stem @ ext \<in> set (forbidden_tracked_paths (tracked_paths git_output))"
    by (force simp: forbidden_tracked_paths_def replace_char_id image_iff)
  moreover from this have "forbidden_tracked_paths (tracked_paths git_output) \<noteq> []" by auto
  ultimately show ?thesis by (simp add: audit_main_def Let_def) (simp add: forbidden_tracked_paths_def)
qed

theorem forbidden_file_reported_witness:
  "fst (audit_main (''README.md'' @ [CHR 0x00] @ ''native/Lib.SO'' @ [CHR 0x00])) = 1"
proof -
  have "fst (audit_main (''README.md'' @ [CHR 0x00] @ (''native/'' @ ''Lib'' @ ''.SO'') @ [CHR 0x00])) = 1"
    by (rule forbidden_file_reported [THEN conjunct2, THEN conjunct1, of "''.SO''" "''Lib''" "''native/''"]) code_simp+
  then show ?thesis by simp
qed

end
