(* ===== verification/ArtTopology.thy ===== *)
theory ArtTopology
  imports PyRepr BpOverlay "HOL-Library.List_Lexorder" "HOL-Library.Char_ord"
begin

section \<open>The topology contract of the two products\<close>

text \<open>
  \<open>tools/check_art_topology.py\<close>: the generated Linux and Windows graphs may differ only where the
  reviewed contract says so. The JSON reader, the text of \<open>ArtPlatform.cmake\<close>, the build frontend
  that generates fresh graphs and the name of the scratch directory are fields of a record. The
  comparison iterates over a Python set once; its order is the field \<open>tm_order\<close>. Messages printed
  and the removal of the scratch directory are left out.
\<close>

record topology_machine =
  tm_json :: "string \<Rightarrow> exn + pyval"
  tm_platform :: "exn + string"
  tm_generate :: "string \<Rightarrow> string \<Rightarrow> int"
  tm_scratch :: string
  tm_order :: "string list \<Rightarrow> string list"

definition topology_error :: "string \<Rightarrow> exn" where
  "topology_error msg = RaisedError ''TopologyError'' msg"

definition ensure :: "bool \<Rightarrow> string \<Rightarrow> exn + unit" where
  "ensure b msg = (if b then Inr () else Inl (topology_error msg))"

fun is_dict :: "pyval \<Rightarrow> bool" where
  "is_dict (VDict d) = True"
| "is_dict v = False"

fun is_text :: "pyval \<Rightarrow> bool" where
  "is_text (VStr s) = (s \<noteq> [])"
| "is_text v = False"

fun dict_items :: "pyval \<Rightarrow> dict" where
  "dict_items (VDict d) = d"
| "dict_items v = []"

subsection \<open>Reading\<close>

definition read_json :: "topology_machine \<Rightarrow> string \<Rightarrow> exn + dict" where
  "read_json tm path =
     (case tm_json tm path of
        Inr (VDict d) \<Rightarrow> Inr d
      | Inr v \<Rightarrow> Inl (topology_error (''top-level JSON value must be an object: '' @ path))
      | Inl (OSError kind msg) \<Rightarrow> Inl (topology_error (''cannot read JSON '' @ path @ '': '' @ msg))
      | Inl (RaisedError kind msg) \<Rightarrow>
          if kind = ''JSONDecodeError'' then Inl (topology_error (''cannot read JSON '' @ path @ '': '' @ msg))
          else Inl (RaisedError kind msg)
      | Inl e \<Rightarrow> Inl e)"

definition module_entry :: "string \<Rightarrow> nat \<times> pyval \<Rightarrow> (string \<times> dict) list \<Rightarrow> exn + (string \<times> dict) list" where
  "module_entry target_id ir modules =
     (case snd ir of
        VDict raw \<Rightarrow>
          let name = dget raw ''aosp_name'' VNone in
          if \<not> list_all is_text [name, dget raw ''kind'' VNone, dget raw ''cmake_target'' VNone] then
            Inl (topology_error (target_id @ '' module '' @ nat_str (fst ir) @ '' is incomplete''))
          else if text_of name \<in> fst ` set modules then
            Inl (topology_error (target_id @ '' repeats module '' @ text_of name))
          else Inr (modules @ [(text_of name, raw)])
      | v \<Rightarrow> Inl (topology_error (target_id @ '' module '' @ nat_str (fst ir) @ '' is not an object'')))"

definition module_map :: "dict \<Rightarrow> string \<Rightarrow> exn + (string \<times> dict) list" where
  "module_map manifest target_id =
     (let described = (case dget manifest ''target'' VNone of
            VDict target \<Rightarrow> py_eq (dget target ''target_id'' VNone) (VStr target_id) | _ \<Rightarrow> False) in
      if \<not> described then Inl (topology_error (''manifest does not describe '' @ target_id))
      else case dget manifest ''modules'' VNone of
        VList raw_modules \<Rightarrow> fold_r (module_entry target_id) (enumerate 0 raw_modules) []
      | _ \<Rightarrow> Inl (topology_error (target_id @ '' manifest has no module list'')))"

definition contract_targets :: "dict \<Rightarrow> exn + (string \<times> string)" where
  "contract_targets contract =
     (if \<not> py_eq (dget contract ''schema_version'' VNone) (VInt 1) then
        Inl (topology_error ''topology contract schema_version must be 1'')
      else case dget contract ''targets'' VNone of
        VDict targets \<Rightarrow>
          (case (dget targets ''linux'' VNone, dget targets ''windows'' VNone) of
             (VStr linux, VStr windows) \<Rightarrow> Inr (linux, windows)
           | _ \<Rightarrow> Inl (topology_error ''topology contract target IDs must be strings''))
      | _ \<Rightarrow> Inl (topology_error ''topology contract has no targets object''))"

definition expected_set_differences :: "dict \<Rightarrow> string \<Rightarrow> exn + (string \<times> dict) list" where
  "expected_set_differences contract side =
     (case dget contract ''module_set_differences'' VNone of
        VDict differences \<Rightarrow>
          (case dget differences side VNone of
             VDict raw \<Rightarrow>
               if list_all (\<lambda>kv. is_dict (snd kv)) raw then Inr (map (\<lambda>kv. (fst kv, dict_items (snd kv))) raw)
               else Inl (topology_error (''topology contract '' @ side @ '' entries are malformed''))
           | _ \<Rightarrow> Inl (topology_error (''topology contract has no '' @ side @ '' object'')))
      | _ \<Rightarrow> Inl (topology_error ''topology contract has no module_set_differences''))"

subsection \<open>Comparing\<close>

definition sorted_repr :: "string list \<Rightarrow> string" where
  "sorted_repr xs = list_repr (sort (remdups xs))"

definition only_in :: "(string \<times> dict) list \<Rightarrow> (string \<times> dict) list \<Rightarrow> string list" where
  "only_in a b = filter (\<lambda>n. n \<notin> set (map fst b)) (map fst a)"

definition module_field :: "(string \<times> dict) list \<Rightarrow> string \<Rightarrow> string \<Rightarrow> pyval" where
  "module_field modules name field_name =
     (case map_of modules name of Some m \<Rightarrow> dget m field_name VNone | None \<Rightarrow> VNone)"

definition check_one_sided :: "string \<Rightarrow> (string \<times> dict) list \<Rightarrow> string \<times> dict \<Rightarrow> exn + unit" where
  "check_one_sided label modules entry =
     (let name = fst entry; expected = snd entry in
      rbind (fold_r (\<lambda>field_name u. ensure (is_text (dget expected field_name VNone))
          (label @ ''-only contract for '' @ name @ '' omits '' @ field_name))
        [''kind'', ''cmake_target'', ''reason''] ()) (\<lambda>_.
      rbind (ensure (py_eq (module_field modules name ''kind'') (dget expected ''kind'' VNone))
        (label @ ''-only module '' @ name @ '' changed kind'')) (\<lambda>_.
      ensure (py_eq (module_field modules name ''cmake_target'') (dget expected ''cmake_target'' VNone))
        (label @ ''-only module '' @ name @ '' changed CMake target''))))"

text \<open>\<open>dependency in consumer.get("link_dependencies", [])\<close>: an element of a list, a part of a string
  or a key of a dictionary.\<close>

definition depends_on :: "pyval \<Rightarrow> dict \<Rightarrow> exn + bool" where
  "depends_on dependency consumer =
     (case dget consumer ''link_dependencies'' (VList []) of
        VList deps \<Rightarrow> Inr (py_in dependency deps)
      | VStr s \<Rightarrow> Inr (contains (text_of dependency) s)
      | VDict d \<Rightarrow> Inr (text_of dependency \<in> fst ` set d)
      | v \<Rightarrow> Inl (TypeError (''argument of type '' @ py_repr (type_name v) @ '' is not iterable'')))"

definition consumers :: "(string \<times> dict) list \<Rightarrow> string \<Rightarrow> exn + string list" where
  "consumers modules name =
     rbind (map_r (\<lambda>m. rbind (depends_on (module_field modules name ''cmake_target'') (snd m))
         (\<lambda>b. Inr (if b then [fst m] else []))) modules) (\<lambda>xs. Inr (concat xs))"

definition check_consumers ::
  "string \<Rightarrow> string list \<Rightarrow> string \<times> (string \<times> dict) list \<Rightarrow> exn + unit" where
  "check_consumers name direct_consumers side =
     rbind (consumers (snd side) name) (\<lambda>actual.
     ensure (set actual = set direct_consumers)
       (fst side @ '' direct consumers for kind difference '' @ name @ '' changed: expected ''
        @ list_repr (sort direct_consumers) @ '', got '' @ sorted_repr actual))"

definition check_kind_difference ::
  "(string \<times> dict) list \<Rightarrow> (string \<times> dict) list \<Rightarrow> dict \<Rightarrow> string \<Rightarrow> exn + unit" where
  "check_kind_difference linux windows kind_contract name =
     (case dget kind_contract name VNone of
        VDict expected \<Rightarrow>
          rbind (ensure (py_eq (dget expected ''linux'' VNone) (module_field linux name ''kind'')
              \<and> py_eq (dget expected ''windows'' VNone) (module_field windows name ''kind''))
            (''kind contract for '' @ name @ '' does not match generated graphs'')) (\<lambda>_.
          rbind (ensure (is_text (dget expected ''reason'' VNone))
            (''kind contract for '' @ name @ '' omits its disposition'')) (\<lambda>_.
          case dget expected ''direct_consumers'' VNone of
            VList cs \<Rightarrow>
              if list_all is_text cs then
                fold_r (\<lambda>side u. check_consumers name (map text_of cs) side)
                  [(''Linux'', linux), (''Windows'', windows)] ()
              else Inl (topology_error (''kind contract for '' @ name @ '' has malformed direct_consumers''))
          | _ \<Rightarrow> Inl (topology_error (''kind contract for '' @ name @ '' has malformed direct_consumers''))))
      | _ \<Rightarrow> Inl (topology_error (''kind contract for '' @ name @ '' is malformed'')))"

definition check_sigchain :: "topology_machine \<Rightarrow> (string \<times> dict) list \<Rightarrow> exn + unit" where
  "check_sigchain tm expected_linux_only =
     (case map_of expected_linux_only ''libsigchain'' of
        None \<Rightarrow> Inr ()
      | Some mapping \<Rightarrow>
          let target = dget mapping ''windows_cmake_target'' VNone;
              kind = dget mapping ''windows_kind'' VNone in
          rbind (tm_platform tm) (\<lambda>platform_text.
          ensure (py_eq target (VStr ''sigchain'') \<and> py_eq kind (VStr ''shared'')
              \<and> contains (''add_library('' @ text_of target @ '' '' @ map upper_char (text_of kind)) platform_text)
            ''Windows sigchain platform mapping changed''))"

text \<open>The comparison proper, on the two graphs and the two lists of differences that are read first.\<close>

definition compare_graphs ::
  "topology_machine \<Rightarrow> (string \<times> dict) list \<Rightarrow> (string \<times> dict) list \<Rightarrow>
   (string \<times> dict) list \<Rightarrow> (string \<times> dict) list \<Rightarrow> dict \<Rightarrow> exn + dict" where
  "compare_graphs tm linux windows expected_linux_only expected_windows_only contract =
     (let linux_only = only_in linux windows; windows_only = only_in windows linux in
     rbind (ensure (set linux_only = set (map fst expected_linux_only))
       (''Linux-only module set differs: expected '' @ sorted_repr (map fst expected_linux_only)
        @ '', got '' @ sorted_repr linux_only)) (\<lambda>_.
     rbind (ensure (set windows_only = set (map fst expected_windows_only))
       (''Windows-only module set differs: expected '' @ sorted_repr (map fst expected_windows_only)
        @ '', got '' @ sorted_repr windows_only)) (\<lambda>_.
     rbind (fold_r (\<lambda>entry u. check_one_sided ''Linux'' linux entry) expected_linux_only ()) (\<lambda>_.
     rbind (fold_r (\<lambda>entry u. check_one_sided ''Windows'' windows entry) expected_windows_only ()) (\<lambda>_.
     let common = tm_order tm (filter (\<lambda>n. n \<in> set (map fst windows)) (map fst linux));
         renamed = filter (\<lambda>n. \<not> py_eq (module_field linux n ''cmake_target'')
           (module_field windows n ''cmake_target'')) common in
     rbind (ensure (renamed = [])
       (''common modules changed CMake target names: '' @ list_repr (sort renamed))) (\<lambda>_.
     let kind_differences = filter (\<lambda>n. \<not> py_eq (module_field linux n ''kind'')
           (module_field windows n ''kind'')) common in
     case dget contract ''kind_differences'' VNone of
       VDict kind_contract \<Rightarrow>
         rbind (ensure (set kind_differences = set (map fst kind_contract))
           (''module kind differences changed: expected '' @ sorted_repr (map fst kind_contract)
            @ '', got '' @ sorted_repr kind_differences)) (\<lambda>_.
         rbind (fold_r (\<lambda>name u. check_kind_difference linux windows kind_contract name) kind_differences ()) (\<lambda>_.
         rbind (check_sigchain tm expected_linux_only) (\<lambda>_.
         Inr [(''linux_modules'', VInt (int (length linux))),
              (''windows_modules'', VInt (int (length windows))),
              (''set_differences'', VInt (int (length linux_only + length windows_only))),
              (''kind_differences'', VInt (int (length kind_differences)))])))
     | _ \<Rightarrow> Inl (topology_error ''topology contract has no kind_differences object'')))))))"

definition compare_topologies :: "topology_machine \<Rightarrow> dict \<Rightarrow> dict \<Rightarrow> dict \<Rightarrow> exn + dict" where
  "compare_topologies tm linux_manifest windows_manifest contract =
     rbind (contract_targets contract) (\<lambda>(linux_id, windows_id).
     rbind (module_map linux_manifest linux_id) (\<lambda>linux.
     rbind (module_map windows_manifest windows_id) (\<lambda>windows.
     rbind (expected_set_differences contract ''linux_only'') (\<lambda>expected_linux_only.
     rbind (expected_set_differences contract ''windows_only'') (\<lambda>expected_windows_only.
     compare_graphs tm linux windows expected_linux_only expected_windows_only contract)))))"

subsection \<open>The program\<close>

definition manifest_path :: "string \<Rightarrow> string \<Rightarrow> string" where
  "manifest_path scratch target_id =
     join_str ''/'' [scratch, target_id, ''RelWithDebInfo'', ''generated'', ''graph_manifest.json'']"

definition generate_manifests :: "topology_machine \<Rightarrow> string \<Rightarrow> string \<Rightarrow> exn + (string \<times> string)" where
  "generate_manifests tm linux_id windows_id =
     rbind (fold_r (\<lambda>target_id u. ensure (tm_generate tm target_id (tm_scratch tm) = 0)
         (''fresh graph generation failed for '' @ target_id)) [linux_id, windows_id] ()) (\<lambda>_.
     Inr (manifest_path (tm_scratch tm) linux_id, manifest_path (tm_scratch tm) windows_id))"

definition topology_check ::
  "topology_machine \<Rightarrow> string \<Rightarrow> string option \<Rightarrow> string option \<Rightarrow> exn + dict" where
  "topology_check tm contract_path linux_manifest windows_manifest =
     rbind (read_json tm contract_path) (\<lambda>contract.
     rbind (contract_targets contract) (\<lambda>(linux_id, windows_id).
     rbind (case (linux_manifest, windows_manifest) of
         (None, None) \<Rightarrow> generate_manifests tm linux_id windows_id
       | (Some linux_path, Some windows_path) \<Rightarrow> Inr (linux_path, windows_path)
       | _ \<Rightarrow> Inl (topology_error ''pass both manifest paths or neither'')) (\<lambda>(linux_path, windows_path).
     rbind (read_json tm linux_path) (\<lambda>linux.
     rbind (read_json tm windows_path) (\<lambda>windows.
     compare_topologies tm linux windows contract)))))"

text \<open>The exit code; \<open>OSError\<close> and \<open>TopologyError\<close> are reported, any other exception escapes.\<close>

definition topology_main ::
  "topology_machine \<Rightarrow> string \<Rightarrow> string option \<Rightarrow> string option \<Rightarrow> exn + int" where
  "topology_main tm contract_path linux_manifest windows_manifest =
     (case topology_check tm contract_path linux_manifest windows_manifest of
        Inr result \<Rightarrow> Inr 0
      | Inl (OSError kind msg) \<Rightarrow> Inr 2
      | Inl (RaisedError kind msg) \<Rightarrow> if kind = ''TopologyError'' then Inr 2 else Inl (RaisedError kind msg)
      | Inl e \<Rightarrow> Inl e)"

subsection \<open>What the comparison accepts\<close>

text \<open>The contract between two graphs, as sets of module names.\<close>

definition one_sided_reviewed :: "(string \<times> dict) list \<Rightarrow> string \<times> dict \<Rightarrow> bool" where
  "one_sided_reviewed modules entry =
     (list_all (\<lambda>field_name. is_text (dget (snd entry) field_name VNone)) [''kind'', ''cmake_target'', ''reason'']
      \<and> py_eq (module_field modules (fst entry) ''kind'') (dget (snd entry) ''kind'' VNone)
      \<and> py_eq (module_field modules (fst entry) ''cmake_target'') (dget (snd entry) ''cmake_target'' VNone))"

definition same_consumers :: "(string \<times> dict) list \<Rightarrow> string \<Rightarrow> string set \<Rightarrow> bool" where
  "same_consumers modules name reviewed = (\<exists>actual. consumers modules name = Inr actual \<and> set actual = reviewed)"

definition kind_reviewed :: "(string \<times> dict) list \<Rightarrow> (string \<times> dict) list \<Rightarrow> dict \<Rightarrow> string \<Rightarrow> bool" where
  "kind_reviewed linux windows kind_contract name =
     (\<exists>expected cs. dget kind_contract name VNone = VDict expected
        \<and> py_eq (dget expected ''linux'' VNone) (module_field linux name ''kind'')
        \<and> py_eq (dget expected ''windows'' VNone) (module_field windows name ''kind'')
        \<and> is_text (dget expected ''reason'' VNone)
        \<and> dget expected ''direct_consumers'' VNone = VList cs \<and> list_all is_text cs
        \<and> same_consumers linux name (text_of ` set cs) \<and> same_consumers windows name (text_of ` set cs))"

abbreviation names_of :: "(string \<times> 'a) list \<Rightarrow> string set" where
  "names_of xs \<equiv> fst ` set xs"

definition graphs_as_reviewed ::
  "(string \<times> dict) list \<Rightarrow> (string \<times> dict) list \<Rightarrow> (string \<times> dict) list \<Rightarrow> (string \<times> dict) list \<Rightarrow> dict \<Rightarrow> bool" where
  "graphs_as_reviewed linux windows linux_only windows_only kind_contract =
     (names_of linux - names_of windows = names_of linux_only
      \<and> names_of windows - names_of linux = names_of windows_only
      \<and> list_all (one_sided_reviewed linux) linux_only
      \<and> list_all (one_sided_reviewed windows) windows_only
      \<and> (\<forall>n \<in> names_of linux \<inter> names_of windows.
           py_eq (module_field linux n ''cmake_target'') (module_field windows n ''cmake_target''))
      \<and> {n \<in> names_of linux \<inter> names_of windows.
           \<not> py_eq (module_field linux n ''kind'') (module_field windows n ''kind'')} = names_of kind_contract
      \<and> (\<forall>n \<in> names_of kind_contract. kind_reviewed linux windows kind_contract n))"

lemma ensure_iff [simp]: "ensure b msg = Inr u \<longleftrightarrow> b"
  by (simp add: ensure_def)

lemma fold_check_iff: "fold_r (\<lambda>x u. f x) xs () = Inr u \<longleftrightarrow> list_all (\<lambda>x. f x = Inr ()) xs"
  by (induction xs) (auto simp: rbind_Inr_iff)

lemma check_one_sided_iff: "check_one_sided label modules entry = Inr () \<longleftrightarrow> one_sided_reviewed modules entry"
  by (auto simp: check_one_sided_def one_sided_reviewed_def Let_def rbind_Inr_iff)

lemma check_consumers_iff:
  "check_consumers name cs side = Inr () \<longleftrightarrow> same_consumers (snd side) name (set cs)"
  by (auto simp: check_consumers_def same_consumers_def rbind_Inr_iff)

lemma check_kind_difference_iff:
  "check_kind_difference linux windows kc name = Inr () \<longleftrightarrow> kind_reviewed linux windows kc name"
  by (auto simp: check_kind_difference_def kind_reviewed_def rbind_Inr_iff check_consumers_iff split: pyval.splits)

lemma set_only_in: "set (only_in a b) = names_of a - names_of b"
  by (auto simp: only_in_def)

lemma compare_graphs_iff:
  assumes "\<And>xs. set (tm_order tm xs) = set xs"
  shows "(\<exists>counts. compare_graphs tm linux windows linux_only windows_only contract = Inr counts) \<longleftrightarrow>
    (\<exists>kind_contract. dget contract ''kind_differences'' VNone = VDict kind_contract
       \<and> graphs_as_reviewed linux windows linux_only windows_only kind_contract
       \<and> check_sigchain tm linux_only = Inr ())"
proof (cases "dget contract ''kind_differences'' VNone")
  case (VDict kc)
  then show ?thesis
    by (simp add: compare_graphs_def Let_def rbind_Inr_iff fold_check_iff check_one_sided_iff
        check_kind_difference_iff set_only_in filter_empty_conv assms graphs_as_reviewed_def list_all_iff
        cong: conj_cong) auto
qed (simp_all add: compare_graphs_def Let_def rbind_Inr_iff)

text \<open>C31. Two generated graphs are accepted exactly when they differ as the reviewed contract says: the
  modules of one side only are those listed for it, with their kind and target; the others have
  the same target on both sides; those whose kind differs are the ones listed, with both kinds
  and the exact set of direct consumers on both sides. The order of the set that the comparison
  iterates over has no influence.\<close>

theorem topology_accepted:
  assumes "\<And>xs. set (tm_order tm xs) = set xs"
  shows "(\<exists>counts. compare_topologies tm linux_manifest windows_manifest contract = Inr counts) \<longleftrightarrow>
    (\<exists>linux_id windows_id linux windows linux_only windows_only kind_contract.
       contract_targets contract = Inr (linux_id, windows_id)
       \<and> module_map linux_manifest linux_id = Inr linux \<and> module_map windows_manifest windows_id = Inr windows
       \<and> expected_set_differences contract ''linux_only'' = Inr linux_only
       \<and> expected_set_differences contract ''windows_only'' = Inr windows_only
       \<and> dget contract ''kind_differences'' VNone = VDict kind_contract
       \<and> graphs_as_reviewed linux windows linux_only windows_only kind_contract
       \<and> check_sigchain tm linux_only = Inr ())"
proof -
  have "(\<exists>counts. compare_topologies tm linux_manifest windows_manifest contract = Inr counts) \<longleftrightarrow>
    (\<exists>linux_id windows_id linux windows linux_only windows_only.
       contract_targets contract = Inr (linux_id, windows_id)
       \<and> module_map linux_manifest linux_id = Inr linux \<and> module_map windows_manifest windows_id = Inr windows
       \<and> expected_set_differences contract ''linux_only'' = Inr linux_only
       \<and> expected_set_differences contract ''windows_only'' = Inr windows_only
       \<and> (\<exists>counts. compare_graphs tm linux windows linux_only windows_only contract = Inr counts))"
    by (simp add: compare_topologies_def rbind_Inr_iff split_paired_Ex) blast
  then show ?thesis unfolding compare_graphs_iff [OF assms] by blast
qed

definition sample_topology :: topology_machine where
  "sample_topology = \<lparr>tm_json = (\<lambda>p. Inr VNone), tm_platform = Inr ''add_library(sigchain SHARED x.cc)'',
     tm_generate = (\<lambda>t s. 0), tm_scratch = ''out'', tm_order = (\<lambda>xs. xs)\<rparr>"

definition sample_graph :: "string \<Rightarrow> string \<Rightarrow> pyval list \<Rightarrow> dict" where
  "sample_graph target_id kind extra =
     [(''target'', VDict [(''target_id'', VStr target_id)]),
      (''modules'', VList ([VDict [(''aosp_name'', VStr ''liba''), (''kind'', VStr kind), (''cmake_target'', VStr ''a'')],
         VDict [(''aosp_name'', VStr ''tool''), (''kind'', VStr ''executable''), (''cmake_target'', VStr ''tool''),
           (''link_dependencies'', VList [VStr ''a''])]] @ extra))]"

definition sample_contract :: dict where
  "sample_contract =
     [(''schema_version'', VInt 1), (''targets'', VDict [(''linux'', VStr ''l''), (''windows'', VStr ''w'')]),
      (''module_set_differences'', VDict [(''linux_only'', VDict [(''libsigchain'', VDict
           [(''kind'', VStr ''shared''), (''cmake_target'', VStr ''sigchain''), (''reason'', VStr ''signals''),
            (''windows_cmake_target'', VStr ''sigchain''), (''windows_kind'', VStr ''shared'')])]),
         (''windows_only'', VDict [])]),
      (''kind_differences'', VDict [(''liba'', VDict [(''linux'', VStr ''shared''), (''windows'', VStr ''static''),
         (''reason'', VStr ''one registry''), (''direct_consumers'', VList [VStr ''tool''])])])]"

theorem topology_accepted_witness:
  "\<exists>linux windows linux_only windows_only kind_contract.
     module_map (sample_graph ''l'' ''shared'' [VDict [(''aosp_name'', VStr ''libsigchain''), (''kind'', VStr ''shared''),
       (''cmake_target'', VStr ''sigchain'')]]) ''l'' = Inr linux
     \<and> graphs_as_reviewed linux windows linux_only windows_only kind_contract"
proof -
  have targets: "contract_targets sample_contract = Inr (''l'', ''w'')" by code_simp
  have "case compare_topologies sample_topology
      (sample_graph ''l'' ''shared'' [VDict [(''aosp_name'', VStr ''libsigchain''), (''kind'', VStr ''shared''),
        (''cmake_target'', VStr ''sigchain'')]]) (sample_graph ''w'' ''static'' []) sample_contract of Inr c \<Rightarrow> True | Inl e \<Rightarrow> False"
    by code_simp
  then have "\<exists>counts. compare_topologies sample_topology
      (sample_graph ''l'' ''shared'' [VDict [(''aosp_name'', VStr ''libsigchain''), (''kind'', VStr ''shared''),
        (''cmake_target'', VStr ''sigchain'')]]) (sample_graph ''w'' ''static'' []) sample_contract = Inr counts"
    by (auto split: sum.splits)
  moreover have "set (tm_order sample_topology xs) = set xs" for xs by (simp add: sample_topology_def)
  ultimately obtain linux_id windows_id linux windows linux_only windows_only kind_contract
    where "contract_targets sample_contract = Inr (linux_id, windows_id)"
      and "module_map (sample_graph ''l'' ''shared'' [VDict [(''aosp_name'', VStr ''libsigchain''), (''kind'', VStr ''shared''),
        (''cmake_target'', VStr ''sigchain'')]]) linux_id = Inr linux"
      and "graphs_as_reviewed linux windows linux_only windows_only kind_contract"
    using topology_accepted [THEN iffD1] by metis
  with targets show ?thesis by auto
qed

end
