(* ===== verification/BuildCommands.thy ===== *)
theory BuildCommands
  imports BpAconfig PyPath PyRepr
begin

section \<open>Commands of the build graph\<close>

text \<open>
  The text functions of \<open>tools/build_art.py\<close> that its audit applies to the commands of a generated
  graph: tokens, the payloads of shell wrappers, forbidden tools and shell operators, the search
  paths of a compiler command, and the link outputs that Ninja lists. Each regular expression is
  the scan it stands for. Paths are POSIX; the working directory is an argument.
\<close>

definition frontend_error :: "string \<Rightarrow> exn" where
  "frontend_error msg = RaisedError ''BuildFrontendError'' msg"

definition audit_error :: "string \<Rightarrow> exn" where
  "audit_error msg = frontend_error (''generated-command audit: '' @ msg)"

definition audit_if :: "bool \<Rightarrow> string \<Rightarrow> exn + unit" where
  "audit_if b msg = (if b then Inl (audit_error msg) else Inr ())"

definition lower :: "string \<Rightarrow> string" where
  "lower s = map lower_char s"

text \<open>The spaces and the line ends one by one, for evaluation.\<close>

lemma is_line_end_code [code]:
  "is_line_end c = (c \<in> set [CHR 0x0A, CHR 0x0B, CHR 0x0C, CHR 0x0D, CHR 0x1C, CHR 0x1D, CHR 0x1E, CHR 0x85])"
proof -
  have "of_char c = (of_char d :: nat) \<longleftrightarrow> c = d" for d by simp
  from this [of "CHR 0x0A"] this [of "CHR 0x0B"] this [of "CHR 0x0C"] this [of "CHR 0x0D"] this [of "CHR 0x1C"]
    this [of "CHR 0x1D"] this [of "CHR 0x1E"] this [of "CHR 0x85"]
  show ?thesis by (simp add: is_line_end_def code_point_def)
qed

lemma is_space_char_code [code]:
  "is_space_char c = (c \<in> set [CHR 0x09, CHR 0x0A, CHR 0x0B, CHR 0x0C, CHR 0x0D, CHR 0x1C, CHR 0x1D, CHR 0x1E, CHR 0x1F,
     CHR 0x20, CHR 0x85, CHR 0xA0])"
proof -
  have "whitespace = [CHR 0x09, CHR 0x0A, CHR 0x0B, CHR 0x0C, CHR 0x0D, CHR 0x1C, CHR 0x1D, CHR 0x1E, CHR 0x1F,
     CHR 0x20, CHR 0x85, CHR 0xA0]" by code_simp
  then show ?thesis by (simp only: is_space_char_def)
qed

subsection \<open>Tokens\<close>

text \<open>\<open>re.findall('"([^"\r\n]*)"|(\S+)', command)\<close>: a quoted token loses its quotes.\<close>

definition quoted_char :: "char \<Rightarrow> bool" where
  "quoted_char c = (c \<notin> {CHR 0x22, CHR 0x0D, CHR 0x0A})"

function command_tokens :: "string \<Rightarrow> string list" where
  "command_tokens s =
     (case s of [] \<Rightarrow> []
      | c # cs \<Rightarrow>
          if c = CHR 0x22 \<and> starts_with [CHR 0x22] (dropWhile quoted_char cs) then
            takeWhile quoted_char cs # command_tokens (drop 1 (dropWhile quoted_char cs))
          else if is_space_char c then command_tokens cs
          else (c # takeWhile (\<lambda>d. \<not> is_space_char d) cs)
            # command_tokens (dropWhile (\<lambda>d. \<not> is_space_char d) cs))"
  by pat_completeness auto
termination command_tokens
proof (relation "measure length", goal_cases)
  case (2 s c cs)
  have "length (dropWhile quoted_char cs) \<le> length cs" by (rule length_dropWhile_le)
  with 2 show ?case by auto
qed (auto simp: le_imp_less_Suc length_dropWhile_le)

declare command_tokens.simps [simp del]

definition tool_basename :: "string \<Rightarrow> string" where
  "tool_basename token = lower (last (split_on slash (replace_char (CHR 0x5C) slash (strip [CHR 0x22] token))))"

definition command_has_target :: "string list \<Rightarrow> string \<Rightarrow> bool" where
  "command_has_target tokens target_triple =
     (''--target='' @ target_triple \<in> set tokens
      \<or> list_ex (\<lambda>(token, following). token \<in> {''-target'', ''--target''} \<and> following = target_triple)
          (zip tokens (drop 1 tokens)))"

subsection \<open>Paths\<close>

definition same_host_path :: "string \<Rightarrow> string \<Rightarrow> string \<Rightarrow> bool" where
  "same_host_path cwd left right = (abspath cwd left = abspath cwd right)"

definition path_comps :: "string \<Rightarrow> string list" where
  "path_comps p = filter (\<lambda>c. c \<noteq> [] \<and> c \<noteq> ''.'') (split_on slash p)"

text \<open>\<open>os.path.commonpath((a, b))\<close>: a \<open>ValueError\<close> when one path is absolute and the other is not.\<close>

definition commonpath :: "string \<Rightarrow> string \<Rightarrow> exn + string" where
  "commonpath a b =
     (if starts_with ''/'' a \<noteq> starts_with ''/'' b then Inl (ValueError ''Can't mix absolute and relative paths'')
      else Inr ((if starts_with ''/'' a then ''/'' else [])
        @ join_str ''/'' (take (common_prefix (path_comps a) (path_comps b)) (path_comps a))))"

definition path_below_any :: "string \<Rightarrow> string \<Rightarrow> string list \<Rightarrow> bool" where
  "path_below_any cwd path roots =
     (let candidate = abspath cwd path in
      list_ex (\<lambda>root. let normalized_root = abspath cwd root in
        case commonpath candidate normalized_root of Inr p \<Rightarrow> p = normalized_root | Inl e \<Rightarrow> False) roots)"

subsection \<open>Search paths\<close>

text \<open>\<open>re.match('^/[a-z][a-z0-9_-]*:', s)\<close>: a linker option such as \<open>/def:x.lib\<close>.\<close>

definition is_lower_letter :: "char \<Rightarrow> bool" where
  "is_lower_letter c = (97 \<le> code_point c \<and> code_point c \<le> 122)"

definition is_ascii_digit :: "char \<Rightarrow> bool" where
  "is_ascii_digit c = (48 \<le> code_point c \<and> code_point c \<le> 57)"

definition option_name_char :: "char \<Rightarrow> bool" where
  "option_name_char c = (is_lower_letter c \<or> is_ascii_digit c \<or> c = CHR ''_'' \<or> c = CHR ''-'')"

definition slash_option :: "string \<Rightarrow> bool" where
  "slash_option s =
     (case s of c # d # r \<Rightarrow>
        c = slash \<and> is_lower_letter d \<and> starts_with '':'' (dropWhile option_name_char r)
      | _ \<Rightarrow> False)"

text \<open>\<open>s.split(c, 1)[1]\<close> where \<open>c\<close> occurs in \<open>s\<close>.\<close>

definition after_first :: "char \<Rightarrow> string \<Rightarrow> string" where
  "after_first c s = drop 1 (dropWhile (\<lambda>d. d \<noteq> c) s)"

text \<open>A token that is not one of the options with a separate operand.\<close>

definition joined_search_path :: "bool \<Rightarrow> string \<Rightarrow> string option" where
  "joined_search_path include_absolute_libraries token =
     (let lowered = lower token in
      if (starts_with ''-I'' token \<or> starts_with ''-L'' token) \<and> length token > 2 then Some (drop 2 token)
      else if starts_with ''-isystem='' lowered \<or> starts_with ''--sysroot='' lowered
        then Some (after_first (CHR ''='') token)
      else if starts_with ''/libpath:'' lowered then Some (after_first (CHR '':'') token)
      else if include_absolute_libraries
          \<and> (ends_with ''.a'' lowered \<or> ends_with ''.so'' lowered \<or> ends_with ''.lib'' lowered \<or> ends_with ''.dll.a'' lowered)
          \<and> \<not> slash_option lowered then Some token
      else None)"

definition separate_options :: "string list" where
  "separate_options = [''-I'', ''-L'', ''-isystem'', ''--sysroot'']"

fun search_paths_of :: "bool \<Rightarrow> string list \<Rightarrow> string list" where
  "search_paths_of libs [] = []"
| "search_paths_of libs [token] =
     (if token \<in> set separate_options then []
      else (case joined_search_path libs token of Some p \<Rightarrow> [p] | None \<Rightarrow> []))"
| "search_paths_of libs (token # operand # tokens) =
     (if token \<in> set separate_options then operand # search_paths_of libs tokens
      else (case joined_search_path libs token of Some p \<Rightarrow> [p] | None \<Rightarrow> []) @ search_paths_of libs (operand # tokens))"

definition extract_search_paths :: "string \<Rightarrow> bool \<Rightarrow> string list" where
  "extract_search_paths command include_absolute_libraries =
     search_paths_of include_absolute_libraries (command_tokens command)"

definition audit_search_paths ::
  "string \<Rightarrow> string \<Rightarrow> string list \<Rightarrow> pypath \<Rightarrow> string \<Rightarrow> bool \<Rightarrow> exn + unit" where
  "audit_search_paths cwd command allowed_roots binary_dir what include_absolute_libraries =
     fold_r (\<lambda>spelling u.
       let candidate = (if is_absolute (path_of spelling) then path_of spelling
         else binary_dir\<lparr>pp_names := pp_names binary_dir @ pp_names (path_of spelling)\<rparr>) in
       audit_if (\<not> path_below_any cwd (path_str candidate) allowed_roots)
         (''undeclared host search path in '' @ what @ '': '' @ spelling))
     (extract_search_paths command include_absolute_libraries) ()"

text \<open>
  \<open>_audit_cmake_implicit_search_paths\<close>: the directory lists that CMake found in the compilers, at the
  start of a line and up to its end.
\<close>

definition implicit_list_heads :: "string list" where
  "implicit_list_heads =
     map (\<lambda>(lang, what). ''set(CMAKE_'' @ lang @ ''_IMPLICIT_'' @ what @ ''_DIRECTORIES '' @ [CHR 0x22])
       [(''C'', ''INCLUDE''), (''C'', ''LINK''), (''CXX'', ''INCLUDE''), (''CXX'', ''LINK'')]"

definition match_implicit_list :: "string \<Rightarrow> (string \<times> string) option" where
  "match_implicit_list s =
     (case filter (\<lambda>h. starts_with h s) implicit_list_heads of
        [] \<Rightarrow> None
      | h # _ \<Rightarrow>
          let v = takeWhile (\<lambda>c. c \<noteq> CHR 0x22) (drop (length h) s);
              r = drop (length h + length v) s in
          if starts_with [CHR 0x22, CHR '')''] r \<and> (drop 2 r = [] \<or> starts_with [newline] (drop 2 r))
          then Some (v, drop 2 r) else None)"

lemma match_implicit_list_shorter: "match_implicit_list s = Some (v, r) \<Longrightarrow> s \<noteq> [] \<Longrightarrow> length r < length s"
  by (auto simp: match_implicit_list_def Let_def split: list.splits if_splits)

function implicit_lists :: "bool \<Rightarrow> string \<Rightarrow> string list" where
  "implicit_lists at_line_start s =
     (case s of [] \<Rightarrow> []
      | c # cs \<Rightarrow>
          (case (if at_line_start then match_implicit_list s else None) of
             Some (v, r) \<Rightarrow> v # implicit_lists False r
           | None \<Rightarrow> implicit_lists (c = newline) cs))"
  by pat_completeness auto
termination implicit_lists
  by (relation "measure (\<lambda>(b, s). length s)") (auto dest: match_implicit_list_shorter split: if_splits)

declare implicit_lists.simps [simp del]

definition audit_implicit_search_paths :: "string \<Rightarrow> (string \<times> string) list \<Rightarrow> string list \<Rightarrow> exn + unit" where
  "audit_implicit_search_paths cwd compiler_metadata allowed_roots =
     rbind (audit_if (compiler_metadata = []) ''CMake compiler metadata is missing'') (\<lambda>_.
     fold_r (\<lambda>(name, contents) u. fold_r (\<lambda>spelling u.
         audit_if (spelling \<noteq> [] \<and> \<not> path_below_any cwd spelling allowed_roots)
           (''undeclared implicit host search path in '' @ name @ '': '' @ spelling))
       (concat (map (split_on (CHR '';'')) (implicit_lists True contents))) ()) compiler_metadata ())"

subsection \<open>Payloads of a command\<close>

text \<open>\<open>re.split('\s+&&\s+|\s+\|\|\s+', command)\<close>: at a space, the rest after the separator.\<close>

definition match_separator :: "string \<Rightarrow> string option" where
  "match_separator s =
     (if s = [] \<or> \<not> is_space_char (hd s) then None
      else let t = skip_space s in
        if (starts_with ''&&'' t \<or> starts_with ''||'' t) \<and> drop 2 t \<noteq> [] \<and> is_space_char (hd (drop 2 t))
        then Some (skip_space (drop 2 t)) else None)"

lemma match_separator_shorter: "match_separator s = Some r \<Longrightarrow> length r < length s"
proof -
  assume m: "match_separator s = Some r"
  then have r: "r = skip_space (drop 2 (skip_space s))" and ne: "skip_space s \<noteq> []"
    by (auto simp: match_separator_def Let_def split: if_splits)
  have "length r \<le> length (skip_space s) - 2"
    unfolding r skip_space_def by (metis length_dropWhile_le length_drop)
  moreover have "length (skip_space s) \<le> length s" unfolding skip_space_def by (rule length_dropWhile_le)
  ultimately show ?thesis using ne by (cases "skip_space s") auto
qed

function split_payloads :: "string \<Rightarrow> string list" where
  "split_payloads s =
     (case s of [] \<Rightarrow> [[]]
      | c # cs \<Rightarrow>
          (case match_separator s of
             Some r \<Rightarrow> [] # split_payloads r
           | None \<Rightarrow> (case split_payloads cs of w # ws \<Rightarrow> (c # w) # ws | [] \<Rightarrow> [[c]])))"
  by pat_completeness auto
termination split_payloads
  by (relation "measure length") (auto dest: match_separator_shorter)

declare split_payloads.simps [simp del]

definition payload_tokens :: "string \<Rightarrow> string list" where
  "payload_tokens raw_segment =
     command_tokens (lstrip [CHR 0x22] (strip whitespace (lstrip '':'' (strip whitespace raw_segment))))"

definition command_invocations :: "string \<Rightarrow> string list list" where
  "command_invocations command = filter (\<lambda>tokens. tokens \<noteq> []) (map payload_tokens (split_payloads command))"

definition forbidden_command_tools :: "string list" where
  "forbidden_command_tools =
     [''ash'', ''ash.exe'', ''awk'', ''awk.exe'', ''bash'', ''bash.exe'', ''clang-cl'', ''clang-cl.exe'',
      ''clang-mingw'', ''clang-mingw.exe'', ''cl'', ''cl.exe'', ''cp'', ''cp.exe'', ''cygwin'', ''cygwin.exe'',
      ''dash'', ''dash.exe'', ''find'', ''find.exe'', ''g++'', ''g++.exe'', ''gcc'', ''gcc.exe'', ''gmake'', ''gmake.exe'',
      ''grep'', ''grep.exe'', ''ld'', ''ld.exe'', ''ld.lld'', ''ld.lld.exe'', ''lld-link'', ''lld-link.exe'',
      ''make'', ''make.exe'', ''mingw32-make'', ''mingw32-make.exe'', ''msbuild'', ''msbuild.exe'', ''nmake'', ''nmake.exe'',
      ''powershell'', ''powershell.exe'', ''pwsh'', ''pwsh.exe'', ''readlink'', ''readlink.exe'', ''rm'', ''rm.exe'',
      ''sed'', ''sed.exe'', ''sh'', ''sh.exe'', ''stat'', ''stat.exe'', ''strings'', ''strings.exe'', ''timeout'', ''timeout.exe'',
      ''wsl'', ''wsl.exe'', ''zsh'', ''zsh.exe'']"

text \<open>The command that \<open>cmake -E env A=B ...\<close> runs: the first later token that assigns nothing.\<close>

definition env_payload :: "string list \<Rightarrow> string option" where
  "env_payload tokens =
     (let rest = dropWhile (\<lambda>t. t \<noteq> ''env'') (drop 1 tokens) in
      case dropWhile (\<lambda>t. CHR ''='' \<in> set t) (drop 1 rest) of
        [] \<Rightarrow> None
      | nested # _ \<Rightarrow> Some nested)"

definition audit_invocation :: "string list \<Rightarrow> exn + unit" where
  "audit_invocation tokens =
     (case tokens of [] \<Rightarrow> Inr ()
      | first # _ \<Rightarrow>
          let executable = tool_basename first in
          if executable = ''cd'' then Inr ()
          else rbind (audit_if (executable \<in> set forbidden_command_tools)
              (''forbidden command tool '' @ executable)) (\<lambda>_.
            if executable \<in> {''cmake'', ''cmake.exe''} \<and> length tokens > 3 then
              (case env_payload tokens of
                 None \<Rightarrow> Inr ()
               | Some nested \<Rightarrow> audit_if (tool_basename nested \<in> set forbidden_command_tools)
                   (''forbidden command tool '' @ tool_basename nested @ '' through cmake -E env''))
            else Inr ()))"

definition audit_command_invocations :: "string \<Rightarrow> exn + unit" where
  "audit_command_invocations command = fold_r (\<lambda>tokens u. audit_invocation tokens) (command_invocations command) ()"

subsection \<open>Shell operators\<close>

text \<open>
  \<open>operator_at before after s\<close>: some character of \<open>ops\<close> stands at the start or after a space, and
  what follows it satisfies the condition.
\<close>

fun operator_at :: "string \<Rightarrow> (string \<Rightarrow> bool) \<Rightarrow> bool \<Rightarrow> string \<Rightarrow> bool" where
  "operator_at ops following after_space [] = False"
| "operator_at ops following after_space (c # cs) =
     ((after_space \<and> c \<in> set ops \<and> following cs) \<or> operator_at ops following (is_space_char c) cs)"

definition word_end :: "string \<Rightarrow> bool" where
  "word_end r = (case r of [] \<Rightarrow> True | c # _ \<Rightarrow> is_space_char c)"

definition redirection_follows :: "string \<Rightarrow> bool" where
  "redirection_follows r = (case r of [] \<Rightarrow> False | c # _ \<Rightarrow> c \<noteq> CHR ''='')"

text \<open>\<open>s.count(sub)\<close>: occurrences that do not overlap, from the left.\<close>

function count_sub :: "string \<Rightarrow> string \<Rightarrow> nat" where
  "count_sub sub s =
     (if s = [] \<or> sub = [] then 0
      else if starts_with sub s then Suc (count_sub sub (drop (length sub) s))
      else count_sub sub (tl s))"
  by pat_completeness auto
termination count_sub
  by (relation "measure (\<lambda>(sub, s). length s)") auto

declare count_sub.simps [simp del]

definition audit_shell_operators :: "string \<Rightarrow> nat \<Rightarrow> exn + unit" where
  "audit_shell_operators command index =
     (let reject = (\<lambda>b what. audit_if b (''command '' @ nat_str index @ '' contains '' @ what)) in
      rbind (reject (contains [CHR 0x24, CHR ''(''] command \<or> contains [CHR 0x60] command) ''command substitution'') (\<lambda>_.
      rbind (reject (contains ''||'' command) ''conditional chaining'') (\<lambda>_.
      rbind (reject (operator_at ''<>'' redirection_follows True command) ''redirection'') (\<lambda>_.
      rbind (reject (operator_at ''|'' word_end True command) ''a pipe'') (\<lambda>_.
      rbind (reject (operator_at '';'' word_end True command) ''statement chaining'') (\<lambda>_.
      let working_directory_wrapper = (starts_with ''cd '' command
            \<or> contains (''cmd.exe /c '' @ [CHR 0x22] @ ''cd /d '') (lower command)) in
      audit_if (working_directory_wrapper \<and> count_sub '' && '' command \<noteq> 1)
        (''command '' @ nat_str index @ '' has multiple project payloads'')))))))"

subsection \<open>Link outputs\<close>

text \<open>\<open>line.rpartition(': ')\<close>: the parts around the last separator.\<close>

fun rpartition_rule :: "string \<Rightarrow> (string \<times> string) option" where
  "rpartition_rule [] = None"
| "rpartition_rule (c # cs) =
     (case rpartition_rule cs of
        Some (a, b) \<Rightarrow> Some (c # a, b)
      | None \<Rightarrow> if c = CHR '':'' \<and> starts_with '' '' cs then Some ([], tl cs) else None)"

definition link_kind :: "string \<Rightarrow> string option" where
  "link_kind rule =
     (if contains ''SHARED_LIBRARY_LINKER__'' rule then Some ''shared-library''
      else if contains ''EXECUTABLE_LINKER__'' rule then Some ''executable'' else None)"

definition expected_output_name :: "target_profile \<Rightarrow> string \<Rightarrow> string \<Rightarrow> bool" where
  "expected_output_name target kind name =
     (let lowered = lower name in
      if tp_platform target = ''windows'' then
        (if kind = ''shared-library'' then ends_with ''.dll'' lowered else ends_with ''.exe'' lowered)
      else (if kind = ''shared-library'' then ends_with ''.so'' lowered else CHR ''.'' \<notin> set name))"

text \<open>The output that a line of \<open>ninja -t targets all\<close> declares: its name, kind and rule.\<close>

definition declared_output :: "target_profile \<Rightarrow> string \<Rightarrow> (string \<times> string \<times> string) option" where
  "declared_output target line =
     (case rpartition_rule line of
        None \<Rightarrow> None
      | Some (name, rule) \<Rightarrow>
          if slash \<in> set name \<or> CHR 0x5C \<in> set name then None
          else (case link_kind rule of
              None \<Rightarrow> None
            | Some kind \<Rightarrow> if expected_output_name target kind name then Some (name, kind, rule) else None))"

text \<open>\<open>re.search('(?:^|_)C_(?:SHARED|EXECUTABLE)', rule)\<close>\<close>

definition c_rule :: "string \<Rightarrow> bool" where
  "c_rule rule =
     (starts_with ''C_SHARED'' rule \<or> starts_with ''C_EXECUTABLE'' rule
      \<or> contains ''_C_SHARED'' rule \<or> contains ''_C_EXECUTABLE'' rule)"

definition link_output_step ::
  "target_profile \<Rightarrow> string \<Rightarrow> (string \<times> string \<times> string) list \<Rightarrow> exn + (string \<times> string \<times> string) list" where
  "link_output_step target line declared =
     (case declared_output target line of
        None \<Rightarrow> Inr declared
      | Some (name, kind, rule) \<Rightarrow>
          if name \<in> fst ` set declared then Inr declared
          else if contains ''CXX_'' rule then Inr (declared @ [(name, kind, ''c++'')])
          else if c_rule rule then Inr (declared @ [(name, kind, ''c'')])
          else Inl (audit_error (''unknown link language for '' @ name @ '': '' @ rule)))"

definition parse_ninja_link_outputs :: "string \<Rightarrow> target_profile \<Rightarrow> exn + (string \<times> string \<times> string) list" where
  "parse_ninja_link_outputs output target =
     rbind (fold_r (link_output_step target) (split_lines output) []) (\<lambda>declared. Inr (sort_key fst declared))"

definition parse_ninja_product_outputs :: "string \<Rightarrow> target_profile \<Rightarrow> (string \<times> string) list" where
  "parse_ninja_product_outputs output target =
     sort_key fst (foldl (\<lambda>declared line.
       case declared_output target line of
         None \<Rightarrow> declared
       | Some (name, kind, _) \<Rightarrow> if name \<in> fst ` set declared then declared else declared @ [(name, kind)])
       [] (split_lines output))"

text \<open>\<open>name.rsplit('.', 1)[0]\<close>\<close>

definition before_last_dot :: "string \<Rightarrow> string" where
  "before_last_dot name = (case last_dot name of Some i \<Rightarrow> take i name | None \<Rightarrow> name)"

definition product_target_name :: "string \<Rightarrow> target_profile \<Rightarrow> string" where
  "product_target_name name target =
     (if tp_platform target = ''windows'' then before_last_dot name
      else if starts_with ''lib'' name \<and> ends_with ''.so'' name then drop 3 (take (length name - 3) name)
      else before_last_dot name)"

subsection \<open>Tokens are read back\<close>

text \<open>A token as a command line spells it: bare when it can be, otherwise in quotes.\<close>

definition bare_token :: "string \<Rightarrow> bool" where
  "bare_token t = (t \<noteq> [] \<and> hd t \<noteq> CHR 0x22 \<and> list_all (\<lambda>c. \<not> is_space_char c) t)"

definition spell_token :: "string \<Rightarrow> string" where
  "spell_token t = (if bare_token t then t else [CHR 0x22] @ t @ [CHR 0x22])"

definition token_ok :: "string \<Rightarrow> bool" where
  "token_ok t = (bare_token t \<or> list_all quoted_char t)"

lemma space_is_space: "is_space_char (CHR '' '')"
  by code_simp

lemma token_chars: "\<not> is_space_char (CHR 0x22)" "\<not> is_space_char (CHR ''&'')" "\<not> quoted_char (CHR 0x22)"
  by code_simp+

lemma span_all: "list_all P t \<Longrightarrow> r = [] \<or> \<not> P (hd r) \<Longrightarrow> takeWhile P (t @ r) = t \<and> dropWhile P (t @ r) = r"
  by (induction t) (cases r; auto)+

lemma command_tokens_space: "is_space_char c \<Longrightarrow> command_tokens (c # s) = command_tokens s"
  by (subst command_tokens.simps) (auto simp: token_chars)

lemma command_tokens_spelled:
  assumes "token_ok t" and "r = [] \<or> is_space_char (hd r)"
  shows "command_tokens (spell_token t @ r) = t # command_tokens r"
proof (cases "bare_token t")
  case True
  then obtain c cs where t: "t = c # cs" "c \<noteq> CHR 0x22" "\<not> is_space_char c" "list_all (\<lambda>d. \<not> is_space_char d) cs"
    by (cases t) (auto simp: bare_token_def)
  have "takeWhile (\<lambda>d. \<not> is_space_char d) (cs @ r) = cs \<and> dropWhile (\<lambda>d. \<not> is_space_char d) (cs @ r) = r"
    by (rule span_all) (use t(4) assms(2) in auto)
  then show ?thesis using True t by (subst command_tokens.simps) (simp add: spell_token_def)
next
  case False
  with assms(1) have "list_all quoted_char t" by (simp add: token_ok_def)
  then have "takeWhile quoted_char (t @ CHR 0x22 # r) = t \<and> dropWhile quoted_char (t @ CHR 0x22 # r) = CHR 0x22 # r"
    by (rule span_all) (simp add: token_chars)
  then show ?thesis using False by (subst command_tokens.simps) (simp add: spell_token_def)
qed

text \<open>C33. The audit reads a command as it was spelled: tokens that are bare or, where they are empty, have
  spaces or begin with a quote, are put in quotes, and joined by spaces, are the tokens of the line,
  provided that those put in quotes have no quote and no line end in them.\<close>

theorem command_tokens_read_back:
  "list_all token_ok ts \<Longrightarrow> command_tokens (join_str '' '' (map spell_token ts)) = ts"
proof (induction ts rule: induct_list012)
  case 1
  then show ?case by (simp add: command_tokens.simps)
next
  case (2 t)
  then show ?case using command_tokens_spelled [of t "[]"] by (simp add: command_tokens.simps [of "[]"])
next
  case (3 t u us)
  then show ?case
    using command_tokens_spelled [of t "'' '' @ join_str '' '' (map spell_token (u # us))"]
    by (simp add: command_tokens_space space_is_space)
qed

subsection \<open>Below a root\<close>

text \<open>The components of a path made absolute, and whether it keeps two leading slashes.\<close>

definition abs_comps :: "string \<Rightarrow> string \<Rightarrow> string list" where
  "abs_comps cwd p = norm_comps True [] (split_on slash (if starts_with ''/'' p then p else path_join cwd p))"

definition double_root :: "string \<Rightarrow> string \<Rightarrow> bool" where
  "double_root cwd p = (initial_slashes (if starts_with ''/'' p then p else path_join cwd p) = ''//'')"

lemma norm_comps_subset: "set (norm_comps rooted acc cs) \<subseteq> set acc \<union> set cs"
proof (induction rooted acc cs rule: norm_comps.induct)
  case (2 rooted acc c cs)
  then show ?case by (auto dest: list.set_sel(2) split: if_splits) (metis Un_iff list.set_sel(2) subsetD tl_Nil)+
qed simp

lemma abs_comps_clean: "list_all (\<lambda>c. slash \<notin> set c \<and> c \<noteq> [] \<and> c \<noteq> ''.'') (abs_comps cwd p)"
proof -
  let ?q = "split_on slash (if starts_with ''/'' p then p else path_join cwd p)"
  have "normal_comps True (abs_comps cwd p)"
    unfolding abs_comps_def by (rule norm_comps_normal) (simp add: normal_comps_def)
  moreover have "set (abs_comps cwd p) \<subseteq> set ?q" using norm_comps_subset [of True "[]" ?q] by (simp add: abs_comps_def)
  moreover have "list_all (\<lambda>w. slash \<notin> set w) ?q" by (rule split_on_free)
  ultimately show ?thesis by (auto simp: normal_comps_def list_all_iff)
qed

lemma abspath_comps:
  assumes "starts_with ''/'' cwd"
  shows "abspath cwd p = (if double_root cwd p then ''//'' else ''/'') @ join_str ''/'' (abs_comps cwd p)"
proof -
  have "starts_with ''/'' (if starts_with ''/'' p then p else path_join cwd p)"
    using assms by (auto simp: path_join_def prefix_def)
  then show ?thesis by (auto simp: abspath_def normpath_def initial_slashes_def abs_comps_def double_root_def)
qed

lemma path_comps_joined:
  assumes "list_all (\<lambda>c. slash \<notin> set c \<and> c \<noteq> [] \<and> c \<noteq> ''.'') cs" and "pre = ''/'' \<or> pre = ''//''"
  shows "path_comps (pre @ join_str ''/'' cs) = cs"
proof -
  have "path_comps (join_str [slash] cs) = cs"
  proof (cases "cs = []")
    case False
    then have "split_on slash (join_str [slash] cs) = cs"
      by (intro split_join) (use assms(1) in \<open>auto simp: list_all_iff\<close>)
    then show ?thesis using assms(1) by (simp add: path_comps_def list_all_iff)
  qed (simp add: path_comps_def)
  moreover have "path_comps (pre @ s) = path_comps s" for s
    using assms(2) by (auto simp: path_comps_def slash_def)
  ultimately show ?thesis by (simp add: slash_def)
qed

lemma common_prefix_prefix: "prefix (take (common_prefix xs ys) xs) ys"
  by (induction xs ys rule: common_prefix.induct) auto

lemma common_prefix_all: "take (common_prefix xs ys) xs = ys \<longleftrightarrow> prefix ys xs"
proof
  assume "take (common_prefix xs ys) xs = ys"
  then show "prefix ys xs" by (metis take_is_prefix)
next
  assume "prefix ys xs"
  then show "take (common_prefix xs ys) xs = ys"
    by (induction xs ys rule: common_prefix.induct) auto
qed

lemma join_slash_inj:
  assumes "list_all (\<lambda>c. slash \<notin> set c \<and> c \<noteq> [] \<and> c \<noteq> ''.'') xs" "list_all (\<lambda>c. slash \<notin> set c \<and> c \<noteq> [] \<and> c \<noteq> ''.'') ys"
  shows "''/'' @ join_str ''/'' xs = ''/'' @ join_str ''/'' ys \<longleftrightarrow> xs = ys"
  using path_comps_joined [OF assms(1), of "''/''"] path_comps_joined [OF assms(2), of "''/''"] by metis

lemma below_root:
  assumes "starts_with ''/'' cwd"
  shows "(case commonpath (abspath cwd p) (abspath cwd r) of Inr q \<Rightarrow> q = abspath cwd r | Inl e \<Rightarrow> False)
    \<longleftrightarrow> \<not> double_root cwd r \<and> prefix (abs_comps cwd r) (abs_comps cwd p)"
proof -
  let ?cs = "abs_comps cwd p" and ?rs = "abs_comps cwd r"
  let ?k = "take (common_prefix ?cs ?rs) ?cs"
  have comps: "path_comps (abspath cwd x) = abs_comps cwd x" for x
    unfolding abspath_comps [OF assms] by (rule path_comps_joined [OF abs_comps_clean]) auto
  have "starts_with ''/'' (abspath cwd x)" for x unfolding abspath_comps [OF assms] by auto
  then have c: "commonpath (abspath cwd p) (abspath cwd r) = Inr (''/'' @ join_str ''/'' ?k)"
    by (simp add: commonpath_def comps)
  have k: "list_all (\<lambda>c. slash \<notin> set c \<and> c \<noteq> [] \<and> c \<noteq> ''.'') ?k"
    using abs_comps_clean [of cwd p] by (auto simp: list_all_iff dest: in_set_takeD)
  show ?thesis
  proof (cases "double_root cwd r")
    case False
    then have r: "abspath cwd r = ''/'' @ join_str ''/'' ?rs" unfolding abspath_comps [OF assms, of r] by simp
    have "''/'' @ join_str ''/'' ?k = ''/'' @ join_str ''/'' ?rs \<longleftrightarrow> ?k = ?rs" by (rule join_slash_inj [OF k abs_comps_clean])
    also have "\<dots> \<longleftrightarrow> prefix ?rs ?cs" by (rule common_prefix_all)
    finally show ?thesis unfolding c sum.case unfolding r using False by (simp only: simp_thms)
  next
    case True
    have "join_str ''/'' ?k \<noteq> CHR ''/'' # x" for x
    proof (cases ?k)
      case (Cons w ws)
      then obtain d ds where w: "w = d # ds" "d \<noteq> CHR ''/''"
        using k unfolding Cons by (cases w) (auto simp: slash_def)
      show ?thesis unfolding Cons w(1) using w(2) by (cases ws) simp_all
    next
      case Nil
      show ?thesis unfolding Nil by simp
    qed
    with True show ?thesis unfolding c sum.case unfolding abspath_comps [OF assms, of r] by simp
  qed
qed

subsection \<open>Chains of payloads\<close>

text \<open>A payload of an \<open>&&\<close> chain: not empty, with no operator in it and no space at its ends.\<close>

definition payload_ok :: "string \<Rightarrow> bool" where
  "payload_ok p = (p \<noteq> [] \<and> \<not> is_space_char (hd p) \<and> \<not> is_space_char (last p) \<and> CHR ''&'' \<notin> set p \<and> CHR ''|'' \<notin> set p)"

lemma no_separator_inside:
  assumes "p \<noteq> []" "\<not> is_space_char (last p)" "CHR ''&'' \<notin> set p" "CHR ''|'' \<notin> set p"
  shows "match_separator (p @ r) = None"
proof -
  have "skip_space (p @ r) = dropWhile is_space_char p @ r \<and> dropWhile is_space_char p \<noteq> []"
    unfolding skip_space_def using assms(1,2) by (induction p) (auto split: if_splits)
  moreover have "set (dropWhile is_space_char p) \<subseteq> set p" by (rule set_dropWhileD [THEN subsetI])
  ultimately show ?thesis
    using assms(3,4) by (cases "dropWhile is_space_char p") (auto simp: match_separator_def Let_def)
qed

lemma split_payloads_chars:
  assumes "p \<noteq> [] \<Longrightarrow> \<not> is_space_char (last p)" "CHR ''&'' \<notin> set p" "CHR ''|'' \<notin> set p"
  shows "split_payloads (p @ r) = (case split_payloads r of w # ws \<Rightarrow> (p @ w) # ws | [] \<Rightarrow> [p])"
  using assms
proof (induction p)
  case Nil
  have "split_payloads r \<noteq> []" by (subst split_payloads.simps) (auto split: list.splits option.splits)
  then show ?case by (cases "split_payloads r") auto
next
  case (Cons c cs)
  have "match_separator ((c # cs) @ r) = None" by (rule no_separator_inside) (use Cons.prems in auto)
  moreover have "split_payloads (cs @ r) = (case split_payloads r of w # ws \<Rightarrow> (cs @ w) # ws | [] \<Rightarrow> [cs])"
    by (rule Cons.IH) (use Cons.prems in \<open>auto split: if_splits\<close>)
  moreover have "split_payloads r \<noteq> []" by (subst split_payloads.simps) (auto split: list.splits option.splits)
  ultimately show ?case by (subst split_payloads.simps) (auto split: list.splits)
qed

lemma separator_matches: "payload_ok q \<Longrightarrow> match_separator ('' && '' @ q @ r) = Some (q @ r)"
  by (cases q) (auto simp: match_separator_def skip_space_def payload_ok_def space_is_space token_chars)

lemma payload_ok_join: "list_all payload_ok ps \<Longrightarrow> ps \<noteq> [] \<Longrightarrow> \<exists>p r. join_str '' && '' ps = p @ r \<and> payload_ok p"
  by (cases ps; cases "tl ps") force+

lemma split_payloads_join:
  "list_all payload_ok ps \<Longrightarrow> ps \<noteq> [] \<Longrightarrow> split_payloads (join_str '' && '' ps) = ps"
proof (induction ps rule: induct_list012)
  case (2 p)
  have "split_payloads (p @ []) = (case split_payloads [] of w # ws \<Rightarrow> (p @ w) # ws | [] \<Rightarrow> [p])"
    by (rule split_payloads_chars) (use 2 in \<open>auto simp: payload_ok_def\<close>)
  then show ?case by (simp add: split_payloads.simps [of "[]"])
next
  case (3 p q qs)
  let ?r = "join_str '' && '' (q # qs)"
  obtain x r where r: "?r = x @ r" "payload_ok x" using payload_ok_join [of "q # qs"] 3(3) by auto
  have "split_payloads ('' && '' @ ?r) = [] # split_payloads ?r"
    using separator_matches [OF r(2), of r] unfolding r(1) by (subst split_payloads.simps) simp
  moreover have "split_payloads ?r = q # qs" using 3 by simp
  moreover have "split_payloads (p @ '' && '' @ ?r) = (case split_payloads ('' && '' @ ?r) of w # ws \<Rightarrow> (p @ w) # ws | [] \<Rightarrow> [p])"
    by (rule split_payloads_chars) (use 3 in \<open>auto simp: payload_ok_def\<close>)
  ultimately show ?case by simp
qed simp

text \<open>What the audit accepts of one payload.\<close>

definition invocation_allowed :: "string list \<Rightarrow> bool" where
  "invocation_allowed tokens =
     (tokens = [] \<or> tool_basename (hd tokens) = ''cd''
      \<or> tool_basename (hd tokens) \<notin> set forbidden_command_tools
        \<and> (tool_basename (hd tokens) \<in> {''cmake'', ''cmake.exe''} \<and> length tokens > 3
           \<longrightarrow> pred_option (\<lambda>nested. tool_basename nested \<notin> set forbidden_command_tools) (env_payload tokens)))"

lemma fold_checks: "fold_r (\<lambda>x u. f x) xs () = Inr () \<longleftrightarrow> list_all (\<lambda>x. f x = Inr ()) xs"
  by (induction xs) (auto simp: rbind_Inr_iff)

lemma audit_if_iff [simp]: "audit_if b msg = Inr u \<longleftrightarrow> \<not> b"
  by (simp add: audit_if_def)

lemma audit_invocation_iff: "audit_invocation tokens = Inr () \<longleftrightarrow> invocation_allowed tokens"
  by (cases tokens) (auto simp: audit_invocation_def invocation_allowed_def Let_def rbind_Inr_iff split: option.splits)

lemma audit_command_iff: "audit_command_invocations command = Inr () \<longleftrightarrow> list_all invocation_allowed (command_invocations command)"
  by (simp add: audit_command_invocations_def fold_checks audit_invocation_iff)

text \<open>Every payload of a command is inspected: a chain of payloads joined by \<open>&&\<close> passes exactly when
  each payload, for itself, names a permitted tool, directly or through \<open>cmake -E env\<close>.\<close>

theorem chain_audited:
  assumes "list_all payload_ok ps" and "ps \<noteq> []"
  shows "audit_command_invocations (join_str '' && '' ps) = Inr ()
    \<longleftrightarrow> list_all (\<lambda>p. invocation_allowed (payload_tokens p)) ps"
proof -
  have "invocation_allowed []" by (simp add: invocation_allowed_def)
  then show ?thesis
    unfolding audit_command_iff command_invocations_def split_payloads_join [OF assms]
    by (auto simp: list_all_iff)
qed

theorem command_tokens_read_back_witness:
  "command_tokens (''clang++ -I '' @ [CHR 0x22] @ ''/opt/a b'' @ [CHR 0x22] @ '' '' @ [CHR 0x22, CHR 0x22] @ '' x.cpp'')
     = [''clang++'', ''-I'', ''/opt/a b'', [], ''x.cpp'']"
proof -
  have "command_tokens (join_str '' '' (map spell_token [''clang++'', ''-I'', ''/opt/a b'', [], ''x.cpp'']))
      = [''clang++'', ''-I'', ''/opt/a b'', [], ''x.cpp'']"
    by (rule command_tokens_read_back) code_simp
  moreover have "join_str '' '' (map spell_token [''clang++'', ''-I'', ''/opt/a b'', [], ''x.cpp''])
      = ''clang++ -I '' @ [CHR 0x22] @ ''/opt/a b'' @ [CHR 0x22] @ '' '' @ [CHR 0x22, CHR 0x22] @ '' x.cpp''"
    by code_simp
  ultimately show ?thesis by simp
qed

theorem chain_audited_witness:
  "audit_command_invocations ''cd /b && /bin/BASH gen.sh'' \<noteq> Inr ()"
proof -
  have "audit_command_invocations (join_str '' && '' [''cd /b'', ''/bin/BASH gen.sh'']) = Inr ()
      \<longleftrightarrow> list_all (\<lambda>p. invocation_allowed (payload_tokens p)) [''cd /b'', ''/bin/BASH gen.sh'']"
    by (rule chain_audited) code_simp+
  moreover have "\<not> list_all (\<lambda>p. invocation_allowed (payload_tokens p)) [''cd /b'', ''/bin/BASH gen.sh'']" by code_simp
  moreover have "join_str '' && '' [''cd /b'', ''/bin/BASH gen.sh''] = ''cd /b && /bin/BASH gen.sh''" by simp
  ultimately show ?thesis by simp
qed

text \<open>A path is below one of the roots exactly when, both made absolute and normal, the components of
  the root begin those of the path; a sibling whose name continues the root's is not below it. A
  root that keeps two leading slashes has nothing below it.\<close>

theorem below_root_components:
  assumes "starts_with ''/'' cwd"
  shows "path_below_any cwd path roots
    \<longleftrightarrow> list_ex (\<lambda>root. \<not> double_root cwd root \<and> prefix (abs_comps cwd root) (abs_comps cwd path)) roots"
  by (simp add: path_below_any_def Let_def below_root [OF assms])

theorem below_root_components_witness:
  "path_below_any ''/w'' ''../repo/src/./a.c'' [''/repo'', ''out''] \<and> \<not> path_below_any ''/w'' ''/repository/a.c'' [''/repo'', ''out'']"
proof
  have "starts_with ''/'' ''/w''" by simp
  note below_root_components [OF this]
  then show "path_below_any ''/w'' ''../repo/src/./a.c'' [''/repo'', ''out'']"
    and "\<not> path_below_any ''/w'' ''/repository/a.c'' [''/repo'', ''out'']"
    by (simp_all only:) code_simp+
qed

text \<open>Spellings that the audit does not see: a joined \<open>-isystem\<close>, and one payload in a \<open>cmd.exe\<close> wrapper.\<close>

lemma joined_isystem_unseen: "extract_search_paths ''clang++ -isystem/usr/include -c a.cpp'' False = []"
  by code_simp

lemma single_wrapped_payload_unseen:
  "audit_command_invocations (''cmd.exe /C '' @ [CHR 0x22] @ ''bash gen.sh'' @ [CHR 0x22]) = Inr ()"
  by code_simp

end
