(* ===== verification/BuildAudit.thy ===== *)
theory BuildAudit
  imports BuildCommands
begin

section \<open>The audit of generated commands\<close>

text \<open>
  \<open>_audit_generated_commands\<close> of \<open>tools/build_art.py\<close> and the tools it rests on. The host is a
  record: the file system of the local configuration with the repository root, the working
  directory, the platform names, \<open>shutil.which\<close>, \<open>Path.resolve\<close>, the texts and JSON values of files,
  the entries of directories, and the answers of \<open>ninja -t\<close>. The result is the report and the file
  it is written to; the printed summary is left out.
\<close>

record build_host = machine +
  bh_repo_root :: pypath
  bh_cwd :: string
  bh_system :: string
  bh_machine :: string
  bh_nt :: bool
  bh_which :: "string \<Rightarrow> pypath option"
  bh_resolve :: "pypath \<Rightarrow> pypath"
  bh_is_dir :: "pypath \<Rightarrow> bool"
  bh_text :: "pypath \<Rightarrow> exn + string"
  bh_json :: "pypath \<Rightarrow> exn + pyval"
  bh_entries :: "pypath \<Rightarrow> string list"
  bh_ninja :: "pypath \<Rightarrow> string list \<Rightarrow> int \<times> string"
  bh_compiler_metadata :: "pypath \<Rightarrow> (string \<times> string) list"

definition frontend_if :: "bool \<Rightarrow> string \<Rightarrow> exn + unit" where
  "frontend_if b msg = (if b then Inl (frontend_error msg) else Inr ())"

definition managed_here :: "build_host \<Rightarrow> pypath \<Rightarrow> exn + pypath" where
  "managed_here bh p = validate_managed_path (machine.truncate bh) p False"

definition path_name :: "pypath \<Rightarrow> string" where
  "path_name p = (if pp_names p = [] then [] else last (pp_names p))"

definition path_parent :: "pypath \<Rightarrow> pypath" where
  "path_parent p = p\<lparr>pp_names := butlast (pp_names p)\<rparr>"

text \<open>\<open>p / 'a/b'\<close> for relative names.\<close>

definition path_below :: "pypath \<Rightarrow> string list \<Rightarrow> pypath" where
  "path_below p names = p\<lparr>pp_names := pp_names p @ names\<rparr>"

subsection \<open>The host\<close>

definition host_arch_of :: "string \<Rightarrow> string" where
  "host_arch_of machine_name =
     (let m = lower machine_name in
      case map_of [(''amd64'', ''x86_64''), (''x64'', ''x86_64''), (''arm64'', ''aarch64''), (''i386'', ''x86''),
          (''i686'', ''x86'')] m of Some a \<Rightarrow> a | None \<Rightarrow> m)"

definition host_can_run_target :: "build_host \<Rightarrow> target_profile \<Rightarrow> bool" where
  "host_can_run_target bh target =
     (if lower (bh_system bh) \<noteq> tp_platform target then False
      else if tp_arch target = ''arm64ec'' then
        tp_platform target = ''windows'' \<and> host_arch_of (bh_machine bh) = ''aarch64''
      else host_arch_of (bh_machine bh) = tp_arch target)"

subsection \<open>Tools\<close>

definition discover :: "build_host \<Rightarrow> string \<Rightarrow> exn + pypath" where
  "discover bh executable =
     (case bh_which bh executable of
        Some found \<Rightarrow> Inr found
      | None \<Rightarrow> Inl (frontend_error (''required host tool '' @ py_repr executable @ '' was not configured or found'')))"

definition configured_or_discovered ::
  "build_host \<Rightarrow> local_build_config \<Rightarrow> string \<Rightarrow> string \<Rightarrow> exn + pypath" where
  "configured_or_discovered bh local key executable =
     rbind (case map_of (lc_tools local) key of
         Some path \<Rightarrow> managed_here bh path
       | None \<Rightarrow> discover bh executable) (\<lambda>path.
     rbind (managed_here bh (bh_resolve bh path)) (\<lambda>resolved.
     rbind (frontend_if (key \<in> {''cmake'', ''ninja''} \<and> path_name resolved \<notin> {key, key @ ''.exe''})
       (''plain '' @ key @ '' executable required; got '' @ py_repr (path_name resolved))) (\<lambda>_.
     Inr resolved)))"

definition exe_suffix :: "build_host \<Rightarrow> string" where
  "exe_suffix bh = (if bh_nt bh then ''.exe'' else [])"

type_synonym tool_table = "(string \<times> pypath) list"

definition resolve_tools :: "build_host \<Rightarrow> local_build_config \<Rightarrow> bool \<Rightarrow> exn + tool_table" where
  "resolve_tools bh local need_compiler =
     rbind (configured_or_discovered bh local ''cmake'' ''cmake'') (\<lambda>cmake.
     rbind (configured_or_discovered bh local ''ninja'' ''ninja'') (\<lambda>ninja.
     if \<not> need_compiler then Inr [(''cmake'', cmake), (''ninja'', ninja)]
     else
       rbind (case map_of (lc_tools local) ''llvm_root'' of
           Some llvm_root \<Rightarrow> Inr (path_below llvm_root [''bin'', ''clang'' @ exe_suffix bh],
             path_below llvm_root [''bin'', ''clang++'' @ exe_suffix bh])
         | None \<Rightarrow> rbind (discover bh ''clang'') (\<lambda>clang.
             rbind (discover bh ''clang++'') (\<lambda>clangxx. Inr (clang, clangxx)))) (\<lambda>(clang, clangxx).
       rbind (managed_here bh clang) (\<lambda>clang.
       rbind (managed_here bh clangxx) (\<lambda>clangxx.
       rbind (frontend_if (path_name clang \<notin> {''clang'', ''clang.exe''})
         (''plain Clang driver required: '' @ path_str clang)) (\<lambda>_.
       rbind (frontend_if (path_name clangxx \<notin> {''clang++'', ''clang++.exe''})
         (''plain Clang++ driver required: '' @ path_str clangxx)) (\<lambda>_.
       Inr [(''cmake'', cmake), (''ninja'', ninja), (''clang'', clang), (''clang++'', clangxx)])))))))"

definition tool_path :: "tool_table \<Rightarrow> string \<Rightarrow> string" where
  "tool_path tools name = (case map_of tools name of Some p \<Rightarrow> path_str p | None \<Rightarrow> [])"

definition checked_bindings :: "build_host \<Rightarrow> target_profile \<Rightarrow> local_build_config \<Rightarrow> exn + tool_table" where
  "checked_bindings bh target local =
     (let bindings = target_bindings local (tp_id target) in
      rbind (map_r (\<lambda>(key, path). managed_here bh path) bindings) (\<lambda>_. Inr bindings))"

definition command_search_roots ::
  "build_host \<Rightarrow> pypath \<Rightarrow> local_build_config \<Rightarrow> tool_table \<Rightarrow> tool_table \<Rightarrow> pypath list" where
  "command_search_roots bh binary_dir local bindings tools =
     (let llvm_root = (case map_of (lc_tools local) ''llvm_root'' of
            Some root \<Rightarrow> [root]
          | None \<Rightarrow> (case map_of tools ''clang'' of Some clang \<Rightarrow> [path_parent (path_parent clang)] | None \<Rightarrow> [])) in
      rev (remdups (rev (map (bh_resolve bh) ([bh_repo_root bh, binary_dir] @ map snd bindings @ llvm_root)))))"

subsection \<open>The CMake cache\<close>

definition cache_line :: "string \<Rightarrow> (string \<times> string) option" where
  "cache_line line =
     (if line = [] \<or> starts_with ''#'' line \<or> starts_with ''//'' line \<or> CHR ''='' \<notin> set line then None
      else let field_text = takeWhile (\<lambda>c. c \<noteq> CHR ''='') line in
        if CHR '':'' \<in> set field_text
        then Some (takeWhile (\<lambda>c. c \<noteq> CHR '':'') field_text, after_first (CHR ''='') line) else None)"

definition read_cmake_cache :: "build_host \<Rightarrow> pypath \<Rightarrow> exn + (string \<times> string) list" where
  "read_cmake_cache bh path =
     (case bh_text bh path of
        Inr contents \<Rightarrow> Inr (foldl (\<lambda>values line. case cache_line line of
            Some (k, v) \<Rightarrow> AList.update k v values | None \<Rightarrow> values) [] (split_lines contents))
      | Inl (OSError kind msg) \<Rightarrow> Inl (audit_error (''cannot read '' @ path_str path @ '': '' @ msg))
      | Inl e \<Rightarrow> Inl e)"

definition expected_cache :: "target_profile \<Rightarrow> tool_table \<Rightarrow> (string \<times> string) list" where
  "expected_cache target bindings =
     [(''CMAKE_GENERATOR'', ''Ninja''), (''CMAKE_SYSTEM_NAME'', tp_cmake_system_name target),
      (''CMAKE_C_COMPILER_TARGET'', tp_triple target), (''CMAKE_CXX_COMPILER_TARGET'', tp_triple target),
      (''CMAKE_ASM_COMPILER_TARGET'', tp_triple target)]
     @ (case map_of bindings ''runtime_root'' of
          Some runtime_root \<Rightarrow>
            if tp_abi target = ''gnu'' then
              map (\<lambda>language. (''CMAKE_'' @ language @ ''_COMPILER_EXTERNAL_TOOLCHAIN'', path_str runtime_root))
                [''C'', ''CXX'']
            else []
        | None \<Rightarrow> [])"

definition option_repr :: "string option \<Rightarrow> string" where
  "option_repr v = (case v of Some s \<Rightarrow> py_repr s | None \<Rightarrow> ''None'')"

definition audit_cache ::
  "build_host \<Rightarrow> target_profile \<Rightarrow> tool_table \<Rightarrow> tool_table \<Rightarrow> (string \<times> string) list \<Rightarrow> exn + unit" where
  "audit_cache bh target bindings tools cache =
     rbind (fold_r (\<lambda>(key, expected) u. audit_if (map_of cache key \<noteq> Some expected)
         (key @ '' must be '' @ py_repr expected @ '', got '' @ option_repr (map_of cache key)))
       (expected_cache target bindings) ()) (\<lambda>_.
     let value_of = (\<lambda>key. case map_of cache key of Some v \<Rightarrow> v | None \<Rightarrow> []) in
     rbind (audit_if (tool_basename (value_of ''CMAKE_MAKE_PROGRAM'') \<notin> {''ninja'', ''ninja.exe''})
       ''CMAKE_MAKE_PROGRAM is not Ninja'') (\<lambda>_.
     fold_r (\<lambda>(key, tool_key) u.
         audit_if (\<not> same_host_path (bh_cwd bh) (value_of key) (tool_path tools tool_key))
           (key @ '' differs from configured '' @ tool_key))
       [(''CMAKE_C_COMPILER'', ''clang''), (''CMAKE_CXX_COMPILER'', ''clang++'')] ()))"

definition forbidden_generator_artifact :: "string \<Rightarrow> bool" where
  "forbidden_generator_artifact name =
     (name = ''Makefile'' \<or> lower (name_suffix name) \<in> {''.sln'', ''.vcxproj'', ''.filters''}
      \<or> starts_with ''build-'' name \<and> name_suffix name = ''.ninja'')"

subsection \<open>Compile records\<close>

record audit_context =
  ac_target :: target_profile
  ac_binary_dir :: pypath
  ac_tools :: tool_table
  ac_executables :: "string list"
  ac_cross :: bool
  ac_roots :: "string list"

definition expected_driver :: "string \<Rightarrow> string" where
  "expected_driver source =
     (if lower (path_suffix (path_of source)) \<in> {''.c'', ''.s''} then ''clang'' else ''clang++'')"

definition audit_compile_command ::
  "build_host \<Rightarrow> audit_context \<Rightarrow> nat \<Rightarrow> string \<Rightarrow> string \<Rightarrow> string \<Rightarrow> exn + string" where
  "audit_compile_command bh ac index command source output =
     (let tokens = command_tokens command; target = ac_target ac; driver = expected_driver source;
          record_text = ''compile record '' @ nat_str index in
      case tokens of
        [] \<Rightarrow> Inl (audit_error (record_text @ '' has no command''))
      | first # _ \<Rightarrow>
          rbind (audit_if (tool_basename first \<notin> {driver, driver @ ''.exe''}
              \<or> \<not> same_host_path (bh_cwd bh) first (tool_path (ac_tools ac) driver))
            (record_text @ '' does not start with configured '' @ driver)) (\<lambda>_.
          rbind (audit_if (\<not> command_has_target tokens (tp_triple target) \<or> ''-c'' \<notin> set tokens)
            (record_text @ '' omits target or -c'')) (\<lambda>_.
          rbind (audit_if (tp_platform target = ''linux'' \<and> ''-fPIC'' \<notin> set tokens)
            (''Linux '' @ record_text @ '' omits -fPIC'')) (\<lambda>_.
          let normalized_output = replace_char (CHR 0x5C) slash output in
          rbind (audit_if (tp_platform target = ''linux''
              \<and> list_ex (\<lambda>name. contains (''CMakeFiles/'' @ name @ ''.dir/'') normalized_output) (ac_executables ac)
              \<and> ''-fPIE'' \<notin> set tokens)
            (''product executable '' @ record_text @ '' omits -fPIE'')) (\<lambda>_.
          rbind (audit_command_invocations command) (\<lambda>_.
          rbind (audit_if (\<not> path_below_any (bh_cwd bh) source [path_str (bh_repo_root bh), path_str (ac_binary_dir ac)])
            (''compile source is outside source/output roots: '' @ source)) (\<lambda>_.
          rbind (if ac_cross ac then
              audit_search_paths (bh_cwd bh) command (ac_roots ac) (ac_binary_dir ac) record_text False
            else Inr ()) (\<lambda>_.
          Inr driver))))))))"

definition audit_compile_record ::
  "build_host \<Rightarrow> audit_context \<Rightarrow> nat \<times> pyval \<Rightarrow> exn + string" where
  "audit_compile_record bh ac = (\<lambda>(index, raw_record).
     case raw_record of
       VDict r \<Rightarrow>
         (case (dget r ''command'' VNone, dget r ''file'' VNone) of
            (VStr command, VStr source) \<Rightarrow>
              audit_compile_command bh ac index command source (text_of (dget r ''output'' (VStr [])))
          | _ \<Rightarrow> Inl (audit_error (''compile record '' @ nat_str index @ '' is malformed'')))
     | _ \<Rightarrow> Inl (audit_error (''compile record '' @ nat_str index @ '' is not an object'')))"

subsection \<open>Links\<close>

definition required_image_flags :: "target_profile \<Rightarrow> string list" where
  "required_image_flags target =
     [''/DYNAMICBASE'', ''/NXCOMPAT'']
     @ (if tp_arch target \<in> {''x86_64'', ''aarch64'', ''arm64ec''} then [''/HIGHENTROPYVA''] else [])"

definition audit_link_command ::
  "build_host \<Rightarrow> string \<Rightarrow> string \<Rightarrow> string \<Rightarrow> string \<Rightarrow> target_profile \<Rightarrow> tool_table \<Rightarrow> exn + unit" where
  "audit_link_command bh command name kind language target tools =
     (let invocations = command_invocations command;
          tokens = concat invocations;
          driver = (if language = ''c++'' then ''clang++'' else ''clang'');
          driver_tokens = filter (\<lambda>t. tool_basename t \<in> {driver, driver @ ''.exe''}) (map hd invocations) in
      rbind (audit_if (\<not> list_ex (\<lambda>t. same_host_path (bh_cwd bh) t (tool_path tools driver)) driver_tokens)
        (name @ '' does not link through configured '' @ driver)) (\<lambda>_.
      rbind (audit_if (\<not> command_has_target tokens (tp_triple target)) (name @ '' link omits target triple'')) (\<lambda>_.
      rbind (audit_if (''-fuse-ld=lld'' \<notin> set tokens) (name @ '' link omits driver-level LLD selection'')) (\<lambda>_.
      rbind (audit_if (kind = ''shared-library'' \<and> ''-shared'' \<notin> set tokens)
        (name @ '' shared-library link omits -shared'')) (\<lambda>_.
      rbind (audit_if (kind = ''executable'' \<and> tp_platform target = ''linux'' \<and> ''-pie'' \<notin> set tokens)
        (name @ '' executable link omits -pie'')) (\<lambda>_.
      if tp_platform target = ''windows'' then
        (let missing = filter (\<lambda>flag. \<not> contains flag (map upper_char command)) (required_image_flags target) in
         audit_if (missing \<noteq> []) (name @ '' omits PE image flags: '' @ join_str '', '' missing))
      else Inr ()))))))"

definition run_ninja_tool :: "build_host \<Rightarrow> pypath \<Rightarrow> string list \<Rightarrow> exn + string" where
  "run_ninja_tool bh binary_dir arguments =
     (case bh_ninja bh binary_dir arguments of (returncode, stdout) \<Rightarrow>
        rbind (audit_if (returncode \<noteq> 0)
          (''Ninja tool failed for '' @ join_str '' '' arguments @ '' (exit '' @ int_str returncode @ '')'')) (\<lambda>_. Inr stdout))"

definition command_lines :: "string \<Rightarrow> string list" where
  "command_lines output = filter (\<lambda>line. strip whitespace line \<noteq> []) (split_lines output)"

definition audit_link_output :: "build_host \<Rightarrow> audit_context \<Rightarrow> string \<times> string \<times> string \<Rightarrow> exn + string" where
  "audit_link_output bh ac = (\<lambda>(name, kind, language).
     rbind (run_ninja_tool bh (ac_binary_dir ac) [''commands'', name]) (\<lambda>target_commands.
     let lines = command_lines target_commands in
     rbind (audit_if (lines = []) (''Ninja emits no command for '' @ name)) (\<lambda>_.
     rbind (audit_link_command bh (last lines) name kind language (ac_target ac) (ac_tools ac)) (\<lambda>_.
     rbind (if ac_cross ac then
         audit_search_paths (bh_cwd bh) (last lines) (ac_roots ac) (ac_binary_dir ac) (''link output '' @ name) True
       else Inr ()) (\<lambda>_.
     Inr kind)))))"

subsection \<open>The whole audit\<close>

definition count_of :: "string \<Rightarrow> string list \<Rightarrow> pyval" where
  "count_of x xs = VInt (int (length (filter (\<lambda>y. y = x) xs)))"

definition read_compile_records :: "build_host \<Rightarrow> pypath \<Rightarrow> exn + pyval list" where
  "read_compile_records bh path =
     (case bh_json bh path of
        Inr (VList records) \<Rightarrow>
          if records = [] then Inl (audit_error ''compile_commands.json is empty or malformed'') else Inr records
      | Inr _ \<Rightarrow> Inl (audit_error ''compile_commands.json is empty or malformed'')
      | Inl (OSError kind msg) \<Rightarrow> Inl (audit_error (''cannot read '' @ path_str path @ '': '' @ msg))
      | Inl (RaisedError kind msg) \<Rightarrow>
          if kind = ''JSONDecodeError'' then Inl (audit_error (''cannot read '' @ path_str path @ '': '' @ msg))
          else Inl (RaisedError kind msg)
      | Inl e \<Rightarrow> Inl e)"

definition context_of ::
  "build_host \<Rightarrow> target_profile \<Rightarrow> pypath \<Rightarrow> local_build_config \<Rightarrow> tool_table \<Rightarrow> tool_table
    \<Rightarrow> (string \<times> string \<times> string) list \<Rightarrow> audit_context" where
  "context_of bh target binary_dir local tools bindings link_outputs =
     \<lparr>ac_target = target, ac_binary_dir = binary_dir, ac_tools = tools,
       ac_executables = map (\<lambda>(name, _). product_target_name name target)
         (filter (\<lambda>(_, kind, _). kind = ''executable'') link_outputs),
       ac_cross = \<not> host_can_run_target bh target,
       ac_roots = map path_str (command_search_roots bh binary_dir local bindings tools)\<rparr>"

definition audit_generated_commands ::
  "build_host \<Rightarrow> target_profile \<Rightarrow> pypath \<Rightarrow> local_build_config \<Rightarrow> exn + dict" where
  "audit_generated_commands bh target binary_dir local =
     rbind (resolve_tools bh local True) (\<lambda>tools.
     rbind (read_cmake_cache bh (path_below binary_dir [''CMakeCache.txt''])) (\<lambda>cache.
     rbind (checked_bindings bh target local) (\<lambda>bindings.
     rbind (audit_cache bh target bindings tools cache) (\<lambda>_.
     let artifacts = filter forbidden_generator_artifact (bh_entries bh binary_dir) in
     rbind (audit_if (artifacts \<noteq> []) (''forbidden generator artifacts: '' @ join_str '', '' (sort artifacts))) (\<lambda>_.
     rbind (read_compile_records bh (path_below binary_dir [''compile_commands.json''])) (\<lambda>compile_records.
     rbind (run_ninja_tool bh binary_dir [''targets'', ''all'']) (\<lambda>inventory_text.
     rbind (parse_ninja_link_outputs inventory_text target) (\<lambda>link_outputs.
     let ac = context_of bh target binary_dir local tools bindings link_outputs; cross_target = ac_cross ac in
     rbind (map_r (audit_compile_record bh ac) (enumerate 0 compile_records)) (\<lambda>drivers.
     rbind (run_ninja_tool bh binary_dir [''commands'']) (\<lambda>all_commands_text.
     let all_commands = command_lines all_commands_text in
     rbind (audit_if (all_commands = []) ''Ninja command graph is empty'') (\<lambda>_.
     rbind (fold_r (\<lambda>(index, command) u.
         rbind (audit_command_invocations command) (\<lambda>_. audit_shell_operators command index))
       (enumerate 0 all_commands) ()) (\<lambda>_.
     rbind (map_r (audit_link_output bh ac) link_outputs) (\<lambda>kinds.
     rbind (if cross_target then
         audit_implicit_search_paths (bh_cwd bh) (bh_compiler_metadata bh binary_dir) (ac_roots ac)
       else Inr ()) (\<lambda>_.
     Inr [(''schema_version'', VInt 1), (''target_id'', VStr (tp_id target)), (''generator'', VStr ''Ninja''),
       (''compile_commands'', VInt (int (length compile_records))),
       (''ninja_commands'', VInt (int (length all_commands))),
       (''compiler_commands'', VDict [(''clang'', count_of ''clang'' drivers), (''clang++'', count_of ''clang++'' drivers)]),
       (''product_links'', VDict [(''executable'', count_of ''executable'' kinds),
         (''shared-library'', count_of ''shared-library'' kinds)]),
       (''cross_search_isolation'', VBool cross_target)]))))))))))))))"

subsection \<open>What an accepted graph satisfies\<close>

definition candidate_path :: "audit_context \<Rightarrow> string \<Rightarrow> string" where
  "candidate_path ac spelling = path_str (if is_absolute (path_of spelling) then path_of spelling
     else path_below (ac_binary_dir ac) (pp_names (path_of spelling)))"

definition search_isolated :: "build_host \<Rightarrow> audit_context \<Rightarrow> bool \<Rightarrow> string \<Rightarrow> bool" where
  "search_isolated bh ac libs command =
     list_all (\<lambda>spelling. path_below_any (bh_cwd bh) (candidate_path ac spelling) (ac_roots ac))
       (extract_search_paths command libs)"

lemma audit_search_paths_iff:
  "audit_search_paths (bh_cwd bh) command (ac_roots ac) (ac_binary_dir ac) what libs = Inr () \<longleftrightarrow> search_isolated bh ac libs command"
  by (simp add: audit_search_paths_def fold_checks search_isolated_def candidate_path_def path_below_def Let_def)

definition compile_command_ok :: "build_host \<Rightarrow> audit_context \<Rightarrow> string \<Rightarrow> string \<Rightarrow> bool" where
  "compile_command_ok bh ac command source =
     (let tokens = command_tokens command in
      tokens \<noteq> [] \<and> same_host_path (bh_cwd bh) (hd tokens) (tool_path (ac_tools ac) (expected_driver source))
      \<and> command_has_target tokens (tp_triple (ac_target ac)) \<and> ''-c'' \<in> set tokens
      \<and> (tp_platform (ac_target ac) = ''linux'' \<longrightarrow> ''-fPIC'' \<in> set tokens)
      \<and> list_all invocation_allowed (command_invocations command)
      \<and> path_below_any (bh_cwd bh) source [path_str (bh_repo_root bh), path_str (ac_binary_dir ac)]
      \<and> (ac_cross ac \<longrightarrow> search_isolated bh ac False command))"

lemma audit_compile_command_Inr:
  assumes "audit_compile_command bh ac index command source output = Inr driver"
  shows "compile_command_ok bh ac command source \<and> driver = expected_driver source"
proof (cases "command_tokens command")
  case Nil
  with assms show ?thesis by (simp add: audit_compile_command_def)
next
  case (Cons first rest)
  with assms show ?thesis
    unfolding audit_compile_command_def compile_command_ok_def
    by (auto simp: Let_def rbind_Inr_iff audit_command_iff audit_search_paths_iff split: if_splits)
qed

definition compile_record_ok :: "build_host \<Rightarrow> audit_context \<Rightarrow> pyval \<Rightarrow> bool" where
  "compile_record_ok bh ac v =
     (case v of
        VDict r \<Rightarrow> (case (dget r ''command'' VNone, dget r ''file'' VNone) of
            (VStr command, VStr source) \<Rightarrow> compile_command_ok bh ac command source
          | _ \<Rightarrow> False)
      | _ \<Rightarrow> False)"

lemma audit_compile_record_Inr:
  "audit_compile_record bh ac (index, v) = Inr driver \<Longrightarrow> compile_record_ok bh ac v \<and> driver \<in> {''clang'', ''clang++''}"
  by (auto simp: audit_compile_record_def compile_record_ok_def expected_driver_def
      dest!: audit_compile_command_Inr split: pyval.splits if_splits)

text \<open>A link command: the configured driver, the target, LLD, and the flags of the image.\<close>

definition link_command_ok :: "build_host \<Rightarrow> audit_context \<Rightarrow> string \<Rightarrow> string \<Rightarrow> string \<Rightarrow> bool" where
  "link_command_ok bh ac kind language command =
     (let tokens = concat (command_invocations command); target = ac_target ac in
      list_ex (\<lambda>t. same_host_path (bh_cwd bh) t (tool_path (ac_tools ac) (if language = ''c++'' then ''clang++'' else ''clang'')))
        (map hd (command_invocations command))
      \<and> command_has_target tokens (tp_triple target) \<and> ''-fuse-ld=lld'' \<in> set tokens
      \<and> (kind = ''shared-library'' \<longrightarrow> ''-shared'' \<in> set tokens)
      \<and> (kind = ''executable'' \<and> tp_platform target = ''linux'' \<longrightarrow> ''-pie'' \<in> set tokens)
      \<and> (tp_platform target = ''windows'' \<longrightarrow> list_all (\<lambda>flag. contains flag (map upper_char command)) (required_image_flags target))
      \<and> (ac_cross ac \<longrightarrow> search_isolated bh ac True command))"

definition link_output_ok :: "build_host \<Rightarrow> audit_context \<Rightarrow> string \<times> string \<times> string \<Rightarrow> bool" where
  "link_output_ok bh ac = (\<lambda>(name, kind, language).
     case bh_ninja bh (ac_binary_dir ac) [''commands'', name] of (returncode, stdout) \<Rightarrow>
       returncode = 0 \<and> command_lines stdout \<noteq> [] \<and> link_command_ok bh ac kind language (last (command_lines stdout)))"

lemma audit_link_command_ok:
  "audit_link_command bh command name kind language (ac_target ac) (ac_tools ac) = Inr () \<Longrightarrow>
     (if ac_cross ac then audit_search_paths (bh_cwd bh) command (ac_roots ac) (ac_binary_dir ac) what True else Inr ()) = Inr () \<Longrightarrow>
     link_command_ok bh ac kind language command"
  unfolding audit_link_command_def link_command_ok_def
  by (auto simp: Let_def rbind_Inr_iff audit_search_paths_iff list_ex_iff filter_empty_conv list_all_iff split: if_splits)

lemma audit_link_output_Inr: "audit_link_output bh ac out = Inr kind \<Longrightarrow> link_output_ok bh ac out"
  by (cases out)
    (auto simp: audit_link_output_def link_output_ok_def run_ninja_tool_def rbind_Inr_iff Let_def
      intro: audit_link_command_ok split: prod.splits)

text \<open>A command of the graph: permitted tools, and no shell operator but \<open>&&\<close>.\<close>

definition graph_command_ok :: "string \<Rightarrow> bool" where
  "graph_command_ok command =
     (list_all invocation_allowed (command_invocations command)
      \<and> \<not> contains [CHR 0x24, CHR ''(''] command \<and> \<not> contains [CHR 0x60] command \<and> \<not> contains ''||'' command
      \<and> \<not> operator_at ''<>'' redirection_follows True command \<and> \<not> operator_at ''|'' word_end True command
      \<and> \<not> operator_at '';'' word_end True command)"

lemma graph_commands_audited:
  "fold_r (\<lambda>(index, command) u. rbind (audit_command_invocations command) (\<lambda>_. audit_shell_operators command index))
     (enumerate n commands) () = Inr () \<Longrightarrow> list_all graph_command_ok commands"
  by (induction commands arbitrary: n)
    (auto simp: rbind_Inr_iff audit_command_iff audit_shell_operators_def graph_command_ok_def Let_def)

lemma map_r_audit_records:
  "map_r (audit_compile_record bh ac) (enumerate n records) = Inr drivers \<Longrightarrow>
     list_all (compile_record_ok bh ac) records \<and> length drivers = length records \<and> set drivers \<subseteq> {''clang'', ''clang++''}"
proof (induction records arbitrary: n drivers)
  case (Cons r records)
  then show ?case by (fastforce simp: rbind_Inr_iff dest!: audit_compile_record_Inr)
qed simp

lemma map_r_audit_links:
  "map_r (audit_link_output bh ac) outputs = Inr kinds \<Longrightarrow> list_all (link_output_ok bh ac) outputs"
  by (induction outputs arbitrary: kinds) (auto simp: rbind_Inr_iff dest!: audit_link_output_Inr)

lemma counts_add_up:
  "set xs \<subseteq> {a, b} \<Longrightarrow> a \<noteq> b \<Longrightarrow> length (filter (\<lambda>y. y = a) xs) + length (filter (\<lambda>y. y = b) xs) = length xs"
  by (induction xs) auto


subsection \<open>A graph that passes\<close>

definition sample_compile_command :: string where
  "sample_compile_command = ''/clang++ --target=x -fPIC -c a.cpp''"

definition sample_link_command :: string where
  "sample_link_command = '': && /clang++ --target=x -fuse-ld=lld -shared && :''"

definition sample_target :: target_profile where
  "sample_target = \<lparr>tp_id = ''linux-x86_64-gnu'', tp_platform = ''linux'', tp_arch = ''x86_64'', tp_base_isa = ''x86-64'',
     tp_aosp_arch = ''x86_64'', tp_mterp_source_dir = [], tp_mterp_output = [], tp_abi = ''gnu'', tp_object_format = ''elf'',
     tp_llvm_file_format = ''elf64-x86-64'', tp_llvm_arch = ''x86_64'', tp_pointer_bits = 64, tp_endianness = ''little'',
     tp_triple = ''x'', tp_cmake_system_name = ''Linux'', tp_cmake_system_processor = ''x86_64'',
     tp_capabilities = [], tp_support_status = ''supported'', tp_unavailable_reason = []\<rparr>"

definition sample_host :: build_host where
  "sample_host =
     \<lparr>mc_lstat = \<lambda>p. Inr \<lparr>st_mode = 33188, st_file_attributes = None\<rparr>, mc_exists = \<lambda>p. True, mc_is_symlink = \<lambda>p. False,
      mc_is_file = \<lambda>p. True, mc_toml = \<lambda>p. Inr (VDict []), mc_environ = \<lambda>v. None,
      bh_repo_root = path_of ''/'', bh_cwd = ''/'', bh_system = ''Linux'', bh_machine = ''x86_64'', bh_nt = False,
      bh_which = \<lambda>n. Some (path_of (''/'' @ n)), bh_resolve = \<lambda>p. p, bh_is_dir = \<lambda>p. True,
      bh_text = \<lambda>p. Inr (join_str [newline]
        [''CMAKE_GENERATOR:=Ninja'', ''CMAKE_SYSTEM_NAME:=Linux'',
         ''CMAKE_C_COMPILER_TARGET:=x'', ''CMAKE_CXX_COMPILER_TARGET:=x'',
         ''CMAKE_ASM_COMPILER_TARGET:=x'', ''CMAKE_MAKE_PROGRAM:=/ninja'',
         ''CMAKE_C_COMPILER:=/clang'', ''CMAKE_CXX_COMPILER:=/clang++'']),
      bh_json = \<lambda>p. Inr (VList [VDict [(''command'', VStr sample_compile_command),
        (''file'', VStr ''/a.cpp''), (''output'', VStr ''a.o'')]]),
      bh_entries = \<lambda>p. [''build.ninja''],
      bh_ninja = \<lambda>p args. (0, if args = [''targets'', ''all''] then ''a.so: CXX_SHARED_LIBRARY_LINKER__a''
        else sample_compile_command @ [newline] @ sample_link_command),
      bh_compiler_metadata = \<lambda>p. []\<rparr>"

lemma sample_audit_passes: "\<not> isl (audit_generated_commands sample_host sample_target (path_of ''/out'') empty_config)"
  by code_simp


end
