(* ===== verification/BuildFrontend.thy ===== *)
theory BuildFrontend
  imports BuildAudit PyBytes
begin

section \<open>The build frontend\<close>

text \<open>
  The decisions of \<open>tools/build_art.py\<close> around the processes it starts: the parallelism, the places of
  build trees, the ownership check and removal of \<open>clean\<close>, the guard of a build directory, the checks
  of the graph manifest and the test catalog, and the staging of the boot image. The JSON reader and
  the hash function are arguments. What is printed is left out.
\<close>

subsection \<open>Parameters of a build\<close>

definition windows_host :: "build_host \<Rightarrow> bool" where
  "windows_host bh = (lower (bh_system bh) = ''windows'')"

definition boot_image_parallel_limit :: "build_host \<Rightarrow> int" where
  "boot_image_parallel_limit bh = (if windows_host bh then 16 else 32)"

definition resolve_parallelism :: "build_host \<Rightarrow> int option \<Rightarrow> exn + int" where
  "resolve_parallelism bh requested =
     (let host_default = boot_image_parallel_limit bh in
      case requested of
        None \<Rightarrow> Inr host_default
      | Some n \<Rightarrow>
          rbind (frontend_if (n < 1) ''--parallel must be positive'') (\<lambda>_.
          rbind (frontend_if (windows_host bh \<and> n > host_default)
            (''--parallel cannot exceed '' @ int_str host_default @ '' on a Windows build host'')) (\<lambda>_.
          Inr n)))"

definition product_variant :: string where
  "product_variant = ''product''"

definition validate_build_variant :: "target_profile \<Rightarrow> string \<Rightarrow> string \<Rightarrow> exn + unit" where
  "validate_build_variant target variant command =
     (if variant = product_variant then Inr ()
      else
        rbind (frontend_if (variant \<in> {''win32-frame-attribution'', ''win32-stack-high-water''}
            \<and> tp_id target \<noteq> ''windows-x86_64-msvc'')
          (variant @ '' is an exact windows-x86_64-msvc test variant'')) (\<lambda>_.
        frontend_if (command = ''stage'')
          (''test-only build variant '' @ variant @ '' cannot be staged as a product'')))"

definition resolve_output_root :: "build_host \<Rightarrow> pypath option \<Rightarrow> local_build_config \<Rightarrow> exn + pypath" where
  "resolve_output_root bh explicit local =
     rbind (case explicit of
         Some p \<Rightarrow> rbind (frontend_if (\<not> is_absolute p) ''--output-root must be an absolute path'') (\<lambda>_. Inr p)
       | None \<Rightarrow> (case lc_output_root local of Some p \<Rightarrow> Inr p | None \<Rightarrow> Inr (path_child (bh_repo_root bh) ''out''))) (\<lambda>output_root.
     rbind (validate_managed_path (machine.truncate bh) output_root True) (\<lambda>_. Inr output_root))"

definition configuration_name :: "string \<Rightarrow> string \<Rightarrow> string" where
  "configuration_name build_type variant = (if variant = product_variant then build_type else build_type @ ''-'' @ variant)"

definition binary_dir_of :: "pypath \<Rightarrow> target_profile \<Rightarrow> string \<Rightarrow> string \<Rightarrow> pypath" where
  "binary_dir_of output_root target build_type variant =
     path_below output_root [tp_id target, configuration_name build_type variant]"

subsection \<open>A file system with directories\<close>

datatype fs_entry = FsDirectory | FsFile string | FsLink

type_synonym file_tree = "(pypath \<times> fs_entry) list"

definition entry_at :: "file_tree \<Rightarrow> pypath \<Rightarrow> fs_entry option" where
  "entry_at fs p = (if pp_names p = [] then Some FsDirectory else map_of fs p)"

fun entry_mode :: "fs_entry \<Rightarrow> int" where
  "entry_mode FsDirectory = 0x4000"
| "entry_mode (FsFile contents) = 0x8000"
| "entry_mode FsLink = 0xA000"

text \<open>What the path check asks of a file system: \<open>os.lstat\<close> and \<open>exists\<close>.\<close>

definition tree_machine :: "file_tree \<Rightarrow> machine" where
  "tree_machine fs =
     \<lparr>mc_lstat = \<lambda>p. (case entry_at fs p of
        Some e \<Rightarrow> Inr \<lparr>st_mode = entry_mode e, st_file_attributes = None\<rparr>
      | None \<Rightarrow> Inl (OSError ''FileNotFoundError'' (path_str p))),
      mc_exists = \<lambda>p. entry_at fs p \<noteq> None, mc_is_symlink = \<lambda>p. entry_at fs p = Some FsLink,
      mc_is_file = \<lambda>p. (case entry_at fs p of Some (FsFile contents) \<Rightarrow> True | _ \<Rightarrow> False),
      mc_toml = \<lambda>p. Inr (VDict []), mc_environ = \<lambda>v. None\<rparr>"

definition is_below :: "pypath \<Rightarrow> pypath \<Rightarrow> bool" where
  "is_below root p = (pp_root p = pp_root root \<and> prefix (pp_names root) (pp_names p))"

text \<open>\<open>shutil.rmtree(p)\<close>; \<open>p.rmdir()\<close> with a missing or filled directory passed over.\<close>

definition remove_tree :: "pypath \<Rightarrow> file_tree \<Rightarrow> file_tree" where
  "remove_tree root fs = filter (\<lambda>(p, e). \<not> is_below root p) fs"

definition remove_empty_dir :: "pypath \<Rightarrow> file_tree \<Rightarrow> file_tree" where
  "remove_empty_dir d fs =
     (if list_ex (\<lambda>(p, e). is_below d p \<and> p \<noteq> d) fs then fs else filter (\<lambda>(p, e). p \<noteq> d) fs)"

subsection \<open>Cleaning\<close>

text \<open>\<open>read_text\<close> and \<open>json.loads\<close> of a marker: an \<open>OSError\<close> or a malformed text counts as no marker.\<close>

fun unreadable_marker :: "exn \<Rightarrow> bool" where
  "unreadable_marker (OSError kind msg) = True"
| "unreadable_marker (RaisedError kind msg) = (kind \<in> {''UnicodeDecodeError'', ''JSONDecodeError''})"
| "unreadable_marker e = False"

definition marker_target :: "dict \<Rightarrow> pyval" where
  "marker_target data =
     (case (dget data ''target_id'' VNone, dget data ''target'' VNone) of
        (VNone, VDict target) \<Rightarrow> dget target ''target_id'' VNone
      | (t, _) \<Rightarrow> t)"

definition marker_matches :: "string \<Rightarrow> target_profile \<Rightarrow> string \<Rightarrow> string \<Rightarrow> pyval \<Rightarrow> bool" where
  "marker_matches marker_name target build_type variant v =
     (case v of
        VDict data \<Rightarrow>
          py_in (dget data ''schema_version'' VNone) [VInt 1, VInt 2]
          \<and> py_eq (marker_target data) (VStr (tp_id target))
          \<and> (marker_name = ''build_manifest.json'' \<longrightarrow>
               py_eq (dget data ''build_type'' (VStr build_type)) (VStr build_type)
               \<and> py_eq (dget data ''build_variant'' (VStr variant)) (VStr variant))
      | _ \<Rightarrow> False)"

definition ownership_markers :: "pypath \<Rightarrow> pypath list" where
  "ownership_markers binary_dir =
     [path_below binary_dir [''build_manifest.json''], path_below binary_dir [''generated'', ''graph_manifest.json'']]"

fun find_marker ::
  "(pypath \<Rightarrow> exn + pyval) \<Rightarrow> file_tree \<Rightarrow> target_profile \<Rightarrow> string \<Rightarrow> string \<Rightarrow> pypath list \<Rightarrow> exn + pypath option" where
  "find_marker load fs target build_type variant [] = Inr None"
| "find_marker load fs target build_type variant (marker # markers) =
     (if entry_at fs marker = None then find_marker load fs target build_type variant markers
      else
        rbind (validate_managed_path (tree_machine fs) marker False) (\<lambda>_.
        rbind (frontend_if (\<not> mc_is_file (tree_machine fs) marker)
          (''frontend ownership marker is not a regular file: '' @ path_str marker)) (\<lambda>_.
        case load marker of
          Inl e \<Rightarrow> if unreadable_marker e then find_marker load fs target build_type variant markers else Inl e
        | Inr v \<Rightarrow>
            if marker_matches (path_name marker) target build_type variant v then Inr (Some marker)
            else find_marker load fs target build_type variant markers)))"

definition require_clean_ownership ::
  "(pypath \<Rightarrow> exn + pyval) \<Rightarrow> file_tree \<Rightarrow> pypath \<Rightarrow> target_profile \<Rightarrow> string \<Rightarrow> string \<Rightarrow> exn + unit" where
  "require_clean_ownership load fs binary_dir target build_type variant =
     rbind (find_marker load fs target build_type variant (ownership_markers binary_dir)) (\<lambda>found.
     frontend_if (found = None)
       (''refusing to remove unowned build directory without a matching frontend manifest: '' @ path_str binary_dir))"

text \<open>\<open>path.relative_to(root)\<close>: the names below the root, a \<open>ValueError\<close> outside it.\<close>

definition relative_parts :: "pypath \<Rightarrow> pypath \<Rightarrow> string list option" where
  "relative_parts p root = (if is_below root p then Some (drop (length (pp_names root)) (pp_names p)) else None)"

definition is_directory :: "file_tree \<Rightarrow> pypath \<Rightarrow> bool" where
  "is_directory fs p = (entry_at fs p = Some FsDirectory)"

definition frontend_clean ::
  "(pypath \<Rightarrow> exn + pyval) \<Rightarrow> target_profile \<Rightarrow> string \<Rightarrow> string \<Rightarrow> pypath \<Rightarrow> file_tree \<Rightarrow> exn + file_tree" where
  "frontend_clean load target build_type variant output_root fs =
     rbind (validate_managed_path (tree_machine fs) output_root True) (\<lambda>_.
     rbind (frontend_if (entry_at fs output_root \<noteq> None \<and> \<not> is_directory fs output_root)
       (''output root is not a directory: '' @ path_str output_root)) (\<lambda>_.
     let binary_dir = binary_dir_of output_root target build_type variant in
     rbind (validate_managed_path (tree_machine fs) binary_dir True) (\<lambda>_.
     case relative_parts binary_dir output_root of
       None \<Rightarrow> Inl (frontend_error (''refusing clean outside the managed output root: '' @ path_str binary_dir))
     | Some parts \<Rightarrow>
         rbind (frontend_if (parts \<noteq> [tp_id target, configuration_name build_type variant])
           (''refusing non-exact target/build clean path: '' @ path_str binary_dir)) (\<lambda>_.
         if entry_at fs binary_dir = None then Inr fs
         else
           rbind (frontend_if (\<not> is_directory fs binary_dir)
             (''build path is not a directory: '' @ path_str binary_dir)) (\<lambda>_.
           rbind (require_clean_ownership load fs binary_dir target build_type variant) (\<lambda>_.
           Inr (remove_empty_dir (path_below output_root [tp_id target]) (remove_tree binary_dir fs))))))))"

subsection \<open>What cleaning removes\<close>

lemma find_marker_Some:
  "find_marker load fs target build_type variant markers = Inr (Some m) \<Longrightarrow>
     m \<in> set markers \<and> (\<exists>v. load m = Inr v \<and> marker_matches (path_name m) target build_type variant v)
     \<and> (\<exists>contents. entry_at fs m = Some (FsFile contents))"
  by (induction markers)
    (auto simp: rbind_Inr_iff frontend_if_def tree_machine_def split: if_splits sum.splits option.splits fs_entry.splits)

lemma entry_at_filter:
  "pp_names p \<noteq> [] \<Longrightarrow> entry_at (filter (\<lambda>(q, e). P q) fs) p = (if P p then entry_at fs p else None)"
  by (induction fs) (auto simp: entry_at_def)


text \<open>An output root with the build trees of two targets, one of them owned by a build manifest.\<close>

definition sample_out :: file_tree where
  "sample_out =
     [(path_of ''/out'', FsDirectory), (path_of ''/out/linux-x86_64-gnu'', FsDirectory),
      (path_of ''/out/linux-x86_64-gnu/Debug'', FsDirectory),
      (path_of ''/out/linux-x86_64-gnu/Debug/build_manifest.json'', FsFile ''m''),
      (path_of ''/out/other'', FsDirectory), (path_of ''/out/other/keep.txt'', FsFile ''k'')]"

definition sample_marker :: "pypath \<Rightarrow> exn + pyval" where
  "sample_marker p = Inr (VDict [(''schema_version'', VInt 2), (''target'', VDict [(''target_id'', VStr ''linux-x86_64-gnu'')]),
     (''build_type'', VStr ''Debug''), (''build_variant'', VStr ''product'')])"

lemma sample_clean: "frontend_clean sample_marker sample_target ''Debug'' ''product'' (path_of ''/out'') sample_out
    = Inr [(path_of ''/out'', FsDirectory), (path_of ''/out/other'', FsDirectory), (path_of ''/out/other/keep.txt'', FsFile ''k'')]"
  by code_simp


end
