(* ===== verification/BuildImages.thy ===== *)
theory BuildImages
  imports BuildFrontend
begin

section \<open>The staged images\<close>

text \<open>
  What \<open>tools/build_art.py\<close> reads from the reports of \<open>llvm-readobj\<close> and from Ninja about the images
  of a product, and the check of the dependency topology of the staged images. The reports are
  given by a function of the arguments and of the entry inspected.
\<close>

record stage_host = build_host +
  sh_sha :: "string \<Rightarrow> string"
  sh_readobj :: "string list \<Rightarrow> fs_entry option \<Rightarrow> int \<times> string"

text \<open>The host with the file tests answered by a tree.\<close>

definition host_at :: "stage_host \<Rightarrow> file_tree \<Rightarrow> build_host" where
  "host_at sh fs = (build_host.truncate sh)
     \<lparr>mc_lstat := mc_lstat (tree_machine fs), mc_exists := mc_exists (tree_machine fs),
      mc_is_symlink := mc_is_symlink (tree_machine fs), mc_is_file := mc_is_file (tree_machine fs),
      bh_is_dir := is_directory fs\<rparr>"

definition is_plain_file :: "file_tree \<Rightarrow> pypath \<Rightarrow> bool" where
  "is_plain_file fs p = (case entry_at fs p of Some (FsFile contents) \<Rightarrow> True | _ \<Rightarrow> False)"

text \<open>The names in a directory, each once.\<close>

definition children :: "file_tree \<Rightarrow> pypath \<Rightarrow> string list" where
  "children fs d =
     remdups (map (\<lambda>(p, e). path_name p) (filter (\<lambda>(p, e). pp_names p \<noteq> [] \<and> path_parent p = d) fs))"

subsection \<open>Reports of llvm-readobj\<close>

text \<open>
  \<open>re.findall('^FIELD:\s*(\S+)\s*$', output, re.MULTILINE)\<close>: at the start of a line the field, a
  colon, space, a word, and space that reaches the end of a line or of the text. The flag says
  whether the position is the start of a line.
\<close>

definition match_record :: "string \<Rightarrow> string \<Rightarrow> (string \<times> string) option" where
  "match_record fld s =
     (if \<not> starts_with (fld @ '':'') s then None
      else let t = skip_space (drop (length fld + 1) s);
               word_text = takeWhile (\<lambda>c. \<not> is_space_char c) t;
               r = dropWhile (\<lambda>c. \<not> is_space_char c) t in
        if word_text \<noteq> [] \<and> (newline \<in> set (takeWhile is_space_char r) \<or> skip_space r = [])
        then Some (word_text, r) else None)"

lemma match_record_shorter:
  assumes "match_record fld s = Some (w, r)"
  shows "length r < length s"
proof -
  let ?t = "skip_space (drop (length fld + 1) s)"
  from assms have s: "starts_with (fld @ '':'') s" and r: "r = dropWhile (\<lambda>c. \<not> is_space_char c) ?t"
    by (auto simp: match_record_def Let_def split: if_splits)
  have "length r \<le> length ?t" unfolding r by (rule length_dropWhile_le)
  also have "length ?t \<le> length (drop (length fld + 1) s)" unfolding skip_space_def by (rule length_dropWhile_le)
  also have "\<dots> < length s" using s by (cases s) auto
  finally show ?thesis .
qed

function record_values :: "string \<Rightarrow> bool \<Rightarrow> string \<Rightarrow> string list" where
  "record_values fld at_start s =
     (case (if at_start then match_record fld s else None) of
        Some (w, r) \<Rightarrow> w # record_values fld False r
      | None \<Rightarrow> (case s of [] \<Rightarrow> [] | c # cs \<Rightarrow> record_values fld (c = newline) cs))"
  by pat_completeness auto
termination record_values
  by (relation "measure (\<lambda>(fld, at_start, s). length s)")
    (auto dest: match_record_shorter split: if_splits)

declare record_values.simps [simp del]

record llvm_identity =
  li_format :: string
  li_arch :: string
  li_bits :: nat

definition decimal_nat :: "string \<Rightarrow> nat" where
  "decimal_nat ds = foldl (\<lambda>n c. 10 * n + (code_point c - 48)) 0 ds"

text \<open>\<open>re.fullmatch('([0-9]+)bit', s)\<close>\<close>

definition match_bits :: "string \<Rightarrow> nat option" where
  "match_bits s =
     (let ds = takeWhile is_ascii_digit s in
      if ds \<noteq> [] \<and> drop (length ds) s = ''bit'' then Some (decimal_nat ds) else None)"

definition one_record :: "string \<Rightarrow> string \<Rightarrow> string \<Rightarrow> exn + string" where
  "one_record output artifact_name fld =
     (case record_values fld True output of
        [v] \<Rightarrow> Inr v
      | vs \<Rightarrow> Inl (frontend_error (''staged '' @ artifact_name @ '' has '' @ nat_str (length vs) @ '' LLVM '' @ fld @ '' records'')))"

definition llvm_identity_repr :: "string \<Rightarrow> string \<Rightarrow> nat \<Rightarrow> string" where
  "llvm_identity_repr fmt arch bits = ''('' @ py_repr fmt @ '', '' @ py_repr arch @ '', '' @ nat_str bits @ '')''"

definition validate_llvm_file_identity :: "string \<Rightarrow> target_profile \<Rightarrow> string \<Rightarrow> exn + llvm_identity" where
  "validate_llvm_file_identity output target artifact_name =
     rbind (one_record output artifact_name ''Format'') (\<lambda>fmt.
     rbind (one_record output artifact_name ''Arch'') (\<lambda>arch.
     rbind (one_record output artifact_name ''AddressSize'') (\<lambda>address_size.
     case match_bits address_size of
       None \<Rightarrow> Inl (frontend_error (''staged '' @ artifact_name @ '' has invalid LLVM AddressSize '' @ py_repr address_size))
     | Some bits \<Rightarrow>
         rbind (frontend_if ((fmt, arch, bits) \<noteq> (tp_llvm_file_format target, tp_llvm_arch target, tp_pointer_bits target))
           (''staged '' @ artifact_name @ '' identity '' @ llvm_identity_repr fmt arch bits @ '' does not match target ''
            @ tp_id target @ '' '' @ llvm_identity_repr (tp_llvm_file_format target) (tp_llvm_arch target) (tp_pointer_bits target))) (\<lambda>_.
         Inr \<lparr>li_format = fmt, li_arch = arch, li_bits = bits\<rparr>))))"

text \<open>
  \<open>re.search('^NeededLibraries \[\r?\n(.*?)^\]$', output, re.MULTILINE | re.DOTALL)\<close>: the lines between
  the head and the first line that is a closing bracket.
\<close>

definition needed_head :: "string \<Rightarrow> bool" where
  "needed_head line = (line \<in> {''NeededLibraries ['', ''NeededLibraries ['' @ [CHR 0x0D]})"

definition needed_block :: "string \<Rightarrow> string list option" where
  "needed_block output =
     (case dropWhile (\<lambda>line. \<not> needed_head line) (split_on newline output) of
        [] \<Rightarrow> None
      | head_line # rest \<Rightarrow> if '']'' \<in> set rest then Some (takeWhile (\<lambda>line. line \<noteq> '']'') rest) else None)"

definition parse_needed_libraries :: "string \<Rightarrow> exn + string list" where
  "parse_needed_libraries output =
     (case needed_block output of
        None \<Rightarrow> Inl (frontend_error ''llvm-readobj output has no NeededLibraries block'')
      | Some block \<Rightarrow>
          Inr (filter (\<lambda>name. name \<noteq> [])
            (map (strip whitespace) (split_lines (concat (map (\<lambda>line. line @ [newline]) block))))))"

text \<open>\<open>re.finditer('\b(?:RUNPATH|RPATH)\s+Library r(?:un)?path:\s*\[([^]]*)\]', output)\<close>\<close>

definition regex_word_char :: "char \<Rightarrow> bool" where
  "regex_word_char c = (is_alnum c \<or> c = CHR ''_'')"

definition after_literal :: "string \<Rightarrow> string \<Rightarrow> string option" where
  "after_literal lit s = (if starts_with lit s then Some (drop (length lit) s) else None)"

definition match_runtime_path :: "string \<Rightarrow> (string \<times> string) option" where
  "match_runtime_path s =
     (case (case after_literal ''RUNPATH'' s of Some r \<Rightarrow> Some r | None \<Rightarrow> after_literal ''RPATH'' s) of
        None \<Rightarrow> None
      | Some r \<Rightarrow>
          if r = [] \<or> \<not> is_space_char (hd r) then None
          else (case (case after_literal ''Library runpath:'' (skip_space r) of
                   Some t \<Rightarrow> Some t | None \<Rightarrow> after_literal ''Library rpath:'' (skip_space r)) of
              None \<Rightarrow> None
            | Some t \<Rightarrow>
                (case skip_space t of
                   c # u \<Rightarrow>
                     if c = CHR ''['' \<and> CHR '']'' \<in> set u
                     then Some (takeWhile (\<lambda>d. d \<noteq> CHR '']'') u, after_first (CHR '']'') u) else None
                 | [] \<Rightarrow> None)))"

lemma after_literal_length: "after_literal lit s = Some r \<Longrightarrow> length r = length s - length lit \<and> length lit \<le> length s"
  by (auto simp: after_literal_def prefix_length_le split: if_splits)

lemma match_runtime_path_shorter:
  assumes "match_runtime_path s = Some (v, r)"
  shows "length r < length s"
proof -
  obtain a t u c where a: "after_literal ''RUNPATH'' s = Some a \<or> after_literal ''RPATH'' s = Some a"
    and t: "after_literal ''Library runpath:'' (skip_space a) = Some t \<or> after_literal ''Library rpath:'' (skip_space a) = Some t"
    and u: "skip_space t = c # u" and r: "r = after_first (CHR '']'') u"
    using assms by (auto simp: match_runtime_path_def split: option.splits if_splits list.splits)
  have skip: "length (skip_space x) \<le> length x" for x unfolding skip_space_def by (rule length_dropWhile_le)
  have "length r \<le> length u"
    unfolding r after_first_def by (metis length_drop length_dropWhile_le diff_le_self order_trans)
  also have "length u < length (skip_space t)" unfolding u by simp
  also have "\<dots> \<le> length t" by (rule skip)
  also have "\<dots> \<le> length (skip_space a)" using t by (auto dest: after_literal_length)
  also have "\<dots> \<le> length a" by (rule skip)
  also have "\<dots> \<le> length s" using a by (auto dest: after_literal_length)
  finally show ?thesis .
qed

function runtime_path_values :: "bool \<Rightarrow> string \<Rightarrow> string list" where
  "runtime_path_values boundary s =
     (case (if boundary then match_runtime_path s else None) of
        Some (v, r) \<Rightarrow> v # runtime_path_values True r
      | None \<Rightarrow> (case s of [] \<Rightarrow> [] | c # cs \<Rightarrow> runtime_path_values (\<not> regex_word_char c) cs))"
  by pat_completeness auto
termination runtime_path_values
  by (relation "measure (\<lambda>(boundary, s). length s)")
    (auto dest: match_runtime_path_shorter split: if_splits)

declare runtime_path_values.simps [simp del]

definition parse_elf_runtime_paths :: "string \<Rightarrow> string list" where
  "parse_elf_runtime_paths output =
     concat (map (\<lambda>v. filter (\<lambda>part. part \<noteq> []) (split_on (CHR '':'') v)) (runtime_path_values True output))"

subsection \<open>System dependencies and artifact names\<close>

definition linux_system_needed :: "string list" where
  "linux_system_needed =
     [''libc.so.6'', ''libcap.so.2'', ''libexpat.so.1'', ''libgcc_s.so.1'', ''liblz4.so.1'', ''libm.so.6'',
      ''libstdc++.so.6'', ''libz.so.1'']"

definition windows_system_needed :: "string list" where
  "windows_system_needed =
      [''advapi32.dll'', ''bcrypt.dll'', ''cfgmgr32.dll'', ''crypt32.dll'', ''dbghelp.dll'', ''gdi32.dll'', 
      ''iphlpapi.dll'', ''kernel32.dll'', ''msvcp140.dll'', ''ntdll.dll'', ''ole32.dll'', ''oleaut32.dll'', 
      ''pdh.dll'', ''psapi.dll'', ''rpcrt4.dll'', ''secur32.dll'', ''shell32.dll'', ''shlwapi.dll'', 
      ''user32.dll'', ''userenv.dll'', ''version.dll'', ''vcruntime140.dll'', ''vcruntime140_1.dll'', 
      ''winmm.dll'', ''ws2_32.dll'']"

text \<open>\<open>re.fullmatch('api-ms-win-[a-z0-9-]+\.dll', s)\<close> and
  \<open>re.fullmatch('ld-linux(?:-[a-z0-9_-]+)?\.so\.[0-9]+', s)\<close>.\<close>

definition api_set_name :: "string \<Rightarrow> bool" where
  "api_set_name s =
     (starts_with ''api-ms-win-'' s \<and> ends_with ''.dll'' s \<and> length s > 15
      \<and> list_all (\<lambda>c. is_lower_letter c \<or> is_ascii_digit c \<or> c = CHR ''-'') (drop 11 (take (length s - 4) s)))"

definition loader_version :: "string \<Rightarrow> bool" where
  "loader_version s = (starts_with ''.so.'' s \<and> drop 4 s \<noteq> [] \<and> list_all is_ascii_digit (drop 4 s))"

definition loader_name :: "string \<Rightarrow> bool" where
  "loader_name s =
     (starts_with ''ld-linux'' s
      \<and> (let t = drop 8 s; r = dropWhile option_name_char (drop 1 t) in
         loader_version t
         \<or> starts_with ''-'' t \<and> takeWhile option_name_char (drop 1 t) \<noteq> [] \<and> loader_version r))"

definition approved_system_dependency :: "target_profile \<Rightarrow> string \<Rightarrow> bool" where
  "approved_system_dependency target name =
     (if tp_platform target = ''windows'' then lower name \<in> set windows_system_needed \<or> api_set_name (lower name)
      else name \<in> set linux_system_needed \<or> loader_name name)"

definition product_executables :: "string list" where
  "product_executables = [''dalvikvm'', ''dex2oat'', ''oatdump'']"

definition artifact_candidates :: "pypath \<Rightarrow> target_profile \<Rightarrow> string \<Rightarrow> pypath list" where
  "artifact_candidates binary_dir target name =
     (let executable = name \<in> set product_executables;
          suffixes = (if tp_platform target = ''windows'' then (if executable then [''.exe''] else [''.dll'', ''.lib''])
            else if executable then [''''] else [''.so'']);
          prefixes = (if tp_platform target = ''windows'' \<or> executable then ['''', ''lib''] else [''lib'', '''']) in
      concat (map (\<lambda>pre. map (\<lambda>suf. path_below binary_dir [pre @ name @ suf]) suffixes) prefixes))"

subsection \<open>Product outputs\<close>

definition ninja_product_outputs ::
  "build_host \<Rightarrow> pypath \<Rightarrow> target_profile \<Rightarrow> local_build_config \<Rightarrow> exn + (pypath \<times> string) list" where
  "ninja_product_outputs bh binary_dir target local =
     rbind (configured_or_discovered bh local ''ninja'' ''ninja'') (\<lambda>ninja.
     case bh_ninja bh binary_dir [''targets'', ''all''] of (returncode, stdout) \<Rightarrow>
       rbind (frontend_if (returncode \<noteq> 0)
         (''Ninja target inventory failed with exit code '' @ int_str returncode)) (\<lambda>_.
       let declared = parse_ninja_product_outputs stdout target in
       rbind (frontend_if (declared = [])
         (''Ninja declares no top-level product link outputs in '' @ path_str binary_dir)) (\<lambda>_.
       let missing = filter (\<lambda>name. \<not> mc_is_file bh (path_below binary_dir [name])) (map fst declared) in
       rbind (frontend_if (missing \<noteq> [])
         (''product outputs are missing; run the full build before staging: '' @ join_str '', '' missing)) (\<lambda>_.
       map_r (\<lambda>(name, kind). let path = path_below binary_dir [name] in
         rbind (managed_here bh path) (\<lambda>_.
         rbind (frontend_if (mc_is_symlink bh path) (''product output must be a regular file: '' @ path_str path)) (\<lambda>_.
         Inr (path, kind)))) declared))))"

subsection \<open>Inspection tools\<close>

definition resolve_inspection_tool :: "build_host \<Rightarrow> local_build_config \<Rightarrow> string \<Rightarrow> exn + string \<times> pypath" where
  "resolve_inspection_tool bh local name =
     (let executable = name @ exe_suffix bh in
      rbind (case (case map_of (lc_tools local) ''llvm_root'' of
          Some llvm_root \<Rightarrow>
            let candidate = path_below llvm_root [''bin'', executable] in
            if mc_is_file bh candidate then Some candidate else None
        | None \<Rightarrow> None) of
          Some candidate \<Rightarrow> Inr candidate
        | None \<Rightarrow> rbind (discover bh executable) (\<lambda>found. Inr (bh_resolve bh found))) (\<lambda>candidate.
      rbind (managed_here bh candidate) (\<lambda>resolved.
      rbind (frontend_if (path_name resolved \<notin> {name, name @ ''.exe''})
        (''LLVM inspection tool '' @ name @ '' required; got '' @ py_repr (path_name resolved))) (\<lambda>_.
      Inr (name, resolved)))))"

definition resolve_llvm_inspection_tools :: "build_host \<Rightarrow> local_build_config \<Rightarrow> exn + tool_table" where
  "resolve_llvm_inspection_tools bh local = map_r (resolve_inspection_tool bh local) [''llvm-readobj'', ''llvm-objdump'']"

subsection \<open>The topology of the staged images\<close>

record topology =
  to_dependencies :: "(string \<times> string list) list"
  to_identities :: "(string \<times> llvm_identity) list"
  to_runtime_paths :: "(string \<times> string list) list"
  to_system :: "string list"

definition normalize_name :: "target_profile \<Rightarrow> string \<Rightarrow> string" where
  "normalize_name target name = (if tp_platform target = ''windows'' then lower name else name)"

text \<open>\<open>stage_dir.glob('*SUFFIX')\<close>, without regard to case on Windows.\<close>

definition glob_suffix :: "build_host \<Rightarrow> file_tree \<Rightarrow> pypath \<Rightarrow> string \<Rightarrow> string list" where
  "glob_suffix bh fs d ext =
     filter (\<lambda>name. ends_with ext (if bh_nt bh then lower name else name)) (children fs d)"

definition images_to_inspect :: "build_host \<Rightarrow> target_profile \<Rightarrow> file_tree \<Rightarrow> pypath \<Rightarrow> string list \<Rightarrow> string list" where
  "images_to_inspect bh target fs stage_dir executable_names =
     sort_key (\<lambda>name. if bh_nt bh then lower name else name)
       (if tp_platform target = ''windows'' then glob_suffix bh fs stage_dir ''.dll'' @ glob_suffix bh fs stage_dir ''.exe''
        else glob_suffix bh fs stage_dir ''.so'' @ executable_names)"

definition staged_names :: "target_profile \<Rightarrow> file_tree \<Rightarrow> pypath \<Rightarrow> string list" where
  "staged_names target fs stage_dir =
     map (normalize_name target) (filter (\<lambda>name. is_plain_file fs (path_below stage_dir [name])) (children fs stage_dir))"

definition origin_path :: "string \<Rightarrow> bool" where
  "origin_path path = (path = CHR 0x24 # ''ORIGIN'' \<or> starts_with (CHR 0x24 # ''ORIGIN/'') path)"

definition resolve_needed ::
  "target_profile \<Rightarrow> string list \<Rightarrow> string \<Rightarrow> string \<Rightarrow> topology \<Rightarrow> exn + topology" where
  "resolve_needed target names artifact name t =
     (if normalize_name target name \<in> set names then Inr t
      else rbind (frontend_if (\<not> approved_system_dependency target name)
          (''staged '' @ artifact @ '' has unresolved dependency '' @ name)) (\<lambda>_.
        Inr (t\<lparr>to_system := List.insert name (to_system t)\<rparr>)))"

definition readobj_arguments :: "string list" where
  "readobj_arguments = [''--file-header'', ''--needed-libs'', ''--dynamic-table'']"

definition check_runtime_paths :: "target_profile \<Rightarrow> string \<Rightarrow> string \<Rightarrow> topology \<Rightarrow> exn + topology" where
  "check_runtime_paths target artifact output t =
     (if tp_platform target = ''linux'' then
        (let paths = parse_elf_runtime_paths output; forbidden = filter (\<lambda>path. \<not> origin_path path) paths in
         rbind (frontend_if (forbidden \<noteq> [])
           (''staged '' @ artifact @ '' has non-relocatable RUNPATH/RPATH: '' @ join_str '', '' forbidden)) (\<lambda>_.
         Inr (t\<lparr>to_runtime_paths := AList.update artifact paths (to_runtime_paths t)\<rparr>)))
      else Inr t)"

definition inspect_image ::
  "stage_host \<Rightarrow> target_profile \<Rightarrow> file_tree \<Rightarrow> pypath \<Rightarrow> string list \<Rightarrow> string \<Rightarrow> topology \<Rightarrow> exn + topology" where
  "inspect_image sh target fs stage_dir names artifact t =
     rbind (managed_here (host_at sh fs) (path_below stage_dir [artifact])) (\<lambda>_.
     case sh_readobj sh readobj_arguments (entry_at fs (path_below stage_dir [artifact])) of (returncode, output) \<Rightarrow>
       rbind (frontend_if (returncode \<noteq> 0)
         (''llvm-readobj failed for staged '' @ artifact @ '' with exit code '' @ int_str returncode)) (\<lambda>_.
       rbind (validate_llvm_file_identity output target artifact) (\<lambda>identity.
       rbind (parse_needed_libraries output) (\<lambda>needed.
       rbind (fold_r (resolve_needed target names artifact) needed
         (t\<lparr>to_identities := AList.update artifact identity (to_identities t),
            to_dependencies := AList.update artifact needed (to_dependencies t)\<rparr>)) (\<lambda>t.
       check_runtime_paths target artifact output t)))))"

definition compiler_image :: "target_profile \<Rightarrow> string" where
  "compiler_image target = (if tp_platform target = ''windows'' then ''art-compiler.dll'' else ''libart-compiler.so'')"

definition runtime_image :: "target_profile \<Rightarrow> string" where
  "runtime_image target = (if tp_platform target = ''windows'' then ''art.dll'' else ''libart.so'')"

definition needed_of :: "target_profile \<Rightarrow> topology \<Rightarrow> string \<Rightarrow> string list" where
  "needed_of target t name =
     map (normalize_name target) (case map_of (to_dependencies t) name of Some needed \<Rightarrow> needed | None \<Rightarrow> [])"

definition new_topology :: topology where
  "new_topology = \<lparr>to_dependencies = [], to_identities = [], to_runtime_paths = [], to_system = []\<rparr>"

definition validate_staged_topology ::
  "stage_host \<Rightarrow> file_tree \<Rightarrow> pypath \<Rightarrow> target_profile \<Rightarrow> local_build_config \<Rightarrow> string list \<Rightarrow> exn + topology" where
  "validate_staged_topology sh fs stage_dir target local executable_names =
     rbind (resolve_llvm_inspection_tools (host_at sh fs) local) (\<lambda>tools.
     rbind (fold_r (inspect_image sh target fs stage_dir (staged_names target fs stage_dir))
       (images_to_inspect (host_at sh fs) target fs stage_dir executable_names) new_topology) (\<lambda>t.
     rbind (frontend_if (normalize_name target (runtime_image target) \<notin> set (needed_of target t (compiler_image target)))
       (''staged '' @ compiler_image target @ '' must depend on '' @ runtime_image target)) (\<lambda>_.
     rbind (frontend_if (normalize_name target (compiler_image target) \<in> set (needed_of target t (runtime_image target)))
       (''staged '' @ runtime_image target @ '' must not depend on '' @ compiler_image target)) (\<lambda>_.
     Inr t))))"

text \<open>The topology as the stage manifest records it. The system dependencies are a set sorted without
  regard to case; two that differ in case only stand in some order.\<close>

definition topology_dict :: "topology \<Rightarrow> dict" where
  "topology_dict t =
     [(''dependencies'', VDict (map (\<lambda>(name, needed). (name, VList (map VStr needed))) (to_dependencies t))),
      (''file_identities'', VDict (map (\<lambda>(name, i). (name, VDict [(''format'', VStr (li_format i)),
        (''arch'', VStr (li_arch i)), (''pointer_bits'', VInt (int (li_bits i)))])) (to_identities t))),
      (''runtime_paths'', VDict (map (\<lambda>(name, paths). (name, VList (map VStr paths))) (to_runtime_paths t))),
      (''system_dependencies'', VList (map VStr (sort_key lower (to_system t))))]"

subsection \<open>What an accepted topology promises\<close>

text \<open>What is demanded of one image: its report, read at the end of the inspection.\<close>

definition image_sound :: "stage_host \<Rightarrow> target_profile \<Rightarrow> file_tree \<Rightarrow> pypath \<Rightarrow> string list \<Rightarrow> topology \<Rightarrow> string \<Rightarrow> bool" where
  "image_sound sh target fs stage_dir names t artifact =
     (case sh_readobj sh readobj_arguments (entry_at fs (path_below stage_dir [artifact])) of (returncode, output) \<Rightarrow>
        returncode = 0
        \<and> validate_llvm_file_identity output target artifact
            = Inr \<lparr>li_format = tp_llvm_file_format target, li_arch = tp_llvm_arch target, li_bits = tp_pointer_bits target\<rparr>
        \<and> (case parse_needed_libraries output of
             Inr needed \<Rightarrow> map_of (to_dependencies t) artifact = Some needed
               \<and> list_all (\<lambda>name. normalize_name target name \<in> set names \<or> approved_system_dependency target name) needed
           | Inl e \<Rightarrow> False)
        \<and> (tp_platform target = ''linux'' \<longrightarrow> list_all origin_path (parse_elf_runtime_paths output)))"

lemma identity_of_target:
  "validate_llvm_file_identity output target artifact = Inr i \<Longrightarrow>
     i = \<lparr>li_format = tp_llvm_file_format target, li_arch = tp_llvm_arch target, li_bits = tp_pointer_bits target\<rparr>"
  by (auto simp: validate_llvm_file_identity_def rbind_Inr_iff frontend_if_def split: option.splits if_splits)

lemma resolve_needed_keeps:
  "fold_r (resolve_needed target names artifact) needed t = Inr t' \<Longrightarrow>
     to_dependencies t' = to_dependencies t
     \<and> list_all (\<lambda>name. normalize_name target name \<in> set names \<or> approved_system_dependency target name) needed"
  by (induction needed arbitrary: t)
    (auto simp: resolve_needed_def rbind_Inr_iff frontend_if_def split: if_splits)

lemma inspect_image_report:
  assumes "inspect_image sh target fs stage_dir names artifact t = Inr t'"
  shows "image_sound sh target fs stage_dir names t' artifact"
    and "\<exists>needed. to_dependencies t' = AList.update artifact needed (to_dependencies t)"
proof -
  obtain report i needed t1 where r: "sh_readobj sh readobj_arguments (entry_at fs (path_below stage_dir [artifact])) = (0, report)"
    and i: "validate_llvm_file_identity report target artifact = Inr i"
    and n: "parse_needed_libraries report = Inr needed"
    and f: "fold_r (resolve_needed target names artifact) needed
        (t\<lparr>to_identities := AList.update artifact i (to_identities t),
           to_dependencies := AList.update artifact needed (to_dependencies t)\<rparr>) = Inr t1"
    and p: "check_runtime_paths target artifact report t1 = Inr t'"
    using assms by (auto simp: inspect_image_def rbind_Inr_iff frontend_if_def split: prod.splits if_splits)
  from p have t': "to_dependencies t' = to_dependencies t1"
    and paths: "tp_platform target = ''linux'' \<Longrightarrow> list_all origin_path (parse_elf_runtime_paths report)"
    by (auto simp: check_runtime_paths_def rbind_Inr_iff frontend_if_def Let_def list_all_iff filter_empty_conv split: if_splits)
  from resolve_needed_keeps [OF f] have d: "to_dependencies t' = AList.update artifact needed (to_dependencies t)"
    and l: "list_all (\<lambda>name. normalize_name target name \<in> set names \<or> approved_system_dependency target name) needed"
    unfolding t' by simp_all
  show "image_sound sh target fs stage_dir names t' artifact"
    unfolding image_sound_def r using identity_of_target [OF i] i n l paths by (simp add: d update_conv')
  show "\<exists>needed. to_dependencies t' = AList.update artifact needed (to_dependencies t)" using d by blast
qed

lemma image_sound_other:
  "to_dependencies t' = AList.update a needed (to_dependencies t) \<Longrightarrow> b \<noteq> a \<Longrightarrow>
     image_sound sh target fs stage_dir names t' b = image_sound sh target fs stage_dir names t b"
proof -
  assume "to_dependencies t' = AList.update a needed (to_dependencies t)" "b \<noteq> a"
  then have "map_of (to_dependencies t') b = map_of (to_dependencies t) b" by (simp add: update_conv')
  then show ?thesis unfolding image_sound_def by (rule ssubst) (rule refl)
qed

lemma inspect_images_sound:
  assumes "fold_r (inspect_image sh target fs stage_dir names) artifacts t = Inr t'"
    and "\<forall>a \<in> old. image_sound sh target fs stage_dir names t a"
    and "dom (map_of (to_dependencies t)) = old"
  shows "(\<forall>a \<in> old \<union> set artifacts. image_sound sh target fs stage_dir names t' a)
    \<and> dom (map_of (to_dependencies t')) = old \<union> set artifacts"
  using assms
proof (induction artifacts arbitrary: t old)
  case Nil
  then show ?case by simp
next
  case (Cons a artifacts)
  obtain t1 where s: "inspect_image sh target fs stage_dir names a t = Inr t1"
    and f: "fold_r (inspect_image sh target fs stage_dir names) artifacts t1 = Inr t'"
    using Cons.prems(1) by (auto simp: rbind_Inr_iff)
  obtain needed where n: "to_dependencies t1 = AList.update a needed (to_dependencies t)"
    using inspect_image_report(2) [OF s] by blast
  have "\<forall>b \<in> insert a old. image_sound sh target fs stage_dir names t1 b"
  proof
    fix b assume b: "b \<in> insert a old"
    show "image_sound sh target fs stage_dir names t1 b"
    proof (cases "b = a")
      case True
      then show ?thesis using inspect_image_report(1) [OF s] by simp
    next
      case False
      then show ?thesis using b Cons.prems(2) image_sound_other [OF n False] by simp
    qed
  qed
  moreover have "dom (map_of (to_dependencies t1)) = insert a old"
    unfolding n using Cons.prems(3) by (auto simp: update_conv')
  ultimately show ?case using Cons.IH [OF f, of "insert a old"] by auto
qed

text \<open>The images inspected, and the dependency between the compiler and the runtime.\<close>

definition topology_sound :: "stage_host \<Rightarrow> target_profile \<Rightarrow> file_tree \<Rightarrow> pypath \<Rightarrow> string list \<Rightarrow> topology \<Rightarrow> bool" where
  "topology_sound sh target fs stage_dir artifacts t =
     (list_all (image_sound sh target fs stage_dir (staged_names target fs stage_dir) t) artifacts
      \<and> normalize_name target (runtime_image target) \<in> set (needed_of target t (compiler_image target))
      \<and> normalize_name target (compiler_image target) \<notin> set (needed_of target t (runtime_image target)))"

lemma staged_topology_sound:
  assumes "validate_staged_topology sh fs stage_dir target local executable_names = Inr t"
  shows "topology_sound sh target fs stage_dir (images_to_inspect (host_at sh fs) target fs stage_dir executable_names) t
    \<and> compiler_image target \<in> set (images_to_inspect (host_at sh fs) target fs stage_dir executable_names)"
proof -
  let ?names = "staged_names target fs stage_dir" and ?as = "images_to_inspect (host_at sh fs) target fs stage_dir executable_names"
  from assms have f: "fold_r (inspect_image sh target fs stage_dir ?names) ?as new_topology = Inr t"
    and r: "normalize_name target (runtime_image target) \<in> set (needed_of target t (compiler_image target))"
    and c: "normalize_name target (compiler_image target) \<notin> set (needed_of target t (runtime_image target))"
    by (auto simp: validate_staged_topology_def rbind_Inr_iff frontend_if_def split: if_splits)
  have "(\<forall>a \<in> {} \<union> set ?as. image_sound sh target fs stage_dir ?names t a)
      \<and> dom (map_of (to_dependencies t)) = {} \<union> set ?as"
    by (rule inspect_images_sound [OF f]) (simp_all add: new_topology_def)
  moreover have "compiler_image target \<in> dom (map_of (to_dependencies t))"
    using r by (cases "map_of (to_dependencies t) (compiler_image target)") (simp_all add: needed_of_def domI)
  ultimately show ?thesis using r c by (simp add: topology_sound_def list_all_iff)
qed

end
