(* ===== verification/BuildStage.thy ===== *)
theory BuildStage
  imports BuildImages BpJson
begin

section \<open>Staging a product\<close>

text \<open>
  \<open>_stage\<close> of \<open>tools/build_art.py\<close>: after the audit of the graph, the outputs of the product, the
  runtime files, the boot image and the certificates are copied into a fresh directory, the topology
  of the images is checked, and a manifest records every file with its hash. The file system is the
  tree of \<open>BuildFrontend\<close>, which the steps change; a link in it is not followed.
\<close>

subsection \<open>Changing a tree\<close>

text \<open>\<open>p.mkdir(parents=True, exist_ok=True)\<close>\<close>

fun make_dirs_loop :: "pypath \<Rightarrow> string list \<Rightarrow> file_tree \<Rightarrow> exn + file_tree" where
  "make_dirs_loop p [] fs = Inr fs"
| "make_dirs_loop p (n # ns) fs =
     (let q = path_child p n in
      case entry_at fs q of
        None \<Rightarrow> make_dirs_loop q ns (AList.update q FsDirectory fs)
      | Some FsDirectory \<Rightarrow> make_dirs_loop q ns fs
      | Some e \<Rightarrow> Inl (OSError (if ns = [] then ''FileExistsError'' else ''NotADirectoryError'') (path_str q)))"

definition make_dirs :: "pypath \<Rightarrow> file_tree \<Rightarrow> exn + file_tree" where
  "make_dirs p fs = make_dirs_loop (path_anchor p) (pp_names p) fs"

definition file_text :: "file_tree \<Rightarrow> pypath \<Rightarrow> string option" where
  "file_text fs p = (case entry_at fs p of Some (FsFile contents) \<Rightarrow> Some contents | _ \<Rightarrow> None)"

text \<open>The bytes of a file that is opened for reading.\<close>

definition open_file :: "file_tree \<Rightarrow> pypath \<Rightarrow> exn + string" where
  "open_file fs p =
     (case entry_at fs p of
        Some (FsFile contents) \<Rightarrow> Inr contents
      | Some FsDirectory \<Rightarrow> Inl (OSError ''IsADirectoryError'' (path_str p))
      | _ \<Rightarrow> Inl (OSError ''FileNotFoundError'' (path_str p)))"

text \<open>\<open>shutil.copy2(source, destination)\<close> and the hash of the copy. Into a directory the copy would
  go under its own name; what the callers do next, hash the destination, fails there.\<close>

definition copy_file :: "pypath \<Rightarrow> pypath \<Rightarrow> file_tree \<Rightarrow> exn + file_tree" where
  "copy_file source destination fs =
     rbind (open_file fs source) (\<lambda>contents.
     if entry_at fs destination = Some FsDirectory then Inl (OSError ''IsADirectoryError'' (path_str destination))
     else Inr (AList.update destination (FsFile contents) fs))"

definition sha_of :: "stage_host \<Rightarrow> file_tree \<Rightarrow> pypath \<Rightarrow> exn + string" where
  "sha_of sh fs p = rbind (open_file fs p) (\<lambda>contents. Inr (sh_sha sh contents))"

text \<open>\<open>_write_json_atomic\<close>: the directories, then the new text in place of what the name held.\<close>

definition write_json :: "pypath \<Rightarrow> pyval \<Rightarrow> file_tree \<Rightarrow> exn + file_tree" where
  "write_json path v fs =
     rbind (make_dirs (path_parent path) fs) (\<lambda>fs.
     if entry_at fs path = Some FsDirectory then Inl (OSError ''IsADirectoryError'' (path_str path))
     else Inr (AList.update path (FsFile (json_dumps v @ [newline])) fs))"

text \<open>\<open>_reject_managed_tree\<close>: the walk visits what a directory holds.\<close>

definition reject_managed_tree :: "pypath \<Rightarrow> file_tree \<Rightarrow> exn + unit" where
  "reject_managed_tree root fs =
     rbind (validate_managed_path (tree_machine fs) root False) (\<lambda>_.
     fold_r (\<lambda>(p, e) u. rbind (validate_managed_path (tree_machine fs) p False) (\<lambda>_. Inr ()))
       (if is_directory fs root then filter (\<lambda>(p, e). is_below root p \<and> p \<noteq> root) fs else []) ())"

definition require_configured :: "pypath \<Rightarrow> file_tree \<Rightarrow> exn + unit" where
  "require_configured binary_dir fs =
     frontend_if (\<not> is_plain_file fs (path_below binary_dir [''CMakeCache.txt''])
         \<or> \<not> is_plain_file fs (path_below binary_dir [''build_manifest.json'']))
       (''build is not configured by build_art.py: '' @ path_str binary_dir)"

subsection \<open>Copying one file\<close>

text \<open>A record of the manifest: the path below the stage directory, in its parts, and the hash.\<close>

type_synonym staged_file = "string list \<times> string"

definition staged_dict :: "staged_file \<Rightarrow> pyval" where
  "staged_dict = (\<lambda>(names, sha). VDict [(''path'', VStr (join_str ''/'' names)), (''sha256'', VStr sha)])"

definition copy_staged_file ::
  "stage_host \<Rightarrow> pypath \<Rightarrow> pypath \<times> pypath \<Rightarrow> file_tree \<times> staged_file list \<Rightarrow> exn + file_tree \<times> staged_file list" where
  "copy_staged_file sh stage_dir = (\<lambda>(source, destination) (fs, copied).
     rbind (validate_managed_path (tree_machine fs) source False) (\<lambda>_.
     rbind (frontend_if (\<not> is_plain_file fs source) (''staged input must be a regular file: '' @ path_str source)) (\<lambda>_.
     rbind (make_dirs (path_parent destination) fs) (\<lambda>fs.
     rbind (validate_managed_path (tree_machine fs) (path_parent destination) False) (\<lambda>_.
     rbind (copy_file source destination fs) (\<lambda>fs.
     case relative_parts destination stage_dir of
       None \<Rightarrow> Inl (ValueError (path_str destination @ '' is not in the subpath of '' @ path_str stage_dir))
     | Some names \<Rightarrow> rbind (sha_of sh fs destination) (\<lambda>sha. Inr (fs, copied @ [(names, sha)]))))))))"

subsection \<open>The outputs of the product\<close>

record product_state =
  ps_tree :: file_tree
  ps_copied :: "staged_file list"
  ps_destinations :: "(string \<times> pypath) list"

definition stage_product :: "stage_host \<Rightarrow> pypath \<Rightarrow> pypath \<Rightarrow> product_state \<Rightarrow> exn + product_state" where
  "stage_product sh stage_dir source ps =
     (let fs = ps_tree ps; name = path_name source; destination = path_below stage_dir [name] in
      rbind (frontend_if (entry_at fs source = Some FsLink) (''refusing to stage a symlink: '' @ path_str source)) (\<lambda>_.
      rbind (validate_managed_path (tree_machine fs) source False) (\<lambda>_.
      case map_of (ps_destinations ps) name of
        Some previous \<Rightarrow>
          rbind (frontend_if (previous \<noteq> source)
            (''staged artifact name collision: '' @ path_str previous @ '' and '' @ path_str source)) (\<lambda>_. Inr ps)
      | None \<Rightarrow>
          rbind (frontend_if (entry_at fs destination = Some FsLink)
            (''refusing to replace staged symlink: '' @ path_str destination)) (\<lambda>_.
          rbind (copy_file source destination fs) (\<lambda>fs.
          rbind (sha_of sh fs destination) (\<lambda>sha.
          Inr (ps\<lparr>ps_tree := fs, ps_copied := ps_copied ps @ [([name], sha)],
            ps_destinations := AList.update name source (ps_destinations ps)\<rparr>)))))))"

definition candidate_file :: "file_tree \<Rightarrow> pypath \<Rightarrow> target_profile \<Rightarrow> string \<Rightarrow> pypath option" where
  "candidate_file fs binary_dir target ext =
     find (\<lambda>p. lower (path_suffix p) = ext \<and> is_plain_file fs p) (artifact_candidates binary_dir target ''art-compiler'')"

definition windows_sources ::
  "build_host \<Rightarrow> file_tree \<Rightarrow> pypath \<Rightarrow> target_profile \<Rightarrow> local_build_config \<Rightarrow> exn + pypath list" where
  "windows_sources bh fs binary_dir target local =
     (if tp_platform target \<noteq> ''windows'' then Inr []
      else case candidate_file fs binary_dir target ''.lib'' of
        None \<Rightarrow> Inl (frontend_error (''Windows art-compiler import library is missing in '' @ path_str binary_dir))
      | Some import_lib \<Rightarrow>
          rbind (checked_bindings bh target local) (\<lambda>bindings.
          case map_of bindings ''bundle_root'' of
            None \<Rightarrow> Inl (frontend_error (''target '' @ tp_id target @ '' has no configured target bundle''))
          | Some bundle_root \<Rightarrow>
              let libcxx_runtime = path_below bundle_root [''lib'', ''libcxx'', ''bin'', ''c++.dll''] in
              rbind (frontend_if (\<not> is_plain_file fs libcxx_runtime)
                (''Windows target bundle is missing libc++ runtime: '' @ path_str libcxx_runtime)) (\<lambda>_.
              Inr [import_lib, libcxx_runtime])))"

text \<open>
  \<open>_validate_windows_art_compiler\<close>: the names that follow an \<open>Export {\<close> in the report,
  \<open>re.findall('Export \{.*?^\s*Name:\s*(\S+)', output, re.MULTILINE | re.DOTALL)\<close>.
\<close>

definition match_name_line :: "string \<Rightarrow> (string \<times> string) option" where
  "match_name_line s =
     (case after_literal ''Name:'' (skip_space s) of
        None \<Rightarrow> None
      | Some t \<Rightarrow>
          let word_text = takeWhile (\<lambda>c. \<not> is_space_char c) (skip_space t) in
          if word_text = [] then None else Some (word_text, dropWhile (\<lambda>c. \<not> is_space_char c) (skip_space t)))"

fun find_name_line :: "bool \<Rightarrow> string \<Rightarrow> (string \<times> string) option" where
  "find_name_line at_start s =
     (case (if at_start then match_name_line s else None) of
        Some m \<Rightarrow> Some m
      | None \<Rightarrow> (case s of [] \<Rightarrow> None | c # cs \<Rightarrow> find_name_line (c = newline) cs))"

lemma find_name_line_shorter: "find_name_line at_start s = Some (w, r) \<Longrightarrow> length r \<le> length s"
proof (induction at_start s rule: find_name_line.induct)
  case (1 at_start s)
  have m: "length r \<le> length s" if "match_name_line s = Some (w, r)"
  proof -
    from that obtain t where t: "after_literal ''Name:'' (skip_space s) = Some t"
      and r: "r = dropWhile (\<lambda>c. \<not> is_space_char c) (skip_space t)"
      by (auto simp: match_name_line_def Let_def split: option.splits if_splits)
    have skip: "length (skip_space x) \<le> length x" for x unfolding skip_space_def by (rule length_dropWhile_le)
    have "length r \<le> length (skip_space t)" unfolding r by (rule length_dropWhile_le)
    also have "\<dots> \<le> length t" by (rule skip)
    also have "\<dots> \<le> length (skip_space s)" using after_literal_length [OF t] by simp
    also have "\<dots> \<le> length s" by (rule skip)
    finally show ?thesis .
  qed
  show ?case
  proof (cases "if at_start then match_name_line s else None")
    case None
    then obtain c cs where s: "s = c # cs" "find_name_line (c = newline) cs = Some (w, r)"
      using "1.prems" by (subst (asm) find_name_line.simps) (auto split: list.splits)
    then show ?thesis using "1.IH" [OF None s(1) s(2)] by simp
  next
    case (Some x)
    then show ?thesis using "1.prems" m by (subst (asm) find_name_line.simps) (auto split: if_splits)
  qed
qed

declare find_name_line.simps [simp del]

function export_names :: "string \<Rightarrow> string list" where
  "export_names s =
     (case (if starts_with ''Export {'' s then find_name_line False (drop 8 s) else None) of
        Some (w, r) \<Rightarrow> w # export_names r
      | None \<Rightarrow> (case s of [] \<Rightarrow> [] | c # cs \<Rightarrow> export_names cs))"
  by pat_completeness auto
termination export_names
proof (relation "measure length", goal_cases)
  case (3 s x w r)
  then have "starts_with ''Export {'' s" "length r \<le> length (drop 8 s)"
    by (auto dest: find_name_line_shorter split: if_splits)
  then show ?case by (cases s) auto
qed auto

declare export_names.simps [simp del]

definition validate_windows_art_compiler ::
  "stage_host \<Rightarrow> file_tree \<Rightarrow> pypath \<Rightarrow> target_profile \<Rightarrow> local_build_config \<Rightarrow> exn + unit" where
  "validate_windows_art_compiler sh fs binary_dir target local =
     (let bh = host_at sh fs; executable = ''llvm-readobj'' @ exe_suffix bh in
      case candidate_file fs binary_dir target ''.dll'' of
        None \<Rightarrow> Inl (frontend_error (''Windows art-compiler.dll is missing in '' @ path_str binary_dir))
      | Some dll \<Rightarrow>
        (case candidate_file fs binary_dir target ''.lib'' of
          None \<Rightarrow> Inl (frontend_error (''Windows art-compiler.lib is missing in '' @ path_str binary_dir))
        | Some import_lib \<Rightarrow>
            rbind (fold_r (\<lambda>artifact u.
                rbind (frontend_if (mc_is_symlink bh artifact)
                  (''Windows art-compiler artifact must be a regular file: '' @ path_str artifact)) (\<lambda>_.
                rbind (managed_here bh artifact) (\<lambda>_. Inr ()))) [dll, import_lib] ()) (\<lambda>_.
            let readobj = (case map_of (lc_tools local) ''llvm_root'' of
                    Some llvm_root \<Rightarrow>
                      let p = path_below llvm_root [''bin'', executable] in if mc_exists bh p then Some p else bh_which bh executable
                  | None \<Rightarrow> bh_which bh executable) in
            if (case readobj of None \<Rightarrow> True | Some p \<Rightarrow> \<not> mc_exists bh p)
            then Inl (frontend_error ''llvm-readobj is required to validate art-compiler.dll exports/imports'')
            else (case sh_readobj sh [''--coff-exports'', ''--coff-imports''] (entry_at fs dll) of (returncode, report) \<Rightarrow>
              rbind (frontend_if (returncode \<noteq> 0) (''llvm-readobj failed with exit code '' @ int_str returncode)) (\<lambda>_.
              let exports = export_names report in
              rbind (frontend_if (set exports \<noteq> {''art_compiler_jit_create''})
                (''art-compiler.dll exports differ from the exact allowlist: '' @ join_str '', '' (sort (remdups exports)))) (\<lambda>_.
              frontend_if (\<not> contains ''Name: art.dll'' report)
                ''art-compiler.dll must import its runtime from art.dll''))))))"

subsection \<open>The boot image\<close>

record image_state =
  is_tree :: file_tree
  is_copied :: "staged_file list"
  is_seen :: "string list"

definition image_names :: "target_profile \<Rightarrow> string list" where
  "image_names target = map (\<lambda>name. tp_aosp_arch target @ ''/'' @ name) [''boot.art'', ''boot.oat'', ''boot.vdex'']"

definition stage_image_artifact ::
  "stage_host \<Rightarrow> pypath \<Rightarrow> pypath \<Rightarrow> target_profile \<Rightarrow> pyval \<Rightarrow> image_state \<Rightarrow> exn + image_state" where
  "stage_image_artifact sh source_root stage_dir target raw st =
     (case raw of
        VDict record \<Rightarrow>
          (case dget record ''path'' VNone of
            VStr path_text \<Rightarrow>
              let relative = replace_char (CHR 0x5C) slash path_text; fs = is_tree st;
                  source = path_below source_root (split_on slash relative) in
              rbind (frontend_if (relative \<notin> set (image_names target) \<or> relative \<in> set (is_seen st))
                (''unexpected boot image artifact: '' @ relative)) (\<lambda>_.
              rbind (validate_managed_path (tree_machine fs) source False) (\<lambda>_.
              rbind (frontend_if (\<not> is_plain_file fs source) (''boot image artifact is not regular: '' @ path_str source)) (\<lambda>_.
              rbind (open_file fs source) (\<lambda>contents.
              rbind (frontend_if (\<not> py_eq (dget record ''sha256'' VNone) (VStr (sh_sha sh contents))
                  \<or> \<not> py_eq (dget record ''size'' VNone) (VInt (int (length contents))))
                (''boot image artifact identity changed: '' @ relative)) (\<lambda>_.
              rbind (copy_staged_file sh stage_dir
                (source, path_below stage_dir ([''runtime'', ''boot-image''] @ split_on slash relative)) (fs, is_copied st)) (\<lambda>(fs, copied).
              Inr \<lparr>is_tree = fs, is_copied = copied, is_seen = relative # is_seen st\<rparr>))))))
          | _ \<Rightarrow> Inl (frontend_error ''boot image artifact record is malformed''))
      | _ \<Rightarrow> Inl (frontend_error ''boot image artifact record is malformed''))"

text \<open>What \<open>json.loads\<close> and the reading before it may raise is reported as unreadable.\<close>

definition read_manifest :: "stage_host \<Rightarrow> pypath \<Rightarrow> string \<Rightarrow> exn + pyval" where
  "read_manifest sh path what =
     (case bh_json sh path of
        Inr v \<Rightarrow> Inr v
      | Inl (OSError kind msg) \<Rightarrow> Inl (frontend_error (''cannot read '' @ what @ '': '' @ msg))
      | Inl (RaisedError kind msg) \<Rightarrow>
          if kind = ''JSONDecodeError'' then Inl (frontend_error (''cannot read '' @ what @ '': '' @ msg))
          else Inl (RaisedError kind msg)
      | Inl e \<Rightarrow> Inl e)"

definition image_manifest_matches :: "target_profile \<Rightarrow> string \<Rightarrow> dict \<Rightarrow> bool" where
  "image_manifest_matches target boot_jar_sha manifest =
     (py_eq (dget manifest ''schema_version'' VNone) (VInt 1)
      \<and> py_eq (dget manifest ''target_id'' VNone) (VStr (tp_id target))
      \<and> py_eq (dget manifest ''instruction_set'' VNone) (VStr (tp_aosp_arch target))
      \<and> py_eq (dget manifest ''logical_boot_jar'' VNone) (VStr ''/system/framework/boot.jar'')
      \<and> py_eq (dget manifest ''boot_jar_sha256'' VNone) (VStr boot_jar_sha))"

definition stage_boot_image ::
  "stage_host \<Rightarrow> pypath \<Rightarrow> pypath \<Rightarrow> target_profile \<Rightarrow> pypath \<Rightarrow> file_tree \<times> staged_file list
    \<Rightarrow> exn + dict \<times> file_tree \<times> staged_file list" where
  "stage_boot_image sh binary_dir stage_dir target boot_jar = (\<lambda>(fs, copied).
     (let source_root = path_below binary_dir [''runtime'', ''boot-image'']; manifest_path = path_child source_root ''manifest.json'' in
      if ''boot_image'' \<notin> set (tp_capabilities target) then Inr ([(''status'', VStr ''unsupported'')], fs, copied)
      else if \<not> is_directory fs source_root then
        rbind (frontend_if (host_can_run_target (host_at sh fs) target)
          ''native runtime package is missing its declared boot image; build the complete product first'') (\<lambda>_.
        Inr ([(''status'', VStr ''not-built-cross-host'')], fs, copied))
      else
        rbind (reject_managed_tree source_root fs) (\<lambda>_.
        rbind (read_manifest sh manifest_path ''boot image manifest'') (\<lambda>v.
        case v of
          VDict manifest \<Rightarrow>
            rbind (sha_of sh fs boot_jar) (\<lambda>boot_jar_sha.
            rbind (frontend_if (\<not> image_manifest_matches target boot_jar_sha manifest)
              ''boot image manifest does not match the product'') (\<lambda>_.
            case dget manifest ''artifacts'' VNone of
              VList artifacts \<Rightarrow>
                rbind (fold_r (stage_image_artifact sh source_root stage_dir target) artifacts
                  \<lparr>is_tree = fs, is_copied = copied, is_seen = []\<rparr>) (\<lambda>st.
                rbind (frontend_if (\<not> list_all (\<lambda>name. name \<in> set (is_seen st)) (image_names target))
                  (''boot image artifact set is incomplete: ''
                   @ list_repr (sort (filter (\<lambda>name. name \<notin> set (is_seen st)) (image_names target))))) (\<lambda>_.
                rbind (copy_staged_file sh stage_dir
                  (manifest_path, path_below stage_dir [''runtime'', ''boot-image'', ''manifest.json'']) (is_tree st, is_copied st)) (\<lambda>(fs, copied).
                Inr ([(''status'', VStr ''included''), (''instruction_set'', VStr (tp_aosp_arch target)),
                  (''artifacts'', VList (map VStr (sort (image_names target))))], fs, copied))))
            | _ \<Rightarrow> Inl (frontend_error ''boot image manifest has no artifact list'')))
        | _ \<Rightarrow> Inl (RaisedError ''AttributeError'' (py_repr (type_name v) @ '' object has no attribute '' @ py_repr ''get''))))))"

subsection \<open>The certificates and the whole of staging\<close>

text \<open>\<open>re.fullmatch('[0-9a-f]{8}\.[0-9]+', name)\<close>\<close>

definition certificate_name :: "string \<Rightarrow> bool" where
  "certificate_name name =
     (length name > 9 \<and> list_all (\<lambda>c. is_ascii_digit c \<or> 97 \<le> code_point c \<and> code_point c \<le> 102) (take 8 name)
      \<and> name ! 8 = CHR ''.'' \<and> list_all is_ascii_digit (drop 9 name))"

definition stage_certificate ::
  "stage_host \<Rightarrow> pypath \<Rightarrow> pypath \<Rightarrow> string \<Rightarrow> file_tree \<times> staged_file list \<Rightarrow> exn + file_tree \<times> staged_file list" where
  "stage_certificate sh stage_dir cacerts_root name = (\<lambda>(fs, copied).
     (let source = path_child cacerts_root name in
      rbind (frontend_if (\<not> is_plain_file fs source) (''non-file entry in product cacerts: '' @ path_str source)) (\<lambda>_.
      copy_staged_file sh stage_dir
        (source, path_below stage_dir [''runtime'', ''etc'', ''security'', ''cacerts'', name]) (fs, copied))))"

definition runtime_sources :: "pypath \<Rightarrow> pypath \<Rightarrow> pypath \<Rightarrow> (pypath \<times> pypath) list" where
  "runtime_sources repo_root binary_dir stage_dir =
     [(path_below binary_dir [''tests'', ''managed'', ''boot.jar''], path_below stage_dir [''runtime'', ''boot.jar'']),
      (path_below repo_root [''vendor'', ''icu'', ''icu4c'', ''source'', ''stubdata'', ''icudt72l.dat''],
       path_below stage_dir [''runtime'', ''icu'', ''icudt72l.dat'']),
      (path_below repo_root [''compat'', ''java-resources'', ''java'', ''security'', ''security.properties''],
       path_below stage_dir [''runtime'', ''etc'', ''security'', ''security.properties''])]"

definition fresh_stage :: "pypath \<Rightarrow> file_tree \<Rightarrow> exn + file_tree" where
  "fresh_stage stage_dir fs =
     rbind (validate_managed_path (tree_machine fs) stage_dir True) (\<lambda>_.
     rbind (if entry_at fs stage_dir = None then Inr fs
       else rbind (reject_managed_tree stage_dir fs) (\<lambda>_.
         if is_directory fs stage_dir then Inr (remove_tree stage_dir fs)
         else Inl (OSError ''NotADirectoryError'' (path_str stage_dir)))) (\<lambda>fs.
     make_dirs stage_dir fs))"

definition stage_manifest :: "target_profile \<Rightarrow> staged_file list \<Rightarrow> dict \<Rightarrow> topology \<Rightarrow> pyval" where
  "stage_manifest target copied boot_image topology =
     VDict [(''schema_version'', VInt 2), (''target_id'', VStr (tp_id target)),
       (''artifacts'', VList (map staged_dict copied)),
       (''runtime_package'', VDict [(''boot_image'', VDict boot_image)]),
       (''topology'', VDict (topology_dict topology))]"

text \<open>Everything that is copied: the products, the runtime files, the boot image and the certificates.\<close>

definition copy_product ::
  "stage_host \<Rightarrow> target_profile \<Rightarrow> pypath \<Rightarrow> pypath \<Rightarrow> pypath list \<Rightarrow> file_tree
    \<Rightarrow> exn + dict \<times> file_tree \<times> staged_file list" where
  "copy_product sh target binary_dir stage_dir sources fs =
     rbind (fold_r (stage_product sh stage_dir) sources \<lparr>ps_tree = fs, ps_copied = [], ps_destinations = []\<rparr>) (\<lambda>ps.
     rbind (fold_r (copy_staged_file sh stage_dir) (runtime_sources (bh_repo_root sh) binary_dir stage_dir)
       (ps_tree ps, ps_copied ps)) (\<lambda>copied.
     rbind (stage_boot_image sh binary_dir stage_dir target (path_below binary_dir [''tests'', ''managed'', ''boot.jar'']) copied) (\<lambda>(boot_image, fs, copied).
     let cacerts_root = path_below (bh_repo_root sh) [''native'', ''runtime-assets'', ''etc'', ''security'', ''cacerts''];
         names = sort (children fs cacerts_root) in
     rbind (validate_managed_path (tree_machine fs) cacerts_root False) (\<lambda>_.
     rbind (if is_directory fs cacerts_root then Inr () else Inl (OSError ''NotADirectoryError'' (path_str cacerts_root))) (\<lambda>_.
     rbind (fold_r (stage_certificate sh stage_dir cacerts_root) names (fs, copied)) (\<lambda>(fs, copied).
     rbind (frontend_if (filter certificate_name names = []) ''product runtime has zero AndroidCAStore certificates'') (\<lambda>_.
     Inr (boot_image, fs, copied))))))))"

definition keychain_dirs :: "pypath \<Rightarrow> pypath list" where
  "keychain_dirs stage_dir =
     map (\<lambda>name. path_below stage_dir [''runtime'', ''data'', ''misc'', ''keychain'', name]) [''cacerts-added'', ''cacerts-removed'']"

definition frontend_stage ::
  "stage_host \<Rightarrow> target_profile \<Rightarrow> pypath \<Rightarrow> local_build_config \<Rightarrow> file_tree \<Rightarrow> exn + file_tree" where
  "frontend_stage sh target binary_dir local fs =
     rbind (require_configured binary_dir fs) (\<lambda>_.
     rbind (audit_generated_commands (host_at sh fs) target binary_dir local) (\<lambda>report.
     rbind (write_json (path_below binary_dir [''command_audit.json'']) (VDict report) fs) (\<lambda>fs.
     rbind (if tp_platform target = ''windows'' then validate_windows_art_compiler sh fs binary_dir target local else Inr ()) (\<lambda>_.
     let stage_dir = path_below binary_dir [''stage''] in
     rbind (fresh_stage stage_dir fs) (\<lambda>fs.
     rbind (ninja_product_outputs (host_at sh fs) binary_dir target local) (\<lambda>product_outputs.
     rbind (windows_sources (host_at sh fs) fs binary_dir target local) (\<lambda>more_sources.
     rbind (copy_product sh target binary_dir stage_dir (map fst product_outputs @ more_sources) fs) (\<lambda>(boot_image, fs, copied).
     rbind (fold_r make_dirs (keychain_dirs stage_dir) fs) (\<lambda>fs.
     rbind (frontend_if (copied = []) (''no product artifacts found in '' @ path_str binary_dir @ ''; build first'')) (\<lambda>_.
     rbind (validate_staged_topology sh fs stage_dir target local
       (map (path_name \<circ> fst) (filter (\<lambda>(path, kind). kind = ''executable'') product_outputs))) (\<lambda>topology.
     rbind (write_json (path_child stage_dir ''stage_manifest.json'') (stage_manifest target copied boot_image topology) fs) (\<lambda>fs.
     rbind (reject_managed_tree stage_dir fs) (\<lambda>_.
     Inr fs)))))))))))))"

subsection \<open>What every step of staging keeps\<close>

text \<open>The hash recorded last for a path, and the correspondence of the records with the files.\<close>

definition last_record :: "staged_file list \<Rightarrow> string list \<Rightarrow> string option" where
  "last_record copied names = map_of (rev copied) names"

definition recorded :: "(string \<Rightarrow> string) \<Rightarrow> pypath \<Rightarrow> file_tree \<Rightarrow> staged_file list \<Rightarrow> bool" where
  "recorded sha stage_dir fs copied =
     (\<forall>names. last_record copied names = map_option sha (file_text fs (path_below stage_dir names)))"

definition keeps_outside :: "pypath \<Rightarrow> file_tree \<Rightarrow> file_tree \<Rightarrow> bool" where
  "keeps_outside stage_dir fs fs' =
     (\<forall>p. entry_at fs p \<noteq> None \<longrightarrow> \<not> is_below stage_dir p \<longrightarrow> entry_at fs' p = entry_at fs p)"

lemma keeps_outside_trans [trans]:
  "keeps_outside d a b \<Longrightarrow> keeps_outside d b c \<Longrightarrow> keeps_outside d a c"
  by (simp add: keeps_outside_def)

lemma keeps_outside_refl: "keeps_outside d fs fs"
  by (simp add: keeps_outside_def)

lemma entry_at_update:
  "entry_at (AList.update p e fs) q = (if q = p \<and> pp_names p \<noteq> [] then Some e else entry_at fs q)"
  by (auto simp: entry_at_def update_conv')

lemma make_dirs_loop_entries:
  "make_dirs_loop p ns fs = Inr fs' \<Longrightarrow>
     (\<forall>q e. entry_at fs q = Some e \<longrightarrow> entry_at fs' q = Some e)
     \<and> (\<forall>q. entry_at fs q = None \<longrightarrow> entry_at fs' q \<in> {None, Some FsDirectory})"
proof (induction p ns fs rule: make_dirs_loop.induct)
  case (1 p fs)
  then show ?case by simp
next
  case (2 p n ns fs)
  show ?case
  proof (cases "entry_at fs (path_child p n)")
    case None
    let ?fs = "AList.update (path_child p n) FsDirectory fs"
    have e: "entry_at ?fs q = (if q = path_child p n then Some FsDirectory else entry_at fs q)" for q
      by (simp add: entry_at_update path_child_def)
    from 2 None have "(\<forall>q e. entry_at ?fs q = Some e \<longrightarrow> entry_at fs' q = Some e)
        \<and> (\<forall>q. entry_at ?fs q = None \<longrightarrow> entry_at fs' q \<in> {None, Some FsDirectory})"
      by (simp add: Let_def)
    then show ?thesis unfolding e using None by (metis insertI1 insertI2 option.distinct(1))
  next
    case (Some e)
    with 2 show ?thesis by (cases e) (simp_all add: Let_def)
  qed
qed

lemma make_dirs_keeps:
  assumes "make_dirs p fs = Inr fs'"
  shows "file_text fs' = file_text fs" and "keeps_outside d fs fs'" and "entry_at fs q = Some e \<Longrightarrow> entry_at fs' q = Some e"
proof -
  from assms have k: "\<And>q e. entry_at fs q = Some e \<Longrightarrow> entry_at fs' q = Some e"
    and n: "\<And>q. entry_at fs q = None \<Longrightarrow> entry_at fs' q = None \<or> entry_at fs' q = Some FsDirectory"
    using make_dirs_loop_entries unfolding make_dirs_def by blast+
  show "file_text fs' = file_text fs"
  proof
    fix q
    show "file_text fs' q = file_text fs q"
      by (cases "entry_at fs q") (use k n [of q] in \<open>auto simp: file_text_def\<close>)
  qed
  show "keeps_outside d fs fs'" using k by (auto simp: keeps_outside_def)
  show "entry_at fs q = Some e \<Longrightarrow> entry_at fs' q = Some e" by (rule k)
qed

lemma below_path: "is_below d p \<Longrightarrow> path_below d (drop (length (pp_names d)) (pp_names p)) = p"
  by (auto simp: is_below_def path_below_def prefix_def)

lemma is_below_path: "is_below d (path_below d names)"
  by (simp add: is_below_def path_below_def)

lemma path_below_inject: "path_below d a = path_below d b \<longleftrightarrow> a = b"
  by (cases d) (simp add: path_below_def)

text \<open>One file copied to a place below the stage directory, with its record.\<close>

lemma copy_recorded:
  assumes c: "copy_file source (path_below stage_dir names) fs = Inr fs'"
    and s: "sha_of sh fs' (path_below stage_dir names) = Inr h"
    and r: "recorded (sh_sha sh) stage_dir fs copied"
  shows "recorded (sh_sha sh) stage_dir fs' (copied @ [(names, h)])" and "keeps_outside stage_dir fs fs'"
proof -
  let ?d = "path_below stage_dir names"
  from c obtain contents where fs': "fs' = AList.update ?d (FsFile contents) fs" and d: "entry_at fs ?d \<noteq> Some FsDirectory"
    by (auto simp: copy_file_def rbind_Inr_iff split: if_splits)
  then have ne: "pp_names ?d \<noteq> []" by (auto simp: entry_at_def)
  have e: "entry_at fs' q = (if q = ?d then Some (FsFile contents) else entry_at fs q)" for q
    unfolding fs' entry_at_update using ne by simp
  from s have h: "h = sh_sha sh contents"
    by (simp add: sha_of_def open_file_def e rbind_Inr_iff)
  have t: "file_text fs' (path_below stage_dir m) = (if m = names then Some contents else file_text fs (path_below stage_dir m))" for m
    by (simp add: file_text_def e path_below_inject)
  show "recorded (sh_sha sh) stage_dir fs' (copied @ [(names, h)])"
    using r unfolding recorded_def t by (simp add: last_record_def h)
  show "keeps_outside stage_dir fs fs'"
    by (auto simp: keeps_outside_def e is_below_path)
qed

text \<open>A step that copies: its tree and its records correspond again, and what lies outside the stage
  directory stays. A loop of such steps does the same.\<close>

locale recording =
  fixes step :: "'i \<Rightarrow> 's \<Rightarrow> exn + 's" and tree :: "'s \<Rightarrow> file_tree" and records :: "'s \<Rightarrow> staged_file list"
    and sha :: "string \<Rightarrow> string" and stage_dir :: pypath
  assumes step_recorded: "step i s = Inr s' \<Longrightarrow> recorded sha stage_dir (tree s) (records s) \<Longrightarrow>
      recorded sha stage_dir (tree s') (records s') \<and> keeps_outside stage_dir (tree s) (tree s')"
begin

lemma loop_recorded:
  assumes "fold_r step is s = Inr s'" and "recorded sha stage_dir (tree s) (records s)"
  shows "recorded sha stage_dir (tree s') (records s') \<and> keeps_outside stage_dir (tree s) (tree s')"
proof (rule fold_r_invariant [OF assms(1), of "\<lambda>u. recorded sha stage_dir (tree u) (records u)
      \<and> keeps_outside stage_dir (tree s) (tree u)"])
  show "recorded sha stage_dir (tree s) (records s) \<and> keeps_outside stage_dir (tree s) (tree s)"
    using assms(2) by (simp add: keeps_outside_refl)
  show "recorded sha stage_dir (tree v) (records v) \<and> keeps_outside stage_dir (tree s) (tree v)"
    if "step i u = Inr v" and "recorded sha stage_dir (tree u) (records u) \<and> keeps_outside stage_dir (tree s) (tree u)" for i u v
    using step_recorded [OF that(1)] that(2) keeps_outside_trans by blast
qed

end

lemma recorded_tree: "file_text fs' = file_text fs \<Longrightarrow> recorded sha d fs' = recorded sha d fs"
  by (simp add: fun_eq_iff recorded_def)

lemma copy_staged_recorded:
  assumes "copy_staged_file sh stage_dir (source, destination) (fs, copied) = Inr (fs', copied')"
    and "recorded (sh_sha sh) stage_dir fs copied"
  shows "recorded (sh_sha sh) stage_dir fs' copied'" and "keeps_outside stage_dir fs fs'"
proof -
  from assms(1) obtain fs1 names h where m: "make_dirs (path_parent destination) fs = Inr fs1"
    and c: "copy_file source destination fs1 = Inr fs'" and n: "relative_parts destination stage_dir = Some names"
    and h: "sha_of sh fs' destination = Inr h" and copied': "copied' = copied @ [(names, h)]"
    by (auto simp: copy_staged_file_def rbind_Inr_iff split: option.splits)
  from n have d: "destination = path_below stage_dir names"
    by (auto simp: relative_parts_def below_path split: if_splits)
  have r: "recorded (sh_sha sh) stage_dir fs1 copied"
    using assms(2) recorded_tree [OF make_dirs_keeps(1) [OF m]] by simp
  show "recorded (sh_sha sh) stage_dir fs' copied'"
    unfolding copied' by (rule copy_recorded(1) [OF c [unfolded d] h [unfolded d] r])
  show "keeps_outside stage_dir fs fs'"
    using make_dirs_keeps(2) [OF m] copy_recorded(2) [OF c [unfolded d] h [unfolded d] r] by (rule keeps_outside_trans)
qed

interpretation staged_files: recording "copy_staged_file sh stage_dir" fst snd "sh_sha sh" stage_dir for sh stage_dir
proof
  fix i s s' assume "copy_staged_file sh stage_dir i s = Inr s'" "recorded (sh_sha sh) stage_dir (fst s) (snd s)"
  then show "recorded (sh_sha sh) stage_dir (fst s') (snd s') \<and> keeps_outside stage_dir (fst s) (fst s')"
    by (cases i; cases s; cases s') (simp add: copy_staged_recorded)
qed

interpretation certificates: recording "stage_certificate sh stage_dir cacerts_root" fst snd "sh_sha sh" stage_dir
  for sh stage_dir cacerts_root
proof
  fix i s s' assume "stage_certificate sh stage_dir cacerts_root i s = Inr s'" "recorded (sh_sha sh) stage_dir (fst s) (snd s)"
  then show "recorded (sh_sha sh) stage_dir (fst s') (snd s') \<and> keeps_outside stage_dir (fst s) (fst s')"
    by (cases s; cases s') (auto simp: stage_certificate_def Let_def rbind_Inr_iff intro: copy_staged_recorded)
qed

interpretation products: recording "stage_product sh stage_dir" ps_tree ps_copied "sh_sha sh" stage_dir for sh stage_dir
proof
  fix source s s' assume a: "stage_product sh stage_dir source s = Inr s'" and r: "recorded (sh_sha sh) stage_dir (ps_tree s) (ps_copied s)"
  show "recorded (sh_sha sh) stage_dir (ps_tree s') (ps_copied s') \<and> keeps_outside stage_dir (ps_tree s) (ps_tree s')"
  proof (cases "map_of (ps_destinations s) (path_name source)")
    case None
    with a obtain fs h where "copy_file source (path_below stage_dir [path_name source]) (ps_tree s) = Inr fs"
      "sha_of sh fs (path_below stage_dir [path_name source]) = Inr h"
      "ps_tree s' = fs" "ps_copied s' = ps_copied s @ [([path_name source], h)]"
      by (auto simp: stage_product_def Let_def rbind_Inr_iff)
    then show ?thesis using copy_recorded [OF _ _ r] by simp
  next
    case (Some previous)
    with a have "s' = s" by (auto simp: stage_product_def Let_def rbind_Inr_iff)
    then show ?thesis using r by (simp add: keeps_outside_refl)
  qed
qed

interpretation image_artifacts: recording "stage_image_artifact sh source_root stage_dir target" is_tree is_copied "sh_sha sh" stage_dir
  for sh source_root stage_dir target
proof
  fix raw s s' assume a: "stage_image_artifact sh source_root stage_dir target raw s = Inr s'"
    and r: "recorded (sh_sha sh) stage_dir (is_tree s) (is_copied s)"
  from a obtain source destination where "copy_staged_file sh stage_dir (source, destination) (is_tree s, is_copied s)
      = Inr (is_tree s', is_copied s')"
    by (auto simp: stage_image_artifact_def Let_def rbind_Inr_iff split: pyval.splits)
  then show "recorded (sh_sha sh) stage_dir (is_tree s') (is_copied s') \<and> keeps_outside stage_dir (is_tree s) (is_tree s')"
    using copy_staged_recorded r by simp
qed

subsection \<open>The staged product\<close>

lemma value_case_Inr:
  "(case v of VDict d \<Rightarrow> f d | _ \<Rightarrow> Inl e) = Inr y \<longleftrightarrow> (\<exists>d. v = VDict d \<and> f d = Inr y)"
  "(case v of VList vs \<Rightarrow> g vs | _ \<Rightarrow> Inl e) = Inr y \<longleftrightarrow> (\<exists>vs. v = VList vs \<and> g vs = Inr y)"
  by (cases v; auto)+

lemma stage_boot_image_recorded:
  assumes a: "stage_boot_image sh binary_dir stage_dir target boot_jar (fs, copied) = Inr (status, fs', copied')"
    and r: "recorded (sh_sha sh) stage_dir fs copied"
  shows "recorded (sh_sha sh) stage_dir fs' copied' \<and> keeps_outside stage_dir fs fs'"
proof (cases "fs' = fs \<and> copied' = copied")
  case True
  then show ?thesis using r by (simp add: keeps_outside_refl)
next
  case False
  let ?root = "path_below binary_dir [''runtime'', ''boot-image'']"
  from a False obtain artifacts st where
    f: "fold_r (stage_image_artifact sh ?root stage_dir target) artifacts \<lparr>is_tree = fs, is_copied = copied, is_seen = []\<rparr> = Inr st"
    and m: "copy_staged_file sh stage_dir (path_child ?root ''manifest.json'',
        path_below stage_dir [''runtime'', ''boot-image'', ''manifest.json'']) (is_tree st, is_copied st) = Inr (fs', copied')"
    unfolding stage_boot_image_def Let_def prod.case
    by (auto simp: rbind_Inr_iff value_case_Inr split: if_splits)
  from image_artifacts.loop_recorded [OF f] r
  have s: "recorded (sh_sha sh) stage_dir (is_tree st) (is_copied st) \<and> keeps_outside stage_dir fs (is_tree st)" by simp
  from copy_staged_recorded [OF m] s show ?thesis using keeps_outside_trans by blast
qed

lemma copy_product_recorded:
  assumes a: "copy_product sh target binary_dir stage_dir sources fs = Inr (boot_image, fs', copied)"
    and r: "recorded (sh_sha sh) stage_dir fs []"
  shows "recorded (sh_sha sh) stage_dir fs' copied \<and> keeps_outside stage_dir fs fs'"
proof -
  let ?cacerts = "path_below (bh_repo_root sh) [''native'', ''runtime-assets'', ''etc'', ''security'', ''cacerts'']"
  from a obtain ps fs1 c1 fs2 c2 names where
    p: "fold_r (stage_product sh stage_dir) sources \<lparr>ps_tree = fs, ps_copied = [], ps_destinations = []\<rparr> = Inr ps"
    and t: "fold_r (copy_staged_file sh stage_dir) (runtime_sources (bh_repo_root sh) binary_dir stage_dir)
        (ps_tree ps, ps_copied ps) = Inr (fs1, c1)"
    and b: "stage_boot_image sh binary_dir stage_dir target (path_below binary_dir [''tests'', ''managed'', ''boot.jar'']) (fs1, c1)
        = Inr (boot_image, fs2, c2)"
    and c: "fold_r (stage_certificate sh stage_dir ?cacerts) names (fs2, c2) = Inr (fs', copied)"
    unfolding copy_product_def Let_def by (auto simp: rbind_Inr_iff split: prod.splits)
  have 1: "recorded (sh_sha sh) stage_dir (ps_tree ps) (ps_copied ps) \<and> keeps_outside stage_dir fs (ps_tree ps)"
    using products.loop_recorded [OF p] r by simp
  have 2: "recorded (sh_sha sh) stage_dir fs1 c1 \<and> keeps_outside stage_dir (ps_tree ps) fs1"
    using staged_files.loop_recorded [OF t] 1 by simp
  have 3: "recorded (sh_sha sh) stage_dir fs2 c2 \<and> keeps_outside stage_dir fs1 fs2"
    using stage_boot_image_recorded [OF b] 2 by simp
  have 4: "recorded (sh_sha sh) stage_dir fs' copied \<and> keeps_outside stage_dir fs2 fs'"
    using certificates.loop_recorded [OF c] 3 by simp
  from 1 2 3 4 show ?thesis using keeps_outside_trans by blast
qed

text \<open>Nothing lies below a directory that is not there.\<close>

definition absent_below :: "pypath \<Rightarrow> file_tree \<Rightarrow> bool" where
  "absent_below d fs = (entry_at fs d \<noteq> None \<or> (\<forall>names. file_text fs (path_below d names) = None))"

lemma fresh_stage_empty:
  assumes "fresh_stage stage_dir fs = Inr fs'" and "absent_below stage_dir fs" and "pp_names stage_dir \<noteq> []"
  shows "recorded sha stage_dir fs' [] \<and> keeps_outside stage_dir fs fs'"
proof -
  from assms(1) obtain fs1 where m: "make_dirs stage_dir fs1 = Inr fs'"
    and fs1: "entry_at fs stage_dir = None \<and> fs1 = fs \<or> entry_at fs stage_dir \<noteq> None \<and> fs1 = remove_tree stage_dir fs"
    by (auto simp: fresh_stage_def rbind_Inr_iff split: if_splits)
  have removed: "entry_at (remove_tree stage_dir fs) p = (if is_below stage_dir p then None else entry_at fs p)" for p
  proof (cases "pp_names p = []")
    case True
    then have "\<not> is_below stage_dir p" using assms(3) by (auto simp: is_below_def)
    with True show ?thesis by (simp add: entry_at_def)
  next
    case False
    then show ?thesis unfolding remove_tree_def by (simp add: entry_at_filter)
  qed
  have "file_text fs1 (path_below stage_dir names) = None" for names
    using fs1 assms(2) by (auto simp: absent_below_def file_text_def removed is_below_path)
  then have "recorded sha stage_dir fs' []"
    by (simp add: recorded_def last_record_def make_dirs_keeps(1) [OF m])
  moreover have "keeps_outside stage_dir fs fs1"
    using fs1 by (auto simp: keeps_outside_def removed)
  ultimately show ?thesis using make_dirs_keeps(2) [OF m] keeps_outside_trans by blast
qed

lemma write_json_entries:
  assumes "write_json path v fs = Inr fs'"
  shows "file_text fs' p = (if p = path then Some (json_dumps v @ [newline]) else file_text fs p)"
    and "p \<noteq> path \<Longrightarrow> entry_at fs p = Some e \<Longrightarrow> entry_at fs' p = Some e"
proof -
  from assms obtain fs1 where m: "make_dirs (path_parent path) fs = Inr fs1" and d: "entry_at fs1 path \<noteq> Some FsDirectory"
    and fs': "fs' = AList.update path (FsFile (json_dumps v @ [newline])) fs1"
    by (auto simp: write_json_def rbind_Inr_iff split: if_splits)
  from d have "pp_names path \<noteq> []" by (auto simp: entry_at_def)
  then have e: "entry_at fs' p = (if p = path then Some (FsFile (json_dumps v @ [newline])) else entry_at fs1 p)" for p
    unfolding fs' entry_at_update by simp
  show "file_text fs' p = (if p = path then Some (json_dumps v @ [newline]) else file_text fs p)"
    unfolding make_dirs_keeps(1) [OF m, symmetric] by (simp add: file_text_def e)
  show "p \<noteq> path \<Longrightarrow> entry_at fs p = Some e \<Longrightarrow> entry_at fs' p = Some e"
    using make_dirs_keeps(3) [OF m] by (simp add: e)
qed

lemma fold_make_dirs:
  assumes "fold_r make_dirs ds fs = Inr fs'"
  shows "file_text fs' = file_text fs \<and> keeps_outside d fs fs'"
  by (rule fold_r_invariant [OF assms, of "\<lambda>u. file_text u = file_text fs \<and> keeps_outside d fs u"])
    (auto simp: keeps_outside_refl make_dirs_keeps(1) intro: keeps_outside_trans make_dirs_keeps(2))

lemma frontend_stage_steps:
  assumes "frontend_stage sh target binary_dir local fs = Inr fs'"
  obtains report fs1 fs2 sources boot_image fs3 copied fs4 executables t where
    "write_json (path_below binary_dir [''command_audit.json'']) (VDict report) fs = Inr fs1"
    "fresh_stage (path_below binary_dir [''stage'']) fs1 = Inr fs2"
    "copy_product sh target binary_dir (path_below binary_dir [''stage'']) sources fs2 = Inr (boot_image, fs3, copied)"
    "fold_r make_dirs (keychain_dirs (path_below binary_dir [''stage''])) fs3 = Inr fs4"
    "validate_staged_topology sh fs4 (path_below binary_dir [''stage'']) target local executables = Inr t"
    "write_json (path_child (path_below binary_dir [''stage'']) ''stage_manifest.json'') (stage_manifest target copied boot_image t) fs4 = Inr fs'"
  using assms unfolding frontend_stage_def Let_def
  by (auto simp: rbind_Inr_iff split: prod.splits)

lemma keeps_outside_write_json:
  "write_json path v fs = Inr fs' \<Longrightarrow> is_below d path \<Longrightarrow> keeps_outside d fs fs'"
  using write_json_entries(2) by (fastforce simp: keeps_outside_def)

text \<open>C36. What is staged is what the manifest records. After staging succeeds, the manifest in the stage
  directory lists hashes by path, and except for the manifest itself the files below the directory
  are exactly the listed paths, each with contents of the hash listed last for it: nothing of an earlier
  staging is left, and no later copy went over an earlier file unrecorded. Outside the stage directory
  and the audit report, whatever existed is as it was.\<close>

theorem staged_files_recorded:
  assumes stage: "frontend_stage sh target binary_dir local fs = Inr fs'"
    and absent: "absent_below (path_below binary_dir [''stage'']) fs"
  shows "let stage_dir = path_below binary_dir [''stage'']; manifest = path_child stage_dir ''stage_manifest.json'' in
    \<exists>copied boot_image topology.
      file_text fs' manifest = Some (json_dumps (stage_manifest target copied boot_image topology) @ [newline])
      \<and> (\<forall>names. path_below stage_dir names \<noteq> manifest \<longrightarrow>
           last_record copied names = map_option (sh_sha sh) (file_text fs' (path_below stage_dir names)))
      \<and> (\<forall>p. entry_at fs p \<noteq> None \<longrightarrow> \<not> is_below stage_dir p \<longrightarrow> p \<noteq> path_below binary_dir [''command_audit.json''] \<longrightarrow>
           entry_at fs' p = entry_at fs p)"
proof -
  let ?stage = "path_below binary_dir [''stage'']" and ?audit = "path_below binary_dir [''command_audit.json'']"
  let ?manifest = "path_child ?stage ''stage_manifest.json''"
  from frontend_stage_steps [OF stage] obtain report fs1 fs2 sources boot_image fs3 copied fs4 executables t where
    w: "write_json ?audit (VDict report) fs = Inr fs1" and f: "fresh_stage ?stage fs1 = Inr fs2"
    and c: "copy_product sh target binary_dir ?stage sources fs2 = Inr (boot_image, fs3, copied)"
    and k: "fold_r make_dirs (keychain_dirs ?stage) fs3 = Inr fs4"
    and m: "write_json ?manifest (stage_manifest target copied boot_image t) fs4 = Inr fs'" .
  have below: "path_below ?stage names \<noteq> ?audit" for names by (cases binary_dir) (simp add: path_below_def)
  have "absent_below ?stage fs1"
  proof (cases "entry_at fs ?stage")
    case None
    then show ?thesis using absent by (simp add: absent_below_def write_json_entries(1) [OF w] below)
  next
    case (Some e)
    then have "entry_at fs1 ?stage = Some e" by (rule write_json_entries(2) [OF w, rotated]) (use below [of "[]"] in \<open>simp add: path_below_def\<close>)
    then show ?thesis by (simp add: absent_below_def)
  qed
  from fresh_stage_empty [OF f this] have 2: "recorded (sh_sha sh) ?stage fs2 [] \<and> keeps_outside ?stage fs1 fs2"
    by (simp add: path_below_def)
  have 3: "recorded (sh_sha sh) ?stage fs3 copied \<and> keeps_outside ?stage fs2 fs3"
    using copy_product_recorded [OF c] 2 by simp
  have 4: "recorded (sh_sha sh) ?stage fs4 copied \<and> keeps_outside ?stage fs3 fs4"
    using fold_make_dirs [OF k] 3 recorded_tree by metis
  have 5: "keeps_outside ?stage fs4 fs'"
    by (rule keeps_outside_write_json [OF m]) (simp add: is_below_def path_child_def)
  have outside: "keeps_outside ?stage fs1 fs'" using 2 3 4 5 keeps_outside_trans by blast
  show ?thesis
    unfolding Let_def
  proof (intro exI conjI allI impI)
    show "file_text fs' ?manifest = Some (json_dumps (stage_manifest target copied boot_image t) @ [newline])"
      by (simp add: write_json_entries(1) [OF m])
    show "last_record copied names = map_option (sh_sha sh) (file_text fs' (path_below ?stage names))"
      if "path_below ?stage names \<noteq> ?manifest" for names
      using 4 that by (simp add: recorded_def write_json_entries(1) [OF m])
    show "entry_at fs' p = entry_at fs p" if p: "entry_at fs p \<noteq> None" "\<not> is_below ?stage p" "p \<noteq> ?audit" for p
    proof -
      from p(1) obtain e where e: "entry_at fs p = Some e" by blast
      have "entry_at fs1 p = Some e" by (rule write_json_entries(2) [OF w p(3) e])
      then show ?thesis using outside p(2) e by (simp add: keeps_outside_def)
    qed
  qed
qed

text \<open>The images of a platform by the ending of their names.\<close>

definition image_name :: "target_profile \<Rightarrow> string \<Rightarrow> bool" where
  "image_name target name =
     (if tp_platform target = ''windows'' then ends_with ''.dll'' name \<or> ends_with ''.exe'' name else ends_with ''.so'' name)"

lemma ends_with_lower: "ends_with ext name \<Longrightarrow> lower ext = ext \<Longrightarrow> ends_with ext (lower name)"
  by (auto simp: suffix_def lower_def)

lemma glob_suffix_exact: "name \<in> set (children fs d) \<Longrightarrow> ends_with ext name \<Longrightarrow> lower ext = ext \<Longrightarrow> name \<in> set (glob_suffix bh fs d ext)"
  by (auto simp: glob_suffix_def ends_with_lower)

lemma children_file:
  assumes "file_text fs (path_below d [name]) = Some c"
  shows "name \<in> set (children fs d)"
proof -
  have "map_of fs (path_below d [name]) = Some (FsFile c)"
    using assms by (auto simp: file_text_def entry_at_def path_below_def split: option.splits fs_entry.splits if_splits)
  then have "(path_below d [name], FsFile c) \<in> set fs" by (rule map_of_SomeD)
  moreover have "path_name (path_below d [name]) = name" "path_parent (path_below d [name]) = d"
    by (simp_all add: path_name_def path_parent_def path_below_def)
  ultimately show ?thesis by (force simp: children_def path_below_def)
qed

lemma staged_image_inspected:
  assumes "file_text fs (path_below stage_dir [name]) = Some c" and "image_name target name"
  shows "name \<in> set (images_to_inspect bh target fs stage_dir executables)"
proof -
  have "lower ''.dll'' = ''.dll''" "lower ''.exe'' = ''.exe''" "lower ''.so'' = ''.so''" by code_simp+
  then show ?thesis
    using assms(2) glob_suffix_exact [OF children_file [OF assms(1)], of _ bh]
    by (auto simp: images_to_inspect_def image_name_def split: if_splits)
qed

lemma staged_names_mono:
  assumes "\<And>p c. file_text fs p = Some c \<Longrightarrow> is_plain_file fs' p"
    and "\<And>n. n \<in> set (children fs d) \<Longrightarrow> is_plain_file fs (path_below d [n]) \<Longrightarrow> n \<in> set (children fs' d)"
  shows "set (staged_names target fs d) \<subseteq> set (staged_names target fs' d)"
proof -
  have "is_plain_file fs' p" if "is_plain_file fs p" for p
  proof -
    from that obtain c where "file_text fs p = Some c"
      by (auto simp: is_plain_file_def file_text_def split: option.splits fs_entry.splits)
    then show ?thesis by (rule assms(1))
  qed
  then show ?thesis using assms(2) unfolding staged_names_def set_map set_filter by blast
qed

lemma image_sound_mono:
  assumes "image_sound sh target fs d names t a" and "set names \<subseteq> set names'"
    and "entry_at fs' (path_below d [a]) = entry_at fs (path_below d [a])"
  shows "image_sound sh target fs' d names' t a"
proof -
  obtain code report where r: "sh_readobj sh readobj_arguments (entry_at fs (path_below d [a])) = (code, report)" by (rule prod.exhaust)
  show ?thesis
    using assms(1) subsetD [OF assms(2)] unfolding image_sound_def assms(3) r prod.case
    by (auto simp: list_all_iff split: sum.splits)
qed


text \<open>A build tree with the compiler and the runtime, an earlier staging in it, and the files of the repository.\<close>

definition sample_product :: file_tree where
  "sample_product =
     map (\<lambda>p. (path_of p, FsDirectory))
       [''/out'', ''/out/stage'', ''/out/tests'', ''/out/tests/managed'', ''/vendor'', ''/vendor/icu'', ''/vendor/icu/icu4c'',
        ''/vendor/icu/icu4c/source'', ''/vendor/icu/icu4c/source/stubdata'', ''/compat'', ''/compat/java-resources'',
        ''/compat/java-resources/java'', ''/compat/java-resources/java/security'', ''/native'', ''/native/runtime-assets'',
        ''/native/runtime-assets/etc'', ''/native/runtime-assets/etc/security'', ''/native/runtime-assets/etc/security/cacerts'']
     @ map (\<lambda>(p, contents). (path_of p, FsFile contents))
       [(''/cmake'', []), (''/ninja'', []), (''/clang'', []), (''/clang++'', []), (''/llvm-readobj'', []), (''/llvm-objdump'', []),
        (''/out/CMakeCache.txt'', []), (''/out/build_manifest.json'', []), (''/out/stage/stale.so'', ''old''),
        (''/out/libart.so'', ''runtime''), (''/out/libart-compiler.so'', ''compiler''), (''/out/tests/managed/boot.jar'', ''jar''),
        (''/vendor/icu/icu4c/source/stubdata/icudt72l.dat'', ''icu''),
        (''/compat/java-resources/java/security/security.properties'', ''p''),
        (''/native/runtime-assets/etc/security/cacerts/00673b5b.0'', ''cert'')]"

definition sample_report :: "string \<Rightarrow> string" where
  "sample_report contents = join_str [newline]
     [''Format: elf64-x86-64'', ''Arch: x86_64'', ''AddressSize: 64bit'', ''NeededLibraries ['',
      (if contents = ''compiler'' then ''  libart.so'' else ''  libc.so.6''), '']'', []]"

definition sample_stage_host :: stage_host where
  "sample_stage_host = build_host.extend
     (sample_host\<lparr>bh_ninja := \<lambda>p args. (0,
        if args = [''targets'', ''all'']
        then ''libart.so: CXX_SHARED_LIBRARY_LINKER__a'' @ [newline] @ ''libart-compiler.so: CXX_SHARED_LIBRARY_LINKER__b''
        else sample_compile_command @ [newline] @ sample_link_command)\<rparr>)
     \<lparr>sh_sha = \<lambda>s. CHR ''#'' # s,
      sh_readobj = \<lambda>args e. (0, case e of Some (FsFile contents) \<Rightarrow> sample_report contents | _ \<Rightarrow> [])\<rparr>"

lemma sample_staged:
  "\<not> isl (frontend_stage sample_stage_host sample_target (path_of ''/out'') empty_config sample_product)"
  by code_simp

lemma sample_stage_result:
  obtains fs' where "frontend_stage sample_stage_host sample_target (path_of ''/out'') empty_config sample_product = Inr fs'"
  using sample_staged by (cases "frontend_stage sample_stage_host sample_target (path_of ''/out'') empty_config sample_product") auto

lemma sample_stage_present: "absent_below (path_below (path_of ''/out'') [''stage'']) sample_product"
proof -
  have "entry_at sample_product (path_below (path_of ''/out'') [''stage'']) \<noteq> None" by code_simp
  then show ?thesis by (simp add: absent_below_def)
qed

theorem staged_files_recorded_witness:
  "\<exists>fs' copied. frontend_stage sample_stage_host sample_target (path_of ''/out'') empty_config sample_product = Inr fs'
     \<and> last_record copied [''stale.so''] = map_option (sh_sha sample_stage_host)
         (file_text fs' (path_below (path_below (path_of ''/out'') [''stage'']) [''stale.so'']))"
proof -
  obtain fs' where r: "frontend_stage sample_stage_host sample_target (path_of ''/out'') empty_config sample_product = Inr fs'"
    by (rule sample_stage_result)
  have "path_below (path_below (path_of ''/out'') [''stage'']) [''stale.so''] \<noteq>
      path_child (path_below (path_of ''/out'') [''stage'']) ''stage_manifest.json''"
    by code_simp
  with staged_files_recorded [OF r sample_stage_present] r show ?thesis unfolding Let_def by blast
qed


end
