(* ===== verification/BuildTest.thy ===== *)
theory BuildTest
  imports BuildStage
begin

section \<open>Test runs\<close>

text \<open>
  \<open>_test\<close> of \<open>tools/build_art.py\<close> with the test catalog it reads and updates. The build and test
  programs are run by \<open>fh_run\<close>, a function from the command and the file tree to an exit code and a
  tree, and \<open>fh_json\<close> is \<open>json.loads\<close>. The probes of a loaded catalog are the dictionaries of its list, so
  a probe that is marked is marked in the catalog that is written back.
\<close>

record frontend_host = stage_host +
  fh_run :: "string list \<Rightarrow> file_tree \<Rightarrow> int \<times> file_tree"
  fh_json :: "string \<Rightarrow> exn + pyval"

definition run_checked :: "frontend_host \<Rightarrow> string list \<Rightarrow> file_tree \<Rightarrow> exn + file_tree" where
  "run_checked fh command fs =
     (case fh_run fh command fs of (returncode, fs) \<Rightarrow>
        rbind (frontend_if (returncode \<noteq> 0)
          (path_name (path_of (hd command)) @ '' failed with exit code '' @ int_str returncode)) (\<lambda>_. Inr fs))"

definition host_of :: "frontend_host \<Rightarrow> file_tree \<Rightarrow> build_host" where
  "host_of fh fs = host_at (stage_host.truncate fh) fs"

text \<open>\<open>json.loads(path.read_text())\<close> with what the callers catch turned into their report.\<close>

definition json_file :: "frontend_host \<Rightarrow> file_tree \<Rightarrow> pypath \<Rightarrow> exn + pyval" where
  "json_file fh fs path = rbind (open_file fs path) (fh_json fh)"

subsection \<open>The catalog\<close>

definition catalog_path :: "pypath \<Rightarrow> pypath" where
  "catalog_path binary_dir = path_below binary_dir [''tests'', ''art_test_catalog.json'']"

datatype field_type = StrField | BoolField

fun has_type :: "field_type \<Rightarrow> pyval \<Rightarrow> bool" where
  "has_type StrField (VStr s) = True"
| "has_type BoolField (VBool b) = True"
| "has_type _ _ = False"

definition probe_fields :: "(string \<times> field_type) list" where
  "probe_fields =
     [(''name'', StrField), (''stage'', StrField), (''execution'', StrField), (''applicable'', BoolField),
      (''ctest_registered'', BoolField), (''build_verified'', BoolField), (''runtime_verified'', BoolField)]"

definition check_probe :: "pypath \<Rightarrow> nat \<times> pyval \<Rightarrow> exn + dict" where
  "check_probe path = (\<lambda>(index, raw_probe).
     case raw_probe of
       VDict probe \<Rightarrow>
         rbind (fold_r (\<lambda>(key, expected) u. frontend_if (\<not> has_type expected (dget probe key VNone))
             (''malformed test catalog probe '' @ nat_str index @ '' field '' @ py_repr key @ '' in '' @ path_str path))
           probe_fields ()) (\<lambda>_. Inr probe)
     | _ \<Rightarrow> Inl (frontend_error (''malformed test catalog probe '' @ nat_str index @ '' in '' @ path_str path)))"

type_synonym catalog = "dict \<times> dict list"

definition load_test_catalog :: "frontend_host \<Rightarrow> pypath \<Rightarrow> file_tree \<Rightarrow> exn + catalog" where
  "load_test_catalog fh binary_dir fs =
     (let path = catalog_path binary_dir in
      case json_file fh fs path of
        Inr (VDict data) \<Rightarrow>
          if \<not> py_eq (dget data ''schema_version'' VNone) (VInt 1)
          then Inl (frontend_error (''unsupported test catalog schema in '' @ path_str path))
          else (case (dget data ''target_id'' VNone, dget data ''probes'' VNone) of
              (VStr target_id, VList raw_probes) \<Rightarrow>
                rbind (map_r (check_probe path) (enumerate 0 raw_probes)) (\<lambda>probes. Inr (data, probes))
            | _ \<Rightarrow> Inl (frontend_error (''malformed test catalog in '' @ path_str path)))
      | Inr _ \<Rightarrow> Inl (frontend_error (''unsupported test catalog schema in '' @ path_str path))
      | Inl (OSError kind msg) \<Rightarrow>
          if kind = ''FileNotFoundError''
          then Inl (frontend_error (''test catalog is missing; reconfigure the build directory: '' @ path_str path))
          else Inl (frontend_error (''cannot read test catalog '' @ path_str path @ '': '' @ msg))
      | Inl (RaisedError kind msg) \<Rightarrow>
          if kind = ''JSONDecodeError'' then Inl (frontend_error (''cannot read test catalog '' @ path_str path @ '': '' @ msg))
          else Inl (RaisedError kind msg)
      | Inl e \<Rightarrow> Inl e)"

definition probe_stage :: "dict \<Rightarrow> string" where
  "probe_stage probe = text_of (dget probe ''stage'' VNone)"

definition probe_flag :: "string \<Rightarrow> dict \<Rightarrow> bool" where
  "probe_flag key probe = truthy (dget probe key VNone)"

definition mark_probe :: "string \<Rightarrow> dict \<Rightarrow> dict" where
  "mark_probe what probe =
     AList.update (what @ ''_status'') (VStr ''verified'') (AList.update (what @ ''_verified'') (VBool True) probe)"

definition mark_where :: "string \<Rightarrow> (dict \<Rightarrow> bool) \<Rightarrow> dict list \<Rightarrow> dict list" where
  "mark_where what P probes = map (\<lambda>probe. if P probe then mark_probe what probe else probe) probes"

definition write_catalog :: "pypath \<Rightarrow> catalog \<Rightarrow> file_tree \<Rightarrow> exn + file_tree" where
  "write_catalog binary_dir = (\<lambda>(data, probes) fs.
     write_json (catalog_path binary_dir) (VDict (AList.update ''probes'' (VList (map VDict probes)) data)) fs)"

definition catalog_target :: "dict \<Rightarrow> string" where
  "catalog_target data = text_of (dget data ''target_id'' VNone)"

subsection \<open>Building and running\<close>

text \<open>\<open>re.fullmatch('w[0-9]{3}', stage)\<close>\<close>

definition stage_label :: "string \<Rightarrow> exn + string" where
  "stage_label stage =
     rbind (frontend_if (\<not> (length stage = 4 \<and> hd stage = CHR ''w'' \<and> list_all is_ascii_digit (tl stage)))
       (''invalid test stage '' @ py_repr stage @ ''; expected canonical lower-case form wNNN'')) (\<lambda>_.
     Inr (''stage:'' @ stage))"

definition build_test_target :: "frontend_host \<Rightarrow> pypath \<Rightarrow> pypath \<Rightarrow> int \<Rightarrow> string \<Rightarrow> file_tree \<Rightarrow> exn + file_tree" where
  "build_test_target fh cmake binary_dir jobs name fs =
     run_checked fh [path_str cmake, ''--build'', path_str binary_dir, ''--parallel'', int_str jobs, ''--target'', name] fs"

type_synonym test_state = "file_tree \<times> catalog"

definition test_stage ::
  "frontend_host \<Rightarrow> pypath \<Rightarrow> pypath \<Rightarrow> int \<Rightarrow> string \<Rightarrow> test_state \<Rightarrow> exn + test_state" where
  "test_stage fh cmake binary_dir jobs stage = (\<lambda>(fs, data, probes).
     (let declared = filter (\<lambda>probe. probe_stage probe = stage) probes;
          applicable = (\<lambda>probe. probe_stage probe = stage \<and> probe_flag ''applicable'' probe);
          target_id = catalog_target data in
      rbind (frontend_if (declared = [])
        (''test stage '' @ stage @ '' has no declared probes for target '' @ target_id)) (\<lambda>_.
      rbind (frontend_if (filter applicable probes = [])
        (''test stage '' @ stage @ '' has zero applicable probes for target '' @ target_id @ ''; all ''
         @ nat_str (length declared) @ '' declarations were excluded by their selectors'')) (\<lambda>_.
      rbind (build_test_target fh cmake binary_dir jobs (''art-test-stage-'' @ stage) fs) (\<lambda>fs.
      rbind (load_test_catalog fh binary_dir fs) (\<lambda>(data, probes).
      rbind (frontend_if (filter applicable probes = [])
        (''test stage '' @ stage @ '' changed applicability during CMake regeneration'')) (\<lambda>_.
      let marked = mark_where ''build'' applicable probes in
      rbind (write_catalog binary_dir (data, marked) fs) (\<lambda>fs. Inr (fs, data, marked)))))))))"

definition test_everything ::
  "frontend_host \<Rightarrow> pypath \<Rightarrow> pypath \<Rightarrow> int \<Rightarrow> test_state \<Rightarrow> exn + test_state" where
  "test_everything fh cmake binary_dir jobs = (\<lambda>(fs, data, probes).
     rbind (frontend_if (filter (probe_flag ''applicable'') probes = [])
       (''target '' @ catalog_target data @ '' has zero applicable probes in the selected test scope'')) (\<lambda>_.
     rbind (build_test_target fh cmake binary_dir jobs ''art-tests'' fs) (\<lambda>fs.
     rbind (load_test_catalog fh binary_dir fs) (\<lambda>(data, probes).
     rbind (frontend_if (filter (probe_flag ''applicable'') probes = [])
       (''target '' @ catalog_target data @ '' changed to zero applicable probes during CMake regeneration'')) (\<lambda>_.
     let marked = mark_where ''build'' (probe_flag ''applicable'') probes in
     rbind (write_catalog binary_dir (data, marked) fs) (\<lambda>fs. Inr (fs, data, marked)))))))"

text \<open>\<open>re.escape\<close>: a backslash before each special character.\<close>

definition re_special :: string where
  "re_special = ''()[]{}?*+-|^$.&~# '' @ [CHR 0x5C, CHR 0x09, CHR 0x0A, CHR 0x0B, CHR 0x0C, CHR 0x0D]"

definition re_escape :: "string \<Rightarrow> string" where
  "re_escape s = concat (map (\<lambda>c. if c \<in> set re_special then [CHR 0x5C, c] else [c]) s)"

definition label_arguments :: "string list \<Rightarrow> string list" where
  "label_arguments selected_labels =
     (if selected_labels = [] then []
      else [''--label-regex'', ''^('' @ join_str ''|'' (map re_escape selected_labels) @ '')$''])"

definition ctest_command :: "pypath \<Rightarrow> pypath \<Rightarrow> string list \<Rightarrow> string list" where
  "ctest_command ctest binary_dir selected_labels =
     [path_str ctest, ''--test-dir'', path_str binary_dir, ''--output-on-failure'', ''--no-tests=error'', ''--parallel'', ''1'']
     @ label_arguments selected_labels"

definition in_scope :: "string list \<Rightarrow> dict \<Rightarrow> bool" where
  "in_scope stages probe = (stages = [] \<or> probe_stage probe \<in> set stages)"

definition runnable :: "string list \<Rightarrow> dict \<Rightarrow> bool" where
  "runnable stages probe = (in_scope stages probe \<and> probe_flag ''applicable'' probe \<and> probe_flag ''ctest_registered'' probe)"

definition require_registered :: "string list \<Rightarrow> catalog \<Rightarrow> exn + unit" where
  "require_registered stages = (\<lambda>(data, probes).
     (let applicable = filter (\<lambda>probe. in_scope stages probe \<and> probe_flag ''applicable'' probe) probes in
      rbind (frontend_if (filter (runnable stages) probes = [] \<and> applicable \<noteq> [])
        (''target '' @ catalog_target data @ '' has '' @ nat_str (length applicable)
         @ '' applicable probes in the selected scope but zero registered runnable CTest gates'')) (\<lambda>_.
      frontend_if (filter (runnable stages) probes = [])
        (''target '' @ catalog_target data @ '' has zero applicable probes in the selected test scope''))))"

definition frontend_test ::
  "frontend_host \<Rightarrow> pypath \<Rightarrow> local_build_config \<Rightarrow> string list \<Rightarrow> string list \<Rightarrow> int option \<Rightarrow> file_tree \<Rightarrow> exn + file_tree" where
  "frontend_test fh binary_dir local labels requested_stages requested_parallel fs =
     rbind (require_configured binary_dir fs) (\<lambda>_.
     rbind (resolve_parallelism (host_of fh fs) requested_parallel) (\<lambda>jobs.
     rbind (resolve_tools (host_of fh fs) local False) (\<lambda>tools.
     rbind (load_test_catalog fh binary_dir fs) (\<lambda>loaded.
     let cmake = (case map_of tools ''cmake'' of Some p \<Rightarrow> p | None \<Rightarrow> path_of []);
         stages = firsts requested_stages in
     rbind (map_r stage_label stages) (\<lambda>stage_labels.
     rbind (if stages = [] then test_everything fh cmake binary_dir jobs (fs, loaded)
       else fold_r (test_stage fh cmake binary_dir jobs) stages (fs, loaded)) (\<lambda>(fs, data, probes).
     rbind (require_registered stages (data, probes)) (\<lambda>_.
     rbind (managed_here (host_of fh fs) (bh_resolve (host_of fh fs)
       (path_child (path_parent cmake) (''ctest'' @ exe_suffix (host_of fh fs))))) (\<lambda>ctest.
     rbind (run_checked fh (ctest_command ctest binary_dir (firsts (labels @ stage_labels))) fs) (\<lambda>fs.
     if labels = [] then write_catalog binary_dir (data, mark_where ''runtime'' (runnable stages) probes) fs
     else Inr fs)))))))))"

subsection \<open>The types of a catalog\<close>

definition probe_typed :: "dict \<Rightarrow> bool" where
  "probe_typed probe = list_all (\<lambda>(key, expected). has_type expected (dget probe key VNone)) probe_fields"

lemma check_fields_iff:
  "fold_r (\<lambda>(key, expected) u. frontend_if (\<not> has_type expected (dget probe key VNone)) (msg key)) keys () = Inr ()
   \<longleftrightarrow> list_all (\<lambda>(key, expected). has_type expected (dget probe key VNone)) keys"
  by (induction keys) (auto simp: rbind_Inr_iff frontend_if_def split: if_splits)

lemma check_probe_Inr: "check_probe path (index, raw) = Inr probe \<Longrightarrow> raw = VDict probe \<and> probe_typed probe"
  unfolding check_probe_def prod.case value_case_Inr
  by (auto simp: rbind_Inr_iff probe_typed_def check_fields_iff)

lemma check_probes_Inr:
  "map_r (check_probe path) (enumerate n raw_probes) = Inr probes \<Longrightarrow> raw_probes = map VDict probes \<and> list_all probe_typed probes"
proof (induction raw_probes arbitrary: n probes)
  case Nil
  then show ?case by simp
next
  case (Cons raw raw_probes)
  then obtain probe rest where "check_probe path (n, raw) = Inr probe"
    "map_r (check_probe path) (enumerate (Suc n) raw_probes) = Inr rest" "probes = probe # rest"
    by (auto simp: rbind_Inr_iff)
  with Cons.IH show ?case using check_probe_Inr by fastforce
qed

lemma load_test_catalog_Inr:
  assumes "load_test_catalog fh binary_dir fs = Inr (data, probes)"
  shows "json_file fh fs (catalog_path binary_dir) = Inr (VDict data)
    \<and> py_eq (dget data ''schema_version'' VNone) (VInt 1) \<and> (\<exists>target_id. dget data ''target_id'' VNone = VStr target_id)
    \<and> dget data ''probes'' VNone = VList (map VDict probes) \<and> list_all probe_typed probes"
  using assms
  by (auto simp: load_test_catalog_def Let_def rbind_Inr_iff dest!: check_probes_Inr
      split: sum.splits pyval.splits exn.splits if_splits)

lemma probe_typed_fields:
  "probe_typed probe \<longleftrightarrow> (\<exists>name stage execution applicable registered built ran.
     map (\<lambda>key. dget probe key VNone) [''name'', ''stage'', ''execution'', ''applicable'', ''ctest_registered'',
       ''build_verified'', ''runtime_verified'']
     = [VStr name, VStr stage, VStr execution, VBool applicable, VBool registered, VBool built, VBool ran])"
proof -
  have t: "has_type StrField v \<longleftrightarrow> (\<exists>s. v = VStr s)" "has_type BoolField v \<longleftrightarrow> (\<exists>b. v = VBool b)" for v
    by (cases v; simp)+
  show ?thesis unfolding probe_typed_def probe_fields_def by (simp add: t)
qed

text \<open>C38. A test catalog that loads is typed: it is an object of schema 1 with a target, and each of its probes,
  in the order of the file, has a name, a stage and a way of execution that are strings and four flags
  that are booleans.\<close>

theorem catalog_typed:
  assumes "load_test_catalog fh binary_dir fs = Inr (data, probes)"
  shows "json_file fh fs (catalog_path binary_dir) = Inr (VDict data)
    \<and> py_eq (dget data ''schema_version'' VNone) (VInt 1) \<and> (\<exists>target_id. dget data ''target_id'' VNone = VStr target_id)
    \<and> dget data ''probes'' VNone = VList (map VDict probes)
    \<and> list_all (\<lambda>probe. \<exists>name stage execution applicable registered built ran.
         map (\<lambda>key. dget probe key VNone) [''name'', ''stage'', ''execution'', ''applicable'', ''ctest_registered'',
           ''build_verified'', ''runtime_verified'']
         = [VStr name, VStr stage, VStr execution, VBool applicable, VBool registered, VBool built, VBool ran]) probes"
  using load_test_catalog_Inr [OF assms] by (simp only: probe_typed_fields [abs_def])

subsection \<open>What a test run records\<close>

lemma dget_mark:
  "dget (mark_probe what probe) key VNone =
     (if key = what @ ''_status'' then VStr ''verified'' else if key = what @ ''_verified'' then VBool True
      else dget probe key VNone)"
  by (simp add: mark_probe_def dget_def update_conv')

lemma probe_typed_mark: "probe_typed probe \<Longrightarrow> what \<in> {''build'', ''runtime''} \<Longrightarrow> probe_typed (mark_probe what probe)"
  by (auto simp: probe_typed_def probe_fields_def dget_mark)

lemma typed_mark_where: "list_all probe_typed probes \<Longrightarrow> what \<in> {''build'', ''runtime''} \<Longrightarrow> list_all probe_typed (mark_where what P probes)"
  by (auto simp: list_all_iff mark_where_def probe_typed_mark)

lemma flag_mark: "what \<in> {''build'', ''runtime''} \<Longrightarrow> key \<in> {''applicable'', ''ctest_registered''} \<Longrightarrow>
    probe_flag key (mark_probe what probe) = probe_flag key probe \<and> probe_stage (mark_probe what probe) = probe_stage probe"
  by (auto simp: probe_flag_def probe_stage_def dget_mark)

lemma stage_labels: "map_r stage_label stages = Inr labels \<Longrightarrow> labels = map (\<lambda>stage. ''stage:'' @ stage) stages"
  by (induction stages arbitrary: labels) (auto simp: stage_label_def rbind_Inr_iff)

lemma set_firsts: "set (firsts xs) = set xs"
  by (induction xs rule: firsts.induct) auto

lemma distinct_firsts: "distinct (firsts xs)"
  by (induction xs rule: firsts.induct) (auto simp: set_firsts)

lemma firsts_distinct: "distinct xs \<Longrightarrow> firsts xs = xs"
proof (induction xs)
  case (Cons x xs)
  then have "filter (\<lambda>y. y \<noteq> x) xs = xs" by (intro filter_True) auto
  with Cons show ?case by simp
qed simp

lemma test_stage_typed:
  "test_stage fh cmake binary_dir jobs stage s = Inr s' \<Longrightarrow> list_all probe_typed (snd (snd s'))"
  by (cases s; cases s')
    (auto simp: test_stage_def Let_def rbind_Inr_iff dest!: load_test_catalog_Inr intro: typed_mark_where)

lemma test_everything_typed:
  "test_everything fh cmake binary_dir jobs s = Inr s' \<Longrightarrow> list_all probe_typed (snd (snd s'))"
  by (cases s; cases s')
    (auto simp: test_everything_def Let_def rbind_Inr_iff dest!: load_test_catalog_Inr intro: typed_mark_where)

lemma test_stages_typed:
  assumes "fold_r (test_stage fh cmake binary_dir jobs) stages s = Inr s'" and "list_all probe_typed (snd (snd s))"
  shows "list_all probe_typed (snd (snd s'))"
  by (rule fold_r_invariant [OF assms(1), of "\<lambda>u. list_all probe_typed (snd (snd u))"])
    (auto intro: assms(2) test_stage_typed)


text \<open>A catalog with a runnable probe and one that is not applicable, and a host whose programs succeed.\<close>

definition sample_probe :: "string \<Rightarrow> bool \<Rightarrow> pyval" where
  "sample_probe name applicable =
     VDict [(''name'', VStr name), (''stage'', VStr ''w001''), (''execution'', VStr ''native''), (''applicable'', VBool applicable),
       (''ctest_registered'', VBool applicable), (''build_verified'', VBool False), (''runtime_verified'', VBool False)]"

definition sample_catalog :: pyval where
  "sample_catalog = VDict [(''schema_version'', VInt 1), (''target_id'', VStr ''t''),
     (''probes'', VList [sample_probe ''a'' True, sample_probe ''b'' False])]"

definition sample_frontend :: frontend_host where
  "sample_frontend = stage_host.extend sample_stage_host \<lparr>fh_run = \<lambda>command fs. (0, fs), fh_json = \<lambda>s. Inr sample_catalog\<rparr>"

definition sample_test_tree :: file_tree where
  "sample_test_tree =
     [(path_of ''/cmake'', FsFile []), (path_of ''/ninja'', FsFile []), (path_of ''/ctest'', FsFile []), (path_of ''/o'', FsDirectory),
      (path_of ''/o/CMakeCache.txt'', FsFile []), (path_of ''/o/build_manifest.json'', FsFile []),
      (path_of ''/o/tests'', FsDirectory), (path_of ''/o/tests/art_test_catalog.json'', FsFile ''{}'')]"

lemma sample_catalog_loads: "\<not> isl (load_test_catalog sample_frontend (path_of ''/o'') sample_test_tree)"
  by code_simp

theorem catalog_typed_witness:
  "\<exists>data probes. load_test_catalog sample_frontend (path_of ''/o'') sample_test_tree = Inr (data, probes)
     \<and> dget data ''probes'' VNone = VList (map VDict probes)"
proof -
  obtain data probes where l: "load_test_catalog sample_frontend (path_of ''/o'') sample_test_tree = Inr (data, probes)"
    using sample_catalog_loads by (cases "load_test_catalog sample_frontend (path_of ''/o'') sample_test_tree") auto
  from catalog_typed [OF l] l show ?thesis by blast
qed

lemma sample_test_passes:
  "\<not> isl (frontend_test sample_frontend (path_of ''/o'') empty_config [] [''w001''] None sample_test_tree)"
  by code_simp


end
