(* ===== verification/BuildTree.thy ===== *)
theory BuildTree
  imports BuildAudit PyBytes
begin

section \<open>The identity of a directory tree\<close>

text \<open>
  \<open>_regular_tree_identity\<close> of \<open>tools/build_art.py\<close>: the digest that ties a build directory to the SDK
  or sysroot it was configured with. A directory is the list of its entries as \<open>os.scandir\<close> yields
  them; an entry is what \<open>stat\<close> and \<open>open\<close> make of it. The digest object is the list of the bytes it
  was updated with, and the hash function is an argument. Names are encoded as UTF-8.
\<close>

datatype tree_node =
    RegularFile int bytes
  | UnreadableFile int string
  | Directory "(string \<times> tree_node) list"
  | UnscannableDirectory string
  | LinkEntry
  | SpecialEntry
  | UnstattableEntry string

subsection \<open>The traversal\<close>

definition utf8_char :: "char \<Rightarrow> bytes" where
  "utf8_char c =
     (let n = code_point c in
      if n < 128 then [word_of_nat n] else [word_of_nat (192 + n div 64), word_of_nat (128 + n mod 64)])"

definition utf8_bytes :: "string \<Rightarrow> bytes" where
  "utf8_bytes s = concat (map utf8_char s)"

definition nul_ended :: "string \<Rightarrow> bytes" where
  "nul_ended s = utf8_bytes s @ [0]"

record tree_digest =
  td_bytes :: bytes
  td_files :: nat
  td_directories :: nat
  td_total :: int

definition entry_text :: "pypath \<Rightarrow> string list \<Rightarrow> string" where
  "entry_text root names = path_str (path_below root names)"

text \<open>The relative path is the list of its names; \<open>as_posix\<close> joins them.\<close>

function visit_node :: "pypath \<Rightarrow> string list \<Rightarrow> tree_node \<Rightarrow> tree_digest \<Rightarrow> exn + tree_digest"
  and visit_directory :: "pypath \<Rightarrow> string list \<Rightarrow> (string \<times> tree_node) list \<Rightarrow> tree_digest \<Rightarrow> exn + tree_digest" where
  "visit_node root names node td =
     (case node of
        UnstattableEntry msg \<Rightarrow>
          Inl (frontend_error (''cannot stat target binding entry '' @ entry_text root names @ '': '' @ msg))
      | LinkEntry \<Rightarrow> Inl (frontend_error (''target binding contains a link/reparse entry: '' @ entry_text root names))
      | SpecialEntry \<Rightarrow> Inl (frontend_error (''target binding contains a non-regular entry: '' @ entry_text root names))
      | UnscannableDirectory msg \<Rightarrow>
          Inl (frontend_error (''cannot scan target binding directory '' @ entry_text root names @ '': '' @ msg))
      | Directory entries \<Rightarrow>
          visit_directory root names entries
            (td\<lparr>td_directories := td_directories td + 1,
              td_bytes := td_bytes td @ utf8_bytes ''D'' @ [0] @ nul_ended (join_str ''/'' names)\<rparr>)
      | UnreadableFile sz msg \<Rightarrow>
          Inl (frontend_error (''cannot hash target binding file '' @ entry_text root names @ '': '' @ msg))
      | RegularFile sz contents \<Rightarrow>
          Inr (td\<lparr>td_files := td_files td + 1, td_total := td_total td + sz,
            td_bytes := td_bytes td @ utf8_bytes ''F'' @ [0] @ nul_ended (join_str ''/'' names) @ nul_ended (int_str sz)
              @ contents @ [0]\<rparr>))"
| "visit_directory root names entries td =
     fold_r (\<lambda>(name, node) td. visit_node root (names @ [name]) node td) (sort_key fst entries) td"
  by pat_completeness auto

termination
proof (relation "measure (\<lambda>x. case x of Inl (_, _, node, _) \<Rightarrow> 2 * size node
    | Inr (_, _, entries, _) \<Rightarrow> 2 * size_list (size_prod (\<lambda>_. 0) size) entries + 1)", goal_cases)
  case (3 root names entries td x td' name node)
  then have "(name, node) \<in> set entries" by simp
  then have "Suc (size node) \<le> size_list (size_prod (\<lambda>_. 0) size) entries" by (rule size_list_estimation') simp
  then show ?case by simp
qed auto

declare visit_node.simps [simp del] visit_directory.simps [simp del]

definition new_digest :: tree_digest where
  "new_digest = \<lparr>td_bytes = [], td_files = 0, td_directories = 0, td_total = 0\<rparr>"

definition regular_tree_identity ::
  "build_host \<Rightarrow> (bytes \<Rightarrow> string) \<Rightarrow> (pypath \<Rightarrow> tree_node) \<Rightarrow> pypath \<Rightarrow> exn + dict" where
  "regular_tree_identity bh sha256 tree_at root =
     rbind (managed_here bh root) (\<lambda>root.
     rbind (frontend_if (\<not> bh_is_dir bh root) (''target binding must be a directory: '' @ path_str root)) (\<lambda>_.
     rbind (case tree_at root of
         Directory entries \<Rightarrow> visit_directory root [] entries new_digest
       | UnscannableDirectory msg \<Rightarrow>
           Inl (frontend_error (''cannot scan target binding directory '' @ path_str root @ '': '' @ msg))
       | _ \<Rightarrow> Inl (OSError ''NotADirectoryError'' (path_str root))) (\<lambda>td.
     Inr [(''tree_sha256'', VStr (sha256 (td_bytes td))), (''file_count'', VInt (int (td_files td))),
       (''directory_count'', VInt (int (td_directories td))), (''total_bytes'', VInt (td_total td))])))"

definition target_binding_identities ::
  "build_host \<Rightarrow> (bytes \<Rightarrow> string) \<Rightarrow> (pypath \<Rightarrow> tree_node) \<Rightarrow> tool_table \<Rightarrow> exn + dict" where
  "target_binding_identities bh sha256 tree_at bindings =
     map_r (\<lambda>(name, path). rbind (regular_tree_identity bh sha256 tree_at path) (\<lambda>identity.
       Inr (name, VDict ((''path'', VStr (path_str path)) # identity)))) (sort_key fst bindings)"

subsection \<open>Regular trees\<close>

text \<open>
  A tree the traversal accepts: files and directories only, of distinct names without a slash or a
  NUL, each file read as long as it was when its size was taken.
\<close>

definition name_ok :: "string \<Rightarrow> bool" where
  "name_ok n = (slash \<notin> set n \<and> CHR 0x00 \<notin> set n)"

fun regular_node :: "tree_node \<Rightarrow> bool" where
  "regular_node (RegularFile sz contents) = (sz = int (length contents))"
| "regular_node (Directory entries) =
     (distinct (map fst entries) \<and> list_all (\<lambda>(name, node). name_ok name \<and> regular_node node) entries)"
| "regular_node node = False"

text \<open>The tree with the entries of every directory in the order of their names.\<close>

fun canonical_node :: "tree_node \<Rightarrow> tree_node" where
  "canonical_node (Directory entries) =
     Directory (sort_key fst (map (\<lambda>(name, node). (name, canonical_node node)) entries))"
| "canonical_node node = node"

text \<open>What the digest is fed with: one item for each entry, a directory before its entries.\<close>

type_synonym tree_item = "string list \<times> bytes option"

fun node_items :: "string list \<Rightarrow> tree_node \<Rightarrow> tree_item list" where
  "node_items names (RegularFile sz contents) = [(names, Some contents)]"
| "node_items names (Directory entries) =
     (names, None) # concat (map (\<lambda>(name, node). node_items (names @ [name]) node) entries)"
| "node_items names node = []"

definition item_bytes :: "tree_item \<Rightarrow> bytes" where
  "item_bytes item =
     (case item of
        (names, None) \<Rightarrow> utf8_bytes ''D'' @ [0] @ nul_ended (join_str ''/'' names)
      | (names, Some contents) \<Rightarrow> utf8_bytes ''F'' @ [0] @ nul_ended (join_str ''/'' names)
          @ nul_ended (int_str (int (length contents))) @ contents @ [0])"

abbreviation forest_items :: "string list \<Rightarrow> (string \<times> tree_node) list \<Rightarrow> tree_item list" where
  "forest_items names entries \<equiv> concat (map (\<lambda>(name, node). node_items (names @ [name]) node) entries)"

subsection \<open>The digest reads the canonical tree\<close>

lemma regular_canonical: "regular_node node \<Longrightarrow> regular_node (canonical_node node)"
proof (induction node rule: canonical_node.induct)
  case (1 entries)
  have "distinct (map fst (map (\<lambda>(name, node). (name, canonical_node node)) entries))"
    using 1(2) by (simp add: o_def case_prod_unfold)
  then have "distinct (map fst (sort_key fst (map (\<lambda>(name, node). (name, canonical_node node)) entries)))"
    by (simp only: distinct_map distinct_sort set_sort)
  with 1 show ?case by (fastforce simp: list_all_iff)
qed auto

lemma sort_canonical:
  fixes entries :: "(string \<times> tree_node) list"
  shows "sort_key fst (map (\<lambda>(name, node). (name, canonical_node node)) entries)
     = map (\<lambda>(name, node). (name, canonical_node node)) (sort_key fst entries)"
proof -
  have i: "insort_key fst (name, canonical_node node) (map (\<lambda>(name, node). (name, canonical_node node)) xs)
      = map (\<lambda>(name, node). (name, canonical_node node)) (insort_key fst (name, node) xs)" for name :: string and node xs
    by (induction xs) (auto split: prod.splits)
  show ?thesis by (induction entries) (auto simp: i)
qed

lemma item_bytes_simps:
  "item_bytes (names, None) = utf8_bytes ''D'' @ [0] @ nul_ended (join_str ''/'' names)"
  "item_bytes (names, Some contents) = utf8_bytes ''F'' @ [0] @ nul_ended (join_str ''/'' names)
     @ nul_ended (int_str (int (length contents))) @ contents @ [0]"
  by (simp_all add: item_bytes_def)

lemma visit_items:
  "regular_node node \<Longrightarrow> \<exists>td'. visit_node root names node td = Inr td'
     \<and> td_bytes td' = td_bytes td @ concat (map item_bytes (node_items names (canonical_node node)))"
  and visit_forest_items:
  "list_all (\<lambda>(name, node). regular_node node) entries \<Longrightarrow> \<exists>td'. visit_directory root names entries td = Inr td'
     \<and> td_bytes td' = td_bytes td @ concat (map item_bytes (forest_items names
         (sort_key fst (map (\<lambda>(name, node). (name, canonical_node node)) entries))))"
proof (induction root names node td and root names entries td rule: visit_node_visit_directory.induct)
  case (1 root names node td)
  show ?case
  proof (cases node)
    case (Directory entries)
    with 1(2) have "list_all (\<lambda>(name, node). regular_node node) entries" by (auto simp: list_all_iff)
    from 1(1) [OF Directory this] show ?thesis
      by (subst visit_node.simps) (auto simp: Directory item_bytes_simps)
  qed (use 1(2) in \<open>auto simp: visit_node.simps item_bytes_simps\<close>)
next
  case (2 root names entries td)
  let ?c = "\<lambda>(name, node). (name, canonical_node node)"
  have "\<exists>td'. fold_r (\<lambda>(name, node) td. visit_node root (names @ [name]) node td) xs td = Inr td'
      \<and> td_bytes td' = td_bytes td @ concat (map item_bytes (forest_items names (map ?c xs)))"
    if "set xs \<subseteq> set (sort_key fst entries)" for xs td
    using that
  proof (induction xs arbitrary: td)
    case (Cons x xs)
    obtain name node where x: "x = (name, node)" by (cases x)
    with Cons(2) have mem: "(name, node) \<in> set (sort_key fst entries)" by simp
    then have "regular_node node" using 2(2) by (auto simp: list_all_iff)
    from "2.IH" [OF mem refl this] obtain td1 where t: "visit_node root (names @ [name]) node td = Inr td1"
      "td_bytes td1 = td_bytes td @ concat (map item_bytes (node_items (names @ [name]) (canonical_node node)))" by blast
    from Cons.IH [of td1] Cons(2) obtain td2 where
      "fold_r (\<lambda>(name, node) td. visit_node root (names @ [name]) node td) xs td1 = Inr td2"
      "td_bytes td2 = td_bytes td1 @ concat (map item_bytes (forest_items names (map ?c xs)))" by auto
    with t x show ?case by simp
  qed simp
  from this [of "sort_key fst entries" td] show ?case
    unfolding sort_canonical by (simp add: visit_directory.simps)
qed

subsection \<open>The digest determines the tree\<close>

lemma split_at_nul: "xs @ 0 # r = ys @ 0 # r' \<Longrightarrow> 0 \<notin> set xs \<Longrightarrow> 0 \<notin> set ys \<Longrightarrow> xs = ys \<and> r = r'" for xs :: bytes
  by (induction xs arbitrary: ys) (case_tac ys; auto)+

lemma utf8_char_unat:
  "map unat (utf8_char c) = (if code_point c < 128 then [code_point c] else [192 + code_point c div 64, 128 + code_point c mod 64])"
proof -
  have "code_point c < 256" using nat_of_char_less_256 [of c] by (simp add: code_point_def)
  then have "192 + code_point c div 64 < 256" "128 + code_point c mod 64 < 256" by linarith+
  with \<open>code_point c < 256\<close> show ?thesis
    unfolding utf8_char_def Let_def by (simp add: unat_of_nat del: of_nat_add)
qed

lemma utf8_char_prefix:
  assumes "utf8_char c @ x = utf8_char d @ y"
  shows "c = d \<and> x = y"
proof -
  let ?m = "code_point c" and ?n = "code_point d"
  have "map unat (utf8_char c) @ map unat x = map unat (utf8_char d) @ map unat y"
    using arg_cong [OF assms, of "map unat"] by simp
  then have "?m = ?n \<or> ?m div 64 = ?n div 64 \<and> ?m mod 64 = ?n mod 64"
    unfolding utf8_char_unat by (auto split: if_splits)
  then have "?m = ?n" using div_mult_mod_eq [of ?m 64] div_mult_mod_eq [of ?n 64] by metis
  then have "c = d" by (simp add: code_point_def)
  with assms show ?thesis by simp
qed

lemma utf8_char_ne: "utf8_char c \<noteq> []"
  by (simp add: utf8_char_def Let_def)

lemma utf8_bytes_Cons: "utf8_bytes (c # s) = utf8_char c @ utf8_bytes s"
  by (simp add: utf8_bytes_def)

lemma utf8_bytes_inj: "utf8_bytes s = utf8_bytes t \<Longrightarrow> s = t"
proof (induction s arbitrary: t)
  case Nil
  then show ?case using utf8_char_ne by (cases t) (auto simp: utf8_bytes_def)
next
  case (Cons c s)
  then obtain d u where t: "t = d # u" using utf8_char_ne [of c] by (cases t) (auto simp: utf8_bytes_def)
  with Cons.prems have "c = d \<and> utf8_bytes s = utf8_bytes u"
    by (intro utf8_char_prefix) (simp add: utf8_bytes_Cons)
  with Cons.IH t show ?case by simp
qed

lemma utf8_no_nul: "CHR 0x00 \<notin> set s \<Longrightarrow> 0 \<notin> set (utf8_bytes s)"
proof (induction s)
  case (Cons c s)
  have "code_point c \<noteq> 0"
  proof
    assume "code_point c = 0"
    then have "of_char c = (of_char (CHR 0x00) :: nat)" by (simp add: code_point_def)
    then have "c = CHR 0x00" by (rule of_char_eq_iff [THEN iffD1])
    with Cons.prems show False by simp
  qed
  then have "0 \<notin> set (map unat (utf8_char c))" unfolding utf8_char_unat by auto
  then have "0 \<notin> set (utf8_char c)" by (metis (no_types) image_eqI set_map unsigned_0)
  with Cons show ?case by (simp add: utf8_bytes_Cons)
qed (simp add: utf8_bytes_def)

text \<open>The digits of a number are not zero bytes, and determine it.\<close>

lemma digit_code: "d < 10 \<Longrightarrow> of_char (char_of (48 + d) :: char) = 48 + d" for d :: nat
  by simp

lemma nat_str_value: "foldl (\<lambda>v c. 10 * v + (of_char c - 48)) 0 (nat_str n) = (n :: nat)
    \<and> list_all (\<lambda>c. 48 \<le> code_point c) (nat_str n)"
proof (induction n rule: nat_str.induct)
  case (1 n)
  show ?case
  proof (cases "n < 10")
    case True
    then show ?thesis by (subst nat_str.simps, subst nat_str.simps) (simp add: code_point_def)
  next
    case False
    have "n mod 10 < 10" by simp
    then show ?thesis
      using 1 [OF False] False div_mult_mod_eq [of n 10]
      by (subst nat_str.simps, subst nat_str.simps) (simp add: code_point_def mult.commute)
  qed
qed

lemma size_text: "int_str (int n) = nat_str n"
  by (simp add: int_str_def)

lemma size_text_inj: "int_str (int m) = int_str (int n) \<Longrightarrow> m = n"
  unfolding size_text using nat_str_value [THEN conjunct1] by (metis (no_types))

lemma size_text_no_nul: "CHR 0x00 \<notin> set (int_str (int n))"
proof
  assume "CHR 0x00 \<in> set (int_str (int n))"
  then have "48 \<le> code_point (CHR 0x00)"
    using nat_str_value [of n, THEN conjunct2] unfolding size_text list_all_iff by (rule bspec [rotated])
  then show False by (simp add: code_point_def)
qed

lemma nul_ended_prefix:
  assumes "nul_ended s @ x = nul_ended t @ y" "CHR 0x00 \<notin> set s" "CHR 0x00 \<notin> set t"
  shows "s = t \<and> x = y"
  using split_at_nul [of "utf8_bytes s" x "utf8_bytes t" y] assms utf8_no_nul [of s] utf8_no_nul [of t]
  by (auto simp: nul_ended_def dest: utf8_bytes_inj)

definition item_ok :: "tree_item \<Rightarrow> bool" where
  "item_ok item = (fst item \<noteq> [] \<and> list_all name_ok (fst item))"

lemma join_no_nul: "list_all name_ok names \<Longrightarrow> CHR 0x00 \<notin> set (join_str ''/'' names)"
  by (induction "''/''" names rule: join_str.induct) (auto simp: name_ok_def)

lemma join_names_inj:
  assumes "join_str ''/'' a = join_str ''/'' b" "a \<noteq> []" "b \<noteq> []" "list_all name_ok a" "list_all name_ok b"
  shows "a = b"
proof -
  have "split_on slash (join_str [slash] x) = x" if "x \<noteq> []" "list_all name_ok x" for x
    using that by (intro split_join) (auto simp: name_ok_def list_all_iff)
  with assms show ?thesis by (metis slash_def)
qed

lemma letters_bytes: "utf8_bytes ''D'' = [68]" "utf8_bytes ''F'' = [70]"
  by code_simp+

lemma item_bytes_prefix:
  assumes "item_bytes i @ x = item_bytes j @ y" "item_ok i" "item_ok j"
  shows "i = j \<and> x = y"
proof -
  obtain a k where i: "i = (a, k)" by (cases i)
  obtain b l where j: "j = (b, l)" by (cases j)
  have ok: "a \<noteq> []" "list_all name_ok a" "b \<noteq> []" "list_all name_ok b" using assms(2,3) i j by (auto simp: item_ok_def)
  note nul = join_no_nul [OF ok(2)] join_no_nul [OF ok(4)]
  note tail = nul_ended_prefix [of "join_str ''/'' a" _ "join_str ''/'' b", OF _ nul]
  show ?thesis
  proof (cases k)
    case None
    then have "l = None" "nul_ended (join_str ''/'' a) @ x = nul_ended (join_str ''/'' b) @ y"
      using assms(1) i j by (cases l; simp add: item_bytes_simps letters_bytes)+
    with tail [OF this(2)] None i j join_names_inj ok show ?thesis by blast
  next
    case (Some c)
    then obtain d where d: "l = Some d" using assms(1) i j by (cases l) (auto simp: item_bytes_simps letters_bytes)
    from assms(1) have "nul_ended (join_str ''/'' a) @ nul_ended (int_str (int (length c))) @ c @ 0 # x
        = nul_ended (join_str ''/'' b) @ nul_ended (int_str (int (length d))) @ d @ 0 # y"
      unfolding i j Some d item_bytes_simps by simp
    from tail [OF this] have names: "a = b"
      and rest: "nul_ended (int_str (int (length c))) @ c @ 0 # x = nul_ended (int_str (int (length d))) @ d @ 0 # y"
      using join_names_inj ok by blast+
    from nul_ended_prefix [OF rest size_text_no_nul size_text_no_nul]
    have "length c = length d" "c @ 0 # x = d @ 0 # y" by (auto dest: size_text_inj)
    with names i j Some d show ?thesis by simp
  qed
qed

lemma items_bytes_inj:
  "concat (map item_bytes is) = concat (map item_bytes js) \<Longrightarrow> list_all item_ok is \<Longrightarrow> list_all item_ok js \<Longrightarrow> is = js"
proof (induction "is" arbitrary: js)
  case Nil
  then show ?case by (cases js) (auto simp: item_bytes_def letters_bytes split: prod.splits option.splits)
next
  case (Cons i "is")
  have "item_bytes i \<noteq> []" by (auto simp: item_bytes_def letters_bytes split: prod.splits option.splits)
  then obtain j js' where js: "js = j # js'" using Cons.prems(1) by (cases js) auto
  with Cons.prems have "i = j \<and> concat (map item_bytes is) = concat (map item_bytes js')"
    by (intro item_bytes_prefix) auto
  with Cons js show ?case by simp
qed

text \<open>The items of an entry begin with its path, so those of its neighbours are told apart.\<close>

lemma items_below: "i \<in> set (node_items names node) \<Longrightarrow> prefix names (fst i)"
proof (induction names node rule: node_items.induct)
  case (2 names entries)
  then consider "fst i = names" | n x where "(n, x) \<in> set entries" "i \<in> set (node_items (names @ [n]) x)"
    by (auto split: prod.splits)
  then show ?case
  proof cases
    case 2
    with "2.IH" [OF 2(1) refl] have "prefix (names @ [n]) (fst i)" by simp
    then show ?thesis by (rule append_prefixD)
  qed simp
qed auto

lemma items_ok: "regular_node node \<Longrightarrow> names \<noteq> [] \<Longrightarrow> list_all name_ok names \<Longrightarrow> i \<in> set (node_items names node) \<Longrightarrow> item_ok i"
proof (induction names node rule: node_items.induct)
  case (2 names entries)
  then consider "i = (names, None)" | n x where "(n, x) \<in> set entries" "i \<in> set (node_items (names @ [n]) x)"
    by (auto split: prod.splits)
  then show ?case
  proof cases
    case 1
    with 2 show ?thesis by (simp add: item_ok_def)
  next
    case 2
    from "2.IH" [OF 2(1) refl] 2 "2.prems" show ?thesis by (auto simp: list_all_iff)
  qed
qed (auto simp: item_ok_def)

lemma forest_items_ok:
  assumes "regular_node (Directory entries)" "list_all name_ok names"
  shows "list_all item_ok (forest_items names entries)"
  unfolding list_all_iff
proof
  fix i assume "i \<in> set (forest_items names entries)"
  then obtain n x where x: "(n, x) \<in> set entries" "i \<in> set (node_items (names @ [n]) x)" by auto
  with assms have "regular_node x" "list_all name_ok (names @ [n])" by (auto simp: list_all_iff)
  with x show "item_ok i" using items_ok [of x "names @ [n]" i] by simp
qed

lemma items_of_regular: "regular_node node \<Longrightarrow> \<exists>k is. node_items names node = (names, k) # is"
  by (cases node) auto

lemma items_elsewhere:
  "n \<notin> fst ` set entries \<Longrightarrow> i \<in> set (forest_items names entries) \<Longrightarrow> \<not> prefix (names @ [n]) (fst i)"
  by (force dest!: items_below simp: prefix_def split: prod.splits)

lemma forest_inj:
  "regular_node (Directory es) \<Longrightarrow> regular_node (Directory fs) \<Longrightarrow> forest_items names es = forest_items names fs \<Longrightarrow> es = fs"
proof (induction "Directory es" arbitrary: es fs names rule: measure_induct_rule [of size])
  case less
  show ?case
  proof (cases es)
    case Nil
    have "fs = []"
    proof (rule ccontr)
      assume "fs \<noteq> []"
      then obtain m y gs where fs: "fs = (m, y) # gs" by (metis neq_Nil_conv surj_pair)
      with less.prems(2) obtain k "is" where "node_items (names @ [m]) y = (names @ [m], k) # is"
        using items_of_regular [of y "names @ [m]"] by auto
      with less.prems(3) Nil fs show False by simp
    qed
    with Nil show ?thesis by simp
  next
    case (Cons e es')
    obtain n x where e: "e = (n, x)" by (cases e)
    with less.prems Cons obtain k "is" where x: "regular_node x" "node_items (names @ [n]) x = (names @ [n], k) # is"
      using items_of_regular by fastforce
    then obtain f fs' where "fs = f # fs'" using less.prems(3) Cons e by (cases fs) auto
    moreover obtain m y where "f = (m, y)" by (cases f)
    ultimately have fs: "fs = (m, y) # fs'" by simp
    with less.prems obtain l js where y: "regular_node y" "node_items (names @ [m]) y = (names @ [m], l) # js"
      using items_of_regular by fastforce
    have head: "m = n" "l = k" using less.prems(3) Cons e fs x y by auto
    let ?P = "\<lambda>i. prefix (names @ [n]) (fst i)"
    have here: "filter ?P (node_items (names @ [n]) z) = node_items (names @ [n]) z" for z
      using items_below by (auto simp: filter_id_conv)
    have there: "filter ?P (forest_items names gs) = []" "filter (\<lambda>i. \<not> ?P i) (forest_items names gs) = forest_items names gs"
      if "n \<notin> fst ` set gs" for gs
      using items_elsewhere [OF that] by (auto simp: filter_empty_conv filter_id_conv)
    have n: "n \<notin> fst ` set es'" "n \<notin> fst ` set fs'" using less.prems Cons e fs head by auto
    have eq: "node_items (names @ [n]) x @ forest_items names es' = node_items (names @ [n]) y @ forest_items names fs'"
      using less.prems(3) Cons e fs head by simp
    have nodes: "node_items (names @ [n]) x = node_items (names @ [n]) y"
      using arg_cong [OF eq, of "filter ?P"] here there n by simp
    then have "forest_items names es' = forest_items names fs'" using eq by simp
    then have rest: "es' = fs'"
      using less.hyps [of es' fs' names] less.prems Cons fs by simp
    have "x = y"
    proof (cases x)
      case (RegularFile s c)
      with nodes x y show ?thesis by (cases y) auto
    next
      case (Directory xs)
      with nodes y obtain ys where ys: "y = Directory ys" by (cases y) auto
      with Directory nodes have "forest_items (names @ [n]) xs = forest_items (names @ [n]) ys" by simp
      with less.hyps [of xs ys "names @ [n]"] Directory ys x y Cons e show ?thesis by simp
    qed (use x in auto)
    with Cons e fs head rest show ?thesis by simp
  qed
qed

text \<open>C34. The digest of a target binding identifies it. The traversal of two regular trees succeeds, and
  if it feeds the hash with the same bytes the trees are the same: the same names, the same files with
  the same contents, the same directories, whatever order the file system lists the entries in. The
  size written before the contents of a file is what keeps a file from imitating others.\<close>

theorem tree_digest_identifies:
  assumes "regular_node (Directory a)" and "regular_node (Directory b)"
  shows "\<exists>s t. visit_directory root [] a new_digest = Inr s \<and> visit_directory root' [] b new_digest = Inr t
    \<and> (td_bytes s = td_bytes t \<longleftrightarrow> canonical_node (Directory a) = canonical_node (Directory b))"
proof -
  let ?c = "\<lambda>entries. sort_key fst (map (\<lambda>(name, node). (name, canonical_node node)) entries)"
  have v: "\<exists>s. visit_directory r [] x new_digest = Inr s \<and> td_bytes s = concat (map item_bytes (forest_items [] (?c x)))"
    if "regular_node (Directory x)" for r x
    using visit_forest_items [of x r "[]" new_digest] that by (auto simp: new_digest_def list_all_iff)
  obtain s where s: "visit_directory root [] a new_digest = Inr s" "td_bytes s = concat (map item_bytes (forest_items [] (?c a)))"
    using v [OF assms(1)] by blast
  obtain t where t: "visit_directory root' [] b new_digest = Inr t" "td_bytes t = concat (map item_bytes (forest_items [] (?c b)))"
    using v [OF assms(2)] by blast
  have r: "regular_node (Directory (?c a))" "regular_node (Directory (?c b))"
    using regular_canonical [OF assms(1)] regular_canonical [OF assms(2)] by simp_all
  have "td_bytes s = td_bytes t \<longleftrightarrow> ?c a = ?c b"
  proof
    assume "td_bytes s = td_bytes t"
    then have "forest_items [] (?c a) = forest_items [] (?c b)"
      unfolding s(2) t(2) by (rule items_bytes_inj) (rule forest_items_ok [OF r(1)] forest_items_ok [OF r(2)]; simp)+
    then show "?c a = ?c b" by (rule forest_inj [OF r])
  qed (simp add: s(2) t(2))
  with s(1) t(1) show ?thesis by simp
qed

theorem tree_digest_identifies_witness:
  "\<exists>s t. visit_directory (path_of ''/sdk'') [] [(''lib'', Directory []), (''a'', RegularFile 1 [7])] new_digest = Inr s
     \<and> visit_directory (path_of ''/copy'') [] [(''a'', RegularFile 1 [7]), (''lib'', Directory [])] new_digest = Inr t
     \<and> td_bytes s = td_bytes t"
proof -
  have "regular_node (Directory [(''lib'', Directory []), (''a'', RegularFile 1 [7])])"
    "regular_node (Directory [(''a'', RegularFile 1 [7]), (''lib'', Directory [])])" by code_simp+
  moreover have "canonical_node (Directory [(''lib'', Directory []), (''a'', RegularFile 1 [7])])
    = canonical_node (Directory [(''a'', RegularFile 1 [7]), (''lib'', Directory [])])" by code_simp
  ultimately show ?thesis
    using tree_digest_identifies [of "[(''lib'', Directory []), (''a'', RegularFile 1 [7])]"
        "[(''a'', RegularFile 1 [7]), (''lib'', Directory [])]" "path_of ''/sdk''" "path_of ''/copy''"] by blast
qed

end
