(* ===== verification/BuildConfigure.thy ===== *)
theory BuildConfigure
  imports BuildTest BuildTree
begin

section \<open>Generating and configuring\<close>

text \<open>
  \<open>_generate\<close>, \<open>_configure\<close>, \<open>_build\<close> and the guards of \<open>tools/build_art.py\<close>: the tools and the JDK, the
  target runner, the fingerprint of a build, the CMake command, and the checks that a build tree
  belongs to the present inputs. A program that reports its version is asked by \<open>ch_version\<close>, which
  gives its exit code and both outputs; the environment of the generator is left out.
\<close>

record configure_host = frontend_host +
  ch_version :: "pypath \<Rightarrow> string list \<Rightarrow> exn + int \<times> string \<times> string"
  ch_python :: pypath
  ch_python_info :: "nat \<times> nat"
  ch_python_version :: string
  ch_tree :: "pypath \<Rightarrow> tree_node"
  ch_sha_bytes :: "bytes \<Rightarrow> string"

definition front_of :: "configure_host \<Rightarrow> frontend_host" where
  "front_of ch = frontend_host.truncate ch"

definition bh_of :: "configure_host \<Rightarrow> file_tree \<Rightarrow> build_host" where
  "bh_of ch fs = host_of (front_of ch) fs"

subsection \<open>Tools\<close>

text \<open>\<open>_resolve_llvm_resource_compiler\<close> and \<open>_resolve_llvm_pdbutil\<close>, which differ in the tool and the report.\<close>

definition resolve_llvm_tool :: "build_host \<Rightarrow> local_build_config \<Rightarrow> string \<Rightarrow> string \<Rightarrow> exn + pypath" where
  "resolve_llvm_tool bh local name report =
     (let executable = name @ exe_suffix bh in
      rbind (case map_of (lc_tools local) ''llvm_root'' of
          Some llvm_root \<Rightarrow> Inr (path_below llvm_root [''bin'', executable])
        | None \<Rightarrow> discover bh executable) (\<lambda>path.
      rbind (managed_here bh path) (\<lambda>resolved.
      rbind (frontend_if (path_name resolved \<notin> {name, name @ ''.exe''})
        (report @ '' required; got '' @ py_repr (path_name resolved))) (\<lambda>_.
      Inr resolved))))"

definition resolve_llvm_resource_compiler :: "build_host \<Rightarrow> local_build_config \<Rightarrow> exn + pypath" where
  "resolve_llvm_resource_compiler bh local = resolve_llvm_tool bh local ''llvm-rc'' ''LLVM resource compiler''"

definition resolve_llvm_pdbutil :: "build_host \<Rightarrow> local_build_config \<Rightarrow> exn + pypath" where
  "resolve_llvm_pdbutil bh local = resolve_llvm_tool bh local ''llvm-pdbutil'' ''LLVM PDB inspection tool''"

text \<open>
  \<open>re.search\<close> of a pattern that starts at a word boundary, and the two version patterns:
  \<open>\b(?:openjdk|java) version "21(?:\.|")\<close> and \<open>\bjavac 21(?:\.|\s|$)\<close>.
\<close>

fun search_word :: "(string \<Rightarrow> bool) \<Rightarrow> bool \<Rightarrow> string \<Rightarrow> bool" where
  "search_word m boundary [] = False"
| "search_word m boundary (c # cs) = (boundary \<and> m (c # cs) \<or> search_word m (\<not> regex_word_char c) cs)"

definition java_21 :: "string \<Rightarrow> bool" where
  "java_21 s =
     list_ex (\<lambda>name. let head_text = name @ '' version '' @ [CHR 0x22] @ ''21'' in
       starts_with (head_text @ ''.'') s \<or> starts_with (head_text @ [CHR 0x22]) s) [''openjdk'', ''java'']"

definition javac_21 :: "string \<Rightarrow> bool" where
  "javac_21 s =
     (case after_literal ''javac 21'' s of
        None \<Rightarrow> False
      | Some r \<Rightarrow> (case r of [] \<Rightarrow> True | c # cs \<Rightarrow> c = CHR ''.'' \<or> is_space_char c))"

definition jdk_version :: "configure_host \<Rightarrow> string \<Rightarrow> pypath \<Rightarrow> exn + string" where
  "jdk_version ch name executable =
     rbind (ch_version ch executable [''-version'']) (\<lambda>(returncode, out, err).
     rbind (frontend_if (returncode \<noteq> 0)
       (''JDK 21 '' @ name @ '' failed at '' @ path_str executable @ '' with exit code '' @ int_str returncode)) (\<lambda>_.
     Inr (strip whitespace (out @ err))))"

definition or_no_output :: "string \<Rightarrow> string" where
  "or_no_output s = (if s = [] then ''no version output'' else s)"

definition resolve_jdk :: "configure_host \<Rightarrow> file_tree \<Rightarrow> local_build_config \<Rightarrow> exn + pypath" where
  "resolve_jdk ch fs local =
     (let bh = bh_of ch fs in
      case map_of (lc_tools local) ''jdk_root'' of
        None \<Rightarrow> Inl (frontend_error ''JDK 21 is required; set tools.jdk_root in .art-build.local.toml'')
      | Some root \<Rightarrow>
          rbind (managed_here bh root) (\<lambda>root.
          rbind (managed_here bh (path_below root [''bin'', ''java'' @ exe_suffix bh])) (\<lambda>java.
          rbind (managed_here bh (path_below root [''bin'', ''javac'' @ exe_suffix bh])) (\<lambda>javac.
          rbind (frontend_if (path_name java \<notin> {''java'', ''java.exe''} \<or> path_name javac \<notin> {''javac'', ''javac.exe''})
            (''plain JDK java/javac executables required below '' @ path_str root)) (\<lambda>_.
          rbind (jdk_version ch ''java'' java) (\<lambda>java_version.
          rbind (jdk_version ch ''javac'' javac) (\<lambda>javac_version.
          rbind (frontend_if (\<not> search_word java_21 True java_version)
            (''JDK 21 java required at '' @ path_str root @ ''; got '' @ or_no_output java_version)) (\<lambda>_.
          rbind (frontend_if (\<not> search_word javac_21 True javac_version)
            (''JDK 21 javac required at '' @ path_str root @ ''; got '' @ or_no_output javac_version)) (\<lambda>_.
          Inr root)))))))))"

definition qemu_user_runner_names :: "(string \<times> string) list" where
  "qemu_user_runner_names =
     [(''x86'', ''qemu-i386''), (''x86_64'', ''qemu-x86_64''), (''armv7'', ''qemu-arm''), (''aarch64'', ''qemu-aarch64''),
      (''riscv64'', ''qemu-riscv64'')]"

definition resolve_target_runner ::
  "build_host \<Rightarrow> target_profile \<Rightarrow> local_build_config \<Rightarrow> tool_table \<Rightarrow> exn + pypath option" where
  "resolve_target_runner bh target local bindings =
     (case map_of (lc_target_runners local) (tp_id target) of
        None \<Rightarrow> Inr None
      | Some runner \<Rightarrow>
          rbind (managed_here bh runner) (\<lambda>runner.
          rbind (frontend_if (\<not> mc_is_file bh runner) (''target runner must be a regular file: '' @ path_str runner)) (\<lambda>_.
          rbind (frontend_if (host_can_run_target bh target)
            (''target runner is unnecessary for native target '' @ tp_id target)) (\<lambda>_.
          rbind (frontend_if (lower (bh_system bh) \<noteq> ''linux'')
            ''external target runners currently require a Linux build host'') (\<lambda>_.
          rbind (frontend_if (tp_platform target \<noteq> ''linux'' \<or> tp_abi target \<noteq> ''gnu'')
            ''external target runners currently support only cross-Linux GNU targets'') (\<lambda>_.
          rbind (frontend_if (map_of qemu_user_runner_names (tp_arch target) \<noteq> Some (path_name runner))
            (''target runner for '' @ tp_id target @ '' must be ''
             @ (case map_of qemu_user_runner_names (tp_arch target) of Some n \<Rightarrow> n | None \<Rightarrow> ''no registered runner'')
             @ ''; got '' @ path_name runner)) (\<lambda>_.
          rbind (frontend_if (map_of bindings ''sysroot'' = None)
            (''target runner for '' @ tp_id target @ '' requires its target sysroot binding'')) (\<lambda>_.
          Inr (Some runner)))))))))"

definition python_executable :: "configure_host \<Rightarrow> file_tree \<Rightarrow> exn + pypath" where
  "python_executable ch fs =
     rbind (managed_here (bh_of ch fs) (bh_resolve ch (ch_python ch))) (\<lambda>path.
     rbind (frontend_if (fst (ch_python_info ch) < 3 \<or> fst (ch_python_info ch) = 3 \<and> snd (ch_python_info ch) < 11)
       ''Python 3.11 or newer is required'') (\<lambda>_. Inr path))"

subsection \<open>The fingerprint\<close>

definition tool_version_arguments :: "string \<Rightarrow> string list" where
  "tool_version_arguments name =
     (case map_of [(''java'', [''-version'']), (''javac'', [''-version'']), (''llvm-rc'', [''/?''])] name of
        Some args \<Rightarrow> args | None \<Rightarrow> [''--version''])"

text \<open>\<open>s.replace('\r\n', '\n')\<close>\<close>

fun unix_lines :: "string \<Rightarrow> string" where
  "unix_lines (c # d # s) = (if c = CHR 0x0D \<and> d = newline then newline # unix_lines s else c # unix_lines (d # s))"
| "unix_lines s = s"

definition tool_identity :: "configure_host \<Rightarrow> string \<times> pypath \<Rightarrow> exn + string \<times> pyval" where
  "tool_identity ch = (\<lambda>(name, path).
     (let arguments = tool_version_arguments name in
      case ch_version ch path arguments of
        Inl (OSError kind msg) \<Rightarrow>
          Inl (frontend_error (''cannot query '' @ name @ '' version at '' @ path_str path @ '': '' @ msg))
      | Inl e \<Rightarrow> Inl e
      | Inr (returncode, out, err) \<Rightarrow>
          let report = strip whitespace (unix_lines (out @ err)) in
          rbind (frontend_if (returncode \<noteq> 0 \<or> report = [])
            (name @ '' version query failed at '' @ path_str path @ '' with exit code '' @ int_str returncode @ '': ''
             @ (if report = [] then ''no output'' else report))) (\<lambda>_.
          Inr (name, VDict [(''path'', VStr (path_str path)), (''version_command'', VList (map VStr arguments)),
            (''version_output'', VStr report)]))))"

definition tool_identities :: "configure_host \<Rightarrow> tool_table \<Rightarrow> exn + dict" where
  "tool_identities ch tools = map_r (tool_identity ch) (sort_key fst tools)"

text \<open>\<open>_sha256_file\<close>: the hash of a file, with an \<open>OSError\<close> reported.\<close>

definition hash_file :: "configure_host \<Rightarrow> file_tree \<Rightarrow> pypath \<Rightarrow> exn + string" where
  "hash_file ch fs path =
     (case open_file fs path of
        Inr contents \<Rightarrow> Inr (sh_sha ch contents)
      | Inl (OSError kind msg) \<Rightarrow> Inl (frontend_error (''cannot hash '' @ path_str path @ '': '' @ msg))
      | Inl e \<Rightarrow> Inl e)"

text \<open>\<open>re.fullmatch('[0-9a-f]{64}', s)\<close>\<close>

definition sha_text :: "string \<Rightarrow> bool" where
  "sha_text s = (length s = 64 \<and> list_all (\<lambda>c. is_ascii_digit c \<or> 97 \<le> code_point c \<and> code_point c \<le> 102) s)"

definition generated_graph_identity :: "configure_host \<Rightarrow> file_tree \<Rightarrow> pypath \<Rightarrow> target_profile \<Rightarrow> exn + dict" where
  "generated_graph_identity ch fs generated_dir target =
     (let manifest_path = path_below generated_dir [''graph_manifest.json''];
          unreadable = (\<lambda>msg. frontend_error (''cannot fingerprint generated graph manifest '' @ path_str manifest_path @ '': '' @ msg)) in
      rbind (case rbind (open_file fs manifest_path) (\<lambda>contents. rbind (fh_json ch contents) (\<lambda>v. Inr (contents, v))) of
          Inr x \<Rightarrow> Inr x
        | Inl (OSError kind msg) \<Rightarrow> Inl (unreadable msg)
        | Inl (RaisedError kind msg) \<Rightarrow>
            if kind \<in> {''UnicodeDecodeError'', ''JSONDecodeError''} then Inl (unreadable msg) else Inl (RaisedError kind msg)
        | Inl e \<Rightarrow> Inl e) (\<lambda>(contents, v).
      case v of
        VDict manifest \<Rightarrow>
          rbind (frontend_if (\<not> py_eq (dget manifest ''target'' VNone) (VDict (target_to_dict target)))
            (''generated graph target does not match profile '' @ tp_id target)) (\<lambda>_.
          (case dget manifest ''graph_sha256'' VNone of
             VStr graph_sha \<Rightarrow>
               rbind (frontend_if (\<not> sha_text graph_sha) ''generated graph manifest has no valid graph_sha256'') (\<lambda>_.
               rbind (hash_file ch fs (path_below generated_dir [''art_graph.cmake''])) (\<lambda>actual.
               rbind (frontend_if (actual \<noteq> graph_sha)
                 (''generated graph digest mismatch: manifest has '' @ graph_sha @ '', file has '' @ actual)) (\<lambda>_.
               rbind (hash_file ch fs (path_below generated_dir [''target_profile.cmake''])) (\<lambda>profile_sha.
               Inr [(''graph_sha256'', VStr graph_sha), (''manifest_sha256'', VStr (sh_sha ch contents)),
                 (''profile_sha256'', VStr profile_sha)]))))
           | _ \<Rightarrow> Inl (frontend_error ''generated graph manifest has no valid graph_sha256'')))
      | _ \<Rightarrow> Inl (RaisedError ''AttributeError'' (py_repr (type_name v) @ '' object has no attribute '' @ py_repr ''get''))))"

definition canonical_host_arch :: "string \<Rightarrow> string" where
  "canonical_host_arch machine_name =
     (let m = lower machine_name in
      case map_of [(''amd64'', ''x86_64''), (''x64'', ''x86_64''), (''arm64'', ''aarch64'')] m of Some a \<Rightarrow> a | None \<Rightarrow> m)"

definition build_fingerprint ::
  "configure_host \<Rightarrow> file_tree \<Rightarrow> target_profile \<Rightarrow> string \<Rightarrow> string \<Rightarrow> tool_table \<Rightarrow> pypath \<Rightarrow> tool_table \<Rightarrow> exn + dict" where
  "build_fingerprint ch fs target build_type variant tools generated_dir bindings =
     rbind (generated_graph_identity ch fs generated_dir target) (\<lambda>graph.
     rbind (tool_identities ch tools) (\<lambda>tool_ids.
     rbind (target_binding_identities (bh_of ch fs) (ch_sha_bytes ch) (ch_tree ch) bindings) (\<lambda>binding_ids.
     Inr [(''schema_version'', VInt 2),
       (''build_host'', VDict [(''os'', VStr (lower (bh_system ch))), (''arch'', VStr (canonical_host_arch (bh_machine ch))),
         (''python_version'', VStr (ch_python_version ch))]),
       (''target'', VDict (target_to_dict target)), (''build_type'', VStr build_type), (''build_variant'', VStr variant),
       (''generated_graph'', VDict graph), (''tools'', VDict tool_ids), (''target_bindings'', VDict binding_ids)])))"

subsection \<open>The CMake command\<close>

definition target_compiler_binding_arguments :: "target_profile \<Rightarrow> tool_table \<Rightarrow> string list" where
  "target_compiler_binding_arguments target bindings =
     (case map_of bindings ''sysroot'' of Some p \<Rightarrow> [''-DCMAKE_SYSROOT='' @ path_str p] | None \<Rightarrow> [])
     @ (case map_of bindings ''runtime_root'' of
          Some runtime_root \<Rightarrow>
            if tp_abi target = ''gnu'' then
              map (\<lambda>language. ''-DCMAKE_'' @ language @ ''_COMPILER_EXTERNAL_TOOLCHAIN='' @ path_str runtime_root) [''C'', ''CXX'']
            else []
        | None \<Rightarrow> [])"

definition static_try_compile :: string where
  "static_try_compile = ''-DCMAKE_TRY_COMPILE_TARGET_TYPE=STATIC_LIBRARY''"

text \<open>The options that every configuration gets.\<close>

definition common_arguments ::
  "configure_host \<Rightarrow> build_host \<Rightarrow> target_profile \<Rightarrow> string \<Rightarrow> string \<Rightarrow> pypath \<Rightarrow> tool_table \<Rightarrow> pypath \<Rightarrow> pypath
    \<Rightarrow> pypath option \<Rightarrow> string list" where
  "common_arguments ch bh target build_type variant binary_dir tools jdk python target_runner =
     [tool_path tools ''cmake'', ''-S'', path_str (path_child (bh_repo_root bh) ''native''), ''-B'', path_str binary_dir, ''-G'', ''Ninja'',
      ''-DCMAKE_BUILD_TYPE='' @ build_type, ''-DCMAKE_EXPORT_COMPILE_COMMANDS=ON'',
      ''-DCMAKE_MAKE_PROGRAM='' @ tool_path tools ''ninja'', ''-DCMAKE_C_COMPILER='' @ tool_path tools ''clang'',
      ''-DCMAKE_CXX_COMPILER='' @ tool_path tools ''clang++'', ''-DCMAKE_C_COMPILER_TARGET='' @ tp_triple target,
      ''-DCMAKE_CXX_COMPILER_TARGET='' @ tp_triple target, ''-DCMAKE_ASM_COMPILER_TARGET='' @ tp_triple target,
      ''-DCMAKE_SYSTEM_NAME='' @ tp_cmake_system_name target, ''-DPython3_EXECUTABLE='' @ path_str python,
      ''-DART_JDK_ROOT='' @ path_str jdk,
      ''-DART_PROFILE_FILE='' @ path_str (path_below binary_dir [''generated'', ''target_profile.cmake'']),
      ''-DART_GRAPH_FILE='' @ path_str (path_below binary_dir [''generated'', ''art_graph.cmake'']),
      ''-DART_LLVM_READOBJ='' @ tool_path tools ''llvm-readobj'', ''-DART_LLVM_OBJDUMP='' @ tool_path tools ''llvm-objdump'',
      ''-DART_ENABLE_TARGET_RUNTIME_TESTS='' @ (if host_can_run_target bh target \<or> target_runner \<noteq> None then ''ON'' else ''OFF''),
      ''-DART_BOOT_IMAGE_PARALLEL='' @ int_str (boot_image_parallel_limit bh), ''-DART_TEST_VARIANT='' @ variant]"

definition runner_arguments :: "tool_table \<Rightarrow> pypath option \<Rightarrow> exn + string list" where
  "runner_arguments bindings target_runner =
     (case target_runner of
        None \<Rightarrow> Inr []
      | Some runner \<Rightarrow>
          (case map_of bindings ''sysroot'' of
             None \<Rightarrow> Inl (KeyError ''sysroot'')
           | Some sysroot \<Rightarrow>
               Inr [''-DART_TARGET_RUNNER='' @ path_str runner, ''-DART_TARGET_RUNNER_ROOT='' @ path_str sysroot]))"

definition platform_arguments :: "build_host \<Rightarrow> target_profile \<Rightarrow> tool_table \<Rightarrow> tool_table \<Rightarrow> exn + string list" where
  "platform_arguments bh target tools bindings =
     (if tp_platform target = ''windows'' then
        (case map_of bindings ''bundle_root'' of
           None \<Rightarrow> Inl (frontend_error (''target '' @ tp_id target @ '' requires targets.'' @ tp_id target
             @ ''.bundle_root in .art-build.local.toml''))
         | Some bundle \<Rightarrow>
             Inr ([''-DART_TARGET_BUNDLE_ROOT='' @ path_str bundle, ''-DART_LLVM_PDBUTIL='' @ tool_path tools ''llvm-pdbutil'',
               ''-DCMAKE_RC_COMPILER='' @ tool_path tools ''llvm-rc'']
               @ (if tp_abi target = ''msvc'' then [''-DCMAKE_MSVC_RUNTIME_LIBRARY=MultiThreadedDLL''] else [])
               @ [static_try_compile]))
      else if windows_host bh \<and> map_of bindings ''sysroot'' = None then
        Inl (frontend_error (''Windows-hosted Linux targets require targets.'' @ tp_id target
          @ ''.sysroot in .art-build.local.toml''))
      else if \<not> host_can_run_target bh target then Inr [static_try_compile]
      else Inr [])"

definition binding_arguments :: "tool_table \<Rightarrow> string list" where
  "binding_arguments bindings =
     concat (map (\<lambda>(key, cmake_key). case map_of bindings key of
         Some p \<Rightarrow> [''-D'' @ cmake_key @ ''='' @ path_str p] | None \<Rightarrow> [])
       [(''sdk_root'', ''ART_TARGET_SDK_ROOT''), (''sysroot'', ''ART_TARGET_SYSROOT''), (''runtime_root'', ''ART_TARGET_RUNTIME_ROOT'')])"

definition plan_tools ::
  "configure_host \<Rightarrow> file_tree \<Rightarrow> target_profile \<Rightarrow> local_build_config \<Rightarrow> exn + tool_table \<times> pypath" where
  "plan_tools ch fs target local =
     (let bh = bh_of ch fs in
      rbind (resolve_tools bh local True) (\<lambda>tools.
      rbind (resolve_llvm_inspection_tools bh local) (\<lambda>inspection.
      rbind (resolve_jdk ch fs local) (\<lambda>jdk.
      rbind (if tp_platform target = ''windows'' then
          rbind (resolve_llvm_resource_compiler bh local) (\<lambda>rc.
          rbind (resolve_llvm_pdbutil bh local) (\<lambda>pdbutil. Inr [(''llvm-rc'', rc), (''llvm-pdbutil'', pdbutil)]))
        else Inr []) (\<lambda>windows_tools.
      Inr (tools @ inspection @ [(''java'', path_below jdk [''bin'', ''java'' @ exe_suffix bh]),
        (''javac'', path_below jdk [''bin'', ''javac'' @ exe_suffix bh])] @ windows_tools, jdk))))))"

definition configure_plan ::
  "configure_host \<Rightarrow> file_tree \<Rightarrow> target_profile \<Rightarrow> string \<Rightarrow> string \<Rightarrow> pypath \<Rightarrow> local_build_config
    \<Rightarrow> exn + string list \<times> dict" where
  "configure_plan ch fs target build_type variant binary_dir local =
     (let bh = bh_of ch fs; generated = path_child binary_dir ''generated'' in
      rbind (plan_tools ch fs target local) (\<lambda>(tools, jdk).
      rbind (checked_bindings bh target local) (\<lambda>bindings.
      rbind (resolve_target_runner bh target local bindings) (\<lambda>target_runner.
      let tools = tools @ (case target_runner of Some runner \<Rightarrow> [(''target-runner'', runner)] | None \<Rightarrow> []) in
      rbind (build_fingerprint ch fs target build_type variant tools generated bindings) (\<lambda>fingerprint.
      rbind (python_executable ch fs) (\<lambda>python.
      rbind (runner_arguments bindings target_runner) (\<lambda>runner_args.
      rbind (platform_arguments bh target tools bindings) (\<lambda>platform_args.
      let command = common_arguments ch bh target build_type variant binary_dir tools jdk python target_runner
            @ runner_args @ platform_args @ binding_arguments bindings @ target_compiler_binding_arguments target bindings in
      Inr (command, fingerprint @ [(''configure_command'', VList (map VStr command))])))))))))"

subsection \<open>The graph\<close>

definition roots_valid :: "pyval \<Rightarrow> bool" where
  "roots_valid v =
     (case v of
        VList roots \<Rightarrow>
          roots \<noteq> [] \<and> list_all (\<lambda>r. case r of VStr name \<Rightarrow> name \<noteq> [] | _ \<Rightarrow> False) roots \<and> distinct roots
      | _ \<Rightarrow> False)"

definition compiler_module :: "pyval list \<Rightarrow> dict option" where
  "compiler_module modules =
     map_option (\<lambda>v. case v of VDict d \<Rightarrow> d | _ \<Rightarrow> [])
       (find (\<lambda>v. case v of VDict d \<Rightarrow> py_eq (dget d ''aosp_name'' VNone) (VStr ''libart-compiler'') | _ \<Rightarrow> False) modules)"

definition validate_graph_manifest :: "configure_host \<Rightarrow> file_tree \<Rightarrow> pypath \<Rightarrow> target_profile \<Rightarrow> exn + unit" where
  "validate_graph_manifest ch fs path target =
     (let unreadable = (\<lambda>msg. frontend_error (''cannot read generated graph manifest: '' @ path_str path @ '': '' @ msg)) in
      case json_file (front_of ch) fs path of
        Inl (OSError kind msg) \<Rightarrow> Inl (unreadable msg)
      | Inl (RaisedError kind msg) \<Rightarrow> Inl (if kind = ''JSONDecodeError'' then unreadable msg else RaisedError kind msg)
      | Inl e \<Rightarrow> Inl e
      | Inr (VDict manifest) \<Rightarrow>
          rbind (frontend_if (\<not> py_eq (dget manifest ''target'' VNone) (VDict (target_to_dict target)))
            (''generated graph manifest does not describe '' @ tp_id target)) (\<lambda>_.
          rbind (frontend_if (\<not> py_eq (dget manifest ''root_module_source'' VNone) (VStr ''overlay-policy'')
              \<or> \<not> roots_valid (dget manifest ''root_modules'' VNone))
            ''generated product graph does not have valid overlay-owned roots'') (\<lambda>_.
          (case dget manifest ''modules'' VNone of
             VList modules \<Rightarrow>
               (case compiler_module modules of
                  None \<Rightarrow> Inl (frontend_error (''generated graph for '' @ tp_id target @ '' omits the required libart-compiler module''))
                | Some compiler \<Rightarrow>
                    frontend_if (\<not> py_eq (dget compiler ''kind'' VNone) (VStr ''shared''))
                      (''generated graph for '' @ tp_id target @ '' has non-shared libart-compiler kind ''
                       @ value_repr (dget compiler ''kind'' VNone)))
           | _ \<Rightarrow> Inl (frontend_error ''generated graph manifest has no module list''))))
      | Inr _ \<Rightarrow> Inl (frontend_error ''generated graph manifest must be a JSON object''))"

definition generate_command :: "configure_host \<Rightarrow> pypath \<Rightarrow> target_profile \<Rightarrow> pypath \<Rightarrow> bool \<Rightarrow> string list" where
  "generate_command ch python target generated_dir check =
     (let repo = bh_repo_root ch; vendor = path_child repo ''vendor'' in
      [path_str python, ''-m'', ''bp2cmake'', ''--root'', path_str vendor,
       ''--overlay-factory'', path_str (path_below repo [''overlay'', ''art_port_policy.py'']), ''--target-id'', tp_id target]
      @ concat (map (\<lambda>(names, variable). [''--extra-root'', path_str (path_below vendor names) @ '':'' @ variable])
          [([], ''MDVM_ART_ROOT_DIR''), ([''libcore''], ''MDVM_LIBCORE_DIR''), ([''icu''], ''MDVM_ICU_DIR''),
           ([''java-external'', ''fdlibm''], ''MDVM_FDLIBM_DIR'')])
      @ [''--out'', path_str (path_child generated_dir ''art_graph.cmake''),
         ''--manifest-out'', path_str (path_child generated_dir ''graph_manifest.json''),
         ''--profile-out'', path_str (path_child generated_dir ''target_profile.cmake'')]
      @ (if check then [''--check''] else []))"

definition frontend_generate :: "configure_host \<Rightarrow> target_profile \<Rightarrow> pypath \<Rightarrow> bool \<Rightarrow> file_tree \<Rightarrow> exn + file_tree" where
  "frontend_generate ch target binary_dir check fs =
     (let generated_dir = path_child binary_dir ''generated'' in
      rbind (python_executable ch fs) (\<lambda>python.
      case fh_run ch (generate_command ch python target generated_dir check) fs of (returncode, fs) \<Rightarrow>
        rbind (frontend_if (returncode \<noteq> 0)
          (''target graph '' @ (if check then ''check'' else ''generation'') @ '' failed ('' @ int_str returncode @ '')'')) (\<lambda>_.
        rbind (validate_graph_manifest ch fs (path_child generated_dir ''graph_manifest.json'') target) (\<lambda>_. Inr fs))))"

subsection \<open>Guards of a build tree\<close>

definition manifest_path_of :: "pypath \<Rightarrow> pypath" where
  "manifest_path_of binary_dir = path_below binary_dir [''build_manifest.json'']"

definition read_build_manifest :: "configure_host \<Rightarrow> file_tree \<Rightarrow> pypath \<Rightarrow> exn + pyval" where
  "read_build_manifest ch fs binary_dir =
     (case json_file (front_of ch) fs (manifest_path_of binary_dir) of
        Inr v \<Rightarrow> Inr v
      | Inl (OSError kind msg) \<Rightarrow> Inl (frontend_error (''cannot read build manifest: '' @ msg))
      | Inl (RaisedError kind msg) \<Rightarrow>
          Inl (if kind = ''JSONDecodeError'' then frontend_error (''cannot read build manifest: '' @ msg) else RaisedError kind msg)
      | Inl e \<Rightarrow> Inl e)"

definition immutable_build_fingerprint :: "dict \<Rightarrow> dict" where
  "immutable_build_fingerprint fingerprint = filter (\<lambda>(key, v). key \<noteq> ''generated_graph'') fingerprint"

definition guard_binary_directory :: "configure_host \<Rightarrow> file_tree \<Rightarrow> pypath \<Rightarrow> dict \<Rightarrow> exn + unit" where
  "guard_binary_directory ch fs binary_dir expected =
     (if entry_at fs (manifest_path_of binary_dir) \<noteq> None then
        rbind (read_build_manifest ch fs binary_dir) (\<lambda>v.
        case v of
          VDict current \<Rightarrow>
            frontend_if (\<not> py_eq (VDict (immutable_build_fingerprint current)) (VDict (immutable_build_fingerprint expected)))
              (''build fingerprint changed for '' @ path_str binary_dir
               @ ''; use a fresh output root or remove this ignored binary directory explicitly'')
        | _ \<Rightarrow> Inl (RaisedError ''AttributeError'' (py_repr (type_name v) @ '' object has no attribute '' @ py_repr ''items'')))
      else
        frontend_if (entry_at fs (path_below binary_dir [''CMakeCache.txt'']) \<noteq> None)
          (''refusing unowned existing CMake cache without build manifest: '' @ path_str binary_dir))"

definition audit_and_report ::
  "configure_host \<Rightarrow> target_profile \<Rightarrow> pypath \<Rightarrow> local_build_config \<Rightarrow> file_tree \<Rightarrow> exn + file_tree" where
  "audit_and_report ch target binary_dir local fs =
     rbind (audit_generated_commands (bh_of ch fs) target binary_dir local) (\<lambda>report.
     write_json (path_below binary_dir [''command_audit.json'']) (VDict report) fs)"

definition frontend_configure ::
  "configure_host \<Rightarrow> target_profile \<Rightarrow> string \<Rightarrow> string \<Rightarrow> pypath \<Rightarrow> local_build_config \<Rightarrow> file_tree \<Rightarrow> exn + file_tree" where
  "frontend_configure ch target build_type variant binary_dir local fs =
     rbind (configure_plan ch fs target build_type variant binary_dir local) (\<lambda>(command, fingerprint).
     rbind (guard_binary_directory ch fs binary_dir fingerprint) (\<lambda>_.
     rbind (run_checked (front_of ch) command fs) (\<lambda>fs.
     rbind (audit_and_report ch target binary_dir local fs) (\<lambda>fs.
     write_json (manifest_path_of binary_dir) (VDict fingerprint) fs))))"

text \<open>\<open>sorted(key for key in set(current) | set(expected) if current.get(key) != expected.get(key))\<close>\<close>

definition changed_fields :: "dict \<Rightarrow> dict \<Rightarrow> string list" where
  "changed_fields current expected =
     sort (filter (\<lambda>key. \<not> py_eq (dget current key VNone) (dget expected key VNone)) (remdups (map fst current @ map fst expected)))"

definition require_current_configuration ::
  "configure_host \<Rightarrow> target_profile \<Rightarrow> string \<Rightarrow> string \<Rightarrow> pypath \<Rightarrow> local_build_config \<Rightarrow> file_tree \<Rightarrow> exn + file_tree" where
  "require_current_configuration ch target build_type variant binary_dir local fs =
     rbind (require_configured binary_dir fs) (\<lambda>_.
     rbind (frontend_generate ch target binary_dir True fs) (\<lambda>fs.
     rbind (configure_plan ch fs target build_type variant binary_dir local) (\<lambda>(command, expected).
     rbind (read_build_manifest ch fs binary_dir) (\<lambda>v.
     case v of
       VDict current \<Rightarrow>
         if py_eq v (VDict expected) then Inr fs
         else (let fields = changed_fields current expected in
           Inl (frontend_error (''configured build fingerprint is stale for '' @ path_str binary_dir @ '' (changed: ''
             @ (if fields = [] then ''unknown fields'' else join_str '', '' fields)
             @ ''); rerun configure, or clean the exact tree when immutable inputs changed'')))
     | _ \<Rightarrow> Inl (frontend_error ''build manifest must be a JSON object'')))))"

definition frontend_build ::
  "configure_host \<Rightarrow> target_profile \<Rightarrow> pypath \<Rightarrow> local_build_config \<Rightarrow> string option \<Rightarrow> int option \<Rightarrow> file_tree \<Rightarrow> exn + file_tree" where
  "frontend_build ch target binary_dir local cmake_target requested_parallel fs =
     rbind (require_configured binary_dir fs) (\<lambda>_.
     rbind (resolve_parallelism (bh_of ch fs) requested_parallel) (\<lambda>jobs.
     rbind (resolve_tools (bh_of ch fs) local False) (\<lambda>tools.
     let named = (case cmake_target of Some name \<Rightarrow> if name = [] then [] else [''--target'', name] | None \<Rightarrow> []);
         command = [tool_path tools ''cmake'', ''--build'', path_str binary_dir] @ named @ [''--parallel'', int_str jobs] in
     rbind (run_checked (front_of ch) command fs) (\<lambda>fs.
     rbind (audit_and_report ch target binary_dir local fs) (\<lambda>fs.
     rbind (if tp_platform target = ''windows''
         \<and> (case cmake_target of None \<Rightarrow> True | Some name \<Rightarrow> name \<in> {''all'', ''art-compiler''})
       then validate_windows_art_compiler (stage_host.truncate ch) fs binary_dir target local else Inr ()) (\<lambda>_.
     Inr fs))))))"
subsection \<open>The local configuration of a new machine\<close>

definition repository_file :: "configure_host \<Rightarrow> string \<Rightarrow> pypath" where
  "repository_file ch name = path_child (bh_repo_root ch) name"

text \<open>The JDK directories looked at, in order. Directory listings are sorted by name.\<close>

definition jdk_candidates :: "configure_host \<Rightarrow> file_tree \<Rightarrow> pypath list" where
  "jdk_candidates ch fs =
     (let bh = bh_of ch fs; from_env = (\<lambda>variable. case mc_environ bh variable of Some v \<Rightarrow> if v = [] then [] else [path_of v] | None \<Rightarrow> []) in
      from_env ''JAVA_HOME''
      @ (case bh_which bh (''javac'' @ exe_suffix bh) of
           Some found \<Rightarrow> [path_parent (path_parent (bh_resolve bh found))] | None \<Rightarrow> [])
      @ (if bh_nt bh then
           concat (map (\<lambda>program_files. let d = path_child program_files ''Java'' in
               map (path_child d) (sort (filter (\<lambda>name. starts_with ''jdk-21'' (lower name)) (children fs d))))
             (from_env ''ProgramW6432'' @ from_env ''ProgramFiles''))
           @ [\<lparr>pp_root = ''C:/'', pp_names = [''Java'', ''jdk-21'']\<rparr>, \<lparr>pp_root = ''C:/'', pp_names = [''JDK'', ''jdk-21'']\<rparr>]
         else let d = path_of ''/usr/lib/jvm'' in map (path_child d) (sort (filter (contains ''21'') (children fs d)))))"

text \<open>\<open>os.path.normcase(str(candidate))\<close>\<close>

definition normcase :: "build_host \<Rightarrow> pypath \<Rightarrow> string" where
  "normcase bh p = (if bh_nt bh then replace_char slash (CHR 0x5C) (lower (path_str p)) else path_str p)"

fun skippable :: "exn \<Rightarrow> bool" where
  "skippable (OSError kind msg) = True"
| "skippable (RaisedError kind msg) = (kind \<in> {''BuildFrontendError'', ''LocalConfigError''})"
| "skippable e = False"

fun first_jdk :: "configure_host \<Rightarrow> file_tree \<Rightarrow> string list \<Rightarrow> pypath list \<Rightarrow> exn + pypath" where
  "first_jdk ch fs seen_keys [] =
     Inl (frontend_error (''cannot discover a regular-file JDK 21; install an official JDK in a space-free path or create ''
       @ ''.art-build.local.toml manually''))"
| "first_jdk ch fs seen_keys (candidate # candidates) =
     (let key = normcase (bh_of ch fs) candidate in
      if key \<in> set seen_keys then first_jdk ch fs seen_keys candidates
      else (case resolve_jdk ch fs (empty_config\<lparr>lc_tools := [(''jdk_root'', candidate)]\<rparr>) of
          Inr root \<Rightarrow> Inr root
        | Inl e \<Rightarrow> if skippable e then first_jdk ch fs (key # seen_keys) candidates else Inl e))"

definition init_local_config :: "configure_host \<Rightarrow> file_tree \<Rightarrow> exn + file_tree" where
  "init_local_config ch fs =
     (let bh = bh_of ch fs; path = repository_file ch local_config_name;
          setting = (\<lambda>name p. name @ '' = '' @ json_string (path_str p) @ [newline]) in
      rbind (frontend_if (entry_at fs path \<noteq> None) (''refusing to overwrite existing '' @ path_str path)) (\<lambda>_.
      rbind (discover bh ''cmake'') (\<lambda>cmake_path.
      rbind (discover bh ''ninja'') (\<lambda>ninja_path.
      rbind (discover bh ''clang'') (\<lambda>clang_path.
      rbind (managed_here bh (bh_resolve bh cmake_path)) (\<lambda>cmake.
      rbind (managed_here bh (bh_resolve bh ninja_path)) (\<lambda>ninja.
      rbind (managed_here bh (bh_resolve bh clang_path)) (\<lambda>clang.
      let llvm_root = path_parent (path_parent clang) in
      rbind (managed_here bh (path_below llvm_root [''bin'', ''clang'' @ exe_suffix bh])) (\<lambda>_.
      rbind (managed_here bh (path_below llvm_root [''bin'', ''clang++'' @ exe_suffix bh])) (\<lambda>_.
      rbind (first_jdk ch fs [] (jdk_candidates ch fs)) (\<lambda>jdk_root.
      rbind (make_dirs (path_parent path) fs) (\<lambda>fs.
      Inr (AList.update path (FsFile (''# Machine-local paths only. This file is ignored by Git.'' @ [newline] @ ''[tools]'' @ [newline]
        @ setting ''cmake'' cmake @ setting ''ninja'' ninja @ setting ''llvm_root'' llvm_root @ setting ''jdk_root'' jdk_root)) fs)))))))))))))"

subsection \<open>The program\<close>

text \<open>What \<open>main\<close> does with the parsed arguments: the command, and the options that it reads. What is
  printed by \<open>list-targets\<close> is left out; an error of the listed classes ends with exit code 2.\<close>

record frontend_args =
  fa_command :: string
  fa_target_id :: string
  fa_variant :: string
  fa_build_type :: string
  fa_output_root :: "pypath option"
  fa_cmake_target :: "string option"
  fa_parallel :: "int option"
  fa_labels :: "string list"
  fa_stages :: "string list"

definition target_command ::
  "configure_host \<Rightarrow> frontend_args \<Rightarrow> target_profile \<Rightarrow> local_build_config \<Rightarrow> pypath \<Rightarrow> pypath \<Rightarrow> file_tree \<Rightarrow> exn + file_tree" where
  "target_command ch args target local output_root binary_dir fs =
     (let command = fa_command args; build_type = fa_build_type args; variant = fa_variant args in
      if command = ''clean'' then frontend_clean (json_file (front_of ch) fs) target build_type variant output_root fs
      else
        rbind (if command \<in> {''generate'', ''check-generated'', ''configure''}
          then frontend_generate ch target binary_dir (command = ''check-generated'') fs else Inr fs) (\<lambda>fs.
        rbind (if command \<in> {''audit'', ''build'', ''test'', ''stage''}
          then require_current_configuration ch target build_type variant binary_dir local fs else Inr fs) (\<lambda>fs.
        if command = ''configure'' then frontend_configure ch target build_type variant binary_dir local fs
        else if command = ''audit'' then audit_and_report ch target binary_dir local fs
        else if command = ''build'' then frontend_build ch target binary_dir local (fa_cmake_target args) (fa_parallel args) fs
        else if command = ''test'' then frontend_test (front_of ch) binary_dir local (fa_labels args) (fa_stages args) (fa_parallel args) fs
        else if command = ''stage'' then frontend_stage (stage_host.truncate ch) target binary_dir local fs
        else Inr fs)))"

definition frontend_run :: "configure_host \<Rightarrow> frontend_args \<Rightarrow> file_tree \<Rightarrow> exn + file_tree" where
  "frontend_run ch args fs =
     (let command = fa_command args in
      if command = ''list-targets'' then Inr fs
      else if command = ''init-local-config'' then init_local_config ch fs
      else
        rbind (resolve_target (fa_target_id args)) (\<lambda>target.
        rbind (if command = ''clean'' then Inr () else require_generation target) (\<lambda>_.
        rbind (validate_build_variant target (fa_variant args) command) (\<lambda>_.
        rbind (load_local_config (machine.truncate (bh_of ch fs)) (bh_repo_root ch)) (\<lambda>local.
        rbind (resolve_output_root (bh_of ch fs) (fa_output_root args) local) (\<lambda>output_root.
        let binary_dir = binary_dir_of output_root target (fa_build_type args) (fa_variant args) in
        rbind (validate_managed_path (machine.truncate (bh_of ch fs)) binary_dir True) (\<lambda>_.
        target_command ch args target local output_root binary_dir fs)))))))"

fun reported :: "exn \<Rightarrow> bool" where
  "reported (OSError kind msg) = True"
| "reported (TargetError kind msg) = True"
| "reported (RaisedError kind msg) = (kind \<in> {''BuildFrontendError'', ''LocalConfigError''})"
| "reported e = False"

text \<open>The exit code with the tree a successful command leaves.\<close>

definition frontend_main :: "configure_host \<Rightarrow> frontend_args \<Rightarrow> file_tree \<Rightarrow> exn + int \<times> file_tree option" where
  "frontend_main ch args fs =
     (case frontend_run ch args fs of
        Inr fs' \<Rightarrow> Inr (0, Some fs')
      | Inl e \<Rightarrow> if reported e then Inr (2, None) else Inl e)"

subsection \<open>The plan and the audit\<close>

lemma resolve_tools_keys:
  assumes "resolve_tools bh local True = Inr tools" and "key \<in> {''cmake'', ''ninja'', ''clang'', ''clang++''}"
  shows "\<exists>p. map_of tools key = Some p"
  using assms by (auto simp: resolve_tools_def rbind_Inr_iff split: prod.splits)

lemma tool_path_append: "map_of tools key = Some p \<Longrightarrow> tool_path (tools @ extra) key = tool_path tools key"
  by (simp add: tool_path_def)

lemma checked_bindings_Inr: "checked_bindings bh target local = Inr bindings \<Longrightarrow> bindings = target_bindings local (tp_id target)"
  by (auto simp: checked_bindings_def Let_def rbind_Inr_iff)

lemma resolve_target_runner_Inr:
  assumes "resolve_target_runner bh target local bindings = Inr runner"
  shows "runner = map_of (lc_target_runners local) (tp_id target)"
    and "runner = Some r \<Longrightarrow> \<not> host_can_run_target bh target \<and> tp_platform target = ''linux'' \<and> tp_abi target = ''gnu''
      \<and> map_of qemu_user_runner_names (tp_arch target) = Some (path_name r) \<and> map_of bindings ''sysroot'' \<noteq> None"
  using assms
  by (auto simp: resolve_target_runner_def rbind_Inr_iff frontend_if_def managed_here_def validate_managed_path_def
      split: option.splits if_splits)

lemma configure_plan_parts:
  assumes "configure_plan ch fs target build_type variant binary_dir local = Inr (command, fingerprint)"
  obtains tools extra jdk python runner runner_args platform_args base where
    "resolve_tools (bh_of ch fs) local True = Inr tools"
    "resolve_target_runner (bh_of ch fs) target local (target_bindings local (tp_id target)) = Inr runner"
    "platform_arguments (bh_of ch fs) target (tools @ extra) (target_bindings local (tp_id target)) = Inr platform_args"
    "command = common_arguments ch (bh_of ch fs) target build_type variant binary_dir (tools @ extra) jdk python runner
       @ runner_args @ platform_args @ binding_arguments (target_bindings local (tp_id target))
       @ target_compiler_binding_arguments target (target_bindings local (tp_id target))"
    "build_fingerprint ch fs target build_type variant (tools @ extra) (path_child binary_dir ''generated'')
       (target_bindings local (tp_id target)) = Inr base"
    "fingerprint = base @ [(''configure_command'', VList (map VStr command))]"
proof -
  obtain tools0 jdk bindings runner where p: "plan_tools ch fs target local = Inr (tools0, jdk)"
    and b: "checked_bindings (bh_of ch fs) target local = Inr bindings"
    and r: "resolve_target_runner (bh_of ch fs) target local bindings = Inr runner"
    using assms unfolding configure_plan_def Let_def by (auto simp: rbind_Inr_iff)
  obtain tools extra where t: "resolve_tools (bh_of ch fs) local True = Inr tools" and t0: "tools0 = tools @ extra"
    using p unfolding plan_tools_def Let_def by (auto simp: rbind_Inr_iff)
  show ?thesis
    using assms unfolding configure_plan_def Let_def p b r t0 checked_bindings_Inr [OF b]
    by (auto simp: rbind_Inr_iff p b r t0 checked_bindings_Inr [OF b] intro!: that [OF t])
qed

text \<open>C40. What a configuration passes to CMake is what the audit later asks of the cache. Whenever a plan
  exists, its command selects Ninja and sets every other cache entry that the audit expects, the
  make program and the two compilers it compares; a target that the build host cannot run never makes
  CMake link a probe with the host's linker; runtime tests are on exactly where the target can be
  run, by the host or by a runner set for it, and such a runner is only taken for a foreign Linux GNU
  target whose emulator it is; and the fingerprint records the command.\<close>

theorem configure_plan_meets_audit:
  assumes "configure_plan ch fs target build_type variant binary_dir local = Inr (command, fingerprint)"
  shows "let bh = bh_of ch fs; bindings = target_bindings local (tp_id target); runner = map_of (lc_target_runners local) (tp_id target) in
    \<exists>tools. resolve_tools bh local True = Inr tools
      \<and> list_all (\<lambda>(key, v). if key = ''CMAKE_GENERATOR'' then sublist [''-G'', v] command else ''-D'' @ key @ ''='' @ v \<in> set command)
          (expected_cache target bindings)
      \<and> list_all (\<lambda>(key, tool). ''-D'' @ key @ ''='' @ tool_path tools tool \<in> set command)
          [(''CMAKE_MAKE_PROGRAM'', ''ninja''), (''CMAKE_C_COMPILER'', ''clang''), (''CMAKE_CXX_COMPILER'', ''clang++'')]
      \<and> (host_can_run_target bh target \<or> static_try_compile \<in> set command)
      \<and> (''-DART_ENABLE_TARGET_RUNTIME_TESTS='' @ (if host_can_run_target bh target \<or> runner \<noteq> None then ''ON'' else ''OFF'')) \<in> set command
      \<and> (case runner of None \<Rightarrow> True | Some r \<Rightarrow> tp_platform target = ''linux'' \<and> tp_abi target = ''gnu''
           \<and> \<not> host_can_run_target bh target \<and> map_of qemu_user_runner_names (tp_arch target) = Some (path_name r))
      \<and> map_of (rev fingerprint) ''configure_command'' = Some (VList (map VStr command))"
proof -
  let ?bh = "bh_of ch fs" and ?bindings = "target_bindings local (tp_id target)"
  from configure_plan_parts [OF assms] obtain tools extra jdk python runner runner_args platform_args base where
    t: "resolve_tools ?bh local True = Inr tools"
    and r: "resolve_target_runner ?bh target local ?bindings = Inr runner"
    and p: "platform_arguments ?bh target (tools @ extra) ?bindings = Inr platform_args"
    and c: "command = common_arguments ch ?bh target build_type variant binary_dir (tools @ extra) jdk python runner
       @ runner_args @ platform_args @ binding_arguments ?bindings @ target_compiler_binding_arguments target ?bindings"
    and f: "fingerprint = base @ [(''configure_command'', VList (map VStr command))]" by metis
  let ?common = "common_arguments ch ?bh target build_type variant binary_dir (tools @ extra) jdk python runner"
  have tool: "tool_path (tools @ extra) key = tool_path tools key" if "key \<in> {''ninja'', ''clang'', ''clang++''}" for key
    using resolve_tools_keys [OF t] that tool_path_append by (metis insert_iff)
  have inside: "set ?common \<subseteq> set command" "set platform_args \<subseteq> set command"
    "set (target_compiler_binding_arguments target ?bindings) \<subseteq> set command"
    unfolding c by auto
  have "\<exists>front rest. ?common = front @ [''-G'', ''Ninja''] @ rest"
    unfolding common_arguments_def
    by (rule exI [of _ "[_, _, _, _, _]"]) (simp only: append.simps list.inject simp_thms ex_simps)
  then have generator: "sublist [''-G'', ''Ninja''] command"
    unfolding c by (metis append_assoc sublist_appendI)
  have set_common: "''-D'' @ key @ ''='' @ v \<in> set command"
    if "(key, v) \<in> {(''CMAKE_SYSTEM_NAME'', tp_cmake_system_name target), (''CMAKE_C_COMPILER_TARGET'', tp_triple target),
       (''CMAKE_CXX_COMPILER_TARGET'', tp_triple target), (''CMAKE_ASM_COMPILER_TARGET'', tp_triple target),
       (''CMAKE_MAKE_PROGRAM'', tool_path tools ''ninja''), (''CMAKE_C_COMPILER'', tool_path tools ''clang''),
       (''CMAKE_CXX_COMPILER'', tool_path tools ''clang++''),
       (''ART_ENABLE_TARGET_RUNTIME_TESTS'', if host_can_run_target ?bh target \<or> runner \<noteq> None then ''ON'' else ''OFF'')}" for key v
  proof -
    have "''-D'' @ key @ ''='' @ v \<in> set ?common"
      using that unfolding common_arguments_def by (auto simp: tool)
    then show ?thesis using inside(1) by blast
  qed
  have set_toolchain: "''-D'' @ (''CMAKE_'' @ language @ ''_COMPILER_EXTERNAL_TOOLCHAIN'') @ ''='' @ path_str root \<in> set command"
    if "map_of ?bindings ''runtime_root'' = Some root" "tp_abi target = ''gnu''" "language \<in> {''C'', ''CXX''}" for root language
    using that inside(3) by (auto simp: target_compiler_binding_arguments_def)
  let ?entry = "\<lambda>(key, v). if key = ''CMAKE_GENERATOR'' then sublist [''-G'', v] command else ''-D'' @ key @ ''='' @ v \<in> set command"
  have entry: "?entry (key, v)" if "key \<noteq> ''CMAKE_GENERATOR''" "''-D'' @ key @ ''='' @ v \<in> set command" for key v
    using that unfolding prod.case by (simp only: if_False)
  have cache: "list_all ?entry (expected_cache target ?bindings)"
    unfolding expected_cache_def list_all_append list.pred_inject
  proof (intro conjI)
    show "list_all ?entry (case map_of ?bindings ''runtime_root'' of
          Some runtime_root \<Rightarrow>
            if tp_abi target = ''gnu'' then
              map (\<lambda>language. (''CMAKE_'' @ language @ ''_COMPILER_EXTERNAL_TOOLCHAIN'', path_str runtime_root)) [''C'', ''CXX'']
            else []
        | None \<Rightarrow> [])"
    proof (cases "map_of ?bindings ''runtime_root''")
      case (Some root)
      show ?thesis
      proof (cases "tp_abi target = ''gnu''")
        case True
        show ?thesis
          unfolding Some option.case if_P [OF True] list.map list.pred_inject
          by (intro conjI entry set_toolchain Some True; simp)
      qed (simp add: Some)
    qed (simp only: option.case list.pred_inject)
  qed (simp only: prod.case simp_thms if_True generator, (rule entry, simp, rule set_common, simp)+, simp)
  have static: "host_can_run_target ?bh target \<or> static_try_compile \<in> set command"
    using p inside(2) by (auto simp: platform_arguments_def split: if_splits option.splits)
  show ?thesis
    unfolding Let_def
  proof (intro exI conjI)
    show "resolve_tools ?bh local True = Inr tools" by (rule t)
    show "list_all (\<lambda>(key, tool). ''-D'' @ key @ ''='' @ tool_path tools tool \<in> set command)
        [(''CMAKE_MAKE_PROGRAM'', ''ninja''), (''CMAKE_C_COMPILER'', ''clang''), (''CMAKE_CXX_COMPILER'', ''clang++'')]"
      unfolding list.pred_inject prod.case by (intro conjI set_common; simp)
    have "''-D'' @ ''ART_ENABLE_TARGET_RUNTIME_TESTS'' @ ''='' @ (if host_can_run_target ?bh target \<or> runner \<noteq> None then ''ON'' else ''OFF'')
        \<in> set command" by (rule set_common) (simp only: insert_iff simp_thms)
    then show "''-DART_ENABLE_TARGET_RUNTIME_TESTS='' @ (if host_can_run_target ?bh target
        \<or> map_of (lc_target_runners local) (tp_id target) \<noteq> None then ''ON'' else ''OFF'') \<in> set command"
      unfolding resolve_target_runner_Inr(1) [OF r] by simp
    show "case map_of (lc_target_runners local) (tp_id target) of None \<Rightarrow> True
        | Some r \<Rightarrow> tp_platform target = ''linux'' \<and> tp_abi target = ''gnu''
           \<and> \<not> host_can_run_target ?bh target \<and> map_of qemu_user_runner_names (tp_arch target) = Some (path_name r)"
      using resolve_target_runner_Inr [OF r] by (auto split: option.split)
    show "map_of (rev fingerprint) ''configure_command'' = Some (VList (map VStr command))" unfolding f by simp
  qed (rule cache, rule static)
qed

text \<open>A host with a JDK, and a build tree whose graph has been generated.\<close>

definition sample_configure_host :: configure_host where
  "sample_configure_host = frontend_host.extend
     (sample_frontend\<lparr>sh_sha := \<lambda>s. replicate 64 (CHR ''0''),
        fh_json := \<lambda>s. Inr (VDict [(''target'', VDict (target_to_dict sample_target)), (''graph_sha256'', VStr (replicate 64 (CHR ''0'')))])\<rparr>)
     \<lparr>ch_version = \<lambda>p args. Inr (0, if path_name p = ''java'' then ''java version '' @ [CHR 0x22] @ ''21.0''
          else if path_name p = ''javac'' then ''javac 21'' else ''1'', []),
      ch_python = path_of ''/py'', ch_python_info = (3, 12), ch_python_version = ''3.12'', ch_tree = \<lambda>p. Directory [],
      ch_sha_bytes = \<lambda>b. []\<rparr>"

definition sample_configure_config :: local_build_config where
  "sample_configure_config = empty_config\<lparr>lc_tools := [(''jdk_root'', path_of ''/jdk'')]\<rparr>"

definition sample_generated_tree :: file_tree where
  "sample_generated_tree =
     map (\<lambda>p. (path_of p, FsDirectory)) [''/jdk'', ''/jdk/bin'', ''/o'', ''/o/generated'']
     @ map (\<lambda>p. (path_of p, FsFile []))
       [''/cmake'', ''/ninja'', ''/clang'', ''/clang++'', ''/llvm-readobj'', ''/llvm-objdump'', ''/jdk/bin/java'', ''/jdk/bin/javac'', ''/py'',
        ''/o/generated/graph_manifest.json'', ''/o/generated/art_graph.cmake'', ''/o/generated/target_profile.cmake'']"

lemma sample_plan:
  "\<not> isl (configure_plan sample_configure_host sample_generated_tree sample_target ''Debug'' ''product'' (path_of ''/o'')
      sample_configure_config)"
  by code_simp

theorem configure_plan_meets_audit_witness:
  "\<exists>command fingerprint. configure_plan sample_configure_host sample_generated_tree sample_target ''Debug'' ''product'' (path_of ''/o'')
       sample_configure_config = Inr (command, fingerprint)
     \<and> map_of (rev fingerprint) ''configure_command'' = Some (VList (map VStr command))"
proof -
  obtain command fingerprint where r: "configure_plan sample_configure_host sample_generated_tree sample_target ''Debug'' ''product''
      (path_of ''/o'') sample_configure_config = Inr (command, fingerprint)"
    using sample_plan by (cases "configure_plan sample_configure_host sample_generated_tree sample_target ''Debug'' ''product''
      (path_of ''/o'') sample_configure_config") auto
  from configure_plan_meets_audit [OF r] r show ?thesis unfolding Let_def by blast
qed

end
